(* ===== verification/Prelude.thy ===== *)
theory Prelude
  imports Main "HOL-Library.Word" "HOL-Library.Monad_Syntax"
begin

text \<open>
  Shared vocabulary of the TGen model: machine integers, byte buffers, the process-abort monad, and
  the C and GLib string routines the sources call, written after their documentation.

  Conventions.
  \<^item> A byte is a \<open>char\<close> (8 bits), a buffer or C string is a \<open>char list\<close>. A \<open>GString\<close> is its \<open>len\<close>
    bytes; where the code passes \<open>->str\<close> to a C-string routine the model applies \<open>c_str\<close>.
  \<^item> \<open>gsize\<close> and \<open>guint64\<close> are \<open>64 word\<close>, \<open>guint32\<close> is \<open>32 word\<close>; monotonic times (\<open>gint64\<close>
    microseconds) are \<open>int\<close>.
  \<^item> A computation that can fail a \<open>g_assert\<close> or dereference a null pointer or read out of range has
    an \<open>option\<close> result; \<open>None\<close> is "the process is lost here".
\<close>

type_synonym u8 = "8 word"
type_synonym u16 = "16 word"
type_synonym u32 = "32 word"
type_synonym u64 = "64 word"
type_synonym bytes = "char list"

named_theorems tgen_defs \<open>definitions unfolded together by the component proofs\<close>

section \<open>Process abort\<close>

definition g_assert :: "bool \<Rightarrow> unit option" where
  "g_assert b = (if b then Some () else None)"

lemma g_assert_eq_Some [simp]: "g_assert b = Some u \<longleftrightarrow> b"
  by (simp add: g_assert_def)

lemma g_assert_eq_None [simp]: "g_assert b = None \<longleftrightarrow> \<not> b"
  by (simp add: g_assert_def)

lemma g_assert_True [simp]: "g_assert True = Some ()"
  by (simp add: g_assert_def)

lemma g_assert_False [simp]: "g_assert False = None"
  by (simp add: g_assert_def)

lemma g_assert_bind_eq_Some [simp]:
  "(g_assert b \<bind> f) = Some x \<longleftrightarrow> b \<and> f () = Some x"
  by (simp add: g_assert_def)

lemmas bind_Some_conv = bind_eq_Some_conv

section \<open>Reference counts\<close>

text \<open>
  Nearly every TGen object carries a \<open>refcount\<close> and a \<open>_ref\<close>/\<open>_unref\<close> pair; the last \<open>_unref\<close> calls
  the object's \<open>_free\<close>. The contract is stated once: \<open>unref\<close> gives \<open>None\<close> when it freed the object.
  Every component that owns such an object interprets it on its own operations.
\<close>

locale refcounted =
  fixes count :: "'o \<Rightarrow> int"
    and ref :: "'o \<Rightarrow> 'o"
    and unref :: "'o \<Rightarrow> 'o option"
  assumes count_ref: "count (ref x) = count x + 1"
    and unref_live: "count x > 1 \<Longrightarrow> \<exists>y. unref x = Some y \<and> count y = count x - 1"
    and unref_last: "count x = 1 \<Longrightarrow> unref x = None"
begin

fun unrefs :: "nat \<Rightarrow> 'o \<Rightarrow> 'o option" where
  "unrefs 0 x = Some x"
| "unrefs (Suc n) x = (case unref x of None \<Rightarrow> None | Some y \<Rightarrow> unrefs n y)"

lemma count_refs: "count ((ref ^^ n) x) = count x + int n"
  by (induction n) (auto simp: count_ref)

lemma unrefs_live: "count x > int n \<Longrightarrow> \<exists>y. unrefs n x = Some y \<and> count y = count x - int n"
proof (induction n arbitrary: x)
  case (Suc n)
  then obtain y where y: "unref x = Some y" "count y = count x - 1"
    using unref_live [of x] by auto
  with Suc show ?case using Suc.IH [of y] by auto
qed simp

lemma balanced:
  assumes "count x \<ge> 1"
  shows "\<exists>y. unrefs n ((ref ^^ n) x) = Some y \<and> count y = count x"
  using unrefs_live [of n "(ref ^^ n) x"] assms by (auto simp: count_refs)

lemma unrefs_snoc: "unrefs n x = Some y \<Longrightarrow> unrefs (Suc n) x = unref y"
proof (induction n arbitrary: x)
  case (Suc n)
  from Suc.prems obtain z where z: "unref x = Some z" "unrefs n z = Some y"
    by (auto split: option.splits)
  have "unrefs (Suc (Suc n)) x = unrefs (Suc n) z" using z(1) by (subst unrefs.simps(2)) simp
  then show ?case using Suc.IH [OF z(2)] by simp
qed (auto split: option.splits)

lemma freed_exactly_at_last:
  assumes "count x = 1"
  shows "unrefs (Suc n) ((ref ^^ n) x) = None"
proof -
  obtain y where "unrefs n ((ref ^^ n) x) = Some y" "count y = 1"
    using balanced [of x n] assms by auto
  then show ?thesis using unref_last by (simp only: unrefs_snoc)
qed

end

section \<open>Characters\<close>

definition NUL :: char where "NUL = CHR 0x00"
definition NL :: char where "NL = CHR 0x0A"

definition ascii_isdigit :: "char \<Rightarrow> bool" where
  "ascii_isdigit c \<longleftrightarrow> 48 \<le> (of_char c :: nat) \<and> (of_char c :: nat) \<le> 57"

definition ascii_isspace :: "char \<Rightarrow> bool" where
  "ascii_isspace c \<longleftrightarrow>
     c = CHR '' '' \<or> c = CHR 0x09 \<or> c = CHR 0x0A \<or> c = CHR 0x0B \<or> c = CHR 0x0C \<or> c = CHR 0x0D"

definition ascii_tolower :: "char \<Rightarrow> char" where
  "ascii_tolower c = (let n = (of_char c :: nat) in if 65 \<le> n \<and> n \<le> 90 then char_of (n + 32) else c)"

text \<open>The C string that starts a buffer: everything before the first NUL.\<close>

definition c_str :: "bytes \<Rightarrow> string" where
  "c_str bs = takeWhile (\<lambda>c. c \<noteq> NUL) bs"

lemma c_str_id: "NUL \<notin> set bs \<Longrightarrow> c_str bs = bs"
  by (induction bs) (auto simp: c_str_def)

lemma NUL_notin_c_str [simp]: "NUL \<notin> set (c_str bs)"
  by (auto simp: c_str_def dest: set_takeWhileD)

lemma length_c_str_le: "length (c_str bs) \<le> length bs"
  by (simp add: c_str_def length_takeWhile_le)

section \<open>Comparisons\<close>

text \<open>
  \<open>strcaseeq a b\<close> is \<open>!g_ascii_strcasecmp(a, b)\<close>; \<open>strncaseeq n a b\<close> is
  \<open>g_ascii_strncasecmp(a, b, n) == 0\<close>. Both arguments are C strings (no NUL inside).
\<close>

definition strcaseeq :: "string \<Rightarrow> string \<Rightarrow> bool" where
  "strcaseeq a b \<longleftrightarrow> map ascii_tolower a = map ascii_tolower b"

definition strncaseeq :: "nat \<Rightarrow> string \<Rightarrow> string \<Rightarrow> bool" where
  "strncaseeq n a b \<longleftrightarrow> map ascii_tolower (take n a) = map ascii_tolower (take n b)"

lemma strcaseeq_refl [simp]: "strcaseeq a a"
  by (simp add: strcaseeq_def)

lemma strncaseeq_refl [simp]: "strncaseeq n a a"
  by (simp add: strncaseeq_def)

lemma strcaseeq_sym: "strcaseeq a b \<Longrightarrow> strcaseeq b a"
  by (simp add: strcaseeq_def)

lemma strcaseeq_trans: "strcaseeq a b \<Longrightarrow> strcaseeq b c \<Longrightarrow> strcaseeq a c"
  by (simp add: strcaseeq_def)

lemma strcaseeq_length: "strcaseeq a b \<Longrightarrow> length a = length b"
  unfolding strcaseeq_def by (metis length_map)

text \<open>\<open>g_strsplit\<close> with a one-character delimiter: no limit, and at most two pieces.\<close>

fun split_all :: "char \<Rightarrow> string \<Rightarrow> string list" where
  "split_all d [] = [[]]"
| "split_all d (c # cs) =
     (if c = d then [] # split_all d cs
      else (case split_all d cs of [] \<Rightarrow> [[c]] | p # ps \<Rightarrow> (c # p) # ps))"

definition g_strsplit :: "char \<Rightarrow> string \<Rightarrow> string list" where
  "g_strsplit d s = (if s = [] then [] else split_all d s)"

definition g_strsplit2 :: "char \<Rightarrow> string \<Rightarrow> string list" where
  "g_strsplit2 d s =
     (if s = [] then []
      else case dropWhile (\<lambda>c. c \<noteq> d) s of
             [] \<Rightarrow> [s]
           | _ # rest \<Rightarrow> [takeWhile (\<lambda>c. c \<noteq> d) s, rest])"

lemma split_all_nonempty [simp]: "split_all d s \<noteq> []"
  by (induction s) (auto split: list.splits)

lemma split_all_no_delim: "d \<notin> set s \<Longrightarrow> split_all d s = [s]"
  by (induction s) auto

lemma split_all_append: "d \<notin> set a \<Longrightarrow> split_all d (a @ d # b) = a # split_all d b"
  by (induction a) auto

lemma split_all_pieces: "p \<in> set (split_all d s) \<Longrightarrow> d \<notin> set p"
proof (induction s arbitrary: p)
  case Nil
  then show ?case by simp
next
  case (Cons c cs)
  then show ?case
    by (cases "split_all d cs") (auto split: if_splits)
qed

lemma g_strsplit2_append: "d \<notin> set a \<Longrightarrow> g_strsplit2 d (a @ d # b) = [a, b]"
proof -
  assume a: "d \<notin> set a"
  then have "dropWhile (\<lambda>c. c \<noteq> d) (a @ d # b) = d # b"
    and "takeWhile (\<lambda>c. c \<noteq> d) (a @ d # b) = a"
    by (induction a) auto
  then show ?thesis by (simp add: g_strsplit2_def)
qed

lemma g_strsplit2_no_delim: "d \<notin> set a \<Longrightarrow> a \<noteq> [] \<Longrightarrow> g_strsplit2 d a = [a]"
proof -
  assume "d \<notin> set a" and ne: "a \<noteq> []"
  then have eq: "dropWhile (\<lambda>c. c \<noteq> d) a = []" by (auto simp: dropWhile_eq_Nil_conv)
  show ?thesis unfolding g_strsplit2_def eq by (simp add: ne)
qed

text \<open>\<open>g_strjoinv\<close> with a one-character separator.\<close>

fun join_with :: "char \<Rightarrow> string list \<Rightarrow> string" where
  "join_with d [] = []"
| "join_with d [x] = x"
| "join_with d (x # y # ys) = x @ d # join_with d (y # ys)"

lemma split_all_join:
  "xs \<noteq> [] \<Longrightarrow> list_all (\<lambda>x. d \<notin> set x) xs \<Longrightarrow> split_all d (join_with d xs) = xs"
  by (induction d xs rule: join_with.induct) (auto simp: split_all_append split_all_no_delim)

lemma join_with_not_Nil: "xs \<noteq> [] \<Longrightarrow> hd xs \<noteq> [] \<Longrightarrow> join_with d xs \<noteq> []"
  by (induction d xs rule: join_with.induct) auto

section \<open>Numbers as text\<close>

definition digit_char :: "nat \<Rightarrow> char" where
  "digit_char d = char_of (48 + d)"

definition digit_val :: "char \<Rightarrow> nat" where
  "digit_val c = of_char c - 48"

text \<open>The decimal digits \<open>printf\<close> writes for an unsigned value.\<close>

fun show_nat :: "nat \<Rightarrow> string" where
  "show_nat n = (if n < 10 then [digit_char n] else show_nat (n div 10) @ [digit_char (n mod 10)])"

declare show_nat.simps [simp del]

text \<open>\<open>printf\<close> of a signed value.\<close>

definition show_int :: "int \<Rightarrow> string" where
  "show_int i = (if i < 0 then ''-'' @ show_nat (nat (- i)) else show_nat (nat i))"

definition digits_val :: "string \<Rightarrow> nat" where
  "digits_val ds = foldl (\<lambda>v c. 10 * v + digit_val c) 0 ds"

text \<open>
  \<open>g_ascii_strtoull(s, NULL, 10)\<close>: leading white space, an optional sign, then digits; a value that
  does not fit is \<open>G_MAXUINT64\<close>; a minus sign negates the unsigned value.
\<close>

definition strip_sign :: "string \<Rightarrow> bool \<times> string" where
  "strip_sign s = (case s of
      c # cs \<Rightarrow> if c = CHR ''-'' then (True, cs) else if c = CHR ''+'' then (False, cs) else (False, s)
    | [] \<Rightarrow> (False, []))"

definition g_ascii_strtoull :: "string \<Rightarrow> u64" where
  "g_ascii_strtoull s =
     (let (neg, t) = strip_sign (dropWhile ascii_isspace s);
          v = digits_val (takeWhile ascii_isdigit t)
      in if v \<ge> 2 ^ 64 then - 1 else if neg then - of_nat v else of_nat v)"

text \<open>The same with the bound compared as an integer, which evaluates in binary.\<close>

lemma g_ascii_strtoull_code [code]:
  "g_ascii_strtoull s =
    (let (neg, t) = strip_sign (dropWhile ascii_isspace s);
         v = int (digits_val (takeWhile ascii_isdigit t))
     in if v \<ge> 2 ^ 64 then - 1 else if neg then - of_int v else of_int v)"
  by (auto simp: g_ascii_strtoull_def Let_def split: prod.split)

text \<open>\<open>strtol\<close> saturates at the 64-bit range; \<open>atoi\<close> keeps the low 32 bits of it, as glibc does.\<close>

definition c_strtol :: "string \<Rightarrow> int" where
  "c_strtol s =
     (let (neg, t) = strip_sign (dropWhile ascii_isspace s);
          v = int (digits_val (takeWhile ascii_isdigit t))
      in if neg then max (- (2 ^ 63)) (- v) else min (2 ^ 63 - 1) v)"

definition c_atoi :: "string \<Rightarrow> int" where
  "c_atoi s = sint (word_of_int (c_strtol s) :: u32)"

definition c_atoll :: "string \<Rightarrow> int" where
  "c_atoll s = c_strtol s"

lemma of_char_digit_char: "d < 10 \<Longrightarrow> (of_char (digit_char d) :: nat) = 48 + d"
  by (simp add: digit_char_def)

lemma ascii_isdigit_digit_char: "d < 10 \<Longrightarrow> ascii_isdigit (digit_char d)"
  by (simp add: ascii_isdigit_def of_char_digit_char)

lemma digit_val_digit_char [simp]: "d < 10 \<Longrightarrow> digit_val (digit_char d) = d"
  by (simp add: digit_val_def of_char_digit_char)

text \<open>Rules that evaluate \<open>show_nat\<close> on a numeral.\<close>

lemma show_nat_small: "n < 10 \<Longrightarrow> show_nat n = [digit_char n]"
  by (subst show_nat.simps) simp

lemma show_nat_step: "10 \<le> n \<Longrightarrow> show_nat n = show_nat (n div 10) @ [digit_char (n mod 10)]"
  by (subst show_nat.simps) simp

lemmas show_nat_eval = show_nat_small show_nat_step

lemma digit_char_eval [simp]:
  "digit_char 0 = CHR ''0''" "digit_char 1 = CHR ''1''" "digit_char (Suc 0) = CHR ''1''"
  "digit_char 2 = CHR ''2''" "digit_char 3 = CHR ''3''" "digit_char 4 = CHR ''4''"
  "digit_char 5 = CHR ''5''" "digit_char 6 = CHR ''6''" "digit_char 7 = CHR ''7''"
  "digit_char 8 = CHR ''8''" "digit_char 9 = CHR ''9''"
  by code_simp+

lemma show_nat_not_Nil [simp]: "show_nat n \<noteq> []"
  by (subst show_nat.simps) simp

lemma show_nat_digits: "\<forall>c \<in> set (show_nat n). ascii_isdigit c"
proof (induction n rule: show_nat.induct)
  case (1 n)
  show ?case
  proof (cases "n < 10")
    case True
    then show ?thesis by (subst show_nat.simps) (simp add: ascii_isdigit_digit_char)
  next
    case False
    with 1 have "\<forall>c \<in> set (show_nat (n div 10)). ascii_isdigit c" by simp
    with False show ?thesis by (subst show_nat.simps) (auto simp: ascii_isdigit_digit_char)
  qed
qed

lemma digits_val_snoc: "digits_val (ds @ [c]) = 10 * digits_val ds + digit_val c"
  by (simp add: digits_val_def)

lemma digits_val_show_nat [simp]: "digits_val (show_nat n) = n"
proof (induction n rule: show_nat.induct)
  case (1 n)
  show ?case
  proof (cases "n < 10")
    case True
    then show ?thesis by (subst show_nat.simps) (simp add: digits_val_def)
  next
    case False
    with 1 have "digits_val (show_nat (n div 10)) = n div 10" by simp
    with False show ?thesis by (subst show_nat.simps) (simp add: digits_val_snoc)
  qed
qed

lemma isdigit_not_special:
  "ascii_isdigit c \<Longrightarrow> \<not> ascii_isspace c \<and> c \<noteq> CHR ''-'' \<and> c \<noteq> CHR ''+'' \<and> c \<noteq> NUL \<and> c \<noteq> NL
     \<and> c \<noteq> CHR ''='' \<and> c \<noteq> CHR '' '' \<and> c \<noteq> CHR ''~'' \<and> c \<noteq> CHR ''.''"
  by (auto simp: ascii_isdigit_def ascii_isspace_def NUL_def NL_def)

lemma takeWhile_all: "(\<forall>x \<in> set xs. P x) \<Longrightarrow> takeWhile P xs = xs"
  by (simp add: takeWhile_eq_all_conv)

text \<open>A string of digits is read as its value by both readers.\<close>

lemma strip_sign_digits:
  "\<forall>c \<in> set ds. ascii_isdigit c \<Longrightarrow> strip_sign (dropWhile ascii_isspace ds) = (False, ds)"
  by (cases ds) (auto simp: strip_sign_def dest: isdigit_not_special)

lemma strtoull_digits:
  "\<forall>c \<in> set ds. ascii_isdigit c \<Longrightarrow>
     g_ascii_strtoull ds = (if digits_val ds \<ge> 2 ^ 64 then - 1 else of_nat (digits_val ds))"
  by (simp add: g_ascii_strtoull_def strip_sign_digits takeWhile_all)

lemma strtoull_show_nat: "n < 2 ^ 64 \<Longrightarrow> g_ascii_strtoull (show_nat n) = of_nat n"
  using show_nat_digits [of n] by (simp add: strtoull_digits)

lemma unat_u64_less: "unat (w :: u64) < 2 ^ 64"
  using unsigned_less [where 'b = 64 and 'a = nat, of w] by simp

lemma strtoull_show_word [simp]: "g_ascii_strtoull (show_nat (unat (w :: u64))) = w"
  using unat_u64_less [of w] by (subst strtoull_show_nat) simp_all

lemma strtol_show_nat: "n < 2 ^ 63 \<Longrightarrow> c_strtol (show_nat n) = int n"
  using show_nat_digits [of n] by (simp add: c_strtol_def strip_sign_digits takeWhile_all)

lemma list_length2: "length xs = 2 \<Longrightarrow> \<exists>a b. xs = [a, b]"
  by (auto simp: length_Suc_conv eval_nat_numeral)

section \<open>Words\<close>

text \<open>The bytes of an unsigned value in memory order of a value in network byte order.\<close>

definition be_bytes32 :: "u32 \<Rightarrow> bytes" where
  "be_bytes32 w = (let n = unat w in
     [char_of (n div 2 ^ 24 mod 256), char_of (n div 2 ^ 16 mod 256), char_of (n div 2 ^ 8 mod 256),
      char_of (n mod 256)])"

definition be_bytes16 :: "u16 \<Rightarrow> bytes" where
  "be_bytes16 w = (let n = unat w in [char_of (n div 256 mod 256), char_of (n mod 256)])"

lemma length_be_bytes [simp]: "length (be_bytes32 w) = 4" "length (be_bytes16 v) = 2"
  by (simp_all add: be_bytes32_def be_bytes16_def Let_def)

lemma unat_of_nat_u64: "n < 2 ^ 64 \<Longrightarrow> unat (of_nat n :: u64) = n"
  by (simp add: unat_of_nat take_bit_nat_eq_self)

lemma u64_add_no_wrap: "unat a + unat b < 2 ^ 64 \<Longrightarrow> unat (a + b :: u64) = unat a + unat b"
  by (simp add: unat_word_ariths)

lemma u64_word_of_nat_unat [simp]: "(of_nat (unat w) :: u64) = w"
  by simp

lemma u64_sub_no_wrap: "b \<le> a \<Longrightarrow> unat (a - b :: u64) = unat a - unat b"
  by (simp add: unat_sub)

end
