(* ===== verification/Kernel.thy ===== *)
theory Kernel
  imports Prelude
begin

text \<open>
  What one connection meets outside the process: the results of successive \<open>read\<close> and \<open>write\<close> calls on
  its non-blocking socket, the readings of the monotonic clock, and the callbacks it makes into its
  owner. The system calls are not TGen code: their results are data (queues in \<open>world\<close>), so every
  theorem quantifies over all of them.
\<close>

text \<open>\<open>TGenEvent\<close> of \<open>tgen-io.h\<close>: a bit set; \<open>TGEN_EVENT_NONE\<close> is the empty set.\<close>

datatype tgen_event = EV_READ | EV_WRITE | EV_WRITE_DEFERRED | EV_DONE

datatype errno = EAGAIN | EWOULDBLOCK | EINPROGRESS | EINTR | EPIPE | ECONNRESET | EOTHER nat

definition would_block :: "errno \<Rightarrow> bool" where
  "would_block e \<longleftrightarrow> e = EAGAIN \<or> e = EWOULDBLOCK"

text \<open>
  One entry of the read queue is a segment the kernel has received (a \<open>read\<close> returns at most what was
  asked for and leaves the rest), end of file (which stays), or an error.
  One entry of the write queue is the room the socket buffer has when \<open>write\<close> is called, or an error.
  An empty queue means "would block".
\<close>

datatype rd = RData bytes | REOF | RErr errno
datatype wr = WRoom nat | WErr errno

text \<open>\<open>TGenNotifyFlags\<close> of \<open>tgen.h\<close>, again a bit set.\<close>

datatype notify_flag = STREAM_CREATED | STREAM_COMPLETE | STREAM_SUCCESS | FLOW_CREATED
  | FLOW_COMPLETE | FLOW_SUCCESS | TRAFFIC_CREATED | TRAFFIC_COMPLETE | TRAFFIC_SUCCESS

text \<open>What the stream layer does besides socket calls, and the process-wide values it reads.\<close>

record app =
  a_notes :: "(int \<times> notify_flag set) list" \<comment> \<open>calls of the notify callback: action id and flags\<close>
  a_log :: "string list" \<comment> \<open>lines written with \<open>tgen_message\<close> by the report function\<close>
  a_random :: "u32 list" \<comment> \<open>results of \<open>g_random_int\<close>; 0 when the list is used up\<close>
  a_streamCounter :: u64 \<comment> \<open>\<open>globalUniqueStreamIDCounter\<close>\<close>

record world =
  w_rd :: "rd list"
  w_wr :: "wr list"
  w_in :: bytes \<comment> \<open>every byte \<open>read\<close> has delivered, in order\<close>
  w_out :: bytes \<comment> \<open>every byte \<open>write\<close> has accepted, in order\<close>
  w_clock :: "int list" \<comment> \<open>readings of the monotonic clock; the last one repeats\<close>
  w_bytesCB :: "(nat \<times> nat) list" \<comment> \<open>calls of the bytes callback: (read, written)\<close>
  w_app :: app

definition sys_read :: "nat \<Rightarrow> world \<Rightarrow> (errno + bytes) \<times> world" where
  "sys_read n w =
     (case w_rd w of
        [] \<Rightarrow> (Inl EAGAIN, w)
      | RData bs # q \<Rightarrow>
          (Inr (take n bs), w\<lparr>w_rd := (if drop n bs = [] then q else RData (drop n bs) # q),
                               w_in := w_in w @ take n bs\<rparr>)
      | REOF # q \<Rightarrow> (Inr [], w)
      | RErr e # q \<Rightarrow> (Inl e, w\<lparr>w_rd := q\<rparr>))"

definition sys_write :: "bytes \<Rightarrow> world \<Rightarrow> (errno + nat) \<times> world" where
  "sys_write bs w =
     (case w_wr w of
        [] \<Rightarrow> (Inl EAGAIN, w)
      | WRoom k # q \<Rightarrow>
          (Inr (min k (length bs)), w\<lparr>w_wr := q, w_out := w_out w @ take (min k (length bs)) bs\<rparr>)
      | WErr e # q \<Rightarrow> (Inl e, w\<lparr>w_wr := q\<rparr>))"

definition g_random_int :: "world \<Rightarrow> u32 \<times> world" where
  "g_random_int w =
     (case a_random (w_app w) of
        [] \<Rightarrow> (0, w)
      | r # rs \<Rightarrow> (r, w\<lparr>w_app := (w_app w)\<lparr>a_random := rs\<rparr>\<rparr>))"

definition g_get_monotonic_time :: "world \<Rightarrow> int \<times> world" where
  "g_get_monotonic_time w =
     (case w_clock w of [] \<Rightarrow> (0, w) | [t] \<Rightarrow> (t, w) | t # ts \<Rightarrow> (t, w\<lparr>w_clock := ts\<rparr>))"

text \<open>What is still to be read, as one byte string: the abstraction of the read queue.\<close>

fun pending :: "rd list \<Rightarrow> bytes" where
  "pending (RData bs # q) = bs @ pending q"
| "pending _ = []"

lemma sys_read_Inr:
  "sys_read n w = (Inr bs, w') \<Longrightarrow>
     pending (w_rd w) = bs @ pending (w_rd w') \<and> w_in w' = w_in w @ bs \<and> length bs \<le> n"
  by (auto simp: sys_read_def split: list.splits rd.splits if_splits)

lemma sys_read_Inl: "sys_read n w = (Inl e, w') \<Longrightarrow> w_in w' = w_in w"
  by (auto simp: sys_read_def split: list.splits rd.splits if_splits)

lemma sys_read_frame:
  "sys_read n w = (r, w') \<Longrightarrow>
     w_wr w' = w_wr w \<and> w_out w' = w_out w \<and> w_clock w' = w_clock w \<and> w_bytesCB w' = w_bytesCB w \<and> w_app w' = w_app w"
  by (auto simp: sys_read_def split: list.splits rd.splits if_splits)

lemma sys_write_Inr:
  "sys_write bs w = (Inr n, w') \<Longrightarrow> n \<le> length bs \<and> w_out w' = w_out w @ take n bs"
  by (auto simp: sys_write_def split: list.splits wr.splits if_splits)

lemma sys_write_Inl: "sys_write bs w = (Inl e, w') \<Longrightarrow> w_out w' = w_out w"
  by (auto simp: sys_write_def split: list.splits wr.splits if_splits)

lemma sys_write_frame:
  "sys_write bs w = (r, w') \<Longrightarrow>
     w_rd w' = w_rd w \<and> w_in w' = w_in w \<and> w_clock w' = w_clock w \<and> w_bytesCB w' = w_bytesCB w \<and> w_app w' = w_app w"
  by (auto simp: sys_write_def split: list.splits wr.splits if_splits)

lemma time_frame:
  "g_get_monotonic_time w = (t, w') \<Longrightarrow>
     w_rd w' = w_rd w \<and> w_wr w' = w_wr w \<and> w_in w' = w_in w \<and> w_out w' = w_out w \<and>
     w_bytesCB w' = w_bytesCB w \<and> w_app w' = w_app w"
  by (auto simp: g_get_monotonic_time_def split: list.splits)

lemma time_snd [simp]:
  "w_rd (snd (g_get_monotonic_time w)) = w_rd w" "w_wr (snd (g_get_monotonic_time w)) = w_wr w"
  "w_in (snd (g_get_monotonic_time w)) = w_in w" "w_out (snd (g_get_monotonic_time w)) = w_out w"
  "w_bytesCB (snd (g_get_monotonic_time w)) = w_bytesCB w"
  "w_app (snd (g_get_monotonic_time w)) = w_app w"
  using time_frame [of w "fst (g_get_monotonic_time w)" "snd (g_get_monotonic_time w)"] by simp_all

end
