(* ===== verification/Peer.thy ===== *)
theory Peer
  imports Prelude
begin

text \<open>
  \<open>tgen-peer.c\<close>: the address of a TGen endpoint, its lazy name and address lookups and its cached
  printable form. Addresses and ports are represented by the number their host-order form has, so
  \<open>htonl\<close> and \<open>ntohl\<close> are identities here and memory order appears only where bytes are written
  (\<open>be_bytes32\<close>). \<open>inet_pton\<close> and \<open>inet_ntop\<close> are defined; the resolver calls \<open>getaddrinfo\<close> and
  \<open>getnameinfo\<close> query the network and are the parameters collected in \<open>resolver\<close>.
\<close>

record peer =
  netIP :: u32
  netPort :: u16
  hostIPStr :: "string option"
  hostNameStr :: "string option"
  peer_string :: "string option"
  peer_refcount :: int

record resolver =
  getaddrinfo :: "string \<Rightarrow> u32 option" \<comment> \<open>first address of a host name, if resolution succeeds\<close>
  getnameinfo :: "u32 \<Rightarrow> string option" \<comment> \<open>host name of an address, if resolution succeeds\<close>

definition INADDR_NONE :: u32 where "INADDR_NONE = 0xFFFFFFFF"
definition INADDR_ANY :: u32 where "INADDR_ANY = 0"
definition INADDR_LOOPBACK :: u32 where "INADDR_LOOPBACK = 0x7F000001"

section \<open>Dotted decimal addresses\<close>

definition octet :: "nat \<Rightarrow> nat \<Rightarrow> nat" where
  "octet n i = n div 256 ^ (3 - i) mod 256"

definition inet_ntop :: "u32 \<Rightarrow> string" where
  "inet_ntop ip = (let n = unat ip in
     show_nat (octet n 0) @ ''.'' @ show_nat (octet n 1) @ ''.'' @
     show_nat (octet n 2) @ ''.'' @ show_nat (octet n 3))"

text \<open>Strict dotted decimal: four fields of decimal digits, no leading zero, each at most 255.\<close>

definition parse_octet :: "string \<Rightarrow> nat option" where
  "parse_octet s =
     (if s \<noteq> [] \<and> list_all ascii_isdigit s \<and> (hd s = CHR ''0'' \<longrightarrow> length s = 1) \<and> digits_val s \<le> 255
      then Some (digits_val s) else None)"

definition inet_pton :: "string \<Rightarrow> u32 option" where
  "inet_pton s =
     (case List.map parse_octet (split_all (CHR ''.'') s) of
        [Some a, Some b, Some c, Some d] \<Rightarrow> Some (of_nat (((a * 256 + b) * 256 + c) * 256 + d))
      | _ \<Rightarrow> None)"

section \<open>Operations\<close>

definition ipStrToIP :: "string \<Rightarrow> u32" where
  "ipStrToIP s = (case inet_pton s of Some ip \<Rightarrow> ip | None \<Rightarrow> INADDR_NONE)"

definition ipToIPStr :: "u32 \<Rightarrow> string" where
  "ipToIPStr ip = (if ip \<noteq> INADDR_NONE then inet_ntop ip else ''<INADDR_NONE>'')"

definition lookupIP :: "resolver \<Rightarrow> string \<Rightarrow> u32" where
  "lookupIP db hostname =
     (case getaddrinfo db hostname of Some ip \<Rightarrow> ip | None \<Rightarrow> INADDR_NONE)"

definition lookupName :: "resolver \<Rightarrow> u32 \<Rightarrow> string option" where
  "lookupName db ip = getnameinfo db ip"

definition tgenpeer_performLookups :: "resolver \<Rightarrow> peer \<Rightarrow> peer" where
  "tgenpeer_performLookups db peer =
     (let nameLookup = (netIP peer \<noteq> 0 \<and> hostNameStr peer = None);
          p1 = (if nameLookup then peer\<lparr>hostNameStr := lookupName db (netIP peer)\<rparr> else peer);
          (p2, addrFound) =
            (case hostNameStr p1 of
               Some name \<Rightarrow>
                 if netIP p1 = 0 then
                   (let ipTry = lookupIP db name in
                    if ipTry \<noteq> INADDR_NONE
                    then (p1\<lparr>netIP := ipTry, hostIPStr := Some (ipToIPStr ipTry)\<rparr>, True)
                    else (p1, False))
                 else (p1, False)
             | None \<Rightarrow> (p1, False));
          changed = (nameLookup \<or> addrFound)
      in if changed then p2\<lparr>peer_string := None\<rparr> else p2)"

definition tgenpeer_new :: "string option \<Rightarrow> u32 \<Rightarrow> u16 \<Rightarrow> peer" where
  "tgenpeer_new name networkIP networkPort =
     (let p0 = \<lparr>netIP = 0, netPort = networkPort, hostIPStr = None, hostNameStr = None,
                peer_string = None, peer_refcount = 1\<rparr>;
          p1 = (case name of
                  None \<Rightarrow> p0
                | Some n \<Rightarrow>
                    if strcaseeq n ''localhost'' then p0\<lparr>netIP := INADDR_LOOPBACK\<rparr>
                    else if strcaseeq n ''0.0.0.0'' then p0\<lparr>netIP := INADDR_ANY\<rparr>
                    else (let ipTry = ipStrToIP n in
                          if ipTry \<noteq> INADDR_NONE then p0\<lparr>netIP := ipTry\<rparr>
                          else p0\<lparr>hostNameStr := Some n\<rparr>));
          p2 = (if networkIP \<noteq> INADDR_NONE then p1\<lparr>netIP := networkIP\<rparr> else p1)
      in if netIP p2 \<noteq> 0 then
           (let p3 = p2\<lparr>hostIPStr := Some (ipToIPStr (netIP p2))\<rparr> in
            if netIP p3 = INADDR_LOOPBACK \<and> hostNameStr p3 = None
            then p3\<lparr>hostNameStr := Some ''localhost''\<rparr> else p3)
         else p2)"

definition tgenpeer_newFromName :: "string \<Rightarrow> u16 \<Rightarrow> peer" where
  "tgenpeer_newFromName name networkPort = tgenpeer_new (Some name) INADDR_NONE networkPort"

definition tgenpeer_newFromIP :: "u32 \<Rightarrow> u16 \<Rightarrow> peer" where
  "tgenpeer_newFromIP networkIP networkPort = tgenpeer_new None networkIP networkPort"

definition tgenpeer_ref :: "peer \<Rightarrow> peer" where
  "tgenpeer_ref peer = peer\<lparr>peer_refcount := peer_refcount peer + 1\<rparr>"

definition tgenpeer_unref :: "peer \<Rightarrow> peer option" where
  "tgenpeer_unref peer =
     (let p = peer\<lparr>peer_refcount := peer_refcount peer - 1\<rparr>
      in if peer_refcount p \<le> 0 then None else Some p)"

definition tgenpeer_getNetworkIP :: "peer \<Rightarrow> u32" where
  "tgenpeer_getNetworkIP peer = netIP peer"

definition tgenpeer_getNetworkPort :: "peer \<Rightarrow> u16" where
  "tgenpeer_getNetworkPort peer = netPort peer"

definition tgenpeer_getHostIP :: "peer \<Rightarrow> u32" where
  "tgenpeer_getHostIP peer = netIP peer"

definition tgenpeer_getHostPort :: "peer \<Rightarrow> u16" where
  "tgenpeer_getHostPort peer = netPort peer"

definition tgenpeer_getName :: "peer \<Rightarrow> string option" where
  "tgenpeer_getName peer = hostNameStr peer"

definition peer_render :: "peer \<Rightarrow> string" where
  "peer_render peer =
     (case hostNameStr peer of Some n \<Rightarrow> n | None \<Rightarrow> ''NULL'') @ '':'' @
     (case hostIPStr peer of Some s \<Rightarrow> s | None \<Rightarrow> ''0.0.0.0'') @ '':'' @ show_nat (unat (netPort peer))"

definition tgenpeer_toString :: "peer option \<Rightarrow> string \<times> peer option" where
  "tgenpeer_toString po =
     (case po of
        None \<Rightarrow> (''NULL:0.0.0.0:0'', None)
      | Some peer \<Rightarrow>
          (case peer_string peer of
             Some s \<Rightarrow> (s, Some peer)
           | None \<Rightarrow> (peer_render peer, Some (peer\<lparr>peer_string := Some (peer_render peer)\<rparr>))))"

interpretation peer_rc: refcounted peer_refcount tgenpeer_ref tgenpeer_unref
  by unfold_locales (auto simp: tgenpeer_ref_def tgenpeer_unref_def Let_def)

section \<open>The cached string\<close>

text \<open>The operations a holder of a peer can perform on it, as steps.\<close>

datatype peer_op = PLookups resolver | PToString | PRef

fun peer_step :: "peer_op \<Rightarrow> peer \<Rightarrow> peer" where
  "peer_step (PLookups db) p = tgenpeer_performLookups db p"
| "peer_step PToString p = (case snd (tgenpeer_toString (Some p)) of Some q \<Rightarrow> q | None \<Rightarrow> p)"
| "peer_step PRef p = tgenpeer_ref p"

definition peer_inv :: "peer \<Rightarrow> bool" where
  "peer_inv p \<longleftrightarrow>
     (peer_string p = None \<or> peer_string p = Some (peer_render p)) \<and>
     (netIP p = 0 \<and> hostIPStr p = None \<or> hostIPStr p = Some (ipToIPStr (netIP p)))"

lemma peer_inv_new: "peer_inv (tgenpeer_new name ip port)"
  by (auto simp: tgenpeer_new_def peer_inv_def Let_def split: option.splits)

lemma peer_render_frame [simp]:
  "peer_render (p\<lparr>peer_string := s\<rparr>) = peer_render p"
  "peer_render (p\<lparr>peer_refcount := c\<rparr>) = peer_render p"
  by (simp_all add: peer_render_def)

lemma peer_inv_lookups:
  assumes "peer_inv p" shows "peer_inv (tgenpeer_performLookups db p)"
  using assms
  by (auto simp: tgenpeer_performLookups_def peer_inv_def Let_def split: option.splits)

lemma peer_inv_step: "peer_inv p \<Longrightarrow> peer_inv (peer_step op p)"
proof (cases op)
  case PToString
  assume "peer_inv p"
  then show ?thesis
    using PToString by (auto simp: tgenpeer_toString_def peer_inv_def split: option.splits)
next
  case PRef
  assume "peer_inv p"
  then show ?thesis using PRef by (auto simp: tgenpeer_ref_def peer_inv_def)
qed (simp add: peer_inv_lookups)

lemma peer_inv_steps: "peer_inv p \<Longrightarrow> peer_inv (fold peer_step ops p)"
  by (induction ops arbitrary: p) (auto simp: peer_inv_step)

lemma toString_render: "peer_inv p \<Longrightarrow> fst (tgenpeer_toString (Some p)) = peer_render p"
  by (auto simp: tgenpeer_toString_def peer_inv_def split: option.splits)

text \<open>
  However a peer was created and whatever lookups and prints happened since, \<open>tgenpeer_toString\<close>
  returns the rendering of its current name, address and port, never a stale cached string, and the
  stored address string is the dotted form of the stored address.
\<close>

theorem toString_never_stale:
  "let p = fold peer_step ops (tgenpeer_new name ip port) in
     fst (tgenpeer_toString (Some p)) = peer_render p \<and>
     (netIP p = 0 \<and> hostIPStr p = None \<or> hostIPStr p = Some (ipToIPStr (netIP p)))"
proof -
  let ?p = "fold peer_step ops (tgenpeer_new name ip port)"
  have "peer_inv ?p" by (intro peer_inv_steps peer_inv_new)
  then show ?thesis by (simp add: toString_render Let_def) (simp add: peer_inv_def)
qed

section \<open>Names that are addresses\<close>

lemma octet_less [simp]: "octet n i < 256"
  by (simp add: octet_def)

lemma show_nat_hd_zero: "hd (show_nat n) = CHR ''0'' \<Longrightarrow> n = 0"
proof (induction n rule: show_nat.induct)
  case (1 n)
  show ?case
  proof (cases "n < 10")
    case True
    with 1(2) have "(of_char (digit_char n) :: nat) = 48"
      by (subst (asm) show_nat.simps) simp
    then show ?thesis using True by (simp add: of_char_digit_char)
  next
    case False
    with 1(2) have "hd (show_nat (n div 10)) = CHR ''0''"
      by (subst (asm) show_nat.simps) simp
    with 1(1) False show ?thesis by auto
  qed
qed

lemma parse_octet_show: "n < 256 \<Longrightarrow> parse_octet (show_nat n) = Some n"
  using show_nat_digits [of n] show_nat_hd_zero [of n] show_nat.simps [of 0]
  by (auto simp: parse_octet_def list_all_iff)

lemma dot_notin_show: "CHR ''.'' \<notin> set (show_nat n)"
  using show_nat_digits [of n] isdigit_not_special by blast

lemma octets_sum: "n < 2 ^ 32 \<Longrightarrow>
  ((octet n 0 * 256 + octet n 1) * 256 + octet n 2) * 256 + octet n 3 = n"
proof -
  assume "n < 2 ^ 32"
  then have "n div 256 div 256 div 256 < 256" by simp
  then have m: "n div 256 div 256 div 256 mod 256 = n div 256 div 256 div 256" by simp
  have e: "octet n 0 = n div 256 div 256 div 256 mod 256" "octet n 1 = n div 256 div 256 mod 256"
    "octet n 2 = n div 256 mod 256" "octet n 3 = n mod 256"
    by (simp_all add: octet_def div_mult2_eq [symmetric])
  show ?thesis unfolding e m by (simp only: div_mult_mod_eq)
qed

lemma inet_pton_ntop: "inet_pton (inet_ntop ip) = Some ip"
proof -
  have lt: "unat ip < 2 ^ 32" using unsigned_less [where 'b = 32 and 'a = nat, of ip] by simp
  show ?thesis
    using octets_sum [OF lt]
    by (simp add: inet_pton_def inet_ntop_def Let_def split_all_append split_all_no_delim
        dot_notin_show parse_octet_show)
qed

lemma inet_ntop_not_localhost: "\<not> strcaseeq (inet_ntop ip) ''localhost''"
proof
  assume "strcaseeq (inet_ntop ip) ''localhost''"
  then have "hd (map ascii_tolower (inet_ntop ip)) = CHR ''l''"
    by (simp add: strcaseeq_def ascii_tolower_def)
  moreover obtain c cs where c: "inet_ntop ip = c # cs" "ascii_isdigit c"
  proof -
    let ?s = "show_nat (octet (unat ip) 0)"
    obtain d ds where "?s = d # ds" by (cases ?s) auto
    with show_nat_digits [of "octet (unat ip) 0"] that show ?thesis
      by (simp add: inet_ntop_def Let_def)
  qed
  ultimately have "ascii_tolower c = CHR ''l''" by simp
  with c(2) have "c = CHR ''l''"
    by (auto simp: ascii_tolower_def ascii_isdigit_def Let_def split: if_splits)
  with c(2) show False by (simp add: ascii_isdigit_def)
qed

lemma ascii_tolower_fix: "of_char c < (65 :: nat) \<Longrightarrow> ascii_tolower d = c \<Longrightarrow> d = c"
  by (auto simp: ascii_tolower_def Let_def split: if_splits)

lemma strcaseeq_zero_addr: "strcaseeq s ''0.0.0.0'' \<longleftrightarrow> s = ''0.0.0.0''"
proof
  assume "strcaseeq s ''0.0.0.0''"
  then have "map ascii_tolower s = ''0.0.0.0''"
    by (simp add: strcaseeq_def ascii_tolower_def)
  then show "s = ''0.0.0.0''"
    by (auto simp: map_eq_Cons_conv intro!: ascii_tolower_fix)
qed simp

lemma inet_ntop_0: "inet_ntop 0 = ''0.0.0.0''"
  by (simp add: inet_ntop_def octet_def show_nat_eval)

lemma inet_ntop_NONE: "inet_ntop INADDR_NONE = ''255.255.255.255''"
  by (simp add: inet_ntop_def octet_def show_nat_eval INADDR_NONE_def)

lemma inet_ntop_zero: "inet_ntop ip = ''0.0.0.0'' \<Longrightarrow> ip = 0"
proof -
  assume a: "inet_ntop ip = ''0.0.0.0''"
  with inet_ntop_0 have "inet_pton (inet_ntop ip) = inet_pton (inet_ntop 0)" by simp
  then show "ip = 0" by (simp only: inet_pton_ntop option.inject)
qed

text \<open>
  A peer named by a dotted address string gets exactly that address and prints it back, without
  any resolver call having been needed for the address. The broadcast address is the exception: its
  number is the error value of the conversion, so \<open>255.255.255.255\<close> is kept as a host name.
\<close>

theorem newFromName_dotted:
  "let p = tgenpeer_newFromName (inet_ntop ip) port in
     if ip = INADDR_NONE then netIP p = 0 \<and> hostNameStr p = Some ''255.255.255.255''
     else netIP p = ip \<and> hostNameStr p = (if ip = INADDR_LOOPBACK then Some ''localhost'' else None) \<and>
          fst (tgenpeer_toString (Some p)) =
            (if ip = INADDR_LOOPBACK then ''localhost'' else ''NULL'') @ '':'' @ inet_ntop ip @ '':'' @
            show_nat (unat port)"
proof -
  let ?p = "tgenpeer_newFromName (inet_ntop ip) port"
  show ?thesis
  proof (cases "ip = INADDR_NONE")
    case True
    then show ?thesis
      using inet_ntop_NONE inet_pton_ntop [of ip]
      by (simp add: tgenpeer_newFromName_def tgenpeer_new_def strcaseeq_zero_addr ipStrToIP_def
          strcaseeq_def ascii_tolower_def Let_def)
  next
    case False
    have "netIP ?p = ip \<and> hostNameStr ?p = (if ip = INADDR_LOOPBACK then Some ''localhost'' else None)
       \<and> hostIPStr ?p = (if ip = 0 then None else Some (inet_ntop ip)) \<and> netPort ?p = port"
      using False inet_ntop_zero [of ip] inet_ntop_not_localhost [of ip]
      by (auto simp: tgenpeer_newFromName_def tgenpeer_new_def strcaseeq_zero_addr ipStrToIP_def
          inet_pton_ntop ipToIPStr_def INADDR_ANY_def INADDR_LOOPBACK_def Let_def)
    moreover have "peer_inv ?p" by (simp add: tgenpeer_newFromName_def peer_inv_new)
    ultimately show ?thesis
      using False inet_ntop_0 by (auto simp: toString_render peer_render_def INADDR_LOOPBACK_def Let_def)
  qed
qed

lemma performLookups_cases:
  "netIP p \<noteq> 0 \<Longrightarrow> hostNameStr p = None \<Longrightarrow>
     tgenpeer_performLookups db p = p\<lparr>hostNameStr := lookupName db (netIP p), peer_string := None\<rparr>"
  "netIP p \<noteq> 0 \<Longrightarrow> hostNameStr p = Some n \<Longrightarrow> tgenpeer_performLookups db p = p"
  "netIP p = 0 \<Longrightarrow> hostNameStr p = None \<Longrightarrow> tgenpeer_performLookups db p = p"
  "netIP p = 0 \<Longrightarrow> hostNameStr p = Some n \<Longrightarrow> lookupIP db n = INADDR_NONE \<Longrightarrow>
     tgenpeer_performLookups db p = p"
  "netIP p = 0 \<Longrightarrow> hostNameStr p = Some n \<Longrightarrow> lookupIP db n \<noteq> INADDR_NONE \<Longrightarrow>
     tgenpeer_performLookups db p =
       p\<lparr>netIP := lookupIP db n, hostIPStr := Some (ipToIPStr (lookupIP db n)), peer_string := None\<rparr>"
  by (simp_all add: tgenpeer_performLookups_def Let_def split: option.split)

text \<open>
  Repeating the lookups changes nothing as long as the resolver keeps its answers: one call of
  \<open>tgenpeer_performLookups\<close> fills in all that can be filled in.
\<close>

theorem performLookups_idempotent:
  "tgenpeer_performLookups db (tgenpeer_performLookups db p) = tgenpeer_performLookups db p"
proof (cases "netIP p = 0")
  case True
  show ?thesis
  proof (cases "hostNameStr p")
    case (Some n)
    with True show ?thesis
      by (cases "lookupIP db n = INADDR_NONE"; cases "lookupIP db n = 0")
         (simp_all add: performLookups_cases INADDR_NONE_def)
  qed (simp add: True performLookups_cases)
next
  case False
  show ?thesis
  proof (cases "hostNameStr p")
    case None
    with False show ?thesis
      by (cases "lookupName db (netIP p)") (simp_all add: performLookups_cases)
  qed (simp add: False performLookups_cases)
qed

end
