(* ===== verification/Pool.thy ===== *)
theory Pool
  imports Prelude "HOL-Library.AList_Mapping"
begin

text \<open>
  \<open>tgen-pool.c\<close>: a reference-counted bag with uniform random access. The balanced tree keyed by
  \<open>gint\<close> is a \<open>mapping\<close> on \<open>int\<close>; \<open>g_random_int\<close> is the argument \<open>r\<close> of \<open>tgenpool_getRandom\<close>.
\<close>

record 'a pool =
  pool_items :: "(int, 'a) mapping"
  pool_counter :: u32
  pool_refcount :: int

definition intCompare :: "int \<Rightarrow> int \<Rightarrow> int" where
  "intCompare ai bi = (if ai > bi then 1 else if ai = bi then 0 else - 1)"

definition tgenpool_new :: "'a pool" where
  "tgenpool_new = \<lparr>pool_items = Mapping.empty, pool_counter = 0, pool_refcount = 1\<rparr>"

definition tgenpool_ref :: "'a pool \<Rightarrow> 'a pool" where
  "tgenpool_ref pool = pool\<lparr>pool_refcount := pool_refcount pool + 1\<rparr>"

definition tgenpool_unref :: "'a pool \<Rightarrow> 'a pool option" where
  "tgenpool_unref pool =
     (let p = pool\<lparr>pool_refcount := pool_refcount pool - 1\<rparr>
      in if pool_refcount p = 0 then None else Some p)"

text \<open>The key is the counter's value before the increment, read as a \<open>gint\<close>.\<close>

definition tgenpool_add :: "'a pool \<Rightarrow> 'a \<Rightarrow> 'a pool" where
  "tgenpool_add pool item =
     pool\<lparr>pool_items := Mapping.update (sint (pool_counter pool)) item (pool_items pool),
          pool_counter := pool_counter pool + 1\<rparr>"

definition pool_nnodes :: "'a pool \<Rightarrow> nat" where
  "pool_nnodes pool = Mapping.size (pool_items pool)"

text \<open>\<open>g_random_int() % numNodes\<close> is computed in \<open>guint32\<close>; the result is read as a \<open>gint\<close>.\<close>

definition tgenpool_getRandom :: "u32 \<Rightarrow> 'a pool \<Rightarrow> 'a option" where
  "tgenpool_getRandom r pool =
     (let numNodes = pool_nnodes pool;
          position = (if numNodes > 1 then sint (r mod of_nat numNodes) else 0)
      in Mapping.lookup (pool_items pool) position)"

interpretation pool_rc: refcounted pool_refcount tgenpool_ref tgenpool_unref
  by unfold_locales (auto simp: tgenpool_ref_def tgenpool_unref_def Let_def)

section \<open>The pool's invariant\<close>

text \<open>Up to \<open>2 ^ 31\<close> additions the keys are exactly \<open>0, \<dots>, counter - 1\<close>.\<close>

definition pool_inv :: "'a pool \<Rightarrow> bool" where
  "pool_inv p \<longleftrightarrow> unat (pool_counter p) < 2 ^ 31 \<and>
     Mapping.keys (pool_items p) = {0 ..< int (unat (pool_counter p))}"

definition pool_members :: "'a list \<Rightarrow> 'a pool" where
  "pool_members xs = foldl tgenpool_add tgenpool_new xs"

lemma pool_inv_new: "pool_inv tgenpool_new"
  by (simp add: pool_inv_def tgenpool_new_def)

lemma sint_small_u32:
  assumes "unat (w :: u32) < 2 ^ 31"
  shows "sint w = int (unat w)"
proof -
  have "int (unat w) < int (2 ^ 31)" using assms by (simp only: of_nat_less_iff)
  then have "uint w < 2 ^ 31" by simp
  moreover have "- (2 ^ 31) \<le> uint w" by (rule order_trans [of _ 0]) simp_all
  ultimately show ?thesis
    by (simp add: sint_uint signed_take_bit_int_eq_self_iff del: unsigned_greater_eq)
qed

lemma unat_Suc_u32: "unat (w :: u32) < 2 ^ 31 \<Longrightarrow> unat (w + 1) = unat w + 1"
  by (simp add: unat_word_ariths)

lemma pool_add_inv:
  assumes "pool_inv p" and "unat (pool_counter p) < 2 ^ 31 - 1"
  shows "pool_inv (tgenpool_add p x)"
proof -
  have k: "sint (pool_counter p) = int (unat (pool_counter p))"
    using assms(1) by (simp add: pool_inv_def sint_small_u32)
  have "unat (pool_counter p + 1) = unat (pool_counter p) + 1"
    using assms(1) by (simp add: pool_inv_def unat_Suc_u32)
  moreover have "insert (int n) {0 ..< int n} = {0 ..< int (Suc n)}" for n by auto
  ultimately show ?thesis
    using assms unfolding pool_inv_def tgenpool_add_def by (auto simp del: of_nat_unat simp: k)
qed

lemma pool_nnodes_inv: "pool_inv p \<Longrightarrow> pool_nnodes p = unat (pool_counter p)"
  by (simp add: pool_nnodes_def pool_inv_def Mapping.size_def)

lemma pool_add_lookup:
  assumes "pool_inv p"
  shows "pool_items (tgenpool_add p x) =
    Mapping.update (int (unat (pool_counter p))) x (pool_items p)"
  using assms by (simp add: tgenpool_add_def pool_inv_def sint_small_u32)

lemma pool_foldl_add:
  "pool_inv p \<Longrightarrow> unat (pool_counter p) + length xs < 2 ^ 31 \<Longrightarrow>
     pool_inv (foldl tgenpool_add p xs) \<and>
     unat (pool_counter (foldl tgenpool_add p xs)) = unat (pool_counter p) + length xs \<and>
     (\<forall>i. Mapping.lookup (pool_items (foldl tgenpool_add p xs)) i =
        (if int (unat (pool_counter p)) \<le> i \<and> i < int (unat (pool_counter p) + length xs)
         then Some (xs ! nat (i - int (unat (pool_counter p)))) else Mapping.lookup (pool_items p) i))"
proof (induction xs arbitrary: p)
  case Nil
  then show ?case by auto
next
  case (Cons x xs)
  let ?c = "unat (pool_counter p)"
  have inv: "pool_inv (tgenpool_add p x)" using Cons.prems by (intro pool_add_inv) auto
  have c: "unat (pool_counter (tgenpool_add p x)) = Suc ?c"
    using Cons.prems by (simp add: tgenpool_add_def pool_inv_def unat_Suc_u32)
  have items: "pool_items (tgenpool_add p x) = Mapping.update (int ?c) x (pool_items p)"
    using Cons.prems by (simp add: pool_add_lookup)
  have nth: "xs ! nat (i - int (Suc ?c)) = (x # xs) ! nat (i - int ?c)" if "int ?c < i" for i
  proof -
    have "nat (i - int ?c) = Suc (nat (i - int (Suc ?c)))" using that by auto
    then show ?thesis by simp
  qed
  show ?case
    using Cons.IH [OF inv] Cons.prems nth by (auto simp: c items Mapping.lookup_update')
qed

lemma pool_members_props:
  assumes "length xs < 2 ^ 31"
  shows "pool_inv (pool_members xs)" "pool_nnodes (pool_members xs) = length xs"
    "\<And>i. Mapping.lookup (pool_items (pool_members xs)) i =
       (if 0 \<le> i \<and> i < int (length xs) then Some (xs ! nat i) else None)"
  using pool_foldl_add [of "tgenpool_new :: 'a pool" xs] pool_inv_new [where 'a = 'a] assms
  by (simp_all add: pool_members_def tgenpool_new_def pool_nnodes_inv)

text \<open>
  C40. A pool that was filled with the items of a non-empty list (fewer than \<open>2 ^ 31\<close> of them) always
  answers \<open>tgenpool_getRandom\<close> with one of them, and every item is the answer for some random number:
  the caller never sees NULL and no item is unreachable.
\<close>

theorem getRandom_total_and_fair:
  assumes "xs \<noteq> []" and "length xs < 2 ^ 31"
  shows "(\<forall>r. \<exists>i < length xs. tgenpool_getRandom r (pool_members xs) = Some (xs ! i)) \<and>
         (\<forall>i < length xs. \<exists>r. tgenpool_getRandom r (pool_members xs) = Some (xs ! i))"
proof -
  let ?n = "length xs"
  have m: "unat (r mod of_nat ?n :: u32) = unat r mod ?n" for r
    using assms(2) by (simp add: unat_mod unat_of_nat take_bit_nat_eq_self)
  have lt: "unat r mod ?n < ?n" for r :: u32 using assms(1) by simp
  have small: "unat (r mod of_nat ?n :: u32) < 2 ^ 31" for r
    using m lt [of r] assms(2) by simp
  have pos: "(if ?n > 1 then sint (r mod of_nat ?n :: u32) else 0) = int (unat r mod ?n)" for r
  proof (cases "?n > 1")
    case True
    then show ?thesis using sint_small_u32 [OF small, of r] m [of r] by simp
  next
    case False
    with assms(1) have "?n = 1" by (cases xs) auto
    then show ?thesis by simp
  qed
  have look: "tgenpool_getRandom r (pool_members xs) = Some (xs ! (unat r mod ?n))" for r
    using assms pos [of r] lt [of r]
    by (simp add: tgenpool_getRandom_def pool_members_props Let_def)
  have "\<exists>r. tgenpool_getRandom r (pool_members xs) = Some (xs ! i)" if "i < ?n" for i
  proof -
    have "unat (of_nat i :: u32) = i"
      using that assms(2) by (simp add: unat_of_nat take_bit_nat_eq_self)
    with look [of "of_nat i"] that show ?thesis by auto
  qed
  with look lt show ?thesis by blast
qed

theorem getRandom_total_and_fair_witness:
  "\<exists>i < length [10 :: nat, 20]. tgenpool_getRandom 7 (pool_members [10 :: nat, 20]) = Some ([10, 20] ! i)"
  using getRandom_total_and_fair [of "[10 :: nat, 20]"] by simp

end
