(* ===== verification/OptionParser.thy ===== *)
theory OptionParser
  imports Peer Pool
begin

text \<open>
  \<open>tgen-optionparser.c\<close>: the readers of the attribute strings of a configuration. Each C function
  returns a \<open>GError*\<close> and fills \<open>*out\<close>; here it returns both, the error as \<open>gerror option\<close> (the code
  of the \<open>G_MARKUP_ERROR\<close> domain). A missing attribute string is \<open>None\<close>. The comparison with the empty
  string, \<open>g_ascii_strncasecmp(s, "\\0", 1) != 0\<close>, is \<open>s \<noteq> []\<close>.
\<close>

datatype gerror = MARKUP_PARSE | MARKUP_MISSING_ATTRIBUTE | MARKUP_UNKNOWN_ATTRIBUTE
  | MARKUP_UNKNOWN_ELEMENT | MARKUP_INVALID_CONTENT

record 'a topt =
  isSet :: bool
  opt_value :: 'a

type_synonym 'a parsed = "gerror option \<times> 'a topt"

definition unset :: "'a \<Rightarrow> 'a topt" where
  "unset v = \<lparr>isSet = False, opt_value = v\<rparr>"

definition set_to :: "'a \<Rightarrow> 'a topt" where
  "set_to v = \<lparr>isSet = True, opt_value = v\<rparr>"

lemma set_to_inject [simp]: "set_to a = set_to b \<longleftrightarrow> a = b"
  by (simp add: set_to_def)

lemma set_to_neq_unset [simp]: "set_to a \<noteq> unset b" "unset b \<noteq> set_to a"
  by (simp_all add: set_to_def unset_def)

definition present :: "string option \<Rightarrow> string option" where
  "present so = (case so of Some s \<Rightarrow> if strncaseeq 1 s [] then None else Some s | None \<Rightarrow> None)"

lemma present_simps [simp]:
  "present None = None" "present (Some []) = None" "s \<noteq> [] \<Longrightarrow> present (Some s) = Some s"
  by (auto simp: present_def strncaseeq_def)

section \<open>Integers and strings\<close>

definition parseUInt64 :: "string option \<Rightarrow> u64 parsed" where
  "parseUInt64 intStr =
     (case present intStr of
        None \<Rightarrow> (None, unset 0)
      | Some s \<Rightarrow> (None, set_to (g_ascii_strtoull s)))"

definition G_MAXUINT32 :: u64 where "G_MAXUINT32 = 0xFFFFFFFF"
definition G_MAXUINT16 :: u64 where "G_MAXUINT16 = 0xFFFF"

definition parseUInt32 :: "string option \<Rightarrow> u32 parsed" where
  "parseUInt32 intStr =
     (case parseUInt64 intStr of (e, intOpt) \<Rightarrow>
        (e, \<lparr>isSet = isSet intOpt, opt_value = ucast (min (opt_value intOpt) G_MAXUINT32)\<rparr>))"

definition parseUInt16 :: "string option \<Rightarrow> u16 parsed" where
  "parseUInt16 intStr =
     (case parseUInt64 intStr of (e, intOpt) \<Rightarrow>
        (e, \<lparr>isSet = isSet intOpt, opt_value = ucast (min (opt_value intOpt) G_MAXUINT16)\<rparr>))"

definition parseString :: "string option \<Rightarrow> string option parsed" where
  "parseString stringStr =
     (case present stringStr of
        None \<Rightarrow> (None, unset None)
      | Some s \<Rightarrow> (None, set_to (Some s)))"

section \<open>Peers\<close>

definition parsePeer :: "string option \<Rightarrow> peer option parsed" where
  "parsePeer peerStr =
     (case present peerStr of
        None \<Rightarrow> (None, unset None)
      | Some s \<Rightarrow>
          (case g_strsplit2 (CHR '':'') s of
             [name, portStr] \<Rightarrow>
               (let portNum = g_ascii_strtoull portStr in
                if portNum > G_MAXUINT16 then (Some MARKUP_INVALID_CONTENT, unset None)
                else (None, set_to (Some (tgenpeer_newFromName name (ucast portNum)))))
           | _ \<Rightarrow> (Some MARKUP_INVALID_CONTENT, unset None)))"

text \<open>The loop over the comma-separated tokens; the pool is created by the first peer.\<close>

fun parsePeerList_loop :: "string list \<Rightarrow> peer pool option \<Rightarrow> bool \<Rightarrow>
    gerror option \<times> bool \<times> peer pool option" where
  "parsePeerList_loop [] peerPool is_set = (None, is_set, peerPool)"
| "parsePeerList_loop (tok # toks) peerPool is_set =
     (case parsePeer (Some tok) of (error, peerOpt) \<Rightarrow>
        (case error of
           Some e \<Rightarrow> (Some e, is_set, peerPool)
         | None \<Rightarrow>
             (case (isSet peerOpt, opt_value peerOpt) of
                (True, Some p) \<Rightarrow>
                  parsePeerList_loop toks
                    (Some (tgenpool_add (case peerPool of None \<Rightarrow> tgenpool_new | Some q \<Rightarrow> q) p)) True
              | _ \<Rightarrow> parsePeerList_loop toks peerPool is_set)))"

definition parsePeerList :: "string option \<Rightarrow> peer pool option parsed" where
  "parsePeerList peersStr =
     (case (case present peersStr of
              None \<Rightarrow> (None, False, None)
            | Some s \<Rightarrow> parsePeerList_loop (g_strsplit (CHR '','') s) None False) of
        (error, is_set, peerPool) \<Rightarrow>
          if error \<noteq> None then (error, unset None)
          else (None, \<lparr>isSet = is_set, opt_value = peerPool\<rparr>))"

section \<open>Byte counts\<close>

text \<open>
  \<open>g_utf8_strlen\<close> steps by the length the lead byte announces. The loops over a number token visit as
  many bytes as the token has UTF-8 characters.
\<close>

definition utf8_skip :: "char \<Rightarrow> nat" where
  "utf8_skip c = (let n = (of_char c :: nat) in
     if n < 192 then 1 else if n < 224 then 2 else if n < 240 then 3 else if n < 248 then 4
     else if n < 252 then 5 else if n < 254 then 6 else 1)"

fun g_utf8_strlen :: "string \<Rightarrow> nat" where
  "g_utf8_strlen [] = 0"
| "g_utf8_strlen (c # cs) = Suc (g_utf8_strlen (drop (utf8_skip c - 1) cs))"

definition all_digits_prefix :: "string \<Rightarrow> bool" where
  "all_digits_prefix tok \<longleftrightarrow> list_all ascii_isdigit (take (g_utf8_strlen tok) tok)"

definition one_of :: "string \<Rightarrow> string list \<Rightarrow> bool" where
  "one_of s ws \<longleftrightarrow> list_ex (strcaseeq s) ws"

definition bytes_unit :: "string \<Rightarrow> (nat \<times> nat) option" where
  "bytes_unit suffixToken =
     (if one_of suffixToken [''b'', ''byte'', ''bytes''] then Some (10, 0)
      else if one_of suffixToken [''kb'', ''kilobyte'', ''kilobytes''] then Some (10, 3)
      else if one_of suffixToken [''mb'', ''megabyte'', ''megabytes''] then Some (10, 6)
      else if one_of suffixToken [''gb'', ''gigabyte'', ''gigabytes''] then Some (10, 9)
      else if one_of suffixToken [''tb'', ''terabyte'', ''terabytes''] then Some (10, 12)
      else if one_of suffixToken [''kib'', ''kibibyte'', ''kibibytes''] then Some (2, 10)
      else if one_of suffixToken [''mib'', ''mebibyte'', ''mebibytes''] then Some (2, 20)
      else if one_of suffixToken [''gib'', ''gibibyte'', ''gibibytes''] then Some (2, 30)
      else if one_of suffixToken [''tib'', ''tebibyte'', ''tebibytes''] then Some (2, 40)
      else None)"

text \<open>
  \<open>bytes = (guint64) (bytes * powl(base, exponent))\<close> in \<open>long double\<close>. Products below \<open>2 ^ 64\<close> are exact
  in its 64-bit mantissa; converting a larger one to \<open>guint64\<close> is undefined, hence \<open>None\<close>.
\<close>

definition convert_bytes :: "u64 \<Rightarrow> nat \<Rightarrow> u64 option" where
  "convert_bytes b factor =
     (if unat b * factor < 2 ^ 64 then Some (of_nat (unat b * factor)) else None)"

definition parseBytes :: "string option \<Rightarrow> u64 parsed option" where
  "parseBytes byteStr =
     (case present byteStr of
        None \<Rightarrow> Some (None, unset 0)
      | Some s \<Rightarrow>
          (let tokens = g_strsplit2 (CHR '' '') s; bytesToken = hd tokens in
           if \<not> all_digits_prefix bytesToken then Some (Some MARKUP_INVALID_CONTENT, unset 0)
           else
             (let b = g_ascii_strtoull bytesToken in
              case tl tokens of
                [] \<Rightarrow> Some (None, set_to b)
              | suffixToken # _ \<Rightarrow>
                  (case bytes_unit suffixToken of
                     None \<Rightarrow> Some (Some MARKUP_INVALID_CONTENT, unset 0)
                   | Some (base, exponent) \<Rightarrow>
                       if exponent \<noteq> 0 then
                         (case convert_bytes b (base ^ exponent) of
                            None \<Rightarrow> None
                          | Some b' \<Rightarrow>
                              if b' = 0 then Some (Some MARKUP_INVALID_CONTENT, unset 0)
                              else Some (None, set_to b'))
                       else Some (None, set_to b)))))"

section \<open>Times\<close>

definition time_unit :: "string \<Rightarrow> u64 option" where
  "time_unit suffixToken =
     (if one_of suffixToken [''nanosecond'', ''nanoseconds'', ''nsec'', ''nsecs'', ''ns''] then Some 1
      else if one_of suffixToken [''microsecond'', ''microseconds'', ''usec'', ''usecs'', ''us'']
        then Some 1000
      else if one_of suffixToken [''millisecond'', ''milliseconds'', ''msec'', ''msecs'', ''ms'']
        then Some 1000000
      else if one_of suffixToken [''second'', ''seconds'', ''sec'', ''secs'', ''s''] then Some 1000000000
      else if one_of suffixToken [''minute'', ''minutes'', ''min'', ''mins'', ''m'']
        then Some (1000000000 * 60)
      else if one_of suffixToken [''hour'', ''hours'', ''hr'', ''hrs'', ''h'']
        then Some (1000000000 * 60 * 60)
      else None)"

definition parseTime :: "string option \<Rightarrow> u64 parsed option" where
  "parseTime timeStr =
     (case timeStr of
        None \<Rightarrow> None \<comment> \<open>\<open>g_assert(timeStr)\<close>\<close>
      | Some _ \<Rightarrow> Some
          (case present timeStr of
             None \<Rightarrow> (None, unset 0)
           | Some s \<Rightarrow>
               (let tokens = g_strsplit2 (CHR '' '') s; timeToken = hd tokens in
                if \<not> all_digits_prefix timeToken then (Some MARKUP_INVALID_CONTENT, unset 0)
                else
                  (let timeUnits = g_ascii_strtoull timeToken in
                   case tl tokens of
                     [] \<Rightarrow> (None, set_to (timeUnits * 1000000000))
                   | suffixToken # _ \<Rightarrow>
                       (case time_unit suffixToken of
                          None \<Rightarrow> (Some MARKUP_INVALID_CONTENT, unset 0)
                        | Some u \<Rightarrow> (None, set_to (timeUnits * u)))))))"

fun parseTimeList_loop :: "string list \<Rightarrow> u64 pool \<Rightarrow> gerror option \<times> u64 pool" where
  "parseTimeList_loop [] timelist = (None, timelist)"
| "parseTimeList_loop (tok # toks) timelist =
     (if strncaseeq 1 tok [] then (Some MARKUP_INVALID_CONTENT, timelist)
      else case parseTime (Some tok) of
             Some (None, timeOpt) \<Rightarrow> parseTimeList_loop toks (tgenpool_add timelist (opt_value timeOpt))
           | Some (Some e, _) \<Rightarrow> (Some e, timelist)
           | None \<Rightarrow> (None, timelist))"

definition parseTimeList :: "string option \<Rightarrow> u64 pool option parsed" where
  "parseTimeList timeStr =
     (case present timeStr of
        None \<Rightarrow> (None, unset (Some tgenpool_new))
      | Some s \<Rightarrow>
          (case parseTimeList_loop (g_strsplit (CHR '','') s) tgenpool_new of
             (None, timelist) \<Rightarrow> (None, set_to (Some timelist))
           | (Some e, _) \<Rightarrow> (Some e, unset None)))"

section \<open>Booleans and log levels\<close>

definition parseBoolean :: "string option \<Rightarrow> bool parsed" where
  "parseBoolean booleanStr =
     (case present booleanStr of
        None \<Rightarrow> (None, unset False)
      | Some s \<Rightarrow>
          if one_of s [''true'', ''1''] then (None, set_to True)
          else if one_of s [''false'', ''0''] then (None, set_to False)
          else (Some MARKUP_INVALID_CONTENT, unset False))"

datatype loglevel = LOG_NONE | LEVEL_ERROR | LEVEL_CRITICAL | LEVEL_WARNING | LEVEL_MESSAGE
  | LEVEL_INFO | LEVEL_DEBUG

definition parseLogLevel :: "string option \<Rightarrow> loglevel parsed" where
  "parseLogLevel loglevelStr =
     (case present loglevelStr of
        None \<Rightarrow> (None, unset LOG_NONE)
      | Some s \<Rightarrow>
          if strcaseeq s ''error'' then (None, set_to LEVEL_ERROR)
          else if strcaseeq s ''critical'' then (None, set_to LEVEL_CRITICAL)
          else if strcaseeq s ''warning'' then (None, set_to LEVEL_WARNING)
          else if strcaseeq s ''message'' then (None, set_to LEVEL_MESSAGE)
          else if strcaseeq s ''info'' then (None, set_to LEVEL_INFO)
          else if strcaseeq s ''debug'' then (None, set_to LEVEL_DEBUG)
          else (Some MARKUP_INVALID_CONTENT, unset LOG_NONE))"

section \<open>Facts about the tokens\<close>

lemma digit_utf8_skip: "ascii_isdigit c \<Longrightarrow> utf8_skip c = 1"
  by (auto simp: ascii_isdigit_def utf8_skip_def Let_def)

text \<open>Checking as many bytes as there are characters checks every byte.\<close>

lemma all_digits_prefix_iff: "all_digits_prefix tok \<longleftrightarrow> list_all ascii_isdigit tok"
proof (induction tok)
  case (Cons c cs)
  then show ?case
    using digit_utf8_skip [of c] by (auto simp: all_digits_prefix_def)
qed (simp add: all_digits_prefix_def)

lemma show_nat_all_digits [simp]: "list_all ascii_isdigit (show_nat n)"
  using show_nat_digits by (simp add: list_all_iff)

lemma space_notin_show: "CHR '' '' \<notin> set (show_nat n)"
  using show_nat_digits [of n] isdigit_not_special by blast

lemma strsplit2_number:
  "g_strsplit2 (CHR '' '') (show_nat n @ CHR '' '' # u) = [show_nat n, u]"
  "g_strsplit2 (CHR '' '') (show_nat n) = [show_nat n]"
  by (simp_all add: g_strsplit2_append g_strsplit2_no_delim space_notin_show)

lemma u64_of_nat_eq_0: "n < 2 ^ 64 \<Longrightarrow> (of_nat n :: u64) = 0 \<longleftrightarrow> n = 0"
proof
  assume n: "n < 2 ^ 64" and z: "(of_nat n :: u64) = 0"
  have "unat (of_nat n :: u64) = 0" unfolding z by simp
  then show "n = 0" by (simp only: unat_of_nat_u64 [OF n])
qed simp

lemma parseBytes_number:
  "n < 2 ^ 64 \<Longrightarrow> parseBytes (Some (show_nat n)) = Some (None, set_to (of_nat n))"
  by (simp add: parseBytes_def Let_def strsplit2_number all_digits_prefix_iff strtoull_show_nat)

lemma parseBytes_suffix:
  assumes "n < 2 ^ 64" and "bytes_unit u = Some (b, e)"
  shows "parseBytes (Some (show_nat n @ '' '' @ u)) =
    (if e \<noteq> 0 then
       (case convert_bytes (of_nat n) (b ^ e) of
          None \<Rightarrow> None
        | Some b' \<Rightarrow> if b' = 0 then Some (Some MARKUP_INVALID_CONTENT, unset 0) else Some (None, set_to b'))
     else Some (None, set_to (of_nat n)))"
  using assms
  by (simp add: parseBytes_def Let_def strsplit2_number all_digits_prefix_iff strtoull_show_nat)

text \<open>
  \<open>tgenoptionparser_parseBytes\<close> on a number and a unit: the value is the exact product of the
  number and the unit's factor whenever that fits 64 bits. Zero is accepted without a factor and
  refused with one; a product that does not fit reaches an undefined conversion. Without a unit the
  number itself is the value.
\<close>

theorem parseBytes_value:
  assumes "n < 2 ^ 64" and "bytes_unit u = Some (b, e)"
  shows "parseBytes (Some (show_nat n)) = Some (None, set_to (of_nat n)) \<and>
    parseBytes (Some (show_nat n @ '' '' @ u)) =
      (if e = 0 then Some (None, set_to (of_nat n))
       else if n = 0 then Some (Some MARKUP_INVALID_CONTENT, unset 0)
       else if n * b ^ e < 2 ^ 64 then Some (None, set_to (of_nat (n * b ^ e)))
       else None)"
proof -
  have pos: "b ^ e \<noteq> 0"
    using assms(2) by (auto simp: bytes_unit_def split: if_splits)
  have plain: "parseBytes (Some (show_nat n)) = Some (None, set_to (of_nat n))"
    using assms(1) by (simp add: parseBytes_number)
  have conv: "convert_bytes (of_nat n) (b ^ e) =
      (if n * b ^ e < 2 ^ 64 then Some (of_nat (n * b ^ e)) else None)"
    by (simp only: convert_bytes_def unat_of_nat_u64 [OF assms(1)])
  show ?thesis
  proof (cases "n * b ^ e < 2 ^ 64")
    case True
    with pos have "(of_nat (n * b ^ e) :: u64) = 0 \<longleftrightarrow> n = 0" by (subst u64_of_nat_eq_0) auto
    with True show ?thesis
      unfolding parseBytes_suffix [OF assms] plain conv by simp
  next
    case False
    then have "n \<noteq> 0" by (cases n) auto
    with False show ?thesis
      unfolding parseBytes_suffix [OF assms] plain conv by simp
  qed
qed

theorem parseBytes_value_witness:
  "parseBytes (Some ''10 KiB'') = Some (None, set_to 10240)"
proof -
  have "bytes_unit ''KiB'' = Some (2, 10)" by code_simp
  then show ?thesis using parseBytes_value [of 10 "''KiB''" 2 10] by (simp add: show_nat_eval)
qed



section \<open>Peer lists\<close>

definition bad_peer :: "string \<Rightarrow> bool" where
  "bad_peer tok \<longleftrightarrow> fst (parsePeer (Some tok)) \<noteq> None"

text \<open>The peers the tokens of a list stand for.\<close>

fun peers_of :: "string list \<Rightarrow> peer list" where
  "peers_of [] = []"
| "peers_of (tok # toks) =
     (case opt_value (snd (parsePeer (Some tok))) of Some p \<Rightarrow> p # peers_of toks | None \<Rightarrow> peers_of toks)"

lemma parsePeer_shape:
  "parsePeer so = (None, unset None) \<or> parsePeer so = (Some MARKUP_INVALID_CONTENT, unset None) \<or>
   (\<exists>p. parsePeer so = (None, set_to (Some p)))"
  by (auto simp: parsePeer_def Let_def split: option.split list.split)

lemma topt_sel [simp]:
  "isSet (set_to v) = True" "opt_value (set_to v) = v" "isSet (unset v) = False" "opt_value (unset v) = v"
  by (simp_all add: set_to_def unset_def)

definition pool_of :: "peer pool option \<Rightarrow> peer pool" where
  "pool_of po = (case po of None \<Rightarrow> tgenpool_new | Some q \<Rightarrow> q)"

lemma parsePeerList_loop_ok:
  "\<not> list_ex bad_peer toks \<Longrightarrow> parsePeerList_loop toks pool s =
     (None, s \<or> peers_of toks \<noteq> [],
      if peers_of toks = [] then pool else Some (foldl tgenpool_add (pool_of pool) (peers_of toks)))"
proof (induction toks arbitrary: pool s)
  case (Cons t toks)
  then show ?case
    using parsePeer_shape [of "Some t"] by (auto simp: bad_peer_def pool_of_def)
qed simp

lemma parsePeerList_loop_bad:
  "list_ex bad_peer toks \<Longrightarrow> fst (parsePeerList_loop toks pool s) = Some MARKUP_INVALID_CONTENT"
proof (induction toks arbitrary: pool s)
  case (Cons t toks)
  then show ?case
    using parsePeer_shape [of "Some t"] by (auto simp: bad_peer_def)
qed simp

lemma parsePeerList_eq:
  "parsePeerList (Some s) =
     (let toks = g_strsplit (CHR '','') s
      in if list_ex bad_peer toks then (Some MARKUP_INVALID_CONTENT, unset None)
         else if peers_of toks = [] then (None, unset None)
         else (None, set_to (Some (pool_members (peers_of toks)))))"
proof (cases "s = []")
  case True
  then show ?thesis by (simp add: parsePeerList_def g_strsplit_def unset_def)
next
  case False
  let ?toks = "g_strsplit (CHR '','') s"
  show ?thesis
  proof (cases "list_ex bad_peer ?toks")
    case True
    with False parsePeerList_loop_bad [OF True, of None False] show ?thesis
      by (auto simp: parsePeerList_def split: prod.split)
  next
    case ok: False
    with False show ?thesis
      by (simp add: parsePeerList_def parsePeerList_loop_ok pool_members_def pool_of_def set_to_def
          unset_def)
  qed
qed

text \<open>
  C39. \<open>tgenoptionparser_parsePeerList\<close> is all or nothing: when one of the comma-separated tokens is
  not a valid peer the result is an error and no pool; otherwise it is the pool of the peers of all
  non-empty tokens, in their order, and it counts as set exactly when there is one.
\<close>

theorem parsePeerList_all_or_nothing:
  "parsePeerList (Some s) =
     (let toks = g_strsplit (CHR '','') s
      in if list_ex bad_peer toks then (Some MARKUP_INVALID_CONTENT, unset None)
         else if peers_of toks = [] then (None, unset None)
         else (None, set_to (Some (pool_members (peers_of toks)))))"
  by (rule parsePeerList_eq)

definition peer_text :: "string \<times> u16 \<Rightarrow> string" where
  "peer_text np = fst np @ CHR '':'' # show_nat (unat (snd np))"

lemma unat_u16_less: "unat (w :: u16) < 65536"
  using unsigned_less [where 'b = 16 and 'a = nat, of w] by simp

lemma parsePeer_text:
  assumes "CHR '':'' \<notin> set (fst np)"
  shows "parsePeer (Some (peer_text np)) = (None, set_to (Some (tgenpeer_newFromName (fst np) (snd np))))"
proof -
  let ?p = "unat (snd np)"
  have p: "?p < 65536" by (rule unat_u16_less)
  then have "?p < 2 ^ 64" by simp
  then have u: "unat (of_nat ?p :: u64) = ?p" by (rule unat_of_nat_u64)
  have "unat (of_nat ?p :: u64) \<le> unat G_MAXUINT16"
    unfolding u using p by (simp add: G_MAXUINT16_def)
  then have "(of_nat ?p :: u64) \<le> G_MAXUINT16" by (simp only: word_le_nat_alt)
  moreover have "ucast (of_nat ?p :: u64) = snd np"
    using p by (simp only: word_unat_eq_iff unsigned_ucast_eq u) (simp add: take_bit_nat_eq_self)
  ultimately show ?thesis
    using assms \<open>?p < 2 ^ 64\<close>
    by (simp add: parsePeer_def peer_text_def g_strsplit2_append strtoull_show_nat not_less Let_def
        del: of_nat_unat)
qed

lemma peers_of_texts:
  "list_all (\<lambda>np. CHR '':'' \<notin> set (fst np)) nps \<Longrightarrow>
     peers_of (List.map peer_text nps) = List.map (\<lambda>np. tgenpeer_newFromName (fst np) (snd np)) nps \<and>
     \<not> list_ex bad_peer (List.map peer_text nps)"
  by (induction nps) (auto simp: parsePeer_text bad_peer_def)

lemma comma_notin_peer_text:
  "CHR '','' \<notin> set (fst np) \<Longrightarrow> CHR '','' \<notin> set (peer_text np)"
proof -
  have "CHR '','' \<notin> set (show_nat n)" for n
    using show_nat_digits [of n] by (auto simp: ascii_isdigit_def)
  then show "CHR '','' \<notin> set (fst np) \<Longrightarrow> ?thesis" by (simp add: peer_text_def)
qed

text \<open>
  Reading back a written peer list: the text \<open>
  C31. C31. C31. C31. C31. name:port,name:port,\<dots>\<close> of any non-empty list of
  peers, whose names contain neither a colon nor a comma, gives the pool of exactly these peers.
\<close>

theorem parsePeerList_text:
  assumes "nps \<noteq> []"
    and "list_all (\<lambda>np. CHR '':'' \<notin> set (fst np) \<and> CHR '','' \<notin> set (fst np)) nps"
  shows "parsePeerList (Some (join_with (CHR '','') (List.map peer_text nps))) =
    (None, set_to (Some (pool_members (List.map (\<lambda>np. tgenpeer_newFromName (fst np) (snd np)) nps))))"
proof -
  let ?ts = "List.map peer_text nps"
  have ne: "join_with (CHR '','') ?ts \<noteq> []"
    using assms(1) by (intro join_with_not_Nil) (cases nps; simp add: peer_text_def)+
  have "list_all (\<lambda>x. CHR '','' \<notin> set x) ?ts"
    using assms(2) by (auto simp: list_all_iff comma_notin_peer_text)
  with assms(1) ne have "g_strsplit (CHR '','') (join_with (CHR '','') ?ts) = ?ts"
    by (simp add: g_strsplit_def split_all_join)
  moreover have "peers_of ?ts = List.map (\<lambda>np. tgenpeer_newFromName (fst np) (snd np)) nps"
    and "\<not> list_ex bad_peer ?ts"
    using peers_of_texts [of nps] assms(2) by (auto simp: list_all_iff)
  ultimately show ?thesis
    using assms(1) by (simp add: parsePeerList_eq Let_def)
qed

theorem parsePeerList_text_witness:
  "parsePeerList (Some ''a:80,b:443'') =
     (None, set_to (Some (pool_members [tgenpeer_newFromName ''a'' 80, tgenpeer_newFromName ''b'' 443])))"
  using parsePeerList_text [of "[(''a'', 80), (''b'', 443)]"] by (simp add: peer_text_def show_nat_eval)

end
