(* ===== verification/Transport.thy ===== *)
theory Transport
  imports Kernel OptionParser
begin

text \<open>
  \<open>tgen-transport.c\<close>: one TCP connection, direct or through a SOCKS5 proxy, up to the point where the
  payload can flow. A handler takes the transport and the world and returns the events the transport
  waits for next, \<open>{}\<close> being \<open>TGEN_EVENT_NONE\<close> (an error). \<open>None\<close> is a failed assertion or a null
  buffer being read. Peers are held by value; the log lines, whose only effect on a peer is to fill
  its cached string, are left out.
\<close>

datatype xport_state =
  XPORT_CONNECT | XPORT_PROXY_INIT | XPORT_PROXY_CHOICE | XPORT_PROXY_AUTHREQUEST
  | XPORT_PROXY_AUTHRESPONSE | XPORT_PROXY_REQUEST | XPORT_PROXY_RESPONSE_STATUS
  | XPORT_PROXY_RESPONSE_TYPE | XPORT_PROXY_RESPONSE_TYPE_IPV4 | XPORT_PROXY_RESPONSE_TYPE_NAME_LEN
  | XPORT_PROXY_RESPONSE_TYPE_NAME | XPORT_SUCCESSEOF | XPORT_SUCCESSOPEN | XPORT_ERROR

datatype xport_error =
  XPORT_ERR_NONE | XPORT_ERR_CONNECT | XPORT_ERR_PROXY_CHOICE | XPORT_ERR_PROXY_AUTH
  | XPORT_ERR_PROXY_ADDR | XPORT_ERR_PROXY_VERSION | XPORT_ERR_PROXY_STATUS | XPORT_ERR_WRITE
  | XPORT_ERR_READ | XPORT_ERR_MISC | XPORT_ERR_STALLOUT | XPORT_ERR_TIMEOUT

record xport_time =
  xt_start :: int
  xt_socketCreate :: int
  xt_socketConnect :: int
  xt_proxyInit :: int
  xt_proxyChoice :: int
  xt_proxyRequest :: int
  xt_proxyResponse :: int
  xt_lastProgress :: int

record transport =
  xp_state :: xport_state
  xp_error :: xport_error
  xp_string :: "string option"
  xp_socketD :: int
  xp_bytesCB :: bool \<comment> \<open>\<open>bytesCB.func\<close> is not NULL\<close>
  xp_local :: "peer option"
  xp_proxy :: "peer option"
  xp_username :: "string option"
  xp_password :: "string option"
  xp_remote :: "peer option"
  xp_time :: xport_time
  xp_socksBuffer :: "bytes option"
  xp_refcount :: int

section \<open>Printing\<close>

fun xport_stateToString :: "xport_state \<Rightarrow> string" where
  "xport_stateToString XPORT_CONNECT = ''CONNECT''"
| "xport_stateToString XPORT_PROXY_INIT = ''INIT''"
| "xport_stateToString XPORT_PROXY_CHOICE = ''CHOICE''"
| "xport_stateToString XPORT_PROXY_REQUEST = ''REQUEST''"
| "xport_stateToString XPORT_PROXY_AUTHREQUEST = ''AUTH_REQUEST''"
| "xport_stateToString XPORT_PROXY_AUTHRESPONSE = ''AUTH_RESPONSE''"
| "xport_stateToString XPORT_PROXY_RESPONSE_STATUS = ''RESPONSE_STATUS''"
| "xport_stateToString XPORT_PROXY_RESPONSE_TYPE = ''RESPONSE_TYPE''"
| "xport_stateToString XPORT_PROXY_RESPONSE_TYPE_IPV4 = ''RESPONSE_IPV4''"
| "xport_stateToString XPORT_PROXY_RESPONSE_TYPE_NAME_LEN = ''RESPONSE_NAMELEN''"
| "xport_stateToString XPORT_PROXY_RESPONSE_TYPE_NAME = ''RESPONSE_NAME''"
| "xport_stateToString XPORT_SUCCESSOPEN = ''SUCCESS_OPEN''"
| "xport_stateToString XPORT_SUCCESSEOF = ''SUCCESS_EOF''"
| "xport_stateToString XPORT_ERROR = ''ERROR''"

fun xport_errorToString :: "xport_error \<Rightarrow> string" where
  "xport_errorToString XPORT_ERR_NONE = ''NONE''"
| "xport_errorToString XPORT_ERR_CONNECT = ''CONNECT''"
| "xport_errorToString XPORT_ERR_PROXY_CHOICE = ''CHOICE''"
| "xport_errorToString XPORT_ERR_PROXY_AUTH = ''AUTH''"
| "xport_errorToString XPORT_ERR_PROXY_ADDR = ''ADDR''"
| "xport_errorToString XPORT_ERR_PROXY_VERSION = ''VERSION''"
| "xport_errorToString XPORT_ERR_PROXY_STATUS = ''STATUS''"
| "xport_errorToString XPORT_ERR_WRITE = ''WRITE''"
| "xport_errorToString XPORT_ERR_READ = ''READ''"
| "xport_errorToString XPORT_ERR_STALLOUT = ''STALLOUT''"
| "xport_errorToString XPORT_ERR_TIMEOUT = ''TIMEOUT''"
| "xport_errorToString XPORT_ERR_MISC = ''MISC''"

definition tgentransport_toString :: "transport \<Rightarrow> string \<times> transport" where
  "tgentransport_toString t =
     (case xp_string t of
        Some s \<Rightarrow> (s, t)
      | None \<Rightarrow>
          (let (localStr, l) = tgenpeer_toString (xp_local t);
               (proxyStr, p) = tgenpeer_toString (xp_proxy t);
               (remoteStr, r) = tgenpeer_toString (xp_remote t);
               s = ''[fd='' @ show_int (xp_socketD t) @ '',local='' @ localStr @ '',proxy='' @ proxyStr @
                   '',remote='' @ remoteStr @ '',state='' @ xport_stateToString (xp_state t) @
                   '',error='' @ xport_errorToString (xp_error t) @ '']''
           in (s, t\<lparr>xp_string := Some s, xp_local := l, xp_proxy := p, xp_remote := r\<rparr>)))"

definition xport_resetString :: "transport \<Rightarrow> transport" where
  "xport_resetString t = t\<lparr>xp_string := None\<rparr>"

definition xport_changeState :: "xport_state \<Rightarrow> transport \<Rightarrow> transport" where
  "xport_changeState s t = xport_resetString (t\<lparr>xp_state := s\<rparr>)"

definition xport_changeError :: "xport_error \<Rightarrow> transport \<Rightarrow> transport" where
  "xport_changeError e t = xport_resetString (t\<lparr>xp_error := e\<rparr>)"

section \<open>Construction\<close>

text \<open>
  The socket calls of \<open>tgentransport_newActive\<close>, which return once and for all: the descriptor,
  \<open>bind\<close>'s and \<open>connect\<close>'s failure, the local address, and the environment variables \<open>TGENIP\<close> and
  \<open>TGENSOCKS\<close>.
\<close>

record sockets =
  so_socket :: int
  so_bind_ok :: bool
  so_connect :: "errno option"
  so_getsockname :: "(u32 \<times> u16) option"
  so_TGENIP :: "string option"
  so_TGENSOCKS :: "string option"

definition tgentransport_newHelper :: "sockets \<Rightarrow> int \<Rightarrow> int \<Rightarrow> int \<Rightarrow> peer option \<Rightarrow> string option \<Rightarrow>
    string option \<Rightarrow> peer option \<Rightarrow> bool \<Rightarrow> transport" where
  "tgentransport_newHelper so socketD startedTime createdTime proxy username password peer bytesCB =
     \<lparr>xp_state = XPORT_CONNECT, xp_error = XPORT_ERR_NONE, xp_string = None, xp_socketD = socketD,
      xp_bytesCB = bytesCB,
      xp_local = (case so_getsockname so of Some (ip, port) \<Rightarrow> Some (tgenpeer_newFromIP ip port)
                                          | None \<Rightarrow> None),
      xp_proxy = map_option tgenpeer_ref proxy,
      xp_username = (if proxy \<noteq> None then username else None),
      xp_password = (if proxy \<noteq> None then password else None),
      xp_remote = map_option tgenpeer_ref peer,
      xp_time = \<lparr>xt_start = startedTime, xt_socketCreate = createdTime, xt_socketConnect = - 1,
                 xt_proxyInit = - 1, xt_proxyChoice = - 1, xt_proxyRequest = - 1,
                 xt_proxyResponse = - 1, xt_lastProgress = createdTime\<rparr>,
      xp_socksBuffer = None, xp_refcount = 1\<rparr>"

definition getProxyFromEnv :: "sockets \<Rightarrow> peer option" where
  "getProxyFromEnv so =
     (case so_TGENSOCKS so of
        None \<Rightarrow> None
      | Some s \<Rightarrow>
          (case parsePeer (Some s) of
             (Some _, _) \<Rightarrow> None
           | (None, peerOption) \<Rightarrow> if isSet peerOption then opt_value peerOption else None))"

text \<open>What \<open>newActive\<close> did: the transport or NULL, and the socket calls that name an address.\<close>

datatype sockcall = Connect u32 u16 | Close | Shutdown

definition tgentransport_newActive :: "resolver \<Rightarrow> sockets \<Rightarrow> u32 \<Rightarrow> peer pool option topt \<Rightarrow> bool \<Rightarrow>
    peer option \<Rightarrow> string option \<Rightarrow> string option \<Rightarrow> world \<Rightarrow> transport option \<times> sockcall list \<times> world" where
  "tgentransport_newActive db so rand peers bytesCB socksProxy socksUsername socksPassword w =
     (case (if isSet peers then (case opt_value peers of Some pool \<Rightarrow> tgenpool_getRandom rand pool
                                                       | None \<Rightarrow> None) else None) of
        None \<Rightarrow> (None, [], w)
      | Some peer \<Rightarrow>
          (let (started, w1) = g_get_monotonic_time w;
               socketD = so_socket so;
               (created, w2) = g_get_monotonic_time w1
           in if socketD < 0 then (None, [], w2)
              else if so_TGENIP so \<noteq> None \<and> \<not> so_bind_ok so then (None, [Close], w2)
              else
                (let envProxy = getProxyFromEnv so;
                     proxy0 = (if envProxy \<noteq> None then envProxy else socksProxy);
                     connectee = tgenpeer_performLookups db (case proxy0 of Some p \<Rightarrow> p | None \<Rightarrow> peer);
                     target = Connect (tgenpeer_getNetworkIP connectee) (tgenpeer_getNetworkPort connectee);
                     proxy = (if proxy0 \<noteq> None then Some connectee else None);
                     remote = (if proxy0 \<noteq> None then peer else connectee);
                     transport = tgentransport_newHelper so socketD started created proxy
                       (if proxy \<noteq> None then socksUsername else None)
                       (if proxy \<noteq> None then socksPassword else None) (Some remote) bytesCB;
                     transport' = (if envProxy \<noteq> None
                       then transport\<lparr>xp_proxy := Option.bind (xp_proxy transport) tgenpeer_unref\<rparr>
                       else transport)
                 in case so_connect so of
                      Some e \<Rightarrow> if e \<noteq> EINPROGRESS then (None, [target, Close], w2)
                                else (Some transport', [target], w2)
                    | None \<Rightarrow> (Some transport', [target], w2))))"

definition tgentransport_newPassive :: "sockets \<Rightarrow> int \<Rightarrow> int \<Rightarrow> int \<Rightarrow> peer option \<Rightarrow> bool \<Rightarrow> transport" where
  "tgentransport_newPassive so socketD started created peer bytesCB =
     tgentransport_newHelper so socketD started created None None None peer bytesCB"

text \<open>The socket calls of \<open>_tgentransport_free\<close>; it also drops its references to the peers.\<close>

definition tgentransport_free :: "transport \<Rightarrow> sockcall list" where
  "tgentransport_free t =
     (if xp_socketD t > 0
      then (if xp_error t = XPORT_ERR_NONE then [Shutdown] else []) @ [Close] else [])"

definition tgentransport_ref :: "transport \<Rightarrow> transport" where
  "tgentransport_ref t = t\<lparr>xp_refcount := xp_refcount t + 1\<rparr>"

definition tgentransport_unref :: "transport \<Rightarrow> transport option" where
  "tgentransport_unref t =
     (let t' = t\<lparr>xp_refcount := xp_refcount t - 1\<rparr> in if xp_refcount t' = 0 then None else Some t')"

interpretation xport_rc: refcounted xp_refcount tgentransport_ref tgentransport_unref
  by unfold_locales (auto simp: tgentransport_ref_def tgentransport_unref_def Let_def)

section \<open>Bytes\<close>

definition xport_bytesCB :: "transport \<Rightarrow> nat \<times> nat \<Rightarrow> world \<Rightarrow> world" where
  "xport_bytesCB t rw w = (if xp_bytesCB t then w\<lparr>w_bytesCB := w_bytesCB w @ [rw]\<rparr> else w)"

definition tgentransport_write :: "bytes \<Rightarrow> transport \<Rightarrow> world \<Rightarrow> (errno + nat) \<times> transport \<times> world" where
  "tgentransport_write buffer t w =
     (case sys_write buffer w of (r, w') \<Rightarrow>
        (case r of
           Inl e \<Rightarrow>
             (r, if would_block e then t
                 else xport_changeError XPORT_ERR_WRITE (xport_changeState XPORT_ERROR t), w')
         | Inr n \<Rightarrow>
             if n = 0
             then (r, xport_changeError XPORT_ERR_WRITE (xport_changeState XPORT_ERROR t), w')
             else (r, t, xport_bytesCB t (0, n) w')))"

definition tgentransport_read :: "nat \<Rightarrow> transport \<Rightarrow> world \<Rightarrow> (errno + bytes) \<times> transport \<times> world" where
  "tgentransport_read len t w =
     (case sys_read len w of (r, w') \<Rightarrow>
        (case r of
           Inl e \<Rightarrow>
             (r, if would_block e then t
                 else xport_changeError XPORT_ERR_READ (xport_changeState XPORT_ERROR t), w')
         | Inr bs \<Rightarrow>
             if bs = []
             then (r, if xp_state t = XPORT_SUCCESSOPEN then xport_changeState XPORT_SUCCESSEOF t
                      else xport_changeError XPORT_ERR_READ (xport_changeState XPORT_ERROR t), w')
             else (r, t, xport_bytesCB t (length bs, 0) w')))"

section \<open>The SOCKS handshake\<close>

abbreviation has_creds :: "transport \<Rightarrow> bool" where
  "has_creds t \<equiv> xp_username t \<noteq> None \<or> xp_password t \<noteq> None"

text \<open>
  The common tail of the three senders: write what is buffered; an error drops the buffer, a partial
  write keeps the rest, a complete one runs the sender's own \<open>finish\<close> and waits for the reply.
\<close>

definition socks_send :: "(transport \<Rightarrow> world \<Rightarrow> transport \<times> world) \<Rightarrow> transport \<Rightarrow> world \<Rightarrow>
    (tgen_event set \<times> transport \<times> world) option" where
  "socks_send finish t w =
     (case xp_socksBuffer t of
        None \<Rightarrow> None
      | Some buf \<Rightarrow>
          (case tgentransport_write buf t w of (bytesSent, t1, w1) \<Rightarrow>
             (case bytesSent of
                Inl _ \<Rightarrow> Some ({}, t1\<lparr>xp_socksBuffer := None\<rparr>, w1)
              | Inr n \<Rightarrow>
                  if n = 0 \<or> n > length buf then Some ({}, t1\<lparr>xp_socksBuffer := None\<rparr>, w1)
                  else if length (drop n buf) > 0
                  then Some ({EV_WRITE}, t1\<lparr>xp_socksBuffer := Some (drop n buf)\<rparr>, w1)
                  else (case finish (t1\<lparr>xp_socksBuffer := None\<rparr>) w1 of
                          (t2, w2) \<Rightarrow> Some ({EV_READ}, t2, w2)))))"

definition socks_init_msg :: "transport \<Rightarrow> bytes" where
  "socks_init_msg t =
     (if has_creds t then [CHR 0x05, CHR 0x01, CHR 0x02] else [CHR 0x05, CHR 0x01, CHR 0x00])"

definition finish_init :: "transport \<Rightarrow> world \<Rightarrow> transport \<times> world" where
  "finish_init t w =
     (case g_get_monotonic_time w of (now, w') \<Rightarrow>
        (xport_changeState XPORT_PROXY_CHOICE
           (t\<lparr>xp_time := (xp_time t)\<lparr>xt_proxyInit := now, xt_lastProgress := now\<rparr>\<rparr>), w'))"

definition sendSocksInit :: "transport \<Rightarrow> world \<Rightarrow> (tgen_event set \<times> transport \<times> world) option" where
  "sendSocksInit t w =
     (case xp_socksBuffer t of
        Some _ \<Rightarrow> socks_send finish_init t w
      | None \<Rightarrow>
          do {
            g_assert (length (socks_init_msg t) = 3);
            socks_send finish_init (t\<lparr>xp_socksBuffer := Some (socks_init_msg t)\<rparr>) w
          })"

definition buffered :: "transport \<Rightarrow> bytes" where
  "buffered t = (case xp_socksBuffer t of None \<Rightarrow> [] | Some b \<Rightarrow> b)"

text \<open>The receive helper keeps what has come so far, or drops the buffer on any failed read.\<close>

definition socksReceiveHelper :: "nat \<Rightarrow> transport \<Rightarrow> world \<Rightarrow> (transport \<times> world) option" where
  "socksReceiveHelper requestedAmount t w =
     (let buf = buffered t in
      do {
        g_assert (length buf \<le> requestedAmount);
        let readAmount = requestedAmount - length buf;
        let (bytesReceived, t1, w1) = tgentransport_read readAmount t w;
        (case bytesReceived of
           Inl _ \<Rightarrow> Some (t1\<lparr>xp_socksBuffer := None\<rparr>, w1)
         | Inr bs \<Rightarrow>
             if bs = [] \<or> length bs > readAmount then Some (t1\<lparr>xp_socksBuffer := None\<rparr>, w1)
             else Some (t1\<lparr>xp_socksBuffer := Some (buf @ bs)\<rparr>, w1))
      })"

text \<open>
  The common shape of the receivers: nothing buffered is an error, a short buffer waits for more, a
  full one is handed to the handler.
\<close>

definition socks_receive :: "nat \<Rightarrow> (bytes \<Rightarrow> transport \<Rightarrow> world \<Rightarrow> (tgen_event set \<times> transport \<times> world) option) \<Rightarrow>
    transport \<Rightarrow> world \<Rightarrow> (tgen_event set \<times> transport \<times> world) option" where
  "socks_receive n handle t w =
     do {
       (t1, w1) \<leftarrow> socksReceiveHelper n t w;
       (case xp_socksBuffer t1 of
          None \<Rightarrow> Some ({}, t1, w1)
        | Some buf \<Rightarrow> if length buf < n then Some ({EV_READ}, t1, w1) else handle buf t1 w1)
     }"

definition xport_fail :: "xport_error \<Rightarrow> transport \<Rightarrow> transport" where
  "xport_fail e t = xport_changeError e (xport_changeState XPORT_ERROR t)"

definition handleSocksChoice :: "bytes \<Rightarrow> transport \<Rightarrow> world \<Rightarrow>
    (tgen_event set \<times> transport \<times> world) option" where
  "handleSocksChoice buf t w =
     (case g_get_monotonic_time w of (now, w') \<Rightarrow>
        (let t1 = t\<lparr>xp_time := (xp_time t)\<lparr>xt_proxyChoice := now, xt_lastProgress := now\<rparr>\<rparr>;
             versionSupported = (buf ! 0 = CHR 0x05);
             authSupported = (if has_creds t1 then buf ! 1 = CHR 0x02 else buf ! 1 = CHR 0x00);
             t2 = t1\<lparr>xp_socksBuffer := None\<rparr>
         in if versionSupported \<and> authSupported
            then Some ({EV_WRITE},
                   xport_changeState (if has_creds t2 then XPORT_PROXY_AUTHREQUEST
                                      else XPORT_PROXY_REQUEST) t2, w')
            else Some ({}, xport_fail XPORT_ERR_PROXY_CHOICE t2, w')))"

definition receiveSocksChoice :: "transport \<Rightarrow> world \<Rightarrow> (tgen_event set \<times> transport \<times> world) option" where
  "receiveSocksChoice = socks_receive 2 handleSocksChoice"

text \<open>At most 255, counted in UTF-8 characters.\<close>

definition getTruncatedStrLen :: "string \<Rightarrow> nat" where
  "getTruncatedStrLen s = (let len = g_utf8_strlen s in if len > 255 then 255 else len)"

definition socks_auth_msg :: "transport \<Rightarrow> bytes" where
  "socks_auth_msg t =
     (let userlen = (case xp_username t of Some u \<Rightarrow> getTruncatedStrLen u | None \<Rightarrow> 1);
          user = (case xp_username t of Some u \<Rightarrow> u | None \<Rightarrow> [NUL]);
          passlen = (case xp_password t of Some p \<Rightarrow> getTruncatedStrLen p | None \<Rightarrow> 1);
          pass = (case xp_password t of Some p \<Rightarrow> p | None \<Rightarrow> [NUL])
      in [CHR 0x01, char_of userlen] @ take userlen user @ [char_of passlen] @ take passlen pass)"

definition finish_auth :: "transport \<Rightarrow> world \<Rightarrow> transport \<times> world" where
  "finish_auth t w = (xport_changeState XPORT_PROXY_AUTHRESPONSE t, w)"

definition sendSocksAuth :: "transport \<Rightarrow> world \<Rightarrow> (tgen_event set \<times> transport \<times> world) option" where
  "sendSocksAuth t w =
     (case xp_socksBuffer t of
        Some _ \<Rightarrow> socks_send finish_auth t w
      | None \<Rightarrow> socks_send finish_auth (t\<lparr>xp_socksBuffer := Some (socks_auth_msg t)\<rparr>) w)"

definition receiveSocksAuth :: "transport \<Rightarrow> world \<Rightarrow> (tgen_event set \<times> transport \<times> world) option" where
  "receiveSocksAuth =
     socks_receive 2 (\<lambda>buf t w.
       let versionMatch = (buf ! 0 = CHR 0x01);
           authSuccess = (buf ! 1 = CHR 0x00);
           t1 = t\<lparr>xp_socksBuffer := None\<rparr>
       in if \<not> versionMatch then Some ({}, xport_fail XPORT_ERR_PROXY_VERSION t1, w)
          else if \<not> authSuccess then Some ({}, xport_fail XPORT_ERR_PROXY_AUTH t1, w)
          else Some ({EV_WRITE}, xport_changeState XPORT_PROXY_REQUEST t1, w))"

definition g_str_has_suffix :: "string \<Rightarrow> string \<Rightarrow> bool" where
  "g_str_has_suffix s suf \<longleftrightarrow> length suf \<le> length s \<and> drop (length s - length suf) s = suf"

definition is_onion :: "peer \<Rightarrow> bool" where
  "is_onion p = (case tgenpeer_getName p of Some name \<Rightarrow> g_str_has_suffix name ''.onion'' | None \<Rightarrow> False)"

text \<open>The request message and the remote peer after building it (only case 3a looks it up).\<close>

definition socks_request_msg :: "resolver \<Rightarrow> peer \<Rightarrow> bytes \<times> peer" where
  "socks_request_msg db remote =
     (if is_onion remote then
        (let name = (case tgenpeer_getName remote of Some n \<Rightarrow> n | None \<Rightarrow> []);
             nameLength = getTruncatedStrLen name
         in ([CHR 0x05, CHR 0x01, CHR 0x00, CHR 0x03, char_of nameLength] @ take nameLength name @
             be_bytes16 (tgenpeer_getNetworkPort remote), remote))
      else
        (let r = tgenpeer_performLookups db remote
         in ([CHR 0x05, CHR 0x01, CHR 0x00, CHR 0x01] @ be_bytes32 (tgenpeer_getNetworkIP r) @
             be_bytes16 (tgenpeer_getNetworkPort r), r)))"

definition finish_request :: "transport \<Rightarrow> world \<Rightarrow> transport \<times> world" where
  "finish_request t w =
     (case g_get_monotonic_time w of (now, w') \<Rightarrow>
        (xport_changeState XPORT_PROXY_RESPONSE_STATUS
           (t\<lparr>xp_time := (xp_time t)\<lparr>xt_proxyRequest := now, xt_lastProgress := now\<rparr>\<rparr>), w'))"

definition sendSocksRequest :: "resolver \<Rightarrow> transport \<Rightarrow> world \<Rightarrow>
    (tgen_event set \<times> transport \<times> world) option" where
  "sendSocksRequest db t w =
     (case xp_socksBuffer t of
        Some _ \<Rightarrow> socks_send finish_request t w
      | None \<Rightarrow>
          (case xp_remote t of
             None \<Rightarrow> None
           | Some remote \<Rightarrow>
               (case socks_request_msg db remote of (msg, r) \<Rightarrow>
                  socks_send finish_request (t\<lparr>xp_socksBuffer := Some msg, xp_remote := Some r\<rparr>) w)))"

definition finish_response :: "transport \<Rightarrow> world \<Rightarrow> (tgen_event set \<times> transport \<times> world) option" where
  "finish_response t w =
     (case g_get_monotonic_time w of (now, w') \<Rightarrow>
        Some ({EV_DONE},
          xport_changeState XPORT_SUCCESSOPEN
            (t\<lparr>xp_time := (xp_time t)\<lparr>xt_proxyResponse := now, xt_lastProgress := now\<rparr>\<rparr>), w'))"

definition receiveResponseTypeName :: "transport \<Rightarrow> world \<Rightarrow>
    (tgen_event set \<times> transport \<times> world) option" where
  "receiveResponseTypeName t w =
     (case xp_socksBuffer t of
        None \<Rightarrow> None
      | Some b0 \<Rightarrow>
          (let nameLength = (case b0 of [] \<Rightarrow> 0 | c # _ \<Rightarrow> (of_char c :: nat)) in
           socks_receive (nameLength + 3)
             (\<lambda>buf t' w'. finish_response (t'\<lparr>xp_socksBuffer := None\<rparr>) w') t w))"

definition receiveResponseTypeNameLen :: "transport \<Rightarrow> world \<Rightarrow>
    (tgen_event set \<times> transport \<times> world) option" where
  "receiveResponseTypeNameLen =
     socks_receive 1 (\<lambda>buf t w.
       receiveResponseTypeName (xport_changeState XPORT_PROXY_RESPONSE_TYPE_NAME t) w)"

definition receiveResponseTypeIPv4 :: "transport \<Rightarrow> world \<Rightarrow>
    (tgen_event set \<times> transport \<times> world) option" where
  "receiveResponseTypeIPv4 =
     socks_receive 6 (\<lambda>buf t w. finish_response (t\<lparr>xp_socksBuffer := None\<rparr>) w)"

definition receiveResponseType :: "transport \<Rightarrow> world \<Rightarrow>
    (tgen_event set \<times> transport \<times> world) option" where
  "receiveResponseType =
     socks_receive 2 (\<lambda>buf t w.
       let addressType = buf ! 1; t1 = t\<lparr>xp_socksBuffer := None\<rparr> in
       if addressType = CHR 0x01
       then receiveResponseTypeIPv4 (xport_changeState XPORT_PROXY_RESPONSE_TYPE_IPV4 t1) w
       else if addressType = CHR 0x03
       then receiveResponseTypeNameLen (xport_changeState XPORT_PROXY_RESPONSE_TYPE_NAME_LEN t1) w
       else Some ({}, xport_fail XPORT_ERR_PROXY_ADDR t1, w))"

definition receiveResponseStatus :: "transport \<Rightarrow> world \<Rightarrow>
    (tgen_event set \<times> transport \<times> world) option" where
  "receiveResponseStatus =
     socks_receive 2 (\<lambda>buf t w.
       let version = buf ! 0; status = buf ! 1; t1 = t\<lparr>xp_socksBuffer := None\<rparr> in
       if version = CHR 0x05 \<and> status = CHR 0x00
       then receiveResponseType (xport_changeState XPORT_PROXY_RESPONSE_TYPE t1) w
       else Some ({}, xport_fail (if version \<noteq> CHR 0x05 then XPORT_ERR_PROXY_VERSION
                                 else XPORT_ERR_PROXY_STATUS) t1, w))"

section \<open>The event handler\<close>

definition xport_step :: "resolver \<Rightarrow> tgen_event set \<Rightarrow> transport \<Rightarrow> world \<Rightarrow>
    (tgen_event set \<times> transport \<times> world) option" where
  "xport_step db events t w =
     (case xp_state t of
        XPORT_CONNECT \<Rightarrow> Some ({}, t, w)
      | XPORT_PROXY_INIT \<Rightarrow>
          if EV_WRITE \<notin> events then Some ({EV_WRITE}, t, w) else sendSocksInit t w
      | XPORT_PROXY_CHOICE \<Rightarrow>
          if EV_READ \<notin> events then Some ({EV_READ}, t, w) else receiveSocksChoice t w
      | XPORT_PROXY_AUTHREQUEST \<Rightarrow>
          if EV_WRITE \<notin> events then Some ({EV_WRITE}, t, w) else sendSocksAuth t w
      | XPORT_PROXY_AUTHRESPONSE \<Rightarrow>
          if EV_READ \<notin> events then Some ({EV_READ}, t, w) else receiveSocksAuth t w
      | XPORT_PROXY_REQUEST \<Rightarrow>
          if EV_WRITE \<notin> events then Some ({EV_WRITE}, t, w) else sendSocksRequest db t w
      | XPORT_PROXY_RESPONSE_STATUS \<Rightarrow>
          if EV_READ \<notin> events then Some ({EV_READ}, t, w) else receiveResponseStatus t w
      | XPORT_PROXY_RESPONSE_TYPE \<Rightarrow>
          if EV_READ \<notin> events then Some ({EV_READ}, t, w) else receiveResponseType t w
      | XPORT_PROXY_RESPONSE_TYPE_IPV4 \<Rightarrow>
          if EV_READ \<notin> events then Some ({EV_READ}, t, w) else receiveResponseTypeIPv4 t w
      | XPORT_PROXY_RESPONSE_TYPE_NAME_LEN \<Rightarrow>
          if EV_READ \<notin> events then Some ({EV_READ}, t, w) else receiveResponseTypeNameLen t w
      | XPORT_PROXY_RESPONSE_TYPE_NAME \<Rightarrow>
          if EV_READ \<notin> events then Some ({EV_READ}, t, w) else receiveResponseTypeName t w
      | XPORT_SUCCESSEOF \<Rightarrow> Some ({EV_DONE}, t, w)
      | XPORT_SUCCESSOPEN \<Rightarrow> Some ({EV_DONE}, t, w)
      | XPORT_ERROR \<Rightarrow> Some ({}, t, w))"

text \<open>
  In state \<open>CONNECT\<close> the C code calls itself once after moving to \<open>PROXY_INIT\<close>; the second call is the
  dispatch \<open>xport_step\<close> on that state.
\<close>

definition tgentransport_onEvent :: "resolver \<Rightarrow> tgen_event set \<Rightarrow> transport \<Rightarrow> world \<Rightarrow>
    (tgen_event set \<times> transport \<times> world) option" where
  "tgentransport_onEvent db events t0 w =
     (let t = (if EV_DONE \<in> events \<and> xp_state t0 = XPORT_CONNECT
               then xport_changeError XPORT_ERR_CONNECT (xport_changeState XPORT_ERROR t0) else t0)
      in if xp_state t = XPORT_CONNECT then
           if EV_WRITE \<notin> events then Some ({EV_WRITE}, t, w)
           else (case g_get_monotonic_time w of (now, w') \<Rightarrow>
                   (let t1 = t\<lparr>xp_time := (xp_time t)\<lparr>xt_socketConnect := now, xt_lastProgress := now\<rparr>\<rparr>
                    in if xp_proxy t1 \<noteq> None
                       then xport_step db events (xport_changeState XPORT_PROXY_INIT t1) w'
                       else Some ({EV_DONE}, xport_changeState XPORT_SUCCESSOPEN t1, w')))
         else xport_step db events t w)"

definition tgentransport_wantsEvents :: "transport \<Rightarrow> bool" where
  "tgentransport_wantsEvents t \<longleftrightarrow>
     xp_state t \<noteq> XPORT_SUCCESSOPEN \<and> xp_state t \<noteq> XPORT_SUCCESSEOF \<and> xp_state t \<noteq> XPORT_ERROR"

definition usecs_since :: "int \<Rightarrow> int \<Rightarrow> int" where
  "usecs_since start v = (if v \<ge> 0 \<and> start \<ge> 0 then v - start else - 1)"

definition tgentransport_getTimeStatusReport :: "transport \<Rightarrow> string" where
  "tgentransport_getTimeStatusReport t =
     (let tm = xp_time t; since = (\<lambda>v. show_int (usecs_since (xt_start tm) v))
      in ''usecs-to-socket-create='' @ since (xt_socketCreate tm) @
         '',usecs-to-socket-connect='' @ since (xt_socketConnect tm) @
         '',usecs-to-proxy-init='' @ since (xt_proxyInit tm) @
         '',usecs-to-proxy-choice='' @ since (xt_proxyChoice tm) @
         '',usecs-to-proxy-request='' @ since (xt_proxyRequest tm) @
         '',usecs-to-proxy-response='' @ since (xt_proxyResponse tm))"

definition tgentransport_getDescriptor :: "transport \<Rightarrow> int" where
  "tgentransport_getDescriptor t = xp_socketD t"

definition tgentransport_getStartTimestamp :: "transport \<Rightarrow> int" where
  "tgentransport_getStartTimestamp t = xt_start (xp_time t)"

definition tgentransport_checkTimeout :: "int \<Rightarrow> int \<Rightarrow> transport \<Rightarrow> world \<Rightarrow> bool \<times> transport \<times> world" where
  "tgentransport_checkTimeout stalloutUSecs timeoutUSecs t w =
     (if \<not> tgentransport_wantsEvents t then (False, t, w)
      else (case g_get_monotonic_time w of (now, w') \<Rightarrow>
              (let stalled = (now \<ge> xt_lastProgress (xp_time t) + stalloutUSecs);
                   tookTooLong = (now \<ge> xt_start (xp_time t) + timeoutUSecs)
               in if (stalloutUSecs > 0 \<and> stalled) \<or> (timeoutUSecs > 0 \<and> tookTooLong)
                  then (True,
                        xport_changeError (if stalloutUSecs > 0 \<and> stalled then XPORT_ERR_STALLOUT
                                           else XPORT_ERR_TIMEOUT) t, w')
                  else (False, t, w'))))"

end
