(* ===== verification/Socks.thy ===== *)
theory Socks
  imports Transport "HOL-Library.Sublist"
begin

text \<open>
  The correctness of the SOCKS5 handshake of \<open>tgen-transport.c\<close>: what a transport has written and read
  in every state of the handshake, for every way the kernel may split the reads and writes.
\<close>

section \<open>Senders and receivers\<close>

text \<open>
  The three outcomes of a send with a non-empty buffer: failed, partial, complete. The rule is also
  the statement that a send with a buffer never aborts.
\<close>

lemma socks_send_cases:
  assumes "xp_socksBuffer t = Some b" "b \<noteq> []"
  obtains (failed) t' w' where "socks_send fin t w = Some ({}, t', w')"
      "w_in w' = w_in w" "w_out w' = w_out w"
  | (partly) n w' where "socks_send fin t w = Some ({EV_WRITE}, t\<lparr>xp_socksBuffer := Some (drop n b)\<rparr>, w')"
      "n < length b" "w_in w' = w_in w" "w_out w' = w_out w @ take n b"
  | (completely) w1 where "socks_send fin t w =
        (case fin (t\<lparr>xp_socksBuffer := None\<rparr>) w1 of (t2, w2) \<Rightarrow> Some ({EV_READ}, t2, w2))"
      "w_in w1 = w_in w" "w_out w1 = w_out w @ b"
proof -
  obtain r w1 where wr: "sys_write b w = (r, w1)" by (cases "sys_write b w")
  note frame = sys_write_frame [OF wr]
  show thesis
  proof (cases r)
    case (Inl e)
    with wr frame sys_write_Inl [of b w e w1] assms show thesis
      by (intro failed [of "(if would_block e then t else xport_changeError XPORT_ERR_WRITE
            (xport_changeState XPORT_ERROR t))\<lparr>xp_socksBuffer := None\<rparr>" w1])
         (auto simp: socks_send_def tgentransport_write_def)
  next
    case (Inr n)
    with wr have n: "n \<le> length b" "w_out w1 = w_out w @ take n b"
      using sys_write_Inr [of b w n w1] by auto
    let ?w = "xport_bytesCB t (0, n) w1"
    have cb: "w_in ?w = w_in w" "w_out ?w = w_out w1" using frame by (simp_all add: xport_bytesCB_def)
    consider "n = 0" | "0 < n" "n < length b" | "n = length b" "n \<noteq> 0" using n(1) by linarith
    then show thesis
    proof cases
      case 1
      with Inr wr frame n assms show thesis
        by (intro failed [of "(xport_changeError XPORT_ERR_WRITE
              (xport_changeState XPORT_ERROR t))\<lparr>xp_socksBuffer := None\<rparr>" w1])
           (auto simp: socks_send_def tgentransport_write_def)
    next
      case 2
      with Inr wr n cb assms show thesis
        by (intro partly [of n ?w]) (auto simp: socks_send_def tgentransport_write_def)
    next
      case 3
      with Inr wr n cb assms show thesis
        by (intro completely [of ?w]) (auto simp: socks_send_def tgentransport_write_def)
    qed
  qed
qed

text \<open>Likewise for a receiver that has fewer than the \<open>n\<close> bytes it asks for.\<close>

lemma socks_receive_cases:
  assumes "length (buffered t) < n"
  obtains (failed) t' w' where "socks_receive n handle t w = Some ({}, t', w')"
      "w_out w' = w_out w"
  | (partly) bs w' where
      "socks_receive n handle t w =
         Some ({EV_READ}, t\<lparr>xp_socksBuffer := Some (buffered t @ bs)\<rparr>, w')"
      "length (buffered t @ bs) < n" "bs \<noteq> []" "w_in w' = w_in w @ bs" "w_out w' = w_out w"
  | (completely) bs w1 where
      "socks_receive n handle t w =
         handle (buffered t @ bs) (t\<lparr>xp_socksBuffer := Some (buffered t @ bs)\<rparr>) w1"
      "length (buffered t @ bs) = n" "w_in w1 = w_in w @ bs" "w_out w1 = w_out w"
proof -
  let ?m = "n - length (buffered t)"
  obtain r w1 where rd: "sys_read ?m w = (r, w1)" by (cases "sys_read ?m w")
  note frame = sys_read_frame [OF rd]
  have helper: "socksReceiveHelper n t w =
      (case tgentransport_read ?m t w of (bytesReceived, t1, w1) \<Rightarrow>
        (case bytesReceived of
           Inl _ \<Rightarrow> Some (t1\<lparr>xp_socksBuffer := None\<rparr>, w1)
         | Inr bs \<Rightarrow>
             if bs = [] \<or> length bs > ?m then Some (t1\<lparr>xp_socksBuffer := None\<rparr>, w1)
             else Some (t1\<lparr>xp_socksBuffer := Some (buffered t @ bs)\<rparr>, w1)))"
    using assms by (simp add: socksReceiveHelper_def Let_def)
  show thesis
  proof (cases r)
    case (Inl e)
    with rd frame show thesis
      by (intro failed [of "(if would_block e then t else xport_changeError XPORT_ERR_READ
            (xport_changeState XPORT_ERROR t))\<lparr>xp_socksBuffer := None\<rparr>" w1])
         (auto simp: socks_receive_def helper tgentransport_read_def)
  next
    case (Inr bs)
    with rd have len: "length bs \<le> ?m" and inn: "w_in w1 = w_in w @ bs"
      using sys_read_Inr [of ?m w bs w1] by auto
    let ?w = "xport_bytesCB t (length bs, 0) w1"
    have cb: "w_in ?w = w_in w @ bs" "w_out ?w = w_out w" using frame inn
      by (simp_all add: xport_bytesCB_def)
    consider "bs = []" | "bs \<noteq> []" "length bs < ?m" | "bs \<noteq> []" "length bs = ?m"
      using len by fastforce
    then show thesis
    proof cases
      case 1
      with Inr rd frame show thesis
        by (intro failed [of "(if xp_state t = XPORT_SUCCESSOPEN then xport_changeState XPORT_SUCCESSEOF t
              else xport_changeError XPORT_ERR_READ (xport_changeState XPORT_ERROR t))\<lparr>xp_socksBuffer := None\<rparr>" w1])
           (auto simp: socks_receive_def helper tgentransport_read_def)
    next
      case 2
      with Inr rd cb show thesis
        by (intro partly [of bs ?w]) (auto simp: socks_receive_def helper tgentransport_read_def)
    next
      case 3
      with Inr rd cb assms show thesis
        by (intro completely [of bs ?w]) (auto simp: socks_receive_def helper tgentransport_read_def)
    qed
  qed
qed

section \<open>The dialogue\<close>

text \<open>
  The three messages of the client and the fixed parts of the server's replies, for a transport that
  was created as \<open>t0\<close> for the remote peer \<open>r0\<close>.
\<close>

definition auth_part :: "transport \<Rightarrow> bytes" where
  "auth_part t0 = (if has_creds t0 then socks_auth_msg t0 else [])"

definition client_bytes :: "resolver \<Rightarrow> transport \<Rightarrow> peer \<Rightarrow> bytes" where
  "client_bytes db t0 r0 = socks_init_msg t0 @ auth_part t0 @ fst (socks_request_msg db r0)"

definition choice_reply :: "transport \<Rightarrow> bytes" where
  "choice_reply t0 = [CHR 0x05, if has_creds t0 then CHR 0x02 else CHR 0x00]"

definition auth_reply :: "transport \<Rightarrow> bytes" where
  "auth_reply t0 = (if has_creds t0 then [CHR 0x01, CHR 0x00] else [])"

definition granted :: "transport \<Rightarrow> bytes" where
  "granted t0 = choice_reply t0 @ auth_reply t0 @ [CHR 0x05, CHR 0x00]"

text \<open>An address in the final reply: IPv4 and port, or a counted name and port.\<close>

definition bind_address :: "bytes \<Rightarrow> bool" where
  "bind_address a \<longleftrightarrow>
     (hd a = CHR 0x01 \<and> length a = 7) \<or>
     (hd a = CHR 0x03 \<and> length a \<ge> 2 \<and> length a = of_char (a ! 1) + 4)"

text \<open>What has been read and written, state by state.\<close>

definition sending :: "transport \<Rightarrow> bytes \<Rightarrow> bytes \<Rightarrow> bytes \<Rightarrow> bool" where
  "sending t before msg out \<longleftrightarrow>
     (case xp_socksBuffer t of None \<Rightarrow> out = before | Some b \<Rightarrow> b \<noteq> [] \<and> out @ b = before @ msg)"

definition dialogue :: "resolver \<Rightarrow> transport \<Rightarrow> peer \<Rightarrow> transport \<Rightarrow> bytes \<Rightarrow> bytes \<Rightarrow> bool" where
  "dialogue db t0 r0 t inn out =
     (let b = buffered t; auth = socks_init_msg t0 @ auth_part t0 in
      case xp_state t of
        XPORT_CONNECT \<Rightarrow> inn = [] \<and> out = [] \<and> xp_socksBuffer t = None \<and> xp_remote t = Some r0
      | XPORT_PROXY_INIT \<Rightarrow> inn = [] \<and> sending t [] (socks_init_msg t0) out \<and> xp_remote t = Some r0
      | XPORT_PROXY_CHOICE \<Rightarrow>
          out = socks_init_msg t0 \<and> inn = b \<and> length b < 2 \<and> xp_remote t = Some r0
      | XPORT_PROXY_AUTHREQUEST \<Rightarrow>
          has_creds t0 \<and> inn = choice_reply t0 \<and> xp_remote t = Some r0 \<and>
          sending t (socks_init_msg t0) (socks_auth_msg t0) out
      | XPORT_PROXY_AUTHRESPONSE \<Rightarrow>
          has_creds t0 \<and> out = auth \<and> inn = choice_reply t0 @ b \<and> length b < 2 \<and> xp_remote t = Some r0
      | XPORT_PROXY_REQUEST \<Rightarrow>
          inn = choice_reply t0 @ auth_reply t0 \<and> sending t auth (fst (socks_request_msg db r0)) out \<and>
          (xp_socksBuffer t = None \<longrightarrow> xp_remote t = Some r0)
      | XPORT_PROXY_RESPONSE_STATUS \<Rightarrow>
          out = client_bytes db t0 r0 \<and> inn = choice_reply t0 @ auth_reply t0 @ b \<and> length b < 2
      | XPORT_PROXY_RESPONSE_TYPE \<Rightarrow>
          out = client_bytes db t0 r0 \<and> inn = granted t0 @ b \<and> length b < 2
      | XPORT_PROXY_RESPONSE_TYPE_IPV4 \<Rightarrow>
          out = client_bytes db t0 r0 \<and> length b < 6 \<and> (\<exists>rsv. inn = granted t0 @ [rsv, CHR 0x01] @ b)
      | XPORT_PROXY_RESPONSE_TYPE_NAME_LEN \<Rightarrow>
          out = client_bytes db t0 r0 \<and> b = [] \<and> (\<exists>rsv. inn = granted t0 @ [rsv, CHR 0x03])
      | XPORT_PROXY_RESPONSE_TYPE_NAME \<Rightarrow>
          out = client_bytes db t0 r0 \<and> xp_socksBuffer t = Some b \<and> b \<noteq> [] \<and>
          length b < of_char (hd b) + 3 \<and> (\<exists>rsv. inn = granted t0 @ [rsv, CHR 0x03] @ b)
      | XPORT_SUCCESSOPEN \<Rightarrow>
          (if xp_proxy t0 = None then inn = [] \<and> out = []
           else out = client_bytes db t0 r0 \<and>
                (\<exists>rsv a. inn = granted t0 @ rsv # a \<and> bind_address a))
      | XPORT_SUCCESSEOF \<Rightarrow> False
      | XPORT_ERROR \<Rightarrow> False)"

text \<open>What no handler changes.\<close>

definition same_config :: "transport \<Rightarrow> transport \<Rightarrow> bool" where
  "same_config t0 t \<longleftrightarrow> xp_username t = xp_username t0 \<and> xp_password t = xp_password t0 \<and>
     xp_proxy t = xp_proxy t0"

definition hs_inv :: "resolver \<Rightarrow> transport \<Rightarrow> peer \<Rightarrow> transport \<Rightarrow> world \<Rightarrow> bool" where
  "hs_inv db t0 r0 t w \<longleftrightarrow> same_config t0 t \<and> dialogue db t0 r0 t (w_in w) (w_out w) \<and>
     (xp_proxy t0 = None \<longrightarrow> xp_state t \<in> {XPORT_CONNECT, XPORT_SUCCESSOPEN})"

text \<open>
  The contract of a handler: it does not abort, everything written so far is a prefix of the client's
  dialogue, and unless it reports an error the invariant holds again.
\<close>

definition wire_prefix :: "resolver \<Rightarrow> transport \<Rightarrow> peer \<Rightarrow> world \<Rightarrow> bool" where
  "wire_prefix db t0 r0 w \<longleftrightarrow> prefix (w_out w) (client_bytes db t0 r0)"

definition handled :: "resolver \<Rightarrow> transport \<Rightarrow> peer \<Rightarrow> (tgen_event set \<times> transport \<times> world) option \<Rightarrow> bool" where
  "handled db t0 r0 res \<longleftrightarrow>
     (case res of None \<Rightarrow> False
      | Some (r, t', w') \<Rightarrow> wire_prefix db t0 r0 w' \<and> (r \<noteq> {} \<longrightarrow> hs_inv db t0 r0 t' w'))"

section \<open>Every handler keeps the dialogue\<close>

lemmas xport_change_defs = xport_changeState_def xport_changeError_def xport_resetString_def
  xport_fail_def

lemma sending_prefix: "sending t before msg out \<Longrightarrow> prefix out (before @ msg @ rst)"
proof -
  assume s: "sending t before msg out"
  have "prefix out (before @ msg)"
  proof (cases "xp_socksBuffer t")
    case (Some b)
    with s show ?thesis by (auto simp: sending_def intro: prefixI [of _ _ b])
  qed (use s in \<open>simp add: sending_def\<close>)
  then show ?thesis using prefix_prefix [of out "before @ msg" rst] by simp
qed

lemma sending_client:
  "sending t [] (socks_init_msg t0) out \<Longrightarrow> prefix out (client_bytes db t0 r0)"
  "has_creds t0 \<Longrightarrow> sending t (socks_init_msg t0) (socks_auth_msg t0) out \<Longrightarrow>
     prefix out (client_bytes db t0 r0)"
  "sending t (socks_init_msg t0 @ auth_part t0) (fst (socks_request_msg db r0)) out \<Longrightarrow>
     prefix out (client_bytes db t0 r0)"
  using sending_prefix [of t "[]" "socks_init_msg t0" out "auth_part t0 @ fst (socks_request_msg db r0)"]
    sending_prefix [of t "socks_init_msg t0" "socks_auth_msg t0" out "fst (socks_request_msg db r0)"]
    sending_prefix [of t "socks_init_msg t0 @ auth_part t0" "fst (socks_request_msg db r0)" out "[]"]
  by (simp_all only: client_bytes_def auth_part_def append_Nil append_Nil2 append_assoc if_True simp_thms)

lemma init_prefix [simp]: "prefix (socks_init_msg t0) (client_bytes db t0 r0)"
  "prefix (socks_init_msg t0 @ auth_part t0) (client_bytes db t0 r0)"
  by (simp_all add: client_bytes_def)

lemma hs_inv_prefix: "hs_inv db t0 r0 t w \<Longrightarrow> wire_prefix db t0 r0 w"
  unfolding hs_inv_def dialogue_def wire_prefix_def
  by (cases "xp_state t") (auto simp: Let_def intro: sending_client split: if_splits)

lemma handled_fail: "wire_prefix db t0 r0 w \<Longrightarrow> handled db t0 r0 (Some ({}, t, w))"
  by (simp add: handled_def)

lemma handled_ok: "hs_inv db t0 r0 t w \<Longrightarrow> handled db t0 r0 (Some (r, t, w))"
  by (simp add: handled_def hs_inv_prefix)

lemma wire_prefix_out: "w_out w' = w_out w \<Longrightarrow> wire_prefix db t0 r0 w \<Longrightarrow> wire_prefix db t0 r0 w'"
  by (simp add: wire_prefix_def)

lemma send_handled:
  assumes buf: "xp_socksBuffer t = Some b" "b \<noteq> []"
    and pre: "wire_prefix db t0 r0 w"
    and part: "\<And>n w'. n < length b \<Longrightarrow> w_in w' = w_in w \<Longrightarrow> w_out w' = w_out w @ take n b \<Longrightarrow>
      hs_inv db t0 r0 (t\<lparr>xp_socksBuffer := Some (drop n b)\<rparr>) w'"
    and compl: "\<And>w1. w_in w1 = w_in w \<Longrightarrow> w_out w1 = w_out w @ b \<Longrightarrow>
      hs_inv db t0 r0 (fst (fin (t\<lparr>xp_socksBuffer := None\<rparr>) w1)) (snd (fin (t\<lparr>xp_socksBuffer := None\<rparr>) w1))"
  shows "handled db t0 r0 (socks_send fin t w)"
  using buf
proof (cases rule: socks_send_cases [of t b fin w])
  case (failed t' w')
  then show ?thesis using wire_prefix_out [OF _ pre] by (simp add: handled_fail)
next
  case (partly n w')
  then show ?thesis using part by (simp add: handled_ok)
next
  case (completely w1)
  then show ?thesis
    using compl [of w1] by (cases "fin (t\<lparr>xp_socksBuffer := None\<rparr>) w1") (simp add: handled_ok)
qed

lemma receive_handled:
  assumes len: "length (buffered t) < n"
    and pre: "wire_prefix db t0 r0 w"
    and part: "\<And>bs w'. length (buffered t @ bs) < n \<Longrightarrow> bs \<noteq> [] \<Longrightarrow> w_in w' = w_in w @ bs \<Longrightarrow>
      w_out w' = w_out w \<Longrightarrow> hs_inv db t0 r0 (t\<lparr>xp_socksBuffer := Some (buffered t @ bs)\<rparr>) w'"
    and compl: "\<And>bs w1. length (buffered t @ bs) = n \<Longrightarrow> w_in w1 = w_in w @ bs \<Longrightarrow>
      w_out w1 = w_out w \<Longrightarrow>
      handled db t0 r0 (handle (buffered t @ bs) (t\<lparr>xp_socksBuffer := Some (buffered t @ bs)\<rparr>) w1)"
  shows "handled db t0 r0 (socks_receive n handle t w)"
  using len
proof (cases rule: socks_receive_cases [of t n handle w])
  case (failed t' w')
  then show ?thesis using wire_prefix_out [OF _ pre] by (simp add: handled_fail)
next
  case (partly bs w')
  then show ?thesis using part by (simp add: handled_ok)
next
  case (completely bs w1)
  then show ?thesis using compl by simp
qed

lemma finish_response_handled:
  assumes "same_config t0 t" "w_out w = client_bytes db t0 r0" "xp_proxy t0 \<noteq> None"
    and "w_in w = granted t0 @ rsv # a" "bind_address a"
  shows "handled db t0 r0 (finish_response t w)"
proof -
  obtain now w' where tm: "g_get_monotonic_time w = (now, w')" by (cases "g_get_monotonic_time w")
  show ?thesis
    using assms time_frame [OF tm]
    by (auto simp: finish_response_def tm hs_inv_def dialogue_def same_config_def xport_change_defs
        intro!: handled_ok)
qed

lemma buffered_simps [simp]:
  "buffered (t\<lparr>xp_socksBuffer := None\<rparr>) = []"
  "buffered (t\<lparr>xp_socksBuffer := Some b\<rparr>) = b"
  by (simp_all add: buffered_def)

lemma IPv4_handled:
  assumes inv: "hs_inv db t0 r0 t w" and st: "xp_state t = XPORT_PROXY_RESPONSE_TYPE_IPV4"
  shows "handled db t0 r0 (receiveResponseTypeIPv4 t w)"
proof -
  from inv st obtain rsv where
    d: "w_out w = client_bytes db t0 r0" "length (buffered t) < 6" "xp_proxy t0 \<noteq> None" "same_config t0 t"
      "w_in w = granted t0 @ [rsv, CHR 0x01] @ buffered t"
    by (auto simp: hs_inv_def dialogue_def Let_def)
  show ?thesis
    unfolding receiveResponseTypeIPv4_def
  proof (rule receive_handled [OF d(2) hs_inv_prefix [OF inv]])
    fix bs and w' :: world
    assume "length (buffered t @ bs) < 6" "w_in w' = w_in w @ bs" "w_out w' = w_out w"
    with d st show "hs_inv db t0 r0 (t\<lparr>xp_socksBuffer := Some (buffered t @ bs)\<rparr>) w'"
      by (auto simp: hs_inv_def dialogue_def same_config_def Let_def)
  next
    fix bs and w1 :: world
    assume "length (buffered t @ bs) = 6" "w_in w1 = w_in w @ bs" "w_out w1 = w_out w"
    with d show "handled db t0 r0 (finish_response
        ((t\<lparr>xp_socksBuffer := Some (buffered t @ bs)\<rparr>)\<lparr>xp_socksBuffer := None\<rparr>) w1)"
      by (intro finish_response_handled [where rsv = rsv and a = "CHR 0x01 # buffered t @ bs"])
         (auto simp: bind_address_def same_config_def)
  qed
qed

lemma Name_handled:
  assumes inv: "hs_inv db t0 r0 t w" and st: "xp_state t = XPORT_PROXY_RESPONSE_TYPE_NAME"
  shows "handled db t0 r0 (receiveResponseTypeName t w)"
proof -
  from inv st obtain rsv where
    d: "w_out w = client_bytes db t0 r0" "xp_proxy t0 \<noteq> None" "same_config t0 t"
      "w_in w = granted t0 @ [rsv, CHR 0x03] @ buffered t" "xp_socksBuffer t = Some (buffered t)"
      "length (buffered t) < of_char (hd (buffered t)) + 3" "buffered t \<noteq> []"
    by (auto simp: hs_inv_def dialogue_def Let_def)
  obtain c cs where b: "buffered t = c # cs" using d(7) by (cases "buffered t") auto
  let ?n = "of_char c + 3 :: nat"
  have len: "length (buffered t) < ?n" using d(6) b by simp
  have eq: "receiveResponseTypeName t w =
      socks_receive ?n (\<lambda>buf t' w'. finish_response (t'\<lparr>xp_socksBuffer := None\<rparr>) w') t w"
    using d(5) b by (simp add: receiveResponseTypeName_def)
  show ?thesis
    unfolding eq
  proof (rule receive_handled [OF len hs_inv_prefix [OF inv]])
    fix bs and w' :: world
    assume "length (buffered t @ bs) < ?n" "w_in w' = w_in w @ bs" "w_out w' = w_out w"
    with d st b show "hs_inv db t0 r0 (t\<lparr>xp_socksBuffer := Some (buffered t @ bs)\<rparr>) w'"
      by (auto simp: hs_inv_def dialogue_def same_config_def Let_def)
  next
    fix bs and w1 :: world
    assume "length (buffered t @ bs) = ?n" "w_in w1 = w_in w @ bs" "w_out w1 = w_out w"
    with d b show "handled db t0 r0 (finish_response
        ((t\<lparr>xp_socksBuffer := Some (buffered t @ bs)\<rparr>)\<lparr>xp_socksBuffer := None\<rparr>) w1)"
      by (intro finish_response_handled [where rsv = rsv and a = "CHR 0x03 # buffered t @ bs"])
         (auto simp: bind_address_def same_config_def)
  qed
qed

lemma NameLen_handled:
  assumes inv: "hs_inv db t0 r0 t w" and st: "xp_state t = XPORT_PROXY_RESPONSE_TYPE_NAME_LEN"
  shows "handled db t0 r0 (receiveResponseTypeNameLen t w)"
proof -
  from inv st obtain rsv where
    d: "w_out w = client_bytes db t0 r0" "xp_proxy t0 \<noteq> None" "same_config t0 t"
      "w_in w = granted t0 @ [rsv, CHR 0x03]" "buffered t = []"
    by (auto simp: hs_inv_def dialogue_def Let_def)
  have len: "length (buffered t) < 1" using d by simp
  show ?thesis
    unfolding receiveResponseTypeNameLen_def
  proof (rule receive_handled [OF len hs_inv_prefix [OF inv]])
    fix bs and w1 :: world
    assume a: "length (buffered t @ bs) = 1" "w_in w1 = w_in w @ bs" "w_out w1 = w_out w"
    with d(5) obtain c where "bs = [c]" by (auto simp: length_Suc_conv)
    with a d show "handled db t0 r0 (receiveResponseTypeName (xport_changeState
        XPORT_PROXY_RESPONSE_TYPE_NAME (t\<lparr>xp_socksBuffer := Some (buffered t @ bs)\<rparr>)) w1)"
      by (intro Name_handled)
         (auto simp: hs_inv_def dialogue_def same_config_def xport_change_defs buffered_def Let_def)
  qed (use d in simp)
qed

lemma Type_handled:
  assumes inv: "hs_inv db t0 r0 t w" and st: "xp_state t = XPORT_PROXY_RESPONSE_TYPE"
  shows "handled db t0 r0 (receiveResponseType t w)"
proof -
  from inv st have
    d: "w_out w = client_bytes db t0 r0" "xp_proxy t0 \<noteq> None" "same_config t0 t"
      "w_in w = granted t0 @ buffered t" "length (buffered t) < 2"
    by (auto simp: hs_inv_def dialogue_def Let_def)
  show ?thesis
    unfolding receiveResponseType_def
  proof (rule receive_handled [OF d(5) hs_inv_prefix [OF inv]])
    fix bs and w' :: world
    assume "length (buffered t @ bs) < 2" "w_in w' = w_in w @ bs" "w_out w' = w_out w"
    with d st show "hs_inv db t0 r0 (t\<lparr>xp_socksBuffer := Some (buffered t @ bs)\<rparr>) w'"
      by (auto simp: hs_inv_def dialogue_def same_config_def Let_def)
  next
    fix bs and w1 :: world
    assume a: "length (buffered t @ bs) = 2" "w_in w1 = w_in w @ bs" "w_out w1 = w_out w"
    then obtain rsv ty where b: "buffered t @ bs = [rsv, ty]" using list_length2 by blast
    let ?t1 = "t\<lparr>xp_socksBuffer := None\<rparr>"
    have inn: "w_in w1 = granted t0 @ [rsv, ty]" using a d b by (metis append.assoc)
    have outp: "w_out w1 = client_bytes db t0 r0" using a d by simp
    have ip: "ty = CHR 0x01 \<Longrightarrow> handled db t0 r0
        (receiveResponseTypeIPv4 (xport_changeState XPORT_PROXY_RESPONSE_TYPE_IPV4 ?t1) w1)"
      using outp d(2,3) inn by (intro IPv4_handled)
        (auto simp: hs_inv_def dialogue_def same_config_def xport_change_defs buffered_def Let_def)
    have nm: "ty = CHR 0x03 \<Longrightarrow> handled db t0 r0
        (receiveResponseTypeNameLen (xport_changeState XPORT_PROXY_RESPONSE_TYPE_NAME_LEN ?t1) w1)"
      using outp d(2,3) inn by (intro NameLen_handled)
        (auto simp: hs_inv_def dialogue_def same_config_def xport_change_defs buffered_def Let_def)
    have fl: "handled db t0 r0 (Some ({}, xport_fail XPORT_ERR_PROXY_ADDR ?t1, w1))"
      using a d by (intro handled_fail) (simp add: wire_prefix_def)
    from ip nm fl show "handled db t0 r0
       (let addressType = (buffered t @ bs) ! 1; t1 = (t\<lparr>xp_socksBuffer := Some (buffered t @ bs)\<rparr>)\<lparr>xp_socksBuffer := None\<rparr>
        in if addressType = CHR 0x01
           then receiveResponseTypeIPv4 (xport_changeState XPORT_PROXY_RESPONSE_TYPE_IPV4 t1) w1
           else if addressType = CHR 0x03
           then receiveResponseTypeNameLen (xport_changeState XPORT_PROXY_RESPONSE_TYPE_NAME_LEN t1) w1
           else Some ({}, xport_fail XPORT_ERR_PROXY_ADDR t1, w1))"
      unfolding b by (simp add: Let_def)
  qed
qed

lemma Status_handled:
  assumes inv: "hs_inv db t0 r0 t w" and st: "xp_state t = XPORT_PROXY_RESPONSE_STATUS"
  shows "handled db t0 r0 (receiveResponseStatus t w)"
proof -
  from inv st have
    d: "w_out w = client_bytes db t0 r0" "xp_proxy t0 \<noteq> None" "same_config t0 t"
      "w_in w = choice_reply t0 @ auth_reply t0 @ buffered t" "length (buffered t) < 2"
    by (auto simp: hs_inv_def dialogue_def Let_def)
  show ?thesis
    unfolding receiveResponseStatus_def
  proof (rule receive_handled [OF d(5) hs_inv_prefix [OF inv]])
    fix bs and w' :: world
    assume "length (buffered t @ bs) < 2" "w_in w' = w_in w @ bs" "w_out w' = w_out w"
    with d st show "hs_inv db t0 r0 (t\<lparr>xp_socksBuffer := Some (buffered t @ bs)\<rparr>) w'"
      by (auto simp: hs_inv_def dialogue_def same_config_def Let_def)
  next
    fix bs and w1 :: world
    assume a: "length (buffered t @ bs) = 2" "w_in w1 = w_in w @ bs" "w_out w1 = w_out w"
    then obtain v s where b: "buffered t @ bs = [v, s]" using list_length2 by blast
    let ?t1 = "t\<lparr>xp_socksBuffer := None\<rparr>"
    have inn: "w_in w1 = choice_reply t0 @ auth_reply t0 @ [v, s]" using a d b by (metis append.assoc)
    have outp: "w_out w1 = client_bytes db t0 r0" using a d by simp
    have ok: "v = CHR 0x05 \<Longrightarrow> s = CHR 0x00 \<Longrightarrow> handled db t0 r0
        (receiveResponseType (xport_changeState XPORT_PROXY_RESPONSE_TYPE ?t1) w1)"
      using outp d(2,3) inn by (intro Type_handled)
        (auto simp: hs_inv_def dialogue_def same_config_def xport_change_defs buffered_def granted_def Let_def)
    have fl: "handled db t0 r0 (Some ({}, xport_fail e ?t1, w1))" for e
      using a d by (intro handled_fail) (simp add: wire_prefix_def)
    from ok fl show "handled db t0 r0
       (let version = (buffered t @ bs) ! 0; status = (buffered t @ bs) ! 1;
            t1 = (t\<lparr>xp_socksBuffer := Some (buffered t @ bs)\<rparr>)\<lparr>xp_socksBuffer := None\<rparr>
        in if version = CHR 0x05 \<and> status = CHR 0x00
           then receiveResponseType (xport_changeState XPORT_PROXY_RESPONSE_TYPE t1) w1
           else Some ({}, xport_fail (if version \<noteq> CHR 0x05 then XPORT_ERR_PROXY_VERSION
                                     else XPORT_ERR_PROXY_STATUS) t1, w1))"
      unfolding b by (simp add: Let_def)
  qed
qed

lemma Auth_handled:
  assumes inv: "hs_inv db t0 r0 t w" and st: "xp_state t = XPORT_PROXY_AUTHRESPONSE"
  shows "handled db t0 r0 (receiveSocksAuth t w)"
proof -
  from inv st have
    d: "w_out w = socks_init_msg t0 @ auth_part t0" "xp_proxy t0 \<noteq> None" "same_config t0 t"
      "w_in w = choice_reply t0 @ buffered t" "length (buffered t) < 2" "has_creds t0"
      "xp_remote t = Some r0"
    by (auto simp: hs_inv_def dialogue_def Let_def)
  show ?thesis
    unfolding receiveSocksAuth_def
  proof (rule receive_handled [OF d(5) hs_inv_prefix [OF inv]])
    fix bs and w' :: world
    assume "length (buffered t @ bs) < 2" "w_in w' = w_in w @ bs" "w_out w' = w_out w"
    with d st show "hs_inv db t0 r0 (t\<lparr>xp_socksBuffer := Some (buffered t @ bs)\<rparr>) w'"
      by (simp add: hs_inv_def dialogue_def same_config_def Let_def)
  next
    fix bs and w1 :: world
    assume a: "length (buffered t @ bs) = 2" "w_in w1 = w_in w @ bs" "w_out w1 = w_out w"
    then obtain v s where b: "buffered t @ bs = [v, s]" using list_length2 by blast
    let ?t1 = "t\<lparr>xp_socksBuffer := None\<rparr>"
    have inn: "w_in w1 = choice_reply t0 @ [v, s]" using a d b by (metis append.assoc)
    have ok: "v = CHR 0x01 \<Longrightarrow> s = CHR 0x00 \<Longrightarrow> handled db t0 r0
        (Some ({EV_WRITE}, xport_changeState XPORT_PROXY_REQUEST ?t1, w1))"
      using a d inn by (intro handled_ok)
        (simp add: hs_inv_def dialogue_def same_config_def xport_change_defs auth_reply_def sending_def Let_def)
    have fl: "handled db t0 r0 (Some ({}, xport_fail e ?t1, w1))" for e
      using a d by (intro handled_fail) (simp add: wire_prefix_def)
    from ok fl show "handled db t0 r0
       (let versionMatch = ((buffered t @ bs) ! 0 = CHR 0x01); authSuccess = ((buffered t @ bs) ! 1 = CHR 0x00);
            t1 = (t\<lparr>xp_socksBuffer := Some (buffered t @ bs)\<rparr>)\<lparr>xp_socksBuffer := None\<rparr>
        in if \<not> versionMatch then Some ({}, xport_fail XPORT_ERR_PROXY_VERSION t1, w1)
           else if \<not> authSuccess then Some ({}, xport_fail XPORT_ERR_PROXY_AUTH t1, w1)
           else Some ({EV_WRITE}, xport_changeState XPORT_PROXY_REQUEST t1, w1))"
      unfolding b by (simp add: Let_def)
  qed
qed

lemma Choice_handled:
  assumes inv: "hs_inv db t0 r0 t w" and st: "xp_state t = XPORT_PROXY_CHOICE"
  shows "handled db t0 r0 (receiveSocksChoice t w)"
proof -
  from inv st have
    d: "w_out w = socks_init_msg t0" "xp_proxy t0 \<noteq> None" "same_config t0 t"
      "w_in w = buffered t" "length (buffered t) < 2" "xp_remote t = Some r0"
    by (auto simp: hs_inv_def dialogue_def Let_def)
  show ?thesis
    unfolding receiveSocksChoice_def
  proof (rule receive_handled [OF d(5) hs_inv_prefix [OF inv]])
    fix bs and w' :: world
    assume "length (buffered t @ bs) < 2" "w_in w' = w_in w @ bs" "w_out w' = w_out w"
    with d st show "hs_inv db t0 r0 (t\<lparr>xp_socksBuffer := Some (buffered t @ bs)\<rparr>) w'"
      by (simp add: hs_inv_def dialogue_def same_config_def Let_def)
  next
    fix bs and w1 :: world
    assume a: "length (buffered t @ bs) = 2" "w_in w1 = w_in w @ bs" "w_out w1 = w_out w"
    then obtain v s where b: "buffered t @ bs = [v, s]" using list_length2 by blast
    obtain now w2 where tm: "g_get_monotonic_time w1 = (now, w2)" by (cases "g_get_monotonic_time w1")
    have inn: "w_in w2 = [v, s]" "w_out w2 = socks_init_msg t0"
      using a d b time_frame [OF tm] by simp_all
    let ?t2 = "t\<lparr>xp_time := (xp_time t)\<lparr>xt_proxyChoice := now, xt_lastProgress := now\<rparr>, xp_socksBuffer := None\<rparr>"
    have ok: "handled db t0 r0 (Some ({EV_WRITE}, xport_changeState
        (if has_creds t then XPORT_PROXY_AUTHREQUEST else XPORT_PROXY_REQUEST) ?t2, w2))"
      if "v = CHR 0x05" "s = (if has_creds t then CHR 0x02 else CHR 0x00)"
      using that d inn by (intro handled_ok)
        (auto simp: hs_inv_def dialogue_def same_config_def xport_change_defs sending_def
          choice_reply_def auth_reply_def auth_part_def Let_def)
    have fl: "handled db t0 r0 (Some ({}, xport_fail XPORT_ERR_PROXY_CHOICE ?t2, w2))"
      using inn by (intro handled_fail) (simp add: wire_prefix_def)
    from ok fl show "handled db t0 r0 (handleSocksChoice (buffered t @ bs)
        (t\<lparr>xp_socksBuffer := Some (buffered t @ bs)\<rparr>) w1)"
      unfolding b by (cases "has_creds t") (auto simp: handleSocksChoice_def tm Let_def)
  qed
qed

lemma socks_msgs_nonempty [simp]:
  "socks_init_msg t \<noteq> []" "socks_auth_msg t \<noteq> []" "fst (socks_request_msg db r) \<noteq> []"
  by (simp_all add: socks_init_msg_def socks_auth_msg_def socks_request_msg_def Let_def)

lemma msg_config: "same_config t0 t \<Longrightarrow>
  socks_init_msg t = socks_init_msg t0 \<and> socks_auth_msg t = socks_auth_msg t0"
  by (simp add: same_config_def socks_init_msg_def socks_auth_msg_def)

lemma Init_handled:
  assumes inv: "hs_inv db t0 r0 t w" and st: "xp_state t = XPORT_PROXY_INIT"
  shows "handled db t0 r0 (sendSocksInit t w)"
proof -
  from inv st have
    d: "w_in w = []" "sending t [] (socks_init_msg t0) (w_out w)" "xp_remote t = Some r0"
      "same_config t0 t" "xp_proxy t0 \<noteq> None"
    by (auto simp: hs_inv_def dialogue_def Let_def)
  have go: "handled db t0 r0 (socks_send finish_init (t\<lparr>xp_socksBuffer := Some b\<rparr>) w)"
    if b: "b \<noteq> []" "w_out w @ b = socks_init_msg t0" for b
  proof (rule send_handled [OF _ b(1) hs_inv_prefix [OF inv]])
    fix n and w' :: world
    assume "n < length b" "w_in w' = w_in w" "w_out w' = w_out w @ take n b"
    with d st b show "hs_inv db t0 r0 ((t\<lparr>xp_socksBuffer := Some b\<rparr>)\<lparr>xp_socksBuffer := Some (drop n b)\<rparr>) w'"
      by (simp add: hs_inv_def dialogue_def same_config_def sending_def Let_def)
  next
    fix w1 :: world
    assume a: "w_in w1 = w_in w" "w_out w1 = w_out w @ b"
    obtain now w2 where tm: "g_get_monotonic_time w1 = (now, w2)" by (cases "g_get_monotonic_time w1")
    let ?f = "finish_init ((t\<lparr>xp_socksBuffer := Some b\<rparr>)\<lparr>xp_socksBuffer := None\<rparr>) w1"
    show "hs_inv db t0 r0 (fst ?f) (snd ?f)"
      using a b d time_frame [OF tm]
      by (simp add: finish_init_def tm hs_inv_def dialogue_def same_config_def xport_change_defs
          buffered_def Let_def)
  qed simp
  have self: "t = t\<lparr>xp_socksBuffer := Some b\<rparr>" if "xp_socksBuffer t = Some b" for b
    using that by simp
  show ?thesis
  proof (cases "xp_socksBuffer t")
    case None
    have "length (socks_init_msg t) = 3" by (simp add: socks_init_msg_def)
    with None d(2) msg_config [OF d(4)] go [of "socks_init_msg t0"] show ?thesis
      by (simp add: sendSocksInit_def sending_def)
  next
    case (Some b)
    with d(2) go [of b] self [OF Some] show ?thesis
      by (simp add: sendSocksInit_def sending_def)
  qed
qed

lemma AuthRequest_handled:
  assumes inv: "hs_inv db t0 r0 t w" and st: "xp_state t = XPORT_PROXY_AUTHREQUEST"
  shows "handled db t0 r0 (sendSocksAuth t w)"
proof -
  from inv st have
    d: "w_in w = choice_reply t0" "sending t (socks_init_msg t0) (socks_auth_msg t0) (w_out w)"
      "xp_remote t = Some r0" "same_config t0 t" "xp_proxy t0 \<noteq> None" "has_creds t0"
    by (auto simp: hs_inv_def dialogue_def Let_def)
  have go: "handled db t0 r0 (socks_send finish_auth (t\<lparr>xp_socksBuffer := Some b\<rparr>) w)"
    if b: "b \<noteq> []" "w_out w @ b = socks_init_msg t0 @ socks_auth_msg t0" for b
  proof (rule send_handled [OF _ b(1) hs_inv_prefix [OF inv]])
    fix n and w' :: world
    assume "n < length b" "w_in w' = w_in w" "w_out w' = w_out w @ take n b"
    with d st b show "hs_inv db t0 r0 ((t\<lparr>xp_socksBuffer := Some b\<rparr>)\<lparr>xp_socksBuffer := Some (drop n b)\<rparr>) w'"
      by (simp add: hs_inv_def dialogue_def same_config_def sending_def Let_def)
  next
    fix w1 :: world
    assume a: "w_in w1 = w_in w" "w_out w1 = w_out w @ b"
    let ?f = "finish_auth ((t\<lparr>xp_socksBuffer := Some b\<rparr>)\<lparr>xp_socksBuffer := None\<rparr>) w1"
    show "hs_inv db t0 r0 (fst ?f) (snd ?f)"
      using a b d
      by (simp add: finish_auth_def hs_inv_def dialogue_def same_config_def xport_change_defs
          buffered_def auth_part_def Let_def)
  qed simp
  show ?thesis
  proof (cases "xp_socksBuffer t")
    case None
    with d(2) msg_config [OF d(4)] go [of "socks_auth_msg t0"] show ?thesis
      by (simp add: sendSocksAuth_def sending_def)
  next
    case (Some b)
    then have "t\<lparr>xp_socksBuffer := Some b\<rparr> = t" by simp
    with Some d(2) go [of b] show ?thesis by (simp add: sendSocksAuth_def sending_def)
  qed
qed

lemma Request_handled:
  assumes inv: "hs_inv db t0 r0 t w" and st: "xp_state t = XPORT_PROXY_REQUEST"
  shows "handled db t0 r0 (sendSocksRequest db t w)"
proof -
  let ?auth = "socks_init_msg t0 @ auth_part t0" and ?req = "fst (socks_request_msg db r0)"
  from inv st have
    d: "w_in w = choice_reply t0 @ auth_reply t0" "sending t ?auth ?req (w_out w)"
      "xp_socksBuffer t = None \<longrightarrow> xp_remote t = Some r0" "same_config t0 t" "xp_proxy t0 \<noteq> None"
    by (auto simp: hs_inv_def dialogue_def Let_def)
  have go: "handled db t0 r0 (socks_send finish_request (t\<lparr>xp_socksBuffer := Some b, xp_remote := r\<rparr>) w)"
    if b: "b \<noteq> []" "w_out w @ b = ?auth @ ?req" for b r
  proof (rule send_handled [OF _ b(1) hs_inv_prefix [OF inv]])
    fix n and w' :: world
    assume "n < length b" "w_in w' = w_in w" "w_out w' = w_out w @ take n b"
    with d st b show "hs_inv db t0 r0
        ((t\<lparr>xp_socksBuffer := Some b, xp_remote := r\<rparr>)\<lparr>xp_socksBuffer := Some (drop n b)\<rparr>) w'"
      by (simp add: hs_inv_def dialogue_def same_config_def sending_def Let_def)
  next
    fix w1 :: world
    assume a: "w_in w1 = w_in w" "w_out w1 = w_out w @ b"
    obtain now w2 where tm: "g_get_monotonic_time w1 = (now, w2)" by (cases "g_get_monotonic_time w1")
    let ?f = "finish_request ((t\<lparr>xp_socksBuffer := Some b, xp_remote := r\<rparr>)\<lparr>xp_socksBuffer := None\<rparr>) w1"
    show "hs_inv db t0 r0 (fst ?f) (snd ?f)"
      using a b d time_frame [OF tm]
      by (simp add: finish_request_def tm hs_inv_def dialogue_def same_config_def xport_change_defs
          buffered_def client_bytes_def Let_def)
  qed simp
  show ?thesis
  proof (cases "xp_socksBuffer t")
    case None
    obtain a r where m: "socks_request_msg db r0 = (a, r)" by (cases "socks_request_msg db r0")
    have "a \<noteq> []" using socks_msgs_nonempty(3) [of db r0] unfolding m by simp
    with None m d go [of a "Some r"] show ?thesis
      by (simp add: sendSocksRequest_def sending_def)
  next
    case (Some b)
    then have "t\<lparr>xp_socksBuffer := Some b, xp_remote := xp_remote t\<rparr> = t" by simp
    with Some d(2) go [of b "xp_remote t"] show ?thesis by (simp add: sendSocksRequest_def sending_def)
  qed
qed

section \<open>Runs of the event handler\<close>

lemma step_handled:
  assumes inv: "hs_inv db t0 r0 t w" and "xp_state t \<noteq> XPORT_CONNECT"
  shows "handled db t0 r0 (xport_step db events t w)"
  using assms handled_ok [OF inv] handled_fail [OF hs_inv_prefix [OF inv]]
  by (cases "xp_state t")
     (simp_all add: xport_step_def Init_handled Choice_handled AuthRequest_handled Auth_handled
       Request_handled Status_handled Type_handled IPv4_handled NameLen_handled Name_handled)

lemma onEvent_handled:
  assumes inv: "hs_inv db t0 r0 t w"
  shows "handled db t0 r0 (tgentransport_onEvent db events t w)"
proof (cases "xp_state t = XPORT_CONNECT")
  case False
  with step_handled [OF inv] show ?thesis by (simp add: tgentransport_onEvent_def)
next
  case True
  with inv have
    d: "w_in w = []" "w_out w = []" "xp_socksBuffer t = None" "xp_remote t = Some r0" "same_config t0 t"
    by (auto simp: hs_inv_def dialogue_def Let_def)
  obtain now w2 where tm: "g_get_monotonic_time w = (now, w2)" by (cases "g_get_monotonic_time w")
  note frame = time_frame [OF tm]
  let ?t1 = "t\<lparr>xp_time := (xp_time t)\<lparr>xt_socketConnect := now, xt_lastProgress := now\<rparr>\<rparr>"
  have direct: "handled db t0 r0 (Some ({EV_DONE}, xport_changeState XPORT_SUCCESSOPEN ?t1, w2))"
    if "xp_proxy t = None"
    using that d frame by (intro handled_ok)
      (simp add: hs_inv_def dialogue_def same_config_def xport_change_defs Let_def)
  have proxied: "handled db t0 r0 (xport_step db events (xport_changeState XPORT_PROXY_INIT ?t1) w2)"
    if "xp_proxy t \<noteq> None"
    using that d frame by (intro step_handled)
      (auto simp: hs_inv_def dialogue_def same_config_def sending_def xport_change_defs Let_def)
  have err: "handled db t0 r0 (xport_step db events
      (xport_changeError XPORT_ERR_CONNECT (xport_changeState XPORT_ERROR t)) w)"
    using hs_inv_prefix [OF inv] by (simp add: xport_step_def xport_change_defs handled_fail)
  have wait: "handled db t0 r0 (Some ({EV_WRITE}, t, w))" using inv by (rule handled_ok)
  show ?thesis
    using True direct proxied err wait
    by (auto simp: tgentransport_onEvent_def tm xport_change_defs Let_def)
qed

text \<open>
  A run: the owner calls \<open>tgentransport_onEvent\<close> again as long as the previous call did not report an
  error (\<open>TGEN_EVENT_NONE\<close>); between the calls the kernel changes everything but the past.
\<close>

inductive xport_run :: "resolver \<Rightarrow> transport \<Rightarrow> transport \<Rightarrow> world \<Rightarrow> bool"
  for db :: resolver and t0 :: transport where
  run_start: "w_in w = [] \<Longrightarrow> w_out w = [] \<Longrightarrow> xport_run db t0 t0 w"
| run_event: "xport_run db t0 t w \<Longrightarrow> tgentransport_onEvent db events t w = Some (r, t', w') \<Longrightarrow>
    r \<noteq> {} \<Longrightarrow> xport_run db t0 t' w'"
| run_env: "xport_run db t0 t w \<Longrightarrow> w_in w' = w_in w \<Longrightarrow> w_out w' = w_out w \<Longrightarrow> xport_run db t0 t w'"

inductive_cases xport_runE: "xport_run db t0 t w"

definition fresh :: "transport \<Rightarrow> peer \<Rightarrow> bool" where
  "fresh t0 r0 \<longleftrightarrow> xp_state t0 = XPORT_CONNECT \<and> xp_socksBuffer t0 = None \<and> xp_remote t0 = Some r0"

lemma run_inv: "xport_run db t0 t w \<Longrightarrow> fresh t0 r0 \<Longrightarrow> hs_inv db t0 r0 t w"
proof (induction rule: xport_run.induct)
  case (run_start w)
  then show ?case by (simp add: hs_inv_def fresh_def same_config_def dialogue_def)
next
  case (run_event t w events r t' w')
  then show ?case using onEvent_handled [of db t0 r0 t w events] by (simp add: handled_def)
next
  case (run_env t w w')
  then show ?case by (simp add: hs_inv_def)
qed

lemma new_fresh:
  "fresh (tgentransport_newHelper so fd st cr proxy user pass (Some r) cb) (tgenpeer_ref r)"
  by (simp add: fresh_def tgentransport_newHelper_def)

text \<open>A sequence of calls that stops at the first error.\<close>

fun xport_events :: "resolver \<Rightarrow> tgen_event set list \<Rightarrow> transport \<Rightarrow> world \<Rightarrow> (transport \<times> world) option" where
  "xport_events db [] t w = Some (t, w)"
| "xport_events db (ev # evs) t w =
     (case tgentransport_onEvent db ev t w of
        None \<Rightarrow> None
      | Some (r, t', w') \<Rightarrow> if r = {} then None else xport_events db evs t' w')"

lemma events_run:
  "xport_events db evs t w = Some (t', w') \<Longrightarrow> xport_run db t0 t w \<Longrightarrow> xport_run db t0 t' w'"
proof (induction evs arbitrary: t w)
  case (Cons ev evs)
  then obtain r t1 w1 where s: "tgentransport_onEvent db ev t w = Some (r, t1, w1)" "r \<noteq> {}"
      "xport_events db evs t1 w1 = Some (t', w')"
    by (auto split: option.splits if_splits)
  show ?case by (rule Cons.IH [OF s(3) run_event [OF Cons.prems(2) s(1,2)]])
qed simp

section \<open>Progress\<close>

text \<open>
  \<open>standing t0 st rd wr t w\<close>: the transport is in state \<open>st\<close> with nothing buffered, and \<open>rd\<close> and
  \<open>wr\<close> are what the kernel will answer next.
\<close>

definition standing :: "transport \<Rightarrow> xport_state \<Rightarrow> rd list \<Rightarrow> wr list \<Rightarrow> transport \<Rightarrow> world \<Rightarrow> bool" where
  "standing t0 st rd wr t w \<longleftrightarrow> xp_state t = st \<and> xp_socksBuffer t = None \<and> same_config t0 t \<and>
     xp_remote t \<noteq> None \<and> w_rd w = rd \<and> w_wr w = wr"

definition goes :: "resolver \<Rightarrow> tgen_event \<Rightarrow> transport \<Rightarrow> transport \<Rightarrow> world \<Rightarrow> xport_state \<Rightarrow> rd list \<Rightarrow>
    wr list \<Rightarrow> bool" where
  "goes db ev t0 t w st rd wr \<longleftrightarrow>
     (\<exists>r t' w'. tgentransport_onEvent db {ev} t w = Some (r, t', w') \<and> r \<noteq> {} \<and> standing t0 st rd wr t' w')"

lemma send_all:
  "xp_socksBuffer t = Some b \<Longrightarrow> b \<noteq> [] \<Longrightarrow> w_wr w = WRoom k # q \<Longrightarrow> length b \<le> k \<Longrightarrow>
     socks_send fin t w =
       (case fin (t\<lparr>xp_socksBuffer := None\<rparr>)
              (xport_bytesCB t (0, length b) (w\<lparr>w_wr := q, w_out := w_out w @ b\<rparr>)) of
          (t2, w2) \<Rightarrow> Some ({EV_READ}, t2, w2))"
  by (simp add: socks_send_def tgentransport_write_def sys_write_def)

lemma receive_all:
  assumes "w_rd w = RData (bs @ rest) # q" "bs \<noteq> []" "length bs = n" "xp_socksBuffer t = None"
  shows "socks_receive n handle t w =
    handle bs (t\<lparr>xp_socksBuffer := Some bs\<rparr>)
      (xport_bytesCB t (n, 0) (w\<lparr>w_rd := (if rest = [] then q else RData rest # q), w_in := w_in w @ bs\<rparr>))"
  using assms
  by (auto simp: socks_receive_def socksReceiveHelper_def tgentransport_read_def sys_read_def
      buffered_def Let_def)

lemma bytesCB_frame [simp]:
  "w_rd (xport_bytesCB t x w) = w_rd w" "w_wr (xport_bytesCB t x w) = w_wr w"
  "w_in (xport_bytesCB t x w) = w_in w" "w_out (xport_bytesCB t x w) = w_out w"
  "w_clock (xport_bytesCB t x w) = w_clock w"
  by (simp_all add: xport_bytesCB_def)

lemmas goes_defs = goes_def standing_def same_config_def tgentransport_onEvent_def xport_step_def
  xport_change_defs case_prod_unfold Let_def

lemma goes_connect:
  assumes "standing t0 XPORT_CONNECT rd (WRoom k # wr) t w" "xp_proxy t0 \<noteq> None" "k \<ge> 3"
  shows "goes db EV_WRITE t0 t w XPORT_PROXY_CHOICE rd wr"
  using assms
  by (auto simp: goes_defs sendSocksInit_def socks_init_msg_def send_all finish_init_def)

lemma goes_choice:
  assumes "standing t0 XPORT_PROXY_CHOICE (RData (choice_reply t0) # rd) wr t w"
  shows "goes db EV_READ t0 t w
    (if has_creds t0 then XPORT_PROXY_AUTHREQUEST else XPORT_PROXY_REQUEST) rd wr"
proof -
  have r: "w_rd w = RData (choice_reply t0 @ []) # rd" "xp_socksBuffer t = None"
    using assms by (simp_all add: standing_def)
  show ?thesis
    using assms receive_all [OF r(1) _ _ r(2)]
    by (auto simp: goes_defs receiveSocksChoice_def handleSocksChoice_def choice_reply_def)
qed

lemma goes_auth:
  assumes "standing t0 XPORT_PROXY_AUTHREQUEST rd (WRoom k # wr) t w" "k \<ge> length (socks_auth_msg t0)"
  shows "goes db EV_WRITE t0 t w XPORT_PROXY_AUTHRESPONSE rd wr"
proof -
  have "socks_auth_msg t = socks_auth_msg t0" using assms msg_config by (auto simp: standing_def)
  with assms show ?thesis
    by (auto simp: goes_defs sendSocksAuth_def send_all finish_auth_def)
qed

lemma goes_authreply:
  assumes "standing t0 XPORT_PROXY_AUTHRESPONSE (RData [CHR 0x01, CHR 0x00] # rd) wr t w"
  shows "goes db EV_READ t0 t w XPORT_PROXY_REQUEST rd wr"
proof -
  have r: "w_rd w = RData ([CHR 0x01, CHR 0x00] @ []) # rd" "xp_socksBuffer t = None"
    using assms by (simp_all add: standing_def)
  show ?thesis
    using assms receive_all [OF r(1) _ _ r(2)] by (auto simp: goes_defs receiveSocksAuth_def)
qed

lemma request_msg_length: "length (fst (socks_request_msg db r)) \<le> 262"
  by (auto simp: socks_request_msg_def getTruncatedStrLen_def Let_def)

lemma goes_request:
  assumes "standing t0 XPORT_PROXY_REQUEST rd (WRoom k # wr) t w" "k \<ge> 262"
  shows "goes db EV_WRITE t0 t w XPORT_PROXY_RESPONSE_STATUS rd wr"
proof -
  obtain r where r: "xp_remote t = Some r" using assms by (auto simp: standing_def)
  have "length (fst (socks_request_msg db r)) \<le> k" using request_msg_length [of db r] assms(2) by simp
  with assms r show ?thesis
    by (auto simp: goes_defs sendSocksRequest_def send_all finish_request_def)
qed

lemma goes_response:
  assumes "standing t0 XPORT_PROXY_RESPONSE_STATUS
      (RData (CHR 0x05 # CHR 0x00 # rsv # CHR 0x01 # addr) # rd) wr t w" "length addr = 6"
  shows "goes db EV_READ t0 t w XPORT_SUCCESSOPEN rd wr"
proof -
  have r: "w_rd w = RData ([CHR 0x05, CHR 0x00] @ (rsv # CHR 0x01 # addr)) # rd" "xp_socksBuffer t = None"
    using assms by (simp_all add: standing_def)
  have ty: "receiveResponseType t' w' = receiveResponseTypeIPv4
      (xport_changeState XPORT_PROXY_RESPONSE_TYPE_IPV4 (t'\<lparr>xp_socksBuffer := None\<rparr>))
      (xport_bytesCB t' (2, 0) (w'\<lparr>w_rd := RData addr # rd, w_in := w_in w' @ [rsv, CHR 0x01]\<rparr>))"
    if "w_rd w' = RData (rsv # CHR 0x01 # addr) # rd" "xp_socksBuffer t' = None" for t' w'
    using receive_all [of w' "[rsv, CHR 0x01]" addr rd 2 t'] that assms(2)
    by (auto simp: receiveResponseType_def Let_def)
  have ip: "receiveResponseTypeIPv4 t' w' = finish_response (t'\<lparr>xp_socksBuffer := None\<rparr>)
      (xport_bytesCB t' (6, 0) (w'\<lparr>w_rd := rd, w_in := w_in w' @ addr\<rparr>))"
    if "w_rd w' = RData addr # rd" "xp_socksBuffer t' = None" for t' w'
  proof -
    have "addr \<noteq> []" using assms(2) by auto
    with receive_all [of w' addr "[]" rd 6 t'] that assms(2) show ?thesis
      by (auto simp: receiveResponseTypeIPv4_def)
  qed
  show ?thesis
    using assms receive_all [OF r(1) _ _ r(2)]
    by (auto simp: goes_defs receiveResponseStatus_def ty ip finish_response_def)
qed

lemma goes_events:
  "goes db ev t0 t w st rd wr \<Longrightarrow>
     (\<And>t' w'. standing t0 st rd wr t' w' \<Longrightarrow> \<exists>t2 w2. xport_events db evs t' w' = Some (t2, w2) \<and> P t2 w2) \<Longrightarrow>
     \<exists>t2 w2. xport_events db (ev' # evs) t w = Some (t2, w2) \<and> P t2 w2"
  if "ev' = {ev}"
  using that by (fastforce simp: goes_def)

text \<open>The replies of a willing proxy, and the events of a run that meets them.\<close>

definition proxy_replies :: "transport \<Rightarrow> char \<Rightarrow> bytes \<Rightarrow> rd list" where
  "proxy_replies t0 rsv addr =
     [RData (choice_reply t0)] @ (if has_creds t0 then [RData (auth_reply t0)] else []) @
     [RData (CHR 0x05 # CHR 0x00 # rsv # CHR 0x01 # addr)]"

definition handshake_events :: "transport \<Rightarrow> tgen_event set list" where
  "handshake_events t0 =
     [{EV_WRITE}, {EV_READ}] @ (if has_creds t0 then [{EV_WRITE}, {EV_READ}] else []) @ [{EV_WRITE}, {EV_READ}]"

lemma events_last: "standing t0 XPORT_SUCCESSOPEN rd wr t w \<Longrightarrow>
  \<exists>t2 w2. xport_events db [] t w = Some (t2, w2) \<and> xp_state t2 = XPORT_SUCCESSOPEN"
  by (simp add: standing_def)

lemma completes_from_request:
  assumes "standing t0 XPORT_PROXY_REQUEST [RData (CHR 0x05 # CHR 0x00 # rsv # CHR 0x01 # addr)] (WRoom k # wr) t w"
    and "length addr = 6" and "k \<ge> 262"
  shows "\<exists>t2 w2. xport_events db [{EV_WRITE}, {EV_READ}] t w = Some (t2, w2) \<and> xp_state t2 = XPORT_SUCCESSOPEN"
  by (rule goes_events [OF refl goes_request [OF assms(1,3)]])
     (rule goes_events [OF refl goes_response], assumption, rule assms(2), rule events_last)

lemma socks_completes:
  assumes fr: "fresh t0 r0" and pr: "xp_proxy t0 \<noteq> None" and ad: "length addr = 6" and k: "k \<ge> 600"
    and w: "w_rd w = proxy_replies t0 rsv addr" "w_wr w = replicate 3 (WRoom k)"
  shows "\<exists>t2 w2. xport_events db (handshake_events t0) t0 w = Some (t2, w2) \<and> xp_state t2 = XPORT_SUCCESSOPEN"
proof -
  have am: "length (socks_auth_msg t0) \<le> k"
    using k by (auto simp: socks_auth_msg_def getTruncatedStrLen_def Let_def split: option.splits)
  have st: "standing t0 XPORT_CONNECT (proxy_replies t0 rsv addr) (WRoom k # replicate 2 (WRoom k)) t0 w"
    using fr w by (simp add: standing_def fresh_def same_config_def numeral_3_eq_3 numeral_2_eq_2)
  have k3: "k \<ge> 3" and k262: "k \<ge> 262" using k by auto
  show ?thesis
  proof (cases "has_creds t0")
    case True
    show ?thesis
      unfolding handshake_events_def if_P [OF True] append.simps
    proof (rule goes_events [OF refl goes_connect [OF st pr k3]])
      fix t1 w1 assume "standing t0 XPORT_PROXY_CHOICE (proxy_replies t0 rsv addr) (replicate 2 (WRoom k)) t1 w1"
      then have s: "standing t0 XPORT_PROXY_CHOICE (RData (choice_reply t0) # RData [CHR 0x01, CHR 0x00] #
          [RData (CHR 0x05 # CHR 0x00 # rsv # CHR 0x01 # addr)]) (WRoom k # WRoom k # []) t1 w1"
        using True by (simp add: proxy_replies_def auth_reply_def numeral_2_eq_2)
      show "\<exists>t2 w2. xport_events db [{EV_READ}, {EV_WRITE}, {EV_READ}, {EV_WRITE}, {EV_READ}] t1 w1 = Some (t2, w2) \<and>
          xp_state t2 = XPORT_SUCCESSOPEN"
        apply (rule goes_events [OF refl goes_choice [OF s, unfolded if_P [OF True]]])
        apply (rule goes_events [OF refl goes_auth [OF _ am]], assumption)
        apply (rule goes_events [OF refl goes_authreply], assumption)
        apply (rule completes_from_request [OF _ ad k262], assumption)
        done
    qed
  next
    case False
    show ?thesis
      unfolding handshake_events_def if_not_P [OF False] append.simps
    proof (rule goes_events [OF refl goes_connect [OF st pr k3]])
      fix t1 w1 assume "standing t0 XPORT_PROXY_CHOICE (proxy_replies t0 rsv addr) (replicate 2 (WRoom k)) t1 w1"
      then have s: "standing t0 XPORT_PROXY_CHOICE (RData (choice_reply t0) #
          [RData (CHR 0x05 # CHR 0x00 # rsv # CHR 0x01 # addr)]) (WRoom k # WRoom k # []) t1 w1"
        using False by (simp add: proxy_replies_def numeral_2_eq_2)
      show "\<exists>t2 w2. xport_events db [{EV_READ}, {EV_WRITE}, {EV_READ}] t1 w1 = Some (t2, w2) \<and>
          xp_state t2 = XPORT_SUCCESSOPEN"
        apply (rule goes_events [OF refl goes_choice [OF s, unfolded if_not_P [OF False]]])
        apply (rule completes_from_request [OF _ ad k262], assumption)
        done
    qed
  qed
qed

text \<open>A proxy, a resolver and a kernel script for the witnesses.\<close>

definition demo_db :: resolver where
  "demo_db = \<lparr>getaddrinfo = (\<lambda>_. None), getnameinfo = (\<lambda>_. None)\<rparr>"

definition demo_sockets :: sockets where
  "demo_sockets = \<lparr>so_socket = 5, so_bind_ok = True, so_connect = None, so_getsockname = None,
     so_TGENIP = None, so_TGENSOCKS = None\<rparr>"

definition demo_socks :: transport where
  "demo_socks = tgentransport_newHelper demo_sockets 5 10 11
     (Some (tgenpeer_newFromIP 0x01020304 9050)) (Some ''u'') (Some ''p'')
     (Some (tgenpeer_newFromName ''a.onion'' 80)) True"

definition demo_remote :: peer where
  "demo_remote = tgenpeer_ref (tgenpeer_newFromName ''a.onion'' 80)"

definition demo_world :: world where
  "demo_world = \<lparr>w_rd = [RData [CHR 0x05, CHR 0x02], RData [CHR 0x01, CHR 0x00],
       RData [CHR 0x05, CHR 0x00, CHR 0x00, CHR 0x01, CHR 0x01, CHR 0x02, CHR 0x03, CHR 0x04, CHR 0x00, CHR 0x50]],
     w_wr = [WRoom 1000, WRoom 1000, WRoom 1000], w_in = [], w_out = [], w_clock = [20],
     w_bytesCB = [], w_app = \<lparr>a_notes = [], a_log = [], a_random = [], a_streamCounter = 0\<rparr>\<rparr>"

lemma demo_fresh: "fresh demo_socks demo_remote"
  unfolding demo_socks_def demo_remote_def by (rule new_fresh)

lemma demo_start: "xport_run db demo_socks demo_socks demo_world"
  by (rule run_start) (simp_all add: demo_world_def)

lemma demo_user [simp]: "xp_username demo_socks = Some ''u''"
  by (simp add: demo_socks_def tgentransport_newHelper_def)

lemma demo_config: "has_creds demo_socks" "xp_proxy demo_socks \<noteq> None"
  by (simp_all add: demo_socks_def tgentransport_newHelper_def)

lemma demo_completes:
  "\<exists>t w. xport_events demo_db (handshake_events demo_socks) demo_socks demo_world = Some (t, w) \<and>
     xp_state t = XPORT_SUCCESSOPEN"
  by (rule socks_completes [OF demo_fresh demo_config(2), where addr = "[CHR 0x01, CHR 0x02, CHR 0x03, CHR 0x04, CHR 0x00, CHR 0x50]" and rsv = "CHR 0x00" and k = 1000])
     (simp_all add: demo_world_def proxy_replies_def choice_reply_def auth_reply_def demo_config numeral_3_eq_3)

section \<open>Theorems about the handshake\<close>

text \<open>
  C9. In every run of a fresh transport no handler ever aborts, and at every moment, errors included,
  what has been written is a prefix of the one SOCKS5 client dialogue: greeting, credentials if any
  are configured, request. Short writes and interrupted reads never duplicate, drop or reorder a byte.
\<close>

theorem socks_never_aborts_and_wire_prefix:
  assumes "fresh t0 r0" and "xport_run db t0 t w"
  shows "\<exists>r t' w'. tgentransport_onEvent db events t w = Some (r, t', w') \<and>
    prefix (w_out w') (client_bytes db t0 r0)"
  using onEvent_handled [OF run_inv [OF assms(2,1)], of events]
  by (auto simp: handled_def wire_prefix_def split: option.splits)

text \<open>
  C10. When a run through a proxy reaches \<open>SUCCESSOPEN\<close>, the complete SOCKS5 dialogue has taken place
  and nothing else: the whole client side has been written, and what has been read is exactly the
  method choice the client asked for, the positive authentication reply if credentials are
  configured, the granted status, and one complete bind address. No byte after it has been consumed,
  so the payload starts at the right place.
\<close>

theorem socks_success_means_complete_dialogue:
  assumes "fresh t0 r0" and "xp_proxy t0 \<noteq> None" and "xport_run db t0 t w"
    and "xp_state t = XPORT_SUCCESSOPEN"
  shows "w_out w = client_bytes db t0 r0 \<and>
    (\<exists>rsv a. w_in w = granted t0 @ rsv # a \<and> bind_address a)"
  using run_inv [OF assms(3,1)] assms(2,4) by (auto simp: hs_inv_def dialogue_def Let_def)

text \<open>
  C25. Credentials are sent only to a proxy that asked for them: in every run, as soon as a byte
  beyond the greeting is on the wire and credentials are configured, the proxy has answered
  \<open>05 02\<close>; and the request goes out only after it has also answered \<open>01 00\<close>.
\<close>

theorem socks_credentials_only_on_request:
  assumes "fresh t0 r0" and "has_creds t0" and "xport_run db t0 t w"
  shows "(length (w_out w) > 3 \<longrightarrow> prefix [CHR 0x05, CHR 0x02] (w_in w)) \<and>
    (length (w_out w) > 3 + length (socks_auth_msg t0) \<longrightarrow>
       prefix [CHR 0x05, CHR 0x02, CHR 0x01, CHR 0x00] (w_in w))"
proof -
  have inv: "hs_inv db t0 r0 t w" using assms(3,1) by (rule run_inv)
  have init: "length (socks_init_msg t0) = 3" by (simp add: socks_init_msg_def)
  have s1: "length out \<le> 3" if "sending t [] (socks_init_msg t0) out" for out
    using prefix_length_le [OF sending_prefix [OF that, of "[]"]] init by simp
  have s2: "length out \<le> 3 + length (socks_auth_msg t0)"
    if "sending t (socks_init_msg t0) (socks_auth_msg t0) out" for out
    using prefix_length_le [OF sending_prefix [OF that, of "[]"]] init by simp
  show ?thesis
    using inv assms(2) init s1 s2 unfolding hs_inv_def dialogue_def
    by (cases "xp_state t")
       (fastforce simp: Let_def choice_reply_def auth_reply_def granted_def auth_part_def
         split: if_splits)+
qed

theorem socks_never_aborts_and_wire_prefix_witness:
  "\<exists>r t' w'. tgentransport_onEvent demo_db {EV_WRITE} demo_socks demo_world = Some (r, t', w') \<and>
    prefix (w_out w') (client_bytes demo_db demo_socks demo_remote)"
  by (rule socks_never_aborts_and_wire_prefix [OF demo_fresh demo_start])

theorem socks_success_means_complete_dialogue_witness:
  "\<exists>t w. xport_events demo_db (handshake_events demo_socks) demo_socks demo_world = Some (t, w) \<and>
     w_out w = client_bytes demo_db demo_socks demo_remote"
proof -
  obtain t w where s: "xport_events demo_db (handshake_events demo_socks) demo_socks demo_world = Some (t, w)"
      "xp_state t = XPORT_SUCCESSOPEN"
    using demo_completes by blast
  have "xport_run demo_db demo_socks t w" by (rule events_run [OF s(1) demo_start])
  from socks_success_means_complete_dialogue [OF demo_fresh demo_config(2) this s(2)] s(1)
  show ?thesis by blast
qed

theorem socks_credentials_only_on_request_witness:
  "\<exists>t w. xport_events demo_db (handshake_events demo_socks) demo_socks demo_world = Some (t, w) \<and>
     (length (w_out w) > 3 \<longrightarrow> prefix [CHR 0x05, CHR 0x02] (w_in w))"
proof -
  obtain t w where s: "xport_events demo_db (handshake_events demo_socks) demo_socks demo_world = Some (t, w)"
    using demo_completes by blast
  have "xport_run demo_db demo_socks t w" by (rule events_run [OF s demo_start])
  from socks_credentials_only_on_request [OF demo_fresh demo_config(1) this] s
  show ?thesis by blast
qed





text \<open>
  C34. An onion name is never given to the resolver: with an onion remote behind a proxy, every call of
  \<open>tgentransport_onEvent\<close> computes the same under any two resolvers, and the remote's address stays
  as it was.
\<close>

theorem onion_never_resolved:
  assumes "xp_remote t = Some r" and "is_onion r"
  shows "tgentransport_onEvent db1 events t w = tgentransport_onEvent db2 events t w \<and>
    snd (socks_request_msg db1 r) = r"
  using assms
  by (auto simp: tgentransport_onEvent_def xport_step_def sendSocksRequest_def socks_request_msg_def
      xport_change_defs Let_def split: xport_state.split prod.split option.split)

theorem onion_never_resolved_witness:
  "\<forall>db1 db2 events w. tgentransport_onEvent db1 events demo_socks w = tgentransport_onEvent db2 events demo_socks w"
proof -
  have "is_onion demo_remote" by code_simp
  moreover have "xp_remote demo_socks = Some demo_remote" using demo_fresh by (simp add: fresh_def)
  ultimately show ?thesis using onion_never_resolved by blast
qed


lemma performLookups_port [simp]: "netPort (tgenpeer_performLookups db p) = netPort p"
  by (cases "hostNameStr p"; cases "netIP p = 0"; cases "lookupIP db (the (hostNameStr p)) = INADDR_NONE")
     (simp_all add: performLookups_cases)

lemma new_refcount: "peer_refcount (tgenpeer_new name ip port) = 1"
  by (simp add: tgenpeer_new_def Let_def split: option.split)

lemma env_proxy_refcount: "getProxyFromEnv so = Some p \<Longrightarrow> peer_refcount p = 1"
  by (auto simp: getProxyFromEnv_def parsePeer_def tgenpeer_newFromName_def Let_def new_refcount
      split: option.splits if_splits list.splits)

lemma lookups_refcount [simp]: "peer_refcount (tgenpeer_performLookups db p) = peer_refcount p"
  by (cases "hostNameStr p"; cases "netIP p = 0"; cases "lookupIP db (the (hostNameStr p)) = INADDR_NONE")
     (simp_all add: performLookups_cases)

lemma ref_unref: "peer_refcount p \<ge> 1 \<Longrightarrow> tgenpeer_unref (tgenpeer_ref p) = Some p"
  by (simp add: tgenpeer_ref_def tgenpeer_unref_def Let_def)

definition via_proxy :: "sockets \<Rightarrow> peer option \<Rightarrow> peer option" where
  "via_proxy so socksProxy = (if getProxyFromEnv so \<noteq> None then getProxyFromEnv so else socksProxy)"

lemma newActive_Some:
  assumes "tgentransport_newActive db so rand peers cb socksProxy user pass w = (Some t, calls, w')"
  obtains pool r started created where "opt_value peers = Some pool" "tgenpool_getRandom rand pool = Some r"
    "calls = [Connect (netIP (tgenpeer_performLookups db (case via_proxy so socksProxy of Some p \<Rightarrow> p | None \<Rightarrow> r)))
       (netPort (case via_proxy so socksProxy of Some p \<Rightarrow> p | None \<Rightarrow> r))]"
    "let tr = tgentransport_newHelper so (so_socket so) started created
         (map_option (tgenpeer_performLookups db) (via_proxy so socksProxy))
         (if via_proxy so socksProxy \<noteq> None then user else None)
         (if via_proxy so socksProxy \<noteq> None then pass else None)
         (Some (if via_proxy so socksProxy \<noteq> None then r else tgenpeer_performLookups db r)) cb
     in t = (if getProxyFromEnv so \<noteq> None then tr\<lparr>xp_proxy := Option.bind (xp_proxy tr) tgenpeer_unref\<rparr> else tr)"
proof -
  from assms obtain pool r where pr: "isSet peers" "opt_value peers = Some pool"
      "tgenpool_getRandom rand pool = Some r"
    by (auto simp: tgentransport_newActive_def split: option.splits if_splits)
  define v where "v = via_proxy so socksProxy"
  have v: "(if getProxyFromEnv so \<noteq> None then getProxyFromEnv so else socksProxy) = v"
    by (simp add: v_def via_proxy_def)
  show thesis
    using assms that [of pool r] pr
    unfolding tgentransport_newActive_def Let_def v v_def [symmetric]
    by (cases v) (auto simp: case_prod_unfold tgenpeer_getNetworkIP_def tgenpeer_getNetworkPort_def
        split: option.splits if_splits)
qed

text \<open>
  An active transport connects to one address only: the proxy's (the environment's before the
  configured one) when there is one, and then the chosen remote peer is kept without any lookup;
  otherwise the remote peer's own. It starts fresh, and without a proxy it keeps no credentials.
\<close>

theorem newActive_connects_once:
  assumes "tgentransport_newActive db so rand peers cb socksProxy user pass w = (Some t, calls, w')"
  shows "\<exists>pool r. opt_value peers = Some pool \<and> tgenpool_getRandom rand pool = Some r \<and>
    (case via_proxy so socksProxy of
       Some p \<Rightarrow> calls = [Connect (netIP (tgenpeer_performLookups db p)) (netPort p)] \<and>
                 fresh t (tgenpeer_ref r) \<and> xp_proxy t \<noteq> None \<and>
                 xp_username t = user \<and> xp_password t = pass
     | None \<Rightarrow> calls = [Connect (netIP (tgenpeer_performLookups db r)) (netPort r)] \<and>
               fresh t (tgenpeer_ref (tgenpeer_performLookups db r)) \<and> xp_proxy t = None \<and>
               \<not> has_creds t)"
  using assms
proof (cases rule: newActive_Some)
  case (1 pool r started created)
  show ?thesis
  proof (cases "getProxyFromEnv so")
    case None
    with 1 show ?thesis
      by (auto simp: Let_def fresh_def tgentransport_newHelper_def split: option.splits)
  next
    case (Some p)
    have "tgenpeer_unref (tgenpeer_ref (tgenpeer_performLookups db p)) = Some (tgenpeer_performLookups db p)"
      by (rule ref_unref) (simp add: env_proxy_refcount [OF Some])
    with 1 Some show ?thesis
      by (simp add: Let_def via_proxy_def fresh_def tgentransport_newHelper_def)
  qed
qed

theorem newActive_connects_once_witness:
  "\<exists>t calls w'. tgentransport_newActive demo_db demo_sockets 0
       (set_to (Some (pool_members [tgenpeer_newFromName ''a'' 80]))) True
       (Some (tgenpeer_newFromIP 1 9050)) None None demo_world = (Some t, calls, w') \<and>
     calls = [Connect (netIP (tgenpeer_performLookups demo_db (tgenpeer_newFromIP 1 9050)))
                (netPort (tgenpeer_newFromIP 1 9050))]"
proof -
  let ?call = "tgentransport_newActive demo_db demo_sockets 0
       (set_to (Some (pool_members [tgenpeer_newFromName ''a'' 80]))) True
       (Some (tgenpeer_newFromIP 1 9050)) None None demo_world"
  have env: "getProxyFromEnv demo_sockets = None"
    by (simp add: getProxyFromEnv_def demo_sockets_def)
  have get: "tgenpool_getRandom 0 (pool_members [tgenpeer_newFromName ''a'' 80]) =
      Some (tgenpeer_newFromName ''a'' 80)"
    by (simp add: tgenpool_getRandom_def pool_members_props)
  obtain t calls w' where c: "?call = (Some t, calls, w')"
    by (simp add: tgentransport_newActive_def get env demo_sockets_def case_prod_unfold Let_def)
  have "via_proxy demo_sockets (Some (tgenpeer_newFromIP 1 9050)) = Some (tgenpeer_newFromIP 1 9050)"
    by (simp add: via_proxy_def env)
  with newActive_connects_once [OF c] c show ?thesis by auto
qed

end
