(* ===== verification/Double.thy ===== *)
theory Double
  imports Complex_Main Prelude
begin

text \<open>
  C doubles as far as TGen computes with them. A value is a rational, an infinity or NaN (the sign of
  zero is not kept; no TGen computation depends on it). How an exact result is rounded to a double,
  the transcendental functions of libm and GLib's random numbers are not TGen code: they are the
  fields of \<open>mathlib\<close>, an argument of every definition that uses them. \<open>fp_laws\<close> states what is relied
  on: results are doubles, 0 and 1 are doubles, rounding keeps the sign of a non-negative result, and
  a double rounded to an integer is a double.
\<close>

datatype gdouble = NaN | NInf | Fin rat | PInf

record mathlib =
  ml_rnd :: "rat \<Rightarrow> gdouble" \<comment> \<open>rounding of an exact result\<close>
  ml_log :: "gdouble \<Rightarrow> gdouble"
  ml_exp :: "gdouble \<Rightarrow> gdouble"
  ml_sqrt :: "gdouble \<Rightarrow> gdouble"
  ml_cos :: "gdouble \<Rightarrow> gdouble"
  ml_pow :: "gdouble \<Rightarrow> gdouble \<Rightarrow> gdouble"
  ml_rand :: "u32 \<Rightarrow> nat \<Rightarrow> gdouble \<Rightarrow> gdouble \<Rightarrow> gdouble"
    \<comment> \<open>\<open>g_rand_double_range\<close>: seed, number of earlier calls, begin, end\<close>

fun fp_le :: "gdouble \<Rightarrow> gdouble \<Rightarrow> bool" where
  "fp_le NaN y = False"
| "fp_le NInf y = (y \<noteq> NaN)"
| "fp_le (Fin a) (Fin b) = (a \<le> b)"
| "fp_le (Fin a) y = (y = PInf)"
| "fp_le PInf y = (y = PInf)"

definition fp_lt :: "gdouble \<Rightarrow> gdouble \<Rightarrow> bool" where
  "fp_lt x y \<longleftrightarrow> fp_le x y \<and> x \<noteq> y"

definition fp_neg :: "gdouble \<Rightarrow> gdouble" where
  "fp_neg x = (case x of NaN \<Rightarrow> NaN | NInf \<Rightarrow> PInf | Fin a \<Rightarrow> Fin (- a) | PInf \<Rightarrow> NInf)"

fun fp_add :: "mathlib \<Rightarrow> gdouble \<Rightarrow> gdouble \<Rightarrow> gdouble" where
  "fp_add ml (Fin a) (Fin b) = ml_rnd ml (a + b)"
| "fp_add ml NaN y = NaN"
| "fp_add ml x NaN = NaN"
| "fp_add ml PInf NInf = NaN"
| "fp_add ml NInf PInf = NaN"
| "fp_add ml PInf y = PInf"
| "fp_add ml NInf y = NInf"
| "fp_add ml x PInf = PInf"
| "fp_add ml x NInf = NInf"

definition fp_sub :: "mathlib \<Rightarrow> gdouble \<Rightarrow> gdouble \<Rightarrow> gdouble" where
  "fp_sub ml x y = fp_add ml x (fp_neg y)"

text \<open>The sign of a value that is not NaN, and the signed infinity.\<close>

definition fp_sgn :: "gdouble \<Rightarrow> rat" where
  "fp_sgn x = (case x of Fin a \<Rightarrow> sgn a | PInf \<Rightarrow> 1 | NInf \<Rightarrow> - 1 | NaN \<Rightarrow> 0)"

definition fp_inf :: "rat \<Rightarrow> gdouble" where
  "fp_inf s = (if s > 0 then PInf else if s < 0 then NInf else NaN)"

definition fp_mul :: "mathlib \<Rightarrow> gdouble \<Rightarrow> gdouble \<Rightarrow> gdouble" where
  "fp_mul ml x y =
     (case (x, y) of
        (Fin a, Fin b) \<Rightarrow> ml_rnd ml (a * b)
      | (NaN, _) \<Rightarrow> NaN
      | (_, NaN) \<Rightarrow> NaN
      | _ \<Rightarrow> fp_inf (fp_sgn x * fp_sgn y))"

definition fp_div :: "mathlib \<Rightarrow> gdouble \<Rightarrow> gdouble \<Rightarrow> gdouble" where
  "fp_div ml x y =
     (case (x, y) of
        (Fin a, Fin b) \<Rightarrow> if b = 0 then fp_inf (sgn a) else ml_rnd ml (a / b)
      | (NaN, _) \<Rightarrow> NaN
      | (_, NaN) \<Rightarrow> NaN
      | (Fin a, _) \<Rightarrow> Fin 0
      | (_, Fin b) \<Rightarrow> fp_inf (fp_sgn x * (if b < 0 then - 1 else 1))
      | _ \<Rightarrow> NaN)"

text \<open>\<open>round\<close>: to the nearest integer, halves away from zero; exact.\<close>

definition round_half_away :: "rat \<Rightarrow> int" where
  "round_half_away a = (if a \<ge> 0 then \<lfloor>a + 1 / 2\<rfloor> else - \<lfloor>- a + 1 / 2\<rfloor>)"

definition fp_round :: "gdouble \<Rightarrow> gdouble" where
  "fp_round x = (case x of Fin a \<Rightarrow> Fin (of_int (round_half_away a)) | _ \<Rightarrow> x)"

definition DBL_MIN :: gdouble where
  "DBL_MIN = Fin (1 / 2 ^ 1022)"

definition M_PI :: gdouble where
  "M_PI = Fin (884279719003555 / 281474976710656)"

section \<open>What is relied on\<close>

definition is_double :: "mathlib \<Rightarrow> gdouble \<Rightarrow> bool" where
  "is_double ml x = (case x of Fin a \<Rightarrow> ml_rnd ml a = Fin a | _ \<Rightarrow> True)"

definition fp_laws :: "mathlib \<Rightarrow> bool" where
  "fp_laws ml \<longleftrightarrow>
     (\<forall>a. is_double ml (ml_rnd ml a)) \<and>
     (\<forall>x. is_double ml (ml_exp ml x)) \<and>
     is_double ml (Fin 0) \<and> is_double ml (Fin 1) \<and>
     (\<forall>a. 0 \<le> a \<longrightarrow> fp_le (Fin 0) (ml_rnd ml a)) \<and>
     (\<forall>a. is_double ml (Fin a) \<longrightarrow> is_double ml (fp_round (Fin a)))"

text \<open>
  \<open>g_rand_double_range(0, end)\<close> is in \<open>[0, end)\<close> for a finite non-negative end (and 0 for an empty
  range), and does not stay at or below \<open>DBL_MIN\<close> for ever.
\<close>

definition rand_laws :: "mathlib \<Rightarrow> bool" where
  "rand_laws ml \<longleftrightarrow>
     (\<forall>seed n e. 0 \<le> e \<longrightarrow> (\<exists>a. ml_rand ml seed n (Fin 0) (Fin e) = Fin a \<and> 0 \<le> a \<and> a \<le> e)) \<and>
     (\<forall>seed n. \<exists>m \<ge> n. \<not> fp_le (ml_rand ml seed m (Fin 0) (Fin 1)) DBL_MIN)"

lemma is_double_simps [simp]:
  "is_double ml NaN" "is_double ml PInf" "is_double ml NInf"
  by (simp_all add: is_double_def)

lemma is_double_inf [simp]: "is_double ml (fp_inf s)"
  by (simp add: fp_inf_def)

lemma fp_add_double: "fp_laws ml \<Longrightarrow> is_double ml (fp_add ml x y)"
  by (cases "(ml, x, y)" rule: fp_add.cases) (auto simp: fp_laws_def)

lemma fp_div_double: "fp_laws ml \<Longrightarrow> is_double ml (fp_div ml x y)"
  by (auto simp: fp_laws_def fp_div_def split: gdouble.split)

lemma fp_le_refl: "x \<noteq> NaN \<Longrightarrow> fp_le x x"
  by (cases x) auto

lemma fp_add_nonneg:
  "fp_laws ml \<Longrightarrow> fp_le (Fin 0) x \<Longrightarrow> fp_le (Fin 0) y \<Longrightarrow> fp_le (Fin 0) (fp_add ml x y)"
  by (cases "(ml, x, y)" rule: fp_add.cases) (auto simp: fp_laws_def)

text \<open>\<open>printf("%.2f")\<close>: the exact value to two decimals, ties to even.\<close>

definition round_half_even :: "rat \<Rightarrow> int" where
  "round_half_even q =
     (let f = \<lfloor>q\<rfloor>; d = q - of_int f
      in if d < 1 / 2 \<or> (d = 1 / 2 \<and> even f) then f else f + 1)"

definition show_fixed2 :: "gdouble \<Rightarrow> string" where
  "show_fixed2 x =
     (case x of
        NaN \<Rightarrow> ''nan''
      | PInf \<Rightarrow> ''inf''
      | NInf \<Rightarrow> ''-inf''
      | Fin a \<Rightarrow>
          (let n = nat (round_half_even (\<bar>a\<bar> * 100))
           in (if a < 0 then ''-'' else []) @ show_nat (n div 100) @ ''.'' @
              [digit_char (n mod 100 div 10), digit_char (n mod 10)]))"

end
