(* ===== verification/Markov.thy ===== *)
theory Markov
  imports Double
begin

text \<open>
  \<open>tgen-markovmodel.c\<close>: loading, validating and running the Markov models that generate streams and
  packets. The graph library igraph is outside the program; a graph is the record \<open>igraph\<close> of the
  accessors TGen calls on it, and reading or writing GraphML, opening files and seeding the random
  generator are the fields of \<open>sysenv\<close>. The random generator is its seed and the number of values
  drawn; \<open>mathlib\<close> says what they are.
\<close>

datatype attr_type = ATTRIBUTE_NUMERIC | ATTRIBUTE_STRING | ATTRIBUTE_BOOLEAN | ATTRIBUTE_UNSPECIFIED

record igraph =
  ig_gettype :: bool \<comment> \<open>\<open>igraph_cattribute_table.gettype\<close> is available\<close>
  ig_vtype :: "string \<Rightarrow> attr_type option" \<comment> \<open>type of a vertex attribute; \<open>None\<close> if the call fails\<close>
  ig_etype :: "string \<Rightarrow> attr_type option"
  ig_has_vattr :: "string \<Rightarrow> bool"
  ig_has_eattr :: "string \<Rightarrow> bool"
  ig_VAS :: "string \<Rightarrow> nat \<Rightarrow> string option"
  ig_EAS :: "string \<Rightarrow> nat \<Rightarrow> string option"
  ig_EAN :: "string \<Rightarrow> nat \<Rightarrow> gdouble"
  ig_vertices :: "nat list option" \<comment> \<open>all vertices in iteration order; \<open>None\<close> if no iterator\<close>
  ig_edges :: "nat list option"
  ig_edge :: "nat \<Rightarrow> (nat \<times> nat) option"
  ig_incident :: "nat \<Rightarrow> nat list option" \<comment> \<open>outgoing edges of a vertex\<close>

datatype vertex_attr = VERTEX_ATTR_ID | VERTEX_ATTR_TYPE
datatype vertex_id = VERTEX_ID_START | VERTEX_ID_TO_SERVER | VERTEX_ID_TO_ORIGIN | VERTEX_ID_END
datatype vertex_type = VERTEX_TYPE_STATE | VERTEX_TYPE_OBSERVATION
datatype edge_attr = EDGE_ATTR_TYPE | EDGE_ATTR_WEIGHT | EDGE_ATTR_DISTRIBUTION
  | EDGE_ATTR_PARAM_LOCATION | EDGE_ATTR_PARAM_SCALE | EDGE_ATTR_PARAM_RATE | EDGE_ATTR_PARAM_SHAPE
  | EDGE_ATTR_PARAM_LOW | EDGE_ATTR_PARAM_HIGH
datatype edge_type = EDGE_TYPE_TRANSITION | EDGE_TYPE_EMISSION
datatype edge_dist = DIST_NORMAL | DIST_LOGNORMAL | DIST_EXPONENTIAL | DIST_PARETO | DIST_UNIFORM
datatype observation = OBSERVATION_TO_SERVER | OBSERVATION_TO_ORIGIN | OBSERVATION_END

record mmodel =
  mm_refcount :: int
  mm_prngSeed :: u32
  mm_calls :: nat \<comment> \<open>random numbers drawn so far\<close>
  mm_name :: string
  mm_path :: "string option"
  mm_graph :: igraph
  mm_startVertexIndex :: nat
  mm_currentStateVertexIndex :: nat
  mm_foundEndState :: bool

section \<open>Names\<close>

fun vertexAttributeToString :: "vertex_attr \<Rightarrow> string" where
  "vertexAttributeToString VERTEX_ATTR_ID = ''name''"
| "vertexAttributeToString VERTEX_ATTR_TYPE = ''type''"

fun edgeAttributeToString :: "edge_attr \<Rightarrow> string" where
  "edgeAttributeToString EDGE_ATTR_TYPE = ''type''"
| "edgeAttributeToString EDGE_ATTR_WEIGHT = ''weight''"
| "edgeAttributeToString EDGE_ATTR_DISTRIBUTION = ''distribution''"
| "edgeAttributeToString EDGE_ATTR_PARAM_LOCATION = ''param_location''"
| "edgeAttributeToString EDGE_ATTR_PARAM_SCALE = ''param_scale''"
| "edgeAttributeToString EDGE_ATTR_PARAM_RATE = ''param_rate''"
| "edgeAttributeToString EDGE_ATTR_PARAM_SHAPE = ''param_shape''"
| "edgeAttributeToString EDGE_ATTR_PARAM_LOW = ''param_low''"
| "edgeAttributeToString EDGE_ATTR_PARAM_HIGH = ''param_high''"

fun vertexTypeToString :: "vertex_type \<Rightarrow> string" where
  "vertexTypeToString VERTEX_TYPE_STATE = ''state''"
| "vertexTypeToString VERTEX_TYPE_OBSERVATION = ''observation''"

fun edgeTypeToString :: "edge_type \<Rightarrow> string" where
  "edgeTypeToString EDGE_TYPE_TRANSITION = ''transition''"
| "edgeTypeToString EDGE_TYPE_EMISSION = ''emission''"

fun edgeDistToString :: "edge_dist \<Rightarrow> string" where
  "edgeDistToString DIST_NORMAL = ''normal''"
| "edgeDistToString DIST_LOGNORMAL = ''lognormal''"
| "edgeDistToString DIST_EXPONENTIAL = ''exponential''"
| "edgeDistToString DIST_PARETO = ''pareto''"
| "edgeDistToString DIST_UNIFORM = ''uniform''"

fun vertexIDToString :: "vertex_id \<Rightarrow> string" where
  "vertexIDToString VERTEX_ID_START = ''start''"
| "vertexIDToString VERTEX_ID_TO_SERVER = ''+''"
| "vertexIDToString VERTEX_ID_TO_ORIGIN = ''-''"
| "vertexIDToString VERTEX_ID_END = ''F''"

text \<open>Each comparison covers only as many characters as the constant has: it is a prefix test.\<close>

definition is_equal :: "string \<Rightarrow> string \<Rightarrow> bool" where
  "is_equal str constStr \<longleftrightarrow> strncaseeq (length constStr) str constStr"

definition vertexTypeIsEqual :: "string \<Rightarrow> vertex_type \<Rightarrow> bool" where
  "vertexTypeIsEqual typeStr type = is_equal typeStr (vertexTypeToString type)"

definition edgeTypeIsEqual :: "string \<Rightarrow> edge_type \<Rightarrow> bool" where
  "edgeTypeIsEqual typeStr type = is_equal typeStr (edgeTypeToString type)"

definition edgeDistIsEqual :: "string \<Rightarrow> edge_dist \<Rightarrow> bool" where
  "edgeDistIsEqual distStr d = is_equal distStr (edgeDistToString d)"

definition vertexIDIsEqual :: "string \<Rightarrow> vertex_id \<Rightarrow> bool" where
  "vertexIDIsEqual idStr i = is_equal idStr (vertexIDToString i)"

definition vertexIDIsEmission :: "string \<Rightarrow> bool" where
  "vertexIDIsEmission idStr \<longleftrightarrow> vertexIDIsEqual idStr VERTEX_ID_TO_SERVER \<or>
     vertexIDIsEqual idStr VERTEX_ID_TO_ORIGIN \<or> vertexIDIsEqual idStr VERTEX_ID_END"

section \<open>Attributes\<close>

definition attributeTypeMismatch :: "igraph \<Rightarrow> attr_type \<Rightarrow> attr_type option \<Rightarrow> bool" where
  "attributeTypeMismatch g desiredType got =
     (if \<not> ig_gettype g then False
      else case got of None \<Rightarrow> True | Some type \<Rightarrow> type \<noteq> desiredType)"

definition findVertexAttributeString :: "igraph \<Rightarrow> nat \<Rightarrow> vertex_attr \<Rightarrow> string option" where
  "findVertexAttributeString g v attr =
     (let name = vertexAttributeToString attr in
      if ig_has_vattr g name then
        if attributeTypeMismatch g ATTRIBUTE_STRING (ig_vtype g name) then None
        else (case ig_VAS g name v of
                Some s \<Rightarrow> if s \<noteq> [] then Some s else None
              | None \<Rightarrow> None)
      else None)"

definition findEdgeAttributeDouble :: "igraph \<Rightarrow> nat \<Rightarrow> edge_attr \<Rightarrow> gdouble option" where
  "findEdgeAttributeDouble g e attr =
     (let name = edgeAttributeToString attr in
      if ig_has_eattr g name then
        if attributeTypeMismatch g ATTRIBUTE_NUMERIC (ig_etype g name) then None
        else (let value = ig_EAN g name e in if value \<noteq> NaN then Some value else None)
      else None)"

definition findEdgeAttributeString :: "igraph \<Rightarrow> nat \<Rightarrow> edge_attr \<Rightarrow> string option" where
  "findEdgeAttributeString g e attr =
     (let name = edgeAttributeToString attr in
      if ig_has_eattr g name then
        if attributeTypeMismatch g ATTRIBUTE_STRING (ig_etype g name) then None
        else (case ig_EAS g name e of
                Some s \<Rightarrow> if s \<noteq> [] then Some s else None
              | None \<Rightarrow> None)
      else None)"

section \<open>Validation\<close>

definition checkVertexAttributes :: "igraph \<Rightarrow> nat \<Rightarrow> bool" where
  "checkVertexAttributes g v =
     (let (idOk, idStr) =
        (if ig_has_vattr g (vertexAttributeToString VERTEX_ATTR_ID) then
           (case findVertexAttributeString g v VERTEX_ATTR_ID of
              Some s \<Rightarrow> (True, s)
            | None \<Rightarrow> (False, ''NULL''))
         else (False, ''MISSING''));
          typeOk =
        (if ig_has_vattr g (vertexAttributeToString VERTEX_ATTR_TYPE) then
           if vertexIDIsEqual idStr VERTEX_ID_START then True
           else (case findVertexAttributeString g v VERTEX_ATTR_TYPE of
                   Some typeStr \<Rightarrow>
                     if vertexTypeIsEqual typeStr VERTEX_TYPE_STATE then True
                     else if vertexTypeIsEqual typeStr VERTEX_TYPE_OBSERVATION
                     then vertexIDIsEmission idStr
                     else False
                 | None \<Rightarrow> False)
         else False)
      in idOk \<and> typeOk)"

text \<open>The loop over the vertices: the success flag, and the last start vertex seen before it stops.\<close>

fun validateVertices_loop :: "igraph \<Rightarrow> nat list \<Rightarrow> nat option \<Rightarrow> bool \<times> nat option" where
  "validateVertices_loop g [] start = (True, start)"
| "validateVertices_loop g (v # vs) start =
     (if \<not> checkVertexAttributes g v then (False, start)
      else (case ig_VAS g (vertexAttributeToString VERTEX_ATTR_ID) v of
              None \<Rightarrow> validateVertices_loop g vs (Some v)
            | Some idStr \<Rightarrow>
                validateVertices_loop g vs (if vertexIDIsEqual idStr VERTEX_ID_START then Some v else start)))"

definition validateVertices :: "igraph \<Rightarrow> bool \<times> nat option" where
  "validateVertices g =
     (case ig_vertices g of
        None \<Rightarrow> (False, None)
      | Some vs \<Rightarrow>
          (case validateVertices_loop g vs None of (isSuccess, start) \<Rightarrow>
             (isSuccess \<and> start \<noteq> None, start)))"

definition paramExists :: "igraph \<Rightarrow> nat \<Rightarrow> edge_attr \<Rightarrow> gdouble option" where
  "paramExists g e attr =
     (if ig_has_eattr g (edgeAttributeToString attr) then findEdgeAttributeDouble g e attr else None)"

definition paramNonNegative :: "gdouble \<Rightarrow> bool" where
  "paramNonNegative value = fp_le (Fin 0) value"

definition paramPositive :: "gdouble \<Rightarrow> bool" where
  "paramPositive value = fp_lt (Fin 0) value"

definition paramInfinity :: "gdouble \<Rightarrow> bool" where
  "paramInfinity value \<longleftrightarrow> fp_lt NInf value \<and> fp_lt value PInf"

definition checkEdgeAttributeLocation :: "igraph \<Rightarrow> nat \<Rightarrow> bool" where
  "checkEdgeAttributeLocation g e =
     (case paramExists g e EDGE_ATTR_PARAM_LOCATION of Some v \<Rightarrow> paramNonNegative v | None \<Rightarrow> False)"

definition checkEdgeAttributeScale :: "igraph \<Rightarrow> nat \<Rightarrow> bool" where
  "checkEdgeAttributeScale g e =
     (case paramExists g e EDGE_ATTR_PARAM_SCALE of Some v \<Rightarrow> paramNonNegative v | None \<Rightarrow> False)"

definition checkEdgeAttributeRate :: "igraph \<Rightarrow> nat \<Rightarrow> bool" where
  "checkEdgeAttributeRate g e =
     (case paramExists g e EDGE_ATTR_PARAM_RATE of Some v \<Rightarrow> paramPositive v | None \<Rightarrow> False)"

definition checkEdgeAttributeShape :: "igraph \<Rightarrow> nat \<Rightarrow> bool" where
  "checkEdgeAttributeShape g e =
     (case paramExists g e EDGE_ATTR_PARAM_SHAPE of Some v \<Rightarrow> paramPositive v | None \<Rightarrow> False)"

definition checkEdgeAttributesUniform :: "igraph \<Rightarrow> nat \<Rightarrow> bool" where
  "checkEdgeAttributesUniform g e =
     (case (paramExists g e EDGE_ATTR_PARAM_LOW, paramExists g e EDGE_ATTR_PARAM_HIGH) of
        (Some low, Some high) \<Rightarrow> paramInfinity low \<and> paramInfinity high \<and> fp_le low high
      | _ \<Rightarrow> False)"

definition checkDistribution :: "igraph \<Rightarrow> nat \<Rightarrow> bool" where
  "checkDistribution g e =
     (if ig_has_eattr g (edgeAttributeToString EDGE_ATTR_DISTRIBUTION) then
        (case findEdgeAttributeString g e EDGE_ATTR_DISTRIBUTION of
           None \<Rightarrow> False
         | Some distStr \<Rightarrow>
             if edgeDistIsEqual distStr DIST_NORMAL \<or> edgeDistIsEqual distStr DIST_LOGNORMAL
             then checkEdgeAttributeLocation g e \<and> checkEdgeAttributeScale g e
             else if edgeDistIsEqual distStr DIST_EXPONENTIAL then checkEdgeAttributeRate g e
             else if edgeDistIsEqual distStr DIST_PARETO
             then checkEdgeAttributeScale g e \<and> checkEdgeAttributeShape g e
             else if edgeDistIsEqual distStr DIST_UNIFORM then checkEdgeAttributesUniform g e
             else False)
      else False)"

definition checkEdgeAttributes :: "igraph \<Rightarrow> nat \<Rightarrow> bool" where
  "checkEdgeAttributes g e =
     (case ig_edge g e of
        None \<Rightarrow> False
      | Some (fromVertexIndex, toVertexIndex) \<Rightarrow>
          (case (findVertexAttributeString g fromVertexIndex VERTEX_ATTR_ID,
                 findVertexAttributeString g toVertexIndex VERTEX_ATTR_ID) of
             (Some fromIDStr, Some toIDStr) \<Rightarrow>
               (let weightOk =
                  (if ig_has_eattr g (edgeAttributeToString EDGE_ATTR_WEIGHT) then
                     (case findEdgeAttributeDouble g e EDGE_ATTR_WEIGHT of
                        Some w \<Rightarrow> fp_le (Fin 0) w
                      | None \<Rightarrow> False)
                   else False);
                    (typeOk, isValidEmission) =
                  (if ig_has_eattr g (edgeAttributeToString EDGE_ATTR_TYPE) then
                     (case findEdgeAttributeString g e EDGE_ATTR_TYPE of
                        Some typeStr \<Rightarrow>
                          if edgeTypeIsEqual typeStr EDGE_TYPE_TRANSITION
                          then (\<not> vertexIDIsEmission fromIDStr \<and> \<not> vertexIDIsEmission toIDStr, False)
                          else if edgeTypeIsEqual typeStr EDGE_TYPE_EMISSION
                          then (let ok = (\<not> vertexIDIsEmission fromIDStr \<and> vertexIDIsEmission toIDStr)
                                in (ok, ok))
                          else (False, False)
                      | None \<Rightarrow> (False, False))
                   else (False, False))
                in weightOk \<and> typeOk \<and> (isValidEmission \<longrightarrow> checkDistribution g e))
           | _ \<Rightarrow> False))"

definition validateEdges :: "igraph \<Rightarrow> bool" where
  "validateEdges g = (case ig_edges g of None \<Rightarrow> False | Some es \<Rightarrow> list_all (checkEdgeAttributes g) es)"

section \<open>Construction\<close>

record fileinfo =
  fi_exists :: bool
  fi_regular :: bool
  fi_content :: "bytes option" \<comment> \<open>\<open>None\<close> if \<open>fopen\<close> fails\<close>

record sysenv =
  se_file :: "string \<Rightarrow> fileinfo"
  se_fmemopen :: "bytes \<Rightarrow> bool"
  se_seek :: "bytes \<Rightarrow> bool" \<comment> \<open>\<open>fseek\<close> and \<open>ftell\<close> succeed on this stream\<close>
  se_read_graphml :: "bytes \<Rightarrow> igraph option"
  se_write_graphml :: "igraph \<Rightarrow> bytes option"
    \<comment> \<open>the GraphML text of a graph less its \<open>id\<close> attribute; \<open>None\<close> if the stream fails\<close>

definition mmodel_loadGraph :: "sysenv \<Rightarrow> bytes \<Rightarrow> igraph option" where
  "mmodel_loadGraph env content =
     (if \<not> se_seek env content then None else se_read_graphml env content)"

definition tgenmarkovmodel_ref :: "mmodel \<Rightarrow> mmodel" where
  "tgenmarkovmodel_ref mm = mm\<lparr>mm_refcount := mm_refcount mm + 1\<rparr>"

definition tgenmarkovmodel_unref :: "mmodel \<Rightarrow> mmodel option" where
  "tgenmarkovmodel_unref mm =
     (let mm' = mm\<lparr>mm_refcount := mm_refcount mm - 1\<rparr> in if mm_refcount mm' = 0 then None else Some mm')"

interpretation mmodel_rc: refcounted mm_refcount tgenmarkovmodel_ref tgenmarkovmodel_unref
  by unfold_locales (auto simp: tgenmarkovmodel_ref_def tgenmarkovmodel_unref_def Let_def)

definition mmodel_new :: "igraph \<Rightarrow> string \<Rightarrow> u32 \<Rightarrow> mmodel option" where
  "mmodel_new g name seed =
     (let (verticesPassed, start) = validateVertices g;
          edgesPassed = validateEdges g
      in if \<not> verticesPassed \<or> \<not> edgesPassed then None
         else (case start of
                 None \<Rightarrow> None
               | Some s \<Rightarrow> Some \<lparr>mm_refcount = 1, mm_prngSeed = seed, mm_calls = 0, mm_name = name,
                            mm_path = None, mm_graph = g, mm_startVertexIndex = s,
                            mm_currentStateVertexIndex = s, mm_foundEndState = False\<rparr>))"

text \<open>
  The name may be NULL: once the graph has been read, \<open>_tgenmarkovmodel_new\<close> asserts it is not. The
  outer \<open>None\<close> is that failure, \<open>Some None\<close> is NULL.
\<close>

definition mmodel_new_named :: "igraph \<Rightarrow> string option \<Rightarrow> u32 \<Rightarrow> mmodel option option" where
  "mmodel_new_named g name seed = (case name of None \<Rightarrow> None | Some n \<Rightarrow> Some (mmodel_new g n seed))"

definition tgenmarkovmodel_newFromPath :: "sysenv \<Rightarrow> string option \<Rightarrow> u32 \<Rightarrow> string option \<Rightarrow>
    mmodel option option" where
  "tgenmarkovmodel_newFromPath env name seed graphmlFilePath =
     (case graphmlFilePath of
        None \<Rightarrow> Some None
      | Some path \<Rightarrow>
          (let f = se_file env path in
           if \<not> fi_exists f then Some None
           else if \<not> fi_regular f then Some None
           else (case fi_content f of
                   None \<Rightarrow> Some None
                 | Some content \<Rightarrow>
                     (case mmodel_loadGraph env content of
                        None \<Rightarrow> Some None
                      | Some g \<Rightarrow>
                          map_option (map_option (\<lambda>mm. mm\<lparr>mm_path := Some path\<rparr>))
                            (mmodel_new_named g name seed)))))"

definition tgenmarkovmodel_newFromString :: "sysenv \<Rightarrow> string option \<Rightarrow> u32 \<Rightarrow> bytes option \<Rightarrow>
    mmodel option option" where
  "tgenmarkovmodel_newFromString env name seed graphmlString =
     (case graphmlString of
        None \<Rightarrow> Some None
      | Some content \<Rightarrow>
          if \<not> se_fmemopen env content then Some None
          else (case mmodel_loadGraph env content of
                  None \<Rightarrow> Some None
                | Some g \<Rightarrow> mmodel_new_named g name seed))"

section \<open>Choosing an edge\<close>

text \<open>The first loop: the sum of the weights of the edges of the type. \<open>None\<close> is a failed assertion.\<close>

fun total_weight :: "mathlib \<Rightarrow> igraph \<Rightarrow> edge_type \<Rightarrow> nat list \<Rightarrow> gdouble \<Rightarrow> gdouble option" where
  "total_weight ml g type [] totalWeight = Some totalWeight"
| "total_weight ml g type (e # es) totalWeight =
     (case findEdgeAttributeString g e EDGE_ATTR_TYPE of
        None \<Rightarrow> None
      | Some typeStr \<Rightarrow>
          if edgeTypeIsEqual typeStr type then
            (case findEdgeAttributeDouble g e EDGE_ATTR_WEIGHT of
               None \<Rightarrow> None
             | Some weightValue \<Rightarrow> total_weight ml g type es (fp_add ml totalWeight weightValue))
          else total_weight ml g type es totalWeight)"

text \<open>The second loop: the first edge of the type at which the cumulative weight reaches the value.\<close>

fun pick_edge :: "mathlib \<Rightarrow> igraph \<Rightarrow> edge_type \<Rightarrow> gdouble \<Rightarrow> nat list \<Rightarrow> gdouble \<Rightarrow> nat option option" where
  "pick_edge ml g type randomValue [] cumulativeWeight = Some None"
| "pick_edge ml g type randomValue (e # es) cumulativeWeight =
     (case findEdgeAttributeString g e EDGE_ATTR_TYPE of
        None \<Rightarrow> None
      | Some typeStr \<Rightarrow>
          if edgeTypeIsEqual typeStr type then
            (case findEdgeAttributeDouble g e EDGE_ATTR_WEIGHT of
               None \<Rightarrow> None
             | Some weightValue \<Rightarrow>
                 (let c = fp_add ml cumulativeWeight weightValue in
                  if fp_le randomValue c then Some (Some e)
                  else pick_edge ml g type randomValue es c))
          else pick_edge ml g type randomValue es cumulativeWeight)"

text \<open>The chosen edge and its head; \<open>Some (None, _)\<close> is the return value FALSE.\<close>

definition chooseEdge :: "mathlib \<Rightarrow> edge_type \<Rightarrow> nat \<Rightarrow> mmodel \<Rightarrow> ((nat \<times> nat) option \<times> mmodel) option" where
  "chooseEdge ml type fromVertexIndex mm =
     (let g = mm_graph mm in
      case ig_incident g fromVertexIndex of
        None \<Rightarrow> Some (None, mm)
      | Some es \<Rightarrow>
          do {
            totalWeight \<leftarrow> total_weight ml g type es (Fin 0);
            let randomValue = ml_rand ml (mm_prngSeed mm) (mm_calls mm) (Fin 0) totalWeight;
            let mm1 = mm\<lparr>mm_calls := mm_calls mm + 1\<rparr>;
            chosen \<leftarrow> pick_edge ml g type randomValue es (Fin 0);
            (case chosen of
               None \<Rightarrow> Some (None, mm1)
             | Some e \<Rightarrow>
                 (case ig_edge g e of
                    None \<Rightarrow> Some (None, mm1)
                  | Some (from', to') \<Rightarrow> Some (Some (e, to'), mm1)))
          })"

definition chooseTransition :: "mathlib \<Rightarrow> nat \<Rightarrow> mmodel \<Rightarrow> ((nat \<times> nat) option \<times> mmodel) option" where
  "chooseTransition ml fromVertexIndex mm = chooseEdge ml EDGE_TYPE_TRANSITION fromVertexIndex mm"

definition chooseEmission :: "mathlib \<Rightarrow> nat \<Rightarrow> mmodel \<Rightarrow> ((nat \<times> nat) option \<times> mmodel) option" where
  "chooseEmission ml fromVertexIndex mm = chooseEdge ml EDGE_TYPE_EMISSION fromVertexIndex mm"

section \<open>Random values\<close>

text \<open>The rejection loop may in principle run for ever: \<open>None\<close> is also that.\<close>

partial_function (option) getUniform_from :: "mathlib \<Rightarrow> u32 \<Rightarrow> nat \<Rightarrow> (gdouble \<times> nat) option" where
  "getUniform_from ml seed n =
     (let u = ml_rand ml seed n (Fin 0) (Fin 1) in
      if fp_le u DBL_MIN then getUniform_from ml seed (Suc n) else Some (u, Suc n))"

declare getUniform_from.simps [code]

definition getUniform :: "mathlib \<Rightarrow> mmodel \<Rightarrow> (gdouble \<times> mmodel) option" where
  "getUniform ml mm =
     map_option (\<lambda>(u, n). (u, mm\<lparr>mm_calls := n\<rparr>)) (getUniform_from ml (mm_prngSeed mm) (mm_calls mm))"

definition generateNormalVariate :: "mathlib \<Rightarrow> mmodel \<Rightarrow> (gdouble \<times> mmodel) option" where
  "generateNormalVariate ml mm =
     do {
       (u, mm1) \<leftarrow> getUniform ml mm;
       (v, mm2) \<leftarrow> getUniform ml mm1;
       Some (fp_mul ml (ml_sqrt ml (fp_mul ml (Fin (- 2)) (ml_log ml u)))
               (ml_cos ml (fp_mul ml (fp_mul ml (Fin 2) M_PI) v)), mm2)
     }"

definition generateNormalValue :: "mathlib \<Rightarrow> gdouble \<Rightarrow> gdouble \<Rightarrow> mmodel \<Rightarrow> (gdouble \<times> mmodel) option" where
  "generateNormalValue ml location scale mm =
     do { (x, mm1) \<leftarrow> generateNormalVariate ml mm; Some (fp_add ml location (fp_mul ml scale x), mm1) }"

definition generateLogNormalValue :: "mathlib \<Rightarrow> gdouble \<Rightarrow> gdouble \<Rightarrow> mmodel \<Rightarrow> (gdouble \<times> mmodel) option" where
  "generateLogNormalValue ml location scale mm =
     do { (x, mm1) \<leftarrow> generateNormalValue ml location scale mm; Some (ml_exp ml x, mm1) }"

definition generateExponentialValue :: "mathlib \<Rightarrow> gdouble \<Rightarrow> mmodel \<Rightarrow> (gdouble \<times> mmodel) option" where
  "generateExponentialValue ml rate mm =
     do { (u, mm1) \<leftarrow> getUniform ml mm; Some (fp_div ml (fp_neg (ml_log ml u)) rate, mm1) }"

definition generateParetoValue :: "mathlib \<Rightarrow> gdouble \<Rightarrow> gdouble \<Rightarrow> mmodel \<Rightarrow> (gdouble \<times> mmodel) option" where
  "generateParetoValue ml scale shape mm =
     do { (u, mm1) \<leftarrow> getUniform ml mm;
          Some (fp_div ml scale (ml_pow ml u (fp_div ml (Fin 1) shape)), mm1) }"

definition generateUniformValue :: "mathlib \<Rightarrow> gdouble \<Rightarrow> gdouble \<Rightarrow> mmodel \<Rightarrow> (gdouble \<times> mmodel) option" where
  "generateUniformValue ml low high mm =
     do { (u, mm1) \<leftarrow> getUniform ml mm;
          Some (fp_add ml low (fp_mul ml (fp_sub ml high low) u), mm1) }"

text \<open>The final conversion; converting NaN is undefined, hence \<open>None\<close>.\<close>

definition UINT64_MAX :: u64 where "UINT64_MAX = - 1"

definition delay_of_double :: "mathlib \<Rightarrow> gdouble \<Rightarrow> u64 option" where
  "delay_of_double ml generatedValue =
     (let rounded = fp_round generatedValue in
      if fp_lt rounded (Fin 0) then Some 0
      else if fp_le (Fin (2 ^ 64)) rounded then Some UINT64_MAX
      else (case rounded of
              Fin a \<Rightarrow>
                (let rv = (of_int \<lfloor>a\<rfloor> :: u64) in
                 do { g_assert (ml_rnd ml (of_int (uint rv)) = rounded); Some rv })
            | _ \<Rightarrow> None))"

text \<open>A parameter the validation has checked; reading it asserts that.\<close>

definition param :: "mmodel \<Rightarrow> nat \<Rightarrow> edge_attr \<Rightarrow> (gdouble \<Rightarrow> bool) \<Rightarrow> gdouble option" where
  "param mm e attr ok =
     do { v \<leftarrow> findEdgeAttributeDouble (mm_graph mm) e attr; g_assert (ok v); Some v }"

definition generateValue :: "mathlib \<Rightarrow> nat \<Rightarrow> mmodel \<Rightarrow> (gdouble \<times> mmodel) option" where
  "generateValue ml e mm =
     do {
       typeStr \<leftarrow> findEdgeAttributeString (mm_graph mm) e EDGE_ATTR_TYPE;
       g_assert (edgeTypeIsEqual typeStr EDGE_TYPE_EMISSION);
       distStr \<leftarrow> findEdgeAttributeString (mm_graph mm) e EDGE_ATTR_DISTRIBUTION;
       (if edgeDistIsEqual distStr DIST_NORMAL then
          do { location \<leftarrow> param mm e EDGE_ATTR_PARAM_LOCATION (fp_le (Fin 0));
               scale \<leftarrow> param mm e EDGE_ATTR_PARAM_SCALE (fp_le (Fin 0));
               generateNormalValue ml location scale mm }
        else if edgeDistIsEqual distStr DIST_LOGNORMAL then
          do { location \<leftarrow> param mm e EDGE_ATTR_PARAM_LOCATION (fp_le (Fin 0));
               scale \<leftarrow> param mm e EDGE_ATTR_PARAM_SCALE (fp_le (Fin 0));
               generateLogNormalValue ml location scale mm }
        else if edgeDistIsEqual distStr DIST_EXPONENTIAL then
          do { rate \<leftarrow> param mm e EDGE_ATTR_PARAM_RATE (fp_lt (Fin 0));
               generateExponentialValue ml rate mm }
        else if edgeDistIsEqual distStr DIST_PARETO then
          do { scale \<leftarrow> param mm e EDGE_ATTR_PARAM_SCALE (fp_le (Fin 0));
               shape \<leftarrow> param mm e EDGE_ATTR_PARAM_SHAPE (fp_lt (Fin 0));
               generateParetoValue ml scale shape mm }
        else if edgeDistIsEqual distStr DIST_UNIFORM then
          do { low \<leftarrow> param mm e EDGE_ATTR_PARAM_LOW (fp_lt NInf);
               high \<leftarrow> param mm e EDGE_ATTR_PARAM_HIGH (\<lambda>h. fp_lt h PInf);
               g_assert (fp_le low high);
               generateUniformValue ml low high mm }
        else None)
     }"

definition generateDelay :: "mathlib \<Rightarrow> nat \<Rightarrow> mmodel \<Rightarrow> (u64 \<times> mmodel) option" where
  "generateDelay ml e mm =
     do {
       (generatedValue, mm1) \<leftarrow> generateValue ml e mm;
       d \<leftarrow> delay_of_double ml generatedValue;
       Some (d, mm1)
     }"

section \<open>Observations\<close>

definition vertexToObservation :: "nat \<Rightarrow> mmodel \<Rightarrow> (observation \<times> mmodel) option" where
  "vertexToObservation v mm =
     do {
       typeStr \<leftarrow> findVertexAttributeString (mm_graph mm) v VERTEX_ATTR_TYPE;
       g_assert (vertexTypeIsEqual typeStr VERTEX_TYPE_OBSERVATION);
       vidStr \<leftarrow> findVertexAttributeString (mm_graph mm) v VERTEX_ATTR_ID;
       Some (if vertexIDIsEqual vidStr VERTEX_ID_TO_ORIGIN then (OBSERVATION_TO_ORIGIN, mm)
             else if vertexIDIsEqual vidStr VERTEX_ID_TO_SERVER then (OBSERVATION_TO_SERVER, mm)
             else (OBSERVATION_END, mm\<lparr>mm_foundEndState := True\<rparr>))
     }"

definition DELAY_CEILING :: u64 where "DELAY_CEILING = 1000 * 1000 * 60 * 10"

text \<open>
  The result is the observation, the delay if \<open>*delay\<close> was written, and the model afterwards. Both
  callers pass a delay pointer.
\<close>

definition tgenmarkovmodel_getNextObservation :: "mathlib \<Rightarrow> mmodel \<Rightarrow>
    (observation \<times> u64 option \<times> mmodel) option" where
  "tgenmarkovmodel_getNextObservation ml mm =
     (if mm_foundEndState mm then Some (OBSERVATION_END, None, mm)
      else do {
        (transition, mm1) \<leftarrow> chooseTransition ml (mm_currentStateVertexIndex mm) mm;
        (case transition of
           None \<Rightarrow> Some (OBSERVATION_END, None, mm1)
         | Some (_, nextStateVertexIndex) \<Rightarrow>
             do {
               let mm2 = mm1\<lparr>mm_currentStateVertexIndex := nextStateVertexIndex\<rparr>;
               (emission, mm3) \<leftarrow> chooseEmission ml (mm_currentStateVertexIndex mm2) mm2;
               (case emission of
                  None \<Rightarrow> Some (OBSERVATION_END, None, mm3)
                | Some (emissionEdgeIndex, emissionObservationVertexIndex) \<Rightarrow>
                    do {
                      (obs, mm4) \<leftarrow> vertexToObservation emissionObservationVertexIndex mm3;
                      (delay, mm5) \<leftarrow> generateDelay ml emissionEdgeIndex mm4;
                      let delay' = (if delay > DELAY_CEILING then DELAY_CEILING else delay);
                      Some (obs, Some delay',
                        if obs = OBSERVATION_END then mm5\<lparr>mm_foundEndState := True\<rparr> else mm5)
                    })
             })
      })"

definition tgenmarkovmodel_reset :: "mmodel \<Rightarrow> mmodel" where
  "tgenmarkovmodel_reset mm =
     mm\<lparr>mm_foundEndState := False, mm_currentStateVertexIndex := mm_startVertexIndex mm\<rparr>"

definition tgenmarkovmodel_isInEndState :: "mmodel \<Rightarrow> bool" where
  "tgenmarkovmodel_isInEndState mm = mm_foundEndState mm"

definition tgenmarkovmodel_getSeed :: "mmodel \<Rightarrow> u32" where
  "tgenmarkovmodel_getSeed mm = mm_prngSeed mm"

definition tgenmarkovmodel_getName :: "mmodel \<Rightarrow> string" where
  "tgenmarkovmodel_getName mm = mm_name mm"

definition tgenmarkovmodel_getPath :: "mmodel \<Rightarrow> string option" where
  "tgenmarkovmodel_getPath mm = mm_path mm"

text \<open>\<open>Some None\<close> is NULL; the text is taken up to its first NUL and must not contain one.\<close>

definition tgenmarkovmodel_toGraphmlString :: "sysenv \<Rightarrow> mmodel \<Rightarrow> bytes option option" where
  "tgenmarkovmodel_toGraphmlString env mm =
     (case se_write_graphml env (mm_graph mm) of
        None \<Rightarrow> Some None
      | Some buffer \<Rightarrow>
          (let graphString = c_str buffer in
           do { g_assert (length graphString = length buffer); Some (Some graphString) }))"

end
