(* ===== verification/Config.thy ===== *)
theory Config
  imports Prelude
begin

text \<open>
  \<open>tgen-config.c\<close>: values that come from the environment or are built in. The environment is the
  record \<open>osenv\<close>: the variables TGen reads and the result of the kernel's \<open>gethostname\<close>.
\<close>

record osenv =
  os_TGENHOSTNAME :: "string option"
  os_TGENIP :: "string option"
  os_TGENSOCKS :: "string option"
  os_gethostname :: "string option" \<comment> \<open>what the call stores; \<open>None\<close> when it fails\<close>

text \<open>\<open>g_snprintf\<close> keeps the last byte for the NUL. The result is the code (0 or -1) and the buffer.\<close>

definition tgenconfig_gethostname :: "osenv \<Rightarrow> nat \<Rightarrow> int \<times> string" where
  "tgenconfig_gethostname env len =
     (case os_TGENHOSTNAME env of
        Some tgenip \<Rightarrow> (0, take (len - 1) tgenip)
      | None \<Rightarrow> (case os_gethostname env of Some name \<Rightarrow> (0, name) | None \<Rightarrow> (- 1, [])))"

definition tgenconfig_getIP :: "osenv \<Rightarrow> string option" where
  "tgenconfig_getIP env = os_TGENIP env"

definition tgenconfig_getSOCKS :: "osenv \<Rightarrow> string option" where
  "tgenconfig_getSOCKS env = os_TGENSOCKS env"

definition tgenconfig_getDefaultPacketMarkovModelName :: string where
  "tgenconfig_getDefaultPacketMarkovModelName = ''internal-packet-model''"

definition tgenconfig_getDefaultPacketMarkovModelString :: string where
  \<open>tgenconfig_getDefaultPacketMarkovModelString =
     ''<?xml version="1.0" encoding="utf-8"?><graphml xmlns="http://graphml.graphdrawing.org/xmlns" xml'' @
     ''ns:xsi="http://www.w3.org/2001/XMLSchema-instance" xsi:schemaLocation="http://graphml.graphdrawi'' @
     ''ng.org/xmlns http://graphml.graphdrawing.org/xmlns/1.0/graphml.xsd">'' @
     ''  <key attr.name="param_rate" attr.type="double" for="edge" id="d5" />'' @
     ''  <key attr.name="distribution" attr.type="string" for="edge" id="d4" />'' @
     ''  <key attr.name="weight" attr.type="double" for="edge" id="d3" />'' @
     ''  <key attr.name="type" attr.type="string" for="edge" id="d2" />'' @
     ''  <key attr.name="name" attr.type="string" for="node" id="d1" />'' @
     ''  <key attr.name="type" attr.type="string" for="node" id="d0" />'' @
     ''  <graph edgedefault="directed">'' @
     ''    <node id="s1">'' @
     ''      <data key="d0">state</data>'' @
     ''      <data key="d1">nonstop</data>'' @
     ''    </node>'' @
     ''    <node id="s0">'' @
     ''      <data key="d0">state</data>'' @
     ''      <data key="d1">start</data>'' @
     ''    </node>'' @
     ''    <node id="o2">'' @
     ''      <data key="d0">observation</data>'' @
     ''      <data key="d1">-</data>'' @
     ''    </node>'' @
     ''    <node id="o1">'' @
     ''      <data key="d0">observation</data>'' @
     ''      <data key="d1">+</data>'' @
     ''    </node>'' @
     ''    <edge source="s1" target="s1">'' @
     ''      <data key="d2">transition</data>'' @
     ''      <data key="d3">1.0</data>'' @
     ''    </edge>'' @
     ''    <edge source="s1" target="o2">'' @
     ''      <data key="d4">exponential</data>'' @
     ''      <data key="d2">emission</data>'' @
     ''      <data key="d5">100.0</data>'' @
     ''      <data key="d3">0.5</data>'' @
     ''    </edge>'' @
     ''    <edge source="s1" target="o1">'' @
     ''      <data key="d4">exponential</data>'' @
     ''      <data key="d2">emission</data>'' @
     ''      <data key="d5">100.0</data>'' @
     ''      <data key="d3">0.5</data>'' @
     ''    </edge>'' @
     ''    <edge source="s0" target="s1">'' @
     ''      <data key="d2">transition</data>'' @
     ''      <data key="d3">1.0</data>'' @
     ''    </edge>'' @
     ''  </graph>'' @
     ''</graphml>''\<close>

definition tgenconfig_getDefaultStreamMarkovModelName :: string where
  "tgenconfig_getDefaultStreamMarkovModelName = ''internal-stream-model''"

definition tgenconfig_getDefaultStreamMarkovModelString :: string where
  \<open>tgenconfig_getDefaultStreamMarkovModelString =
     ''<?xml version="1.0" encoding="utf-8"?><graphml xmlns="http://graphml.graphdrawing.org/xmlns" xml'' @
     ''ns:xsi="http://www.w3.org/2001/XMLSchema-instance" xsi:schemaLocation="http://graphml.graphdrawi'' @
     ''ng.org/xmlns http://graphml.graphdrawing.org/xmlns/1.0/graphml.xsd">'' @
     ''  <key attr.name="param_location" attr.type="double" for="edge" id="d6" />'' @
     ''  <key attr.name="param_scale" attr.type="double" for="edge" id="d5" />'' @
     ''  <key attr.name="distribution" attr.type="string" for="edge" id="d4" />'' @
     ''  <key attr.name="weight" attr.type="double" for="edge" id="d3" />'' @
     ''  <key attr.name="type" attr.type="string" for="edge" id="d2" />'' @
     ''  <key attr.name="name" attr.type="string" for="node" id="d1" />'' @
     ''  <key attr.name="type" attr.type="string" for="node" id="d0" />'' @
     ''  <graph edgedefault="directed">'' @
     ''    <node id="s1">'' @
     ''      <data key="d0">state</data>'' @
     ''      <data key="d1">default</data>'' @
     ''    </node>'' @
     ''    <node id="s0">'' @
     ''      <data key="d0">state</data>'' @
     ''      <data key="d1">start</data>'' @
     ''    </node>'' @
     ''    <node id="o1">'' @
     ''      <data key="d0">observation</data>'' @
     ''      <data key="d1">+</data>'' @
     ''    </node>'' @
     ''    <edge source="s1" target="s1">'' @
     ''      <data key="d2">transition</data>'' @
     ''      <data key="d3">1.0</data>'' @
     ''    </edge>'' @
     ''    <edge source="s1" target="o1">'' @
     ''      <data key="d4">normal</data>'' @
     ''      <data key="d5">4000000.0</data>'' @
     ''      <data key="d2">emission</data>'' @
     ''      <data key="d6">10000000.0</data>'' @
     ''      <data key="d3">1.0</data>'' @
     ''    </edge>'' @
     ''    <edge source="s0" target="s1">'' @
     ''      <data key="d2">transition</data>'' @
     ''      <data key="d3">1.0</data>'' @
     ''    </edge>'' @
     ''  </graph>'' @
     ''</graphml>''\<close>

definition tgenconfig_getDefaultFlowMarkovModelName :: string where
  "tgenconfig_getDefaultFlowMarkovModelName = ''internal-flow-model''"

definition tgenconfig_getDefaultFlowMarkovModelString :: string where
  \<open>tgenconfig_getDefaultFlowMarkovModelString =
     ''<?xml version="1.0" encoding="utf-8"?><graphml xmlns="http://graphml.graphdrawing.org/xmlns" xml'' @
     ''ns:xsi="http://www.w3.org/2001/XMLSchema-instance" xsi:schemaLocation="http://graphml.graphdrawi'' @
     ''ng.org/xmlns http://graphml.graphdrawing.org/xmlns/1.0/graphml.xsd">'' @
     ''  <key attr.name="param_location" attr.type="double" for="edge" id="d6" />'' @
     ''  <key attr.name="param_scale" attr.type="double" for="edge" id="d5" />'' @
     ''  <key attr.name="distribution" attr.type="string" for="edge" id="d4" />'' @
     ''  <key attr.name="weight" attr.type="double" for="edge" id="d3" />'' @
     ''  <key attr.name="type" attr.type="string" for="edge" id="d2" />'' @
     ''  <key attr.name="name" attr.type="string" for="node" id="d1" />'' @
     ''  <key attr.name="type" attr.type="string" for="node" id="d0" />'' @
     ''  <graph edgedefault="directed">'' @
     ''    <node id="s1">'' @
     ''      <data key="d0">state</data>'' @
     ''      <data key="d1">default</data>'' @
     ''    </node>'' @
     ''    <node id="s0">'' @
     ''      <data key="d0">state</data>'' @
     ''      <data key="d1">start</data>'' @
     ''    </node>'' @
     ''    <node id="o1">'' @
     ''      <data key="d0">observation</data>'' @
     ''      <data key="d1">+</data>'' @
     ''    </node>'' @
     ''    <edge source="s1" target="s1">'' @
     ''      <data key="d2">transition</data>'' @
     ''      <data key="d3">1.0</data>'' @
     ''    </edge>'' @
     ''    <edge source="s1" target="o1">'' @
     ''      <data key="d4">normal</data>'' @
     ''      <data key="d5">15000000.0</data>'' @
     ''      <data key="d2">emission</data>'' @
     ''      <data key="d6">60000000.0</data>'' @
     ''      <data key="d3">1.0</data>'' @
     ''    </edge>'' @
     ''    <edge source="s0" target="s1">'' @
     ''      <data key="d2">transition</data>'' @
     ''      <data key="d3">1.0</data>'' @
     ''    </edge>'' @
     ''  </graph>'' @
     ''</graphml>''\<close>

text \<open>The built-in name is short and plain, which the command header relies on.\<close>

lemma default_name_eval [simp]:
  "tgenconfig_getDefaultPacketMarkovModelName = ''internal-packet-model''"
  by (simp add: tgenconfig_getDefaultPacketMarkovModelName_def)

end
