(* ===== verification/StreamState.thy ===== *)
theory StreamState
  imports Transport Markov Config
begin

text \<open>
  \<open>tgen-stream.c\<close>, first part: the state of a stream, its printed form and the elementary updates.
  A stream owns its transport and its Markov model by value. Checksums are the bytes fed to them so
  far. The log calls below the message level are left out, and with them the only places that fill
  the cached \<open>stringBuffer\<close> before it is printed.
\<close>

datatype recv_state = RECV_NONE | RECV_AUTHENTICATE | RECV_HEADER | RECV_MODEL | RECV_PAYLOAD
  | RECV_CHECKSUM | RECV_FOOTER | RECV_SUCCESS | RECV_ERROR

datatype send_state = SEND_NONE | SEND_COMMAND | SEND_RESPONSE | SEND_PAYLOAD | SEND_CHECKSUM
  | SEND_FOOTER | SEND_FLUSH | SEND_SUCCESS | SEND_ERROR

datatype stream_error = ERR_NONE | ERR_AUTHENTICATE | ERR_HEADER | ERR_HEADER_INCOMPLETE
  | ERR_HEADER_VERSION | ERR_HEADER_MODELMODE | ERR_HEADER_MODELPATH | ERR_HEADER_MODELSIZE
  | ERR_MODEL | ERR_CHECKSUM | ERR_FOOTER | ERR_READ | ERR_WRITE | ERR_READEOF | ERR_WRITEEOF
  | ERR_TIMEOUT | ERR_STALLOUT | ERR_PROXY | ERR_MISC

datatype header_flag = FLAG_PROTOCOL | FLAG_HOSTNAME | FLAG_CODE | FLAG_ID | FLAG_SENDSIZE
  | FLAG_RECVSIZE | FLAG_MODELNAME | FLAG_MODELSEED | FLAG_MODELMODE | FLAG_MODELPATH | FLAG_MODELSIZE

definition TGEN_AUTH_PW :: string where "TGEN_AUTH_PW = ''T8nNx9L95LATtckJkR5n''"

definition READ_BUFLEN :: nat where "READ_BUFLEN = 65536"
definition WRITE_BUFLEN :: nat where "WRITE_BUFLEN = 32768"
definition DEFAULT_TIMEOUT_NSEC :: u64 where "DEFAULT_TIMEOUT_NSEC = 0"
definition DEFAULT_STALLOUT_NSEC :: u64 where "DEFAULT_STALLOUT_NSEC = 30 * 1000 * 1000 * 1000"
definition PACKET_DATA_SIZE :: nat where "PACKET_DATA_SIZE = 1434"
definition MICROS_AT_ONCE :: u64 where "MICROS_AT_ONCE = 10000"

record recv_side =
  rv_state :: recv_state
  rv_requestedBytes :: u64
  rv_requestedZero :: bool
  rv_expectedBytes :: u64
  rv_payloadBytes :: u64
  rv_totalBytes :: u64
  rv_buffer :: "bytes option"
  rv_authIndex :: nat
  rv_checksum :: bytes

record send_side =
  sd_state :: send_state
  sd_requestedBytes :: u64
  sd_requestedZero :: bool
  sd_expectedBytes :: u64
  sd_payloadBytes :: u64
  sd_totalBytes :: u64
  sd_buffer :: "bytes option"
  sd_offset :: nat
  sd_checksum :: bytes
  sd_deferBarrierMicros :: int

record peer_side =
  pr_hostname :: "string option"
  pr_buffer :: "bytes option"
  pr_modelName :: "string option"
  pr_modelSeed :: u32
  pr_modelSize :: u64

record stream_time =
  tm_nowCached :: int
  tm_start :: int
  tm_command :: int
  tm_response :: int
  tm_firstPayloadByteRecv :: int
  tm_lastPayloadByteRecv :: int
  tm_checksumRecv :: int
  tm_footerRecv :: int
  tm_firstPayloadByteSend :: int
  tm_lastPayloadByteSend :: int
  tm_checksumSend :: int
  tm_footerSend :: int
  tm_lastBytesStatusReport :: int
  tm_lastTimeStatusReport :: int
  tm_lastTimeErrorReport :: int
  tm_lastProgress :: int

record stream =
  st_id :: u64
  st_vertexID :: "string option"
  st_hostname :: "string option"
  st_stringBuffer :: "string option"
  st_error :: stream_error
  st_isCommander :: bool
  st_timeoutUSecs :: int
  st_stalloutUSecs :: int
  st_transport :: "transport option"
  st_mmodel :: "mmodel option"
  st_mmodelSendPath :: bool
  st_recv :: recv_side
  st_send :: send_side
  st_peer :: peer_side
  st_time :: stream_time
  st_notifyFunc :: bool \<comment> \<open>\<open>notifyCB.func\<close> is not NULL\<close>
  st_actionID :: int
  st_refcount :: int

text \<open>What the stream uses from outside: files and GraphML, numerics, MD5 as a hex string, the environment.\<close>

record streamenv =
  se_sys :: sysenv
  se_db :: resolver
  se_ml :: mathlib
  se_md5 :: "bytes \<Rightarrow> string"
  se_os :: osenv

section \<open>Printing\<close>

fun recvStateToString :: "recv_state \<Rightarrow> string" where
  "recvStateToString RECV_NONE = ''RECV_NONE''"
| "recvStateToString RECV_AUTHENTICATE = ''RECV_AUTHENTICATE''"
| "recvStateToString RECV_HEADER = ''RECV_HEADER''"
| "recvStateToString RECV_MODEL = ''RECV_MODEL''"
| "recvStateToString RECV_PAYLOAD = ''RECV_PAYLOAD''"
| "recvStateToString RECV_CHECKSUM = ''RECV_CHECKSUM''"
| "recvStateToString RECV_FOOTER = ''RECV_FOOTER''"
| "recvStateToString RECV_SUCCESS = ''RECV_SUCCESS''"
| "recvStateToString RECV_ERROR = ''RECV_ERROR''"

fun sendStateToString :: "send_state \<Rightarrow> string" where
  "sendStateToString SEND_NONE = ''SEND_NONE''"
| "sendStateToString SEND_COMMAND = ''SEND_COMMAND''"
| "sendStateToString SEND_RESPONSE = ''SEND_RESPONSE''"
| "sendStateToString SEND_PAYLOAD = ''SEND_PAYLOAD''"
| "sendStateToString SEND_CHECKSUM = ''SEND_CHECKSUM''"
| "sendStateToString SEND_FOOTER = ''SEND_FOOTER''"
| "sendStateToString SEND_FLUSH = ''SEND_FLUSH''"
| "sendStateToString SEND_SUCCESS = ''SEND_SUCCESS''"
| "sendStateToString SEND_ERROR = ''SEND_ERROR''"

fun errorToString :: "stream_error \<Rightarrow> string" where
  "errorToString ERR_NONE = ''NONE''"
| "errorToString ERR_AUTHENTICATE = ''AUTH''"
| "errorToString ERR_HEADER = ''HEADER''"
| "errorToString ERR_HEADER_INCOMPLETE = ''HEADER_INCOMPLETE''"
| "errorToString ERR_HEADER_VERSION = ''HEADER_VERSION''"
| "errorToString ERR_HEADER_MODELMODE = ''HEADER_MODELMODE''"
| "errorToString ERR_HEADER_MODELPATH = ''HEADER_MODELPATH''"
| "errorToString ERR_HEADER_MODELSIZE = ''HEADER_MODELSIZE''"
| "errorToString ERR_MODEL = ''MODEL''"
| "errorToString ERR_CHECKSUM = ''CHECKSUM''"
| "errorToString ERR_FOOTER = ''FOOTER''"
| "errorToString ERR_READ = ''READ''"
| "errorToString ERR_WRITE = ''WRITE''"
| "errorToString ERR_READEOF = ''READEOF''"
| "errorToString ERR_WRITEEOF = ''WRITEEOF''"
| "errorToString ERR_TIMEOUT = ''TIMEOUT''"
| "errorToString ERR_STALLOUT = ''STALLOUT''"
| "errorToString ERR_PROXY = ''PROXY''"
| "errorToString ERR_MISC = ''MISC''"

text \<open>\<open>printf("%s")\<close> of a possibly NULL string, as glibc prints it.\<close>

definition show_opt :: "string option \<Rightarrow> string" where
  "show_opt s = (case s of None \<Rightarrow> ''(null)'' | Some x \<Rightarrow> x)"

definition show_u64 :: "u64 \<Rightarrow> string" where
  "show_u64 v = show_nat (unat v)"

definition tgenstream_toString :: "stream \<Rightarrow> string \<times> stream" where
  "tgenstream_toString s =
     (case st_stringBuffer s of
        Some b \<Rightarrow> (b, s)
      | None \<Rightarrow>
          (let b = ''[id='' @ show_u64 (st_id s) @ '',vertexid='' @ show_opt (st_vertexID s) @
                 '',name='' @ show_opt (st_hostname s) @
                 '',peername='' @ show_opt (pr_hostname (st_peer s)) @
                 '',sendsize='' @ show_u64 (sd_requestedBytes (st_send s)) @
                 '',recvsize='' @ show_u64 (rv_requestedBytes (st_recv s)) @
                 '',sendstate='' @ sendStateToString (sd_state (st_send s)) @
                 '',recvstate='' @ recvStateToString (rv_state (st_recv s)) @
                 '',error='' @ errorToString (st_error s) @ '']''
           in (b, s\<lparr>st_stringBuffer := Some b\<rparr>)))"

section \<open>Elementary updates\<close>

definition upd_recv :: "(recv_side \<Rightarrow> recv_side) \<Rightarrow> stream \<Rightarrow> stream" where
  "upd_recv f s = s\<lparr>st_recv := f (st_recv s)\<rparr>"

definition upd_send :: "(send_side \<Rightarrow> send_side) \<Rightarrow> stream \<Rightarrow> stream" where
  "upd_send f s = s\<lparr>st_send := f (st_send s)\<rparr>"

definition upd_peer :: "(peer_side \<Rightarrow> peer_side) \<Rightarrow> stream \<Rightarrow> stream" where
  "upd_peer f s = s\<lparr>st_peer := f (st_peer s)\<rparr>"

definition upd_time :: "(stream_time \<Rightarrow> stream_time) \<Rightarrow> stream \<Rightarrow> stream" where
  "upd_time f s = s\<lparr>st_time := f (st_time s)\<rparr>"

lemma upd_sel [simp]:
  "st_recv (upd_recv f s) = f (st_recv s)" "st_send (upd_recv f s) = st_send s"
  "st_peer (upd_recv f s) = st_peer s" "st_time (upd_recv f s) = st_time s"
  "st_recv (upd_send g s) = st_recv s" "st_send (upd_send g s) = g (st_send s)"
  "st_peer (upd_send g s) = st_peer s" "st_time (upd_send g s) = st_time s"
  "st_recv (upd_peer h s) = st_recv s" "st_send (upd_peer h s) = st_send s"
  "st_peer (upd_peer h s) = h (st_peer s)" "st_time (upd_peer h s) = st_time s"
  "st_recv (upd_time k s) = st_recv s" "st_send (upd_time k s) = st_send s"
  "st_peer (upd_time k s) = st_peer s" "st_time (upd_time k s) = k (st_time s)"
  by (simp_all add: upd_recv_def upd_send_def upd_peer_def upd_time_def)

lemma upd_frame [simp]:
  "st_error (upd_recv f s) = st_error s" "st_isCommander (upd_recv f s) = st_isCommander s"
  "st_transport (upd_recv f s) = st_transport s" "st_mmodel (upd_recv f s) = st_mmodel s"
  "st_notifyFunc (upd_recv f s) = st_notifyFunc s"
  "st_error (upd_send g s) = st_error s" "st_isCommander (upd_send g s) = st_isCommander s"
  "st_transport (upd_send g s) = st_transport s" "st_mmodel (upd_send g s) = st_mmodel s"
  "st_notifyFunc (upd_send g s) = st_notifyFunc s"
  "st_error (upd_peer h s) = st_error s" "st_isCommander (upd_peer h s) = st_isCommander s"
  "st_transport (upd_peer h s) = st_transport s" "st_mmodel (upd_peer h s) = st_mmodel s"
  "st_notifyFunc (upd_peer h s) = st_notifyFunc s"
  "st_error (upd_time k s) = st_error s" "st_isCommander (upd_time k s) = st_isCommander s"
  "st_transport (upd_time k s) = st_transport s" "st_mmodel (upd_time k s) = st_mmodel s"
  "st_notifyFunc (upd_time k s) = st_notifyFunc s"
  by (simp_all add: upd_recv_def upd_send_def upd_peer_def upd_time_def)

definition stream_resetString :: "stream \<Rightarrow> stream" where
  "stream_resetString s = s\<lparr>st_stringBuffer := None\<rparr>"

definition changeRecvState :: "recv_state \<Rightarrow> stream \<Rightarrow> stream" where
  "changeRecvState q s = stream_resetString (upd_recv (rv_state_update (\<lambda>_. q)) s)"

definition changeSendState :: "send_state \<Rightarrow> stream \<Rightarrow> stream" where
  "changeSendState q s = stream_resetString (upd_send (sd_state_update (\<lambda>_. q)) s)"

definition changeError :: "stream_error \<Rightarrow> stream \<Rightarrow> stream" where
  "changeError e s = stream_resetString (s\<lparr>st_error := e\<rparr>)"

definition stream_getTime :: "stream \<Rightarrow> world \<Rightarrow> int \<times> stream \<times> world" where
  "stream_getTime s w =
     (if tm_nowCached (st_time s) > 0 then (tm_nowCached (st_time s), s, w)
      else (case g_get_monotonic_time w of (now, w') \<Rightarrow> (now, upd_time (tm_nowCached_update (\<lambda>_. now)) s, w')))"

text \<open>A time field set to the current time, which may fill the cache.\<close>

definition stamp :: "((int \<Rightarrow> int) \<Rightarrow> stream_time \<Rightarrow> stream_time) \<Rightarrow> stream \<Rightarrow> world \<Rightarrow> stream \<times> world" where
  "stamp field s w = (case stream_getTime s w of (now, s', w') \<Rightarrow> (upd_time (field (\<lambda>_. now)) s', w'))"

end
