(* ===== verification/StreamRead.thy ===== *)
theory StreamRead
  imports StreamState
begin

text \<open>
  \<open>tgen-stream.c\<close>, the reading side: buffered reads, lines, and the handlers of the receive states.
  A handler gives the C result (\<open>TRUE\<close>: this stage is complete), the stream and the world; \<open>None\<close> is
  a failed assertion or a read outside an array.
\<close>

section \<open>Bytes and lines\<close>

text \<open>
  What does not fit the caller's buffer is kept with \<open>g_string_new\<close>, which takes its argument as a C
  string: everything from the first NUL on is lost.
\<close>

definition readBuffered :: "nat \<Rightarrow> stream \<Rightarrow> (bytes \<times> stream) option" where
  "readBuffered limit s =
     (case rv_buffer (st_recv s) of
        None \<Rightarrow> None
      | Some b \<Rightarrow>
          do {
            g_assert (length b > 0);
            (if length b \<le> limit
             then Some (b, upd_recv (rv_buffer_update (\<lambda>_. None)) s)
             else Some (take limit b, upd_recv (rv_buffer_update (\<lambda>_. Some (c_str (drop limit b)))) s))
          })"

text \<open>\<open>Inl e\<close> is the result -1 with \<open>errno\<close>; a would-block result reaches the last branch of the C code.\<close>

definition after_read :: "errno + bytes \<Rightarrow> stream \<Rightarrow> stream" where
  "after_read r s =
     (case r of
        Inl e \<Rightarrow>
          if \<not> would_block e then changeError ERR_READ (changeRecvState RECV_ERROR s)
          else upd_recv (rv_totalBytes_update (\<lambda>n. n + (- 1))) s
      | Inr bs \<Rightarrow>
          if bs = [] then
            (let rv = st_recv s in
             if rv_state rv \<noteq> RECV_PAYLOAD \<or>
                (rv_requestedBytes rv > 0 \<and> rv_payloadBytes rv < rv_requestedBytes rv)
             then changeError ERR_READEOF (changeRecvState RECV_ERROR s) else s)
          else upd_recv (rv_totalBytes_update (\<lambda>n. n + of_nat (length bs))) s)"

definition stream_read :: "nat \<Rightarrow> stream \<Rightarrow> world \<Rightarrow> ((errno + bytes) \<times> stream \<times> world) option" where
  "stream_read limit s w =
     do {
       g_assert (limit > 0);
       (case rv_buffer (st_recv s) of
          Some _ \<Rightarrow> do { (bs, s1) \<leftarrow> readBuffered limit s; Some (Inr bs, s1, w) }
        | None \<Rightarrow>
            do {
              t \<leftarrow> st_transport s;
              let (r, t', w') = tgentransport_read limit t w;
              Some (r, after_read r (s\<lparr>st_transport := Some t'\<rparr>), w')
            })
     }"

fun findNewLineIndex :: "bytes \<Rightarrow> nat option" where
  "findNewLineIndex [] = None"
| "findNewLineIndex (c # cs) = (if c = NL then Some 0 else map_option Suc (findNewLineIndex cs))"

text \<open>The second half of \<open>_tgenstream_getLine\<close>: cut the line off what was collected, keep the rest.\<close>

definition takeLine :: "bytes \<Rightarrow> stream \<Rightarrow> (bytes option \<times> stream) option" where
  "takeLine lineBuffer s =
     (let (line, rest) =
        (case findNewLineIndex lineBuffer of
           None \<Rightarrow> (None, lineBuffer)
         | Some i \<Rightarrow> (Some (take i lineBuffer), drop (i + 1) lineBuffer))
      in if length rest > 0 then
           do { g_assert (rv_buffer (st_recv s) = None);
                Some (line, upd_recv (rv_buffer_update (\<lambda>_. Some rest)) s) }
         else Some (line, s))"

definition getLine :: "stream \<Rightarrow> world \<Rightarrow> (bytes option \<times> stream \<times> world) option" where
  "getLine s w =
     (let lineBuffer = rv_buffer (st_recv s);
          s0 = upd_recv (rv_buffer_update (\<lambda>_. None)) s;
          have = (case lineBuffer of None \<Rightarrow> [] | Some b \<Rightarrow> b)
      in if findNewLineIndex have \<noteq> None
         then do { (line, s1) \<leftarrow> takeLine have s0; Some (line, s1, w) }
         else do {
           (r, s1, w1) \<leftarrow> stream_read READ_BUFLEN s0 w;
           (case r of
              Inr (c # cs) \<Rightarrow> do { (line, s2) \<leftarrow> takeLine (have @ c # cs) s1; Some (line, s2, w1) }
            | _ \<Rightarrow> do { g_assert (rv_buffer (st_recv s1) = None);
                       Some (None, upd_recv (rv_buffer_update (\<lambda>_. lineBuffer)) s1, w1) })
         })"

section \<open>Authentication\<close>

fun auth_loop :: "bytes \<Rightarrow> stream \<Rightarrow> (bool \<times> stream) option" where
  "auth_loop [] s = Some (False, s)"
| "auth_loop (c # cs) s =
     (let i = rv_authIndex (st_recv s) in
      if i = 20 then Some (True, s)
      else do {
        g_assert (i < 20);
        (if c = TGEN_AUTH_PW ! i then auth_loop cs (upd_recv (rv_authIndex_update Suc) s)
         else Some (False, changeError ERR_AUTHENTICATE (changeRecvState RECV_ERROR s)))
      })"

definition readAuthenticate :: "stream \<Rightarrow> world \<Rightarrow> (bool \<times> stream \<times> world) option" where
  "readAuthenticate s w =
     do {
       (r, s1, w1) \<leftarrow> stream_read (21 - rv_authIndex (st_recv s)) s w;
       (case r of
          Inl _ \<Rightarrow> Some (False, s1, w1)
        | Inr bs \<Rightarrow>
            if bs = [] \<or> rv_state (st_recv s1) \<noteq> RECV_AUTHENTICATE then Some (False, s1, w1)
            else do { (ok, s2) \<leftarrow> auth_loop bs s1; Some (ok, s2, w1) })
     }"

section \<open>The header\<close>

record header =
  h_error :: stream_error
  h_modeIsPath :: bool
  h_modelPath :: "string option"
  h_errorCode :: "string option"
  h_keys :: "header_flag set"

definition header_start :: header where
  "header_start = \<lparr>h_error = ERR_NONE, h_modeIsPath = False, h_modelPath = None, h_errorCode = None,
     h_keys = {}\<rparr>"

abbreviation h_saw :: "header_flag \<Rightarrow> header \<Rightarrow> header" where
  "h_saw f h \<equiv> h\<lparr>h_keys := insert f (h_keys h)\<rparr>"

definition starts_tilde :: "string \<Rightarrow> bool" where
  "starts_tilde v = (case v of c # _ \<Rightarrow> c = CHR 0x7E | [] \<Rightarrow> False)"

definition TEN_MIB :: int where "TEN_MIB = 1024 * 1024 * 10"

text \<open>One \<open>key=value\<close> entry.\<close>

definition header_pair :: "string \<Rightarrow> string \<Rightarrow> stream \<times> header \<Rightarrow> stream \<times> header" where
  "header_pair key value = (\<lambda>(s, h).
     if strcaseeq key ''PROTOCOL_VERSION'' then
       (case g_strsplit2 (CHR ''.'') value of
          [major, minor] \<Rightarrow>
            if c_atoi major = 2 then (s, h_saw FLAG_PROTOCOL h) else (s, h\<lparr>h_error := ERR_HEADER_VERSION\<rparr>)
        | _ \<Rightarrow> (s, h))
     else if strcaseeq key ''HOSTNAME'' then
       (upd_peer (pr_hostname_update (\<lambda>_. Some value)) s, h_saw FLAG_HOSTNAME h)
     else if strcaseeq key ''TRANSFER_ID'' then
       (if st_isCommander s then s
        else s\<lparr>st_vertexID := Some (case st_vertexID s of Some i \<Rightarrow> i @ '':'' @ value | None \<Rightarrow> value)\<rparr>,
        h_saw FLAG_ID h)
     else if strcaseeq key ''CODE'' then (s, h_saw FLAG_CODE (h\<lparr>h_errorCode := Some value\<rparr>))
     else if strcaseeq key ''SEND_SIZE'' then
       (if starts_tilde value
        then upd_recv (rv_requestedZero_update (\<lambda>_. True) \<circ> rv_requestedBytes_update (\<lambda>_. 0)) s
        else upd_recv (rv_requestedBytes_update (\<lambda>_. g_ascii_strtoull value)) s,
        h_saw FLAG_SENDSIZE h)
     else if strcaseeq key ''RECV_SIZE'' then
       (if starts_tilde value
        then upd_send (sd_requestedZero_update (\<lambda>_. True) \<circ> sd_requestedBytes_update (\<lambda>_. 0)) s
        else upd_send (sd_requestedBytes_update (\<lambda>_. g_ascii_strtoull value)) s,
        h_saw FLAG_RECVSIZE h)
     else if strcaseeq key ''MODEL_NAME'' then
       (upd_peer (pr_modelName_update (\<lambda>_. Some value)) s, h_saw FLAG_MODELNAME h)
     else if strcaseeq key ''MODEL_SEED'' then
       (upd_peer (pr_modelSeed_update (\<lambda>_. word_of_int (c_strtol value))) s, h_saw FLAG_MODELSEED h)
     else if strcaseeq key ''MODEL_MODE'' then
       (s, h_saw FLAG_MODELMODE
             (if strncaseeq 4 value ''path'' then h\<lparr>h_modeIsPath := True\<rparr>
              else if strncaseeq 4 value ''graphml'' then h\<lparr>h_modeIsPath := False\<rparr>
              else h\<lparr>h_error := ERR_HEADER_MODELMODE\<rparr>))
     else if strcaseeq key ''MODEL_PATH'' then (s, h_saw FLAG_MODELPATH (h\<lparr>h_modelPath := Some value\<rparr>))
     else if strcaseeq key ''MODEL_SIZE'' then
       (let modelSize = c_atoll value in
        if modelSize > 0 \<and> modelSize \<le> TEN_MIB
        then (upd_peer (pr_modelSize_update (\<lambda>_. word_of_int modelSize)) s, h_saw FLAG_MODELSIZE h)
        else (s, h\<lparr>h_error := ERR_HEADER_MODELSIZE\<rparr>))
     else (s, h))"

text \<open>
  The loop over the entries, which stops at the first error. An entry without \<open>=\<close> is ignored; so is an
  empty one, for which the code reads \<open>pair[1]\<close> but does not use it.
\<close>

fun header_pairs :: "string list \<Rightarrow> stream \<times> header \<Rightarrow> stream \<times> header" where
  "header_pairs [] x = x"
| "header_pairs (part # parts) x =
     (if h_error (snd x) \<noteq> ERR_NONE then x
      else header_pairs parts
        (case g_strsplit2 (CHR ''='') part of [key, value] \<Rightarrow> header_pair key value x | _ \<Rightarrow> x))"

definition header_required :: "bool \<Rightarrow> bool \<Rightarrow> header_flag set" where
  "header_required isCommander modeIsPath =
     (if isCommander then {FLAG_PROTOCOL, FLAG_HOSTNAME, FLAG_CODE}
      else {FLAG_PROTOCOL, FLAG_HOSTNAME, FLAG_ID, FLAG_SENDSIZE, FLAG_RECVSIZE, FLAG_MODELNAME,
            FLAG_MODELSEED, FLAG_MODELMODE, if modeIsPath then FLAG_MODELPATH else FLAG_MODELSIZE})"

text \<open>
  The model named by a path. \<open>g_ascii_strcasecmp\<close> of a NULL path returns 0, which the code takes for the
  internal name.
\<close>

definition header_load_path :: "streamenv \<Rightarrow> header \<Rightarrow> stream \<Rightarrow> mmodel option option" where
  "header_load_path env h s =
     (let name = pr_modelName (st_peer s); seed = pr_modelSeed (st_peer s) in
      if (case h_modelPath h of None \<Rightarrow> True
          | Some p \<Rightarrow> strcaseeq p tgenconfig_getDefaultPacketMarkovModelName)
      then tgenmarkovmodel_newFromString (se_sys env) name seed
             (Some tgenconfig_getDefaultPacketMarkovModelString)
      else tgenmarkovmodel_newFromPath (se_sys env) name seed (h_modelPath h))"

text \<open>The checks after the loop: the error to report, and the stream with its model.\<close>

definition header_check :: "streamenv \<Rightarrow> stream \<times> header \<Rightarrow> (stream_error \<times> stream) option" where
  "header_check env = (\<lambda>(s, h).
     let missing = (if header_required (st_isCommander s) (h_modeIsPath h) \<subseteq> h_keys h
                    then ERR_NONE else ERR_HEADER_INCOMPLETE)
     in if h_error h \<noteq> ERR_NONE then Some (h_error h, s)
        else if st_isCommander s then
          Some (case h_errorCode h of
                  Some c \<Rightarrow> if strcaseeq c (errorToString ERR_NONE) then missing else ERR_HEADER
                | None \<Rightarrow> missing, s)
        else if h_modeIsPath h then
          do { mm \<leftarrow> header_load_path env h s;
               Some (if Option.is_none mm then ERR_HEADER_MODELPATH else missing, s\<lparr>st_mmodel := mm\<rparr>) }
        else Some (if pr_modelSize (st_peer s) \<le> 0 then ERR_HEADER_MODELSIZE else missing, s))"

definition header_done :: "stream_error \<Rightarrow> stream \<Rightarrow> world \<Rightarrow> bool \<times> stream \<times> world" where
  "header_done theError s w =
     (if theError = ERR_NONE then
        (let s1 = stream_resetString s in
         if st_isCommander s1
         then (case stamp tm_response_update s1 w of (s2, w2) \<Rightarrow> (True, s2, w2))
         else (True, s1, w))
      else
        (let s1 = changeError theError (changeRecvState RECV_ERROR s)
         in (False, changeSendState (if st_isCommander s1 then SEND_SUCCESS else SEND_RESPONSE) s1, w)))"

definition readHeader :: "streamenv \<Rightarrow> stream \<Rightarrow> world \<Rightarrow> (bool \<times> stream \<times> world) option" where
  "readHeader env s w =
     do {
       (line, s1, w1) \<leftarrow> getLine s w;
       (case line of
          None \<Rightarrow> Some (False, s1, w1)
        | Some l \<Rightarrow>
            do {
              (theError, s2) \<leftarrow>
                header_check env (header_pairs (g_strsplit (CHR '' '') (c_str l)) (s1, header_start));
              Some (header_done theError s2 w1)
            })
     }"

section \<open>Model, payload, checksum, footer\<close>

definition readModel :: "streamenv \<Rightarrow> stream \<Rightarrow> world \<Rightarrow> (bool \<times> stream \<times> world) option" where
  "readModel env s w =
     do {
       g_assert (pr_modelSize (st_peer s) > 0);
       let b = (case pr_buffer (st_peer s) of None \<Rightarrow> [] | Some b \<Rightarrow> b);
       let s0 = upd_peer (pr_buffer_update (\<lambda>_. Some b)) s;
       let remaining = pr_modelSize (st_peer s0) - of_nat (length b);
       let requested = min READ_BUFLEN (unat remaining);
       g_assert (requested > 0);
       (r, s1, w1) \<leftarrow> stream_read requested s0 w;
       (case r of
          Inl _ \<Rightarrow> Some (False, s1, w1)
        | Inr bs \<Rightarrow>
            if bs = [] \<or> rv_state (st_recv s1) \<noteq> RECV_MODEL then Some (False, s1, w1)
            else do {
              let b' = b @ bs;
              g_assert (length b' \<le> unat (pr_modelSize (st_peer s1)));
              (if length b' = unat (pr_modelSize (st_peer s1)) then
                 do {
                   mm \<leftarrow> tgenmarkovmodel_newFromString (se_sys env) (pr_modelName (st_peer s1))
                           (pr_modelSeed (st_peer s1)) (Some b');
                   let s2 = (upd_peer (pr_buffer_update (\<lambda>_. None)) s1)\<lparr>st_mmodel := mm\<rparr>;
                   (case mm of
                      Some _ \<Rightarrow>
                        if st_isCommander s2 then Some (True, s2, w1)
                        else (case stamp tm_command_update s2 w1 of (s3, w3) \<Rightarrow> Some (True, s3, w3))
                    | None \<Rightarrow>
                        Some (False, changeSendState SEND_RESPONSE
                          (changeError ERR_MODEL (changeRecvState RECV_ERROR s2)), w1))
                 }
               else Some (False, upd_peer (pr_buffer_update (\<lambda>_. Some b')) s1, w1))
            })
     }"

definition readPayload :: "stream \<Rightarrow> world \<Rightarrow> (bool \<times> stream \<times> world) option" where
  "readPayload s w =
     (if rv_requestedBytes (st_recv s) = 0 \<and> rv_requestedZero (st_recv s) then Some (True, s, w)
      else do {
        let req = rv_requestedBytes (st_recv s);
        limit \<leftarrow> (if req > 0
                 then do { g_assert (rv_payloadBytes (st_recv s) \<le> req);
                           Some (min READ_BUFLEN (unat (req - rv_payloadBytes (st_recv s)))) }
                 else Some READ_BUFLEN);
        (r, s1, w1) \<leftarrow> stream_read limit s w;
        (case r of
           Inl _ \<Rightarrow> Some (False, s1, w1)
         | Inr bs \<Rightarrow>
             if bs = [] \<and> rv_requestedBytes (st_recv s1) = 0 then Some (True, s1, w1)
             else if bs = [] \<or> rv_state (st_recv s1) \<noteq> RECV_PAYLOAD then Some (False, s1, w1)
             else do {
               let (s2, w2) = (if rv_payloadBytes (st_recv s1) = 0
                               then stamp tm_firstPayloadByteRecv_update s1 w1 else (s1, w1));
               let (s3, w3) = stamp tm_lastPayloadByteRecv_update s2 w2;
               let s4 = upd_recv (rv_payloadBytes_update (\<lambda>n. n + of_nat (length bs))) s3;
               let s5 = (if rv_requestedBytes (st_recv s4) > 0
                         then upd_recv (rv_checksum_update (\<lambda>c. c @ bs)) s4 else s4);
               Some (rv_requestedBytes (st_recv s5) > 0 \<and>
                     rv_payloadBytes (st_recv s5) \<ge> rv_requestedBytes (st_recv s5), s5, w3)
             })
      })"

text \<open>
  \<open>g_checksum_type_get_length\<close> of MD5 is 16, the length of the digest in bytes; its text has 32
  characters. An empty line splits into no parts, and \<open>parts[1]\<close> is then outside the array.
\<close>

definition MD5_LENGTH :: nat where "MD5_LENGTH = 16"

definition readChecksum :: "streamenv \<Rightarrow> stream \<Rightarrow> world \<Rightarrow> (bool \<times> stream \<times> world) option" where
  "readChecksum env s w =
     (if rv_requestedBytes (st_recv s) = 0 then Some (True, s, w)
      else do {
        (line, s1, w1) \<leftarrow> getLine s w;
        (case line of
           None \<Rightarrow> Some (False, s1, w1)
         | Some l \<Rightarrow>
             (case stamp tm_checksumRecv_update s1 w1 of (s2, w2) \<Rightarrow>
                do {
                  let parts = g_strsplit (CHR '' '') (c_str l);
                  g_assert (parts \<noteq> []);
                  let computedSum = se_md5 env (rv_checksum (st_recv s2));
                  (if length parts > 1 \<and> strncaseeq MD5_LENGTH computedSum (parts ! 1)
                   then Some (True, s2, w2)
                   else Some (False, changeError ERR_CHECKSUM (changeRecvState RECV_ERROR s2), w2))
                }))
      })"

definition readFooter :: "stream \<Rightarrow> world \<Rightarrow> (bool \<times> stream \<times> world) option" where
  "readFooter s w =
     (if rv_requestedBytes (st_recv s) = 0 \<and> \<not> rv_requestedZero (st_recv s) then Some (True, s, w)
      else do {
        (line, s1, w1) \<leftarrow> getLine s w;
        (case line of
           None \<Rightarrow> Some (False, s1, w1)
         | Some l \<Rightarrow>
             (case stamp tm_footerRecv_update s1 w1 of (s2, w2) \<Rightarrow>
                if strncaseeq 3 (c_str l) ''FIN'' then Some (True, s2, w2)
                else Some (False, changeError ERR_FOOTER (changeRecvState RECV_ERROR s2), w2)))
      })"

section \<open>The readable event\<close>

definition recv_stage :: "recv_state \<Rightarrow> (stream \<Rightarrow> world \<Rightarrow> (bool \<times> stream \<times> world) option) \<Rightarrow>
    (stream \<Rightarrow> stream) \<Rightarrow> stream \<Rightarrow> world \<Rightarrow> (stream \<times> world) option" where
  "recv_stage q handler advance s w =
     (if rv_state (st_recv s) = q
      then do { (ok, s1, w1) \<leftarrow> handler s w; Some (if ok then advance s1 else s1, w1) }
      else Some (s, w))"

definition modelStage :: "streamenv \<Rightarrow> stream \<Rightarrow> world \<Rightarrow> (bool \<times> stream \<times> world) option" where
  "modelStage env s w =
     do { g_assert (\<not> st_isCommander s);
          (if \<not> Option.is_none (st_mmodel s) then Some (True, s, w) else readModel env s w) }"

definition recv_stages :: "streamenv \<Rightarrow> stream \<Rightarrow> world \<Rightarrow> (stream \<times> world) option" where
  "recv_stages env s w =
     do {
       (s1, w1) \<leftarrow> recv_stage RECV_AUTHENTICATE readAuthenticate (changeRecvState RECV_HEADER) s w;
       (s2, w2) \<leftarrow> recv_stage RECV_HEADER (readHeader env)
          (\<lambda>s. changeRecvState (if st_isCommander s then RECV_PAYLOAD else RECV_MODEL) s) s1 w1;
       (s3, w3) \<leftarrow> recv_stage RECV_MODEL (modelStage env)
          (\<lambda>s. changeRecvState RECV_PAYLOAD (changeSendState SEND_RESPONSE s)) s2 w2;
       (s4, w4) \<leftarrow> recv_stage RECV_PAYLOAD readPayload (changeRecvState RECV_CHECKSUM) s3 w3;
       (s5, w5) \<leftarrow> recv_stage RECV_CHECKSUM (readChecksum env) (changeRecvState RECV_FOOTER) s4 w4;
       recv_stage RECV_FOOTER readFooter (changeRecvState RECV_SUCCESS) s5 w5
     }"

definition onReadable :: "streamenv \<Rightarrow> stream \<Rightarrow> world \<Rightarrow> (stream \<times> world) option" where
  "onReadable env s w =
     do {
       (s1, w1) \<leftarrow> recv_stages env s w;
       Some (if rv_totalBytes (st_recv s1) - rv_totalBytes (st_recv s) > 0
             then stamp tm_lastProgress_update s1 w1 else (s1, w1))
     }"

end
