(* ===== verification/StreamWrite.thy ===== *)
theory StreamWrite
  imports StreamState
begin

text \<open>
  \<open>tgen-stream.c\<close>, the writing side: the send buffer, the command and response, the payload driven by
  the Markov model, checksum and footer. \<open>None\<close> is a failed assertion or a loop that does not end.
\<close>

definition getRandomString :: "nat \<Rightarrow> world \<Rightarrow> bytes \<times> world" where
  "getRandomString n w =
     (case g_random_int w of (r, w') \<Rightarrow> (replicate n (char_of (97 + unat (r mod 26))), w'))"

text \<open>The result is the number of bytes written by this call.\<close>

definition flushOut :: "stream \<Rightarrow> world \<Rightarrow> (nat \<times> stream \<times> world) option" where
  "flushOut s w =
     (case sd_buffer (st_send s) of
        None \<Rightarrow> Some (0, s, w)
      | Some buf \<Rightarrow>
          do {
            t \<leftarrow> st_transport s;
            let (r, t', w') = tgentransport_write (drop (sd_offset (st_send s)) buf) t w;
            let s1 = s\<lparr>st_transport := Some t'\<rparr>;
            (case r of
               Inl e \<Rightarrow>
                 Some (0, if \<not> would_block e then changeError ERR_WRITE (changeSendState SEND_ERROR s1) else s1, w')
             | Inr n \<Rightarrow>
                 if n = 0 then Some (0, changeError ERR_WRITEEOF (changeSendState SEND_ERROR s1), w')
                 else
                   (let s2 = upd_send (sd_offset_update (\<lambda>k. k + n)) s1;
                        s3 = (if sd_offset (st_send s2) \<ge> length buf
                              then upd_send (sd_buffer_update (\<lambda>_. None) \<circ> sd_offset_update (\<lambda>_. 0)) s2
                              else s2)
                    in Some (n, upd_send (sd_totalBytes_update (\<lambda>k. k + of_nat n)) s3, w')))
          })"

text \<open>
  Four handlers share one form: fill the buffer if there is none, flush, and when everything is out
  stamp a time and report the stage complete.
\<close>

definition write_stage :: "(stream \<Rightarrow> bytes option) \<Rightarrow> ((int \<Rightarrow> int) \<Rightarrow> stream_time \<Rightarrow> stream_time) \<Rightarrow>
    stream \<Rightarrow> world \<Rightarrow> (bool \<times> stream \<times> world) option" where
  "write_stage msg field s w =
     do {
       s0 \<leftarrow> (case sd_buffer (st_send s) of
                Some _ \<Rightarrow> Some s
              | None \<Rightarrow> do { m \<leftarrow> msg s; Some (upd_send (sd_buffer_update (\<lambda>_. Some m)) s) });
       (n, s1, w1) \<leftarrow> flushOut s0 w;
       (case sd_buffer (st_send s1) of
          None \<Rightarrow> (case stamp field s1 w1 of (s2, w2) \<Rightarrow> Some (True, s2, w2))
        | Some _ \<Rightarrow> Some (False, s1, w1))
     }"

section \<open>Command and response\<close>

definition show_size :: "bool \<Rightarrow> u64 \<Rightarrow> string" where
  "show_size zero requested = (if zero then ''~'' else show_u64 requested)"

text \<open>
  The command line is written with \<open>%s\<close>, the model text after it too. \<open>None\<close>: no model, or the model
  cannot be written, or a model without path and with a name of its own is to be sent by path.
\<close>

definition command_msg :: "streamenv \<Rightarrow> stream \<Rightarrow> bytes option" where
  "command_msg env s =
     do {
       mm \<leftarrow> st_mmodel s;
       let name = tgenmarkovmodel_getName mm;
       let line = TGEN_AUTH_PW @ '' PROTOCOL_VERSION=2.0'' @
             '' HOSTNAME='' @ show_opt (st_hostname s) @
             '' TRANSFER_ID='' @ show_opt (st_vertexID s) @
             '' SEND_SIZE='' @ show_size (sd_requestedZero (st_send s)) (sd_requestedBytes (st_send s)) @
             '' RECV_SIZE='' @ show_size (rv_requestedZero (st_recv s)) (rv_requestedBytes (st_recv s)) @
             '' MODEL_NAME='' @ name @
             '' MODEL_SEED='' @ show_nat (unat (tgenmarkovmodel_getSeed mm));
       (if st_mmodelSendPath s then
          do {
            g_assert (tgenmarkovmodel_getPath mm \<noteq> None \<or>
                      strcaseeq name tgenconfig_getDefaultPacketMarkovModelName);
            Some (line @ '' MODEL_MODE=path MODEL_PATH='' @
                  (case tgenmarkovmodel_getPath mm of Some p \<Rightarrow> p | None \<Rightarrow> name) @ [NL])
          }
        else
          do {
            graphml \<leftarrow> tgenmarkovmodel_toGraphmlString (se_sys env) mm;
            graphml' \<leftarrow> graphml;
            Some (line @ '' MODEL_MODE=graphml MODEL_SIZE='' @ show_nat (length graphml') @ [NL] @
                  c_str graphml')
          })
     }"

definition writeCommand :: "streamenv \<Rightarrow> stream \<Rightarrow> world \<Rightarrow> (bool \<times> stream \<times> world) option" where
  "writeCommand env = write_stage (command_msg env) tm_command_update"

definition response_msg :: "stream \<Rightarrow> bytes" where
  "response_msg s = TGEN_AUTH_PW @ '' PROTOCOL_VERSION=2.0'' @ '' HOSTNAME='' @ show_opt (st_hostname s) @
     '' CODE='' @ errorToString (st_error s) @ [NL]"

definition writeResponse :: "stream \<Rightarrow> world \<Rightarrow> (bool \<times> stream \<times> world) option" where
  "writeResponse = write_stage (\<lambda>s. Some (response_msg s)) tm_response_update"

section \<open>Payload\<close>

text \<open>
  One turn of the generation loop: what to do with the next observation. The commander sends the
  packets to the server, the other side those to the origin. The result is the pair of counters, and
  whether the loop is left; the last branch of the C code, for other observations, cannot be taken.
\<close>

definition payload_observe :: "mathlib \<Rightarrow> nat \<times> u64 \<Rightarrow> stream \<Rightarrow>
    (bool \<times> (nat \<times> u64) \<times> stream) option" where
  "payload_observe ml = (\<lambda>(cumulativeSize, interPacketDelay) s.
     do {
       mm \<leftarrow> st_mmodel s;
       (obs, delay, mm1) \<leftarrow> tgenmarkovmodel_getNextObservation ml mm;
       let obsDelay = (case delay of Some d \<Rightarrow> d | None \<Rightarrow> 0);
       let s1 = s\<lparr>st_mmodel := Some mm1\<rparr>;
       Some (if obs = (if st_isCommander s1 then OBSERVATION_TO_ORIGIN else OBSERVATION_TO_SERVER) then
               (False, (cumulativeSize, interPacketDelay + obsDelay),
                upd_recv (rv_expectedBytes_update (\<lambda>n. n + of_nat PACKET_DATA_SIZE)) s1)
             else if obs = OBSERVATION_END then
               (if sd_requestedBytes (st_send s1) > 0
                then (False, (cumulativeSize, interPacketDelay), s1\<lparr>st_mmodel := Some (tgenmarkovmodel_reset mm1)\<rparr>)
                else (True, (cumulativeSize, interPacketDelay), s1))
             else
               (False, (cumulativeSize + PACKET_DATA_SIZE, obsDelay),
                upd_send (sd_expectedBytes_update (\<lambda>n. n + of_nat PACKET_DATA_SIZE)) s1))
     })"

text \<open>\<open>(gint64)interPacketDelay\<close> is the signed reading of the word.\<close>

definition payload_defer :: "u64 \<Rightarrow> stream \<Rightarrow> world \<Rightarrow> stream \<times> world" where
  "payload_defer interPacketDelay s w =
     (case stream_getTime s w of (now, s1, w1) \<Rightarrow>
        (upd_send (sd_deferBarrierMicros_update (\<lambda>_. now + sint interPacketDelay)) s1, w1))"

partial_function (option) payload_loop :: "mathlib \<Rightarrow> nat \<Rightarrow> nat \<times> u64 \<Rightarrow> stream \<Rightarrow> world \<Rightarrow>
    (nat \<times> stream \<times> world) option" where
  "payload_loop ml limit acc s w =
     (if fst acc < limit then
        do {
          x \<leftarrow> payload_observe ml acc s;
          (if fst x then Some (fst (fst (snd x)), snd (snd x), w)
           else if snd (fst (snd x)) > MICROS_AT_ONCE
           then Some (fst (fst (snd x)), payload_defer (snd (fst (snd x))) (snd (snd x)) w)
           else payload_loop ml limit (fst (snd x)) (snd (snd x)) w)
        }
      else Some (fst acc, s, w))"

declare payload_loop.simps [code]

text \<open>Flush, and account for what went out as payload; this happens before and after new bytes are made.\<close>

definition flush_payload :: "stream \<Rightarrow> world \<Rightarrow> (stream \<times> world) option" where
  "flush_payload s w =
     do {
       (n, s1, w1) \<leftarrow> flushOut s w;
       let (s3, w3) =
         (if n > 0 then
            (case (if sd_payloadBytes (st_send s1) = 0 then stamp tm_firstPayloadByteSend_update s1 w1
                   else (s1, w1)) of
               (s2, w2) \<Rightarrow> stamp tm_lastPayloadByteSend_update s2 w2)
          else (s1, w1));
       Some (upd_send (sd_payloadBytes_update (\<lambda>k. k + of_nat n)) s3, w3)
     }"

definition doneSending :: "stream \<Rightarrow> bool" where
  "doneSending s =
     (let sd = st_send s in
      if sd_requestedBytes sd > 0 then sd_payloadBytes sd \<ge> sd_requestedBytes sd
      else sd_requestedZero sd \<or>
           (case st_mmodel s of Some mm \<Rightarrow> tgenmarkovmodel_isInEndState mm | None \<Rightarrow> False))"

text \<open>The second half of \<open>_tgenstream_writePayload\<close>: make new payload and start sending it.\<close>

definition generate_payload :: "streamenv \<Rightarrow> stream \<Rightarrow> world \<Rightarrow> (stream \<times> world) option" where
  "generate_payload env s w =
     do {
       let req = sd_requestedBytes (st_send s);
       limit \<leftarrow> (if req > 0
                then do { g_assert (req \<ge> sd_payloadBytes (st_send s));
                          Some (min (unat (req - sd_payloadBytes (st_send s))) WRITE_BUFLEN) }
                else Some WRITE_BUFLEN);
       (cumulativeSize, s1, w1) \<leftarrow> payload_loop (se_ml env) limit (0, 0) s w;
       let newBufLen = (if sd_requestedBytes (st_send s1) > 0 then min limit cumulativeSize else cumulativeSize);
       (if newBufLen > 0 then
          (case getRandomString newBufLen w1 of (buf, w2) \<Rightarrow>
             (let s2 = upd_send (sd_buffer_update (\<lambda>_. Some buf)) s1;
                  s3 = (if sd_requestedBytes (st_send s2) > 0
                        then upd_send (sd_checksum_update (\<lambda>c. c @ buf)) s2 else s2)
              in flush_payload s3 w2))
        else Some (s1, w1))
     }"

definition writePayload :: "streamenv \<Rightarrow> stream \<Rightarrow> world \<Rightarrow> (bool \<times> stream \<times> world) option" where
  "writePayload env s w =
     (if Option.is_none (st_mmodel s)
      then Some (False, changeError ERR_MODEL (changeSendState SEND_ERROR s), w)
      else do {
        (s1, w1) \<leftarrow> flush_payload s w;
        (if \<not> Option.is_none (sd_buffer (st_send s1)) then Some (False, s1, w1)
         else if doneSending s1 then Some (True, s1, w1)
         else do { (s2, w2) \<leftarrow> generate_payload env s1 w1; Some (False, s2, w2) })
      })"

section \<open>Checksum and footer\<close>

definition checksum_msg :: "streamenv \<Rightarrow> stream \<Rightarrow> bytes" where
  "checksum_msg env s = ''MD5 '' @ se_md5 env (sd_checksum (st_send s)) @ [NL]"

definition writeChecksum :: "streamenv \<Rightarrow> stream \<Rightarrow> world \<Rightarrow> (bool \<times> stream \<times> world) option" where
  "writeChecksum env s w =
     (if sd_requestedBytes (st_send s) = 0 then Some (True, s, w)
      else write_stage (\<lambda>s. Some (checksum_msg env s)) tm_checksumSend_update s w)"

definition footer_msg :: bytes where
  "footer_msg = ''FIN'' @ [NL]"

definition writeFooter :: "stream \<Rightarrow> world \<Rightarrow> (bool \<times> stream \<times> world) option" where
  "writeFooter s w =
     (if sd_requestedBytes (st_send s) = 0 \<and> \<not> sd_requestedZero (st_send s) then Some (True, s, w)
      else if rv_state (st_recv s) \<noteq> RECV_FOOTER \<and> rv_state (st_recv s) \<noteq> RECV_SUCCESS
      then Some (False, s, w)
      else write_stage (\<lambda>_. Some footer_msg) tm_footerSend_update s w)"

section \<open>The writable event\<close>

definition send_stage :: "send_state \<Rightarrow> (stream \<Rightarrow> world \<Rightarrow> (bool \<times> stream \<times> world) option) \<Rightarrow>
    (stream \<Rightarrow> stream) \<Rightarrow> stream \<Rightarrow> world \<Rightarrow> (stream \<times> world) option" where
  "send_stage q handler advance s w =
     (if sd_state (st_send s) = q
      then do { (ok, s1, w1) \<leftarrow> handler s w; Some (if ok then advance s1 else s1, w1) }
      else Some (s, w))"

definition flushStage :: "stream \<Rightarrow> world \<Rightarrow> (bool \<times> stream \<times> world) option" where
  "flushStage s w =
     do { (n, s1, w1) \<leftarrow> flushOut s w; Some (Option.is_none (sd_buffer (st_send s1)), s1, w1) }"

text \<open>\<open>tgentransport_shutdownWrites\<close>, called when the flush is complete, has an empty body.\<close>

definition send_stages :: "streamenv \<Rightarrow> stream \<Rightarrow> world \<Rightarrow> (stream \<times> world) option" where
  "send_stages env s w =
     do {
       (s1, w1) \<leftarrow> send_stage SEND_COMMAND
          (\<lambda>s w. do { g_assert (st_isCommander s); writeCommand env s w })
          (\<lambda>s. changeSendState SEND_PAYLOAD (changeRecvState RECV_AUTHENTICATE s)) s w;
       (s2, w2) \<leftarrow> send_stage SEND_RESPONSE
          (\<lambda>s w. do { g_assert (\<not> st_isCommander s); writeResponse s w })
          (\<lambda>s. changeSendState (if st_error s = ERR_NONE then SEND_PAYLOAD else SEND_SUCCESS) s) s1 w1;
       (s3, w3) \<leftarrow> send_stage SEND_PAYLOAD (writePayload env) (changeSendState SEND_CHECKSUM) s2 w2;
       (s4, w4) \<leftarrow> send_stage SEND_CHECKSUM (writeChecksum env) (changeSendState SEND_FOOTER) s3 w3;
       (s5, w5) \<leftarrow> send_stage SEND_FOOTER writeFooter (changeSendState SEND_FLUSH) s4 w4;
       send_stage SEND_FLUSH flushStage (changeSendState SEND_SUCCESS) s5 w5
     }"

definition onWritable :: "streamenv \<Rightarrow> stream \<Rightarrow> world \<Rightarrow> (stream \<times> world) option" where
  "onWritable env s w =
     do {
       (s0, w0) \<leftarrow> (if sd_deferBarrierMicros (st_send s) > 0
                   then (case stream_getTime s w of (now, s1, w1) \<Rightarrow>
                           do { g_assert (now \<ge> sd_deferBarrierMicros (st_send s1));
                                Some (upd_send (sd_deferBarrierMicros_update (\<lambda>_. 0)) s1, w1) })
                   else Some (s, w));
       (s1, w1) \<leftarrow> send_stages env s0 w0;
       Some (if sd_totalBytes (st_send s1) - sd_totalBytes (st_send s) > 0
             then stamp tm_lastProgress_update s1 w1 else (s1, w1))
     }"

end
