(* ===== verification/StreamLoop.thy ===== *)
theory StreamLoop
  imports StreamRead StreamWrite
begin

text \<open>
  \<open>tgen-stream.c\<close>, the rest: status reports, the log and the notification, the events the stream asks
  for, the event and timeout handlers, construction and release.
\<close>

record io_response =
  ir_events :: "tgen_event set"
  ir_deferUntilUSec :: int

section \<open>Reports\<close>

definition progress :: "mathlib \<Rightarrow> u64 \<Rightarrow> u64 \<Rightarrow> gdouble" where
  "progress ml payloadBytes requestedBytes =
     fp_mul ml (fp_div ml (ml_rnd ml (of_int (uint payloadBytes))) (ml_rnd ml (of_int (uint requestedBytes))))
       (Fin 100)"

definition getBytesStatusReport :: "mathlib \<Rightarrow> stream \<Rightarrow> string" where
  "getBytesStatusReport ml s =
     (let rv = st_recv s; sd = st_send s
      in ''[total-bytes-recv='' @ show_u64 (rv_totalBytes rv) @
         '',total-bytes-send='' @ show_u64 (sd_totalBytes sd) @
         '',payload-bytes-recv='' @ show_u64 (rv_payloadBytes rv) @
         '',payload-bytes-send='' @ show_u64 (sd_payloadBytes sd) @
         '',payload-progress-recv='' @
         (if rv_requestedBytes rv > 0
          then show_fixed2 (progress ml (rv_payloadBytes rv) (rv_requestedBytes rv)) @ ''%''
          else if rv_state rv = RECV_SUCCESS \<or> (rv_requestedBytes rv = 0 \<and> rv_requestedZero rv)
          then show_fixed2 (Fin 100) @ ''%''
          else ''?'') @
         '',payload-progress-send='' @
         (if sd_requestedBytes sd > 0
          then show_fixed2 (progress ml (sd_payloadBytes sd) (sd_requestedBytes sd)) @ ''%''
          else if sd_state sd = SEND_SUCCESS \<or> (sd_requestedBytes sd = 0 \<and> sd_requestedZero sd)
          then show_fixed2 (Fin 100) @ ''%''
          else ''?'') @ '']'')"

definition computeTimeHelper :: "stream \<Rightarrow> int \<Rightarrow> int" where
  "computeTimeHelper s endTime =
     (if endTime > 0 \<and> tm_start (st_time s) > 0 then endTime - tm_start (st_time s) else - 1)"

definition getTimeStatusReport :: "stream \<Rightarrow> world \<Rightarrow> (string \<times> stream \<times> world) option" where
  "getTimeStatusReport s0 w0 =
     (case stream_getTime s0 w0 of (now, s, w) \<Rightarrow>
        do {
          t \<leftarrow> st_transport s;
          let proxyTimeStr = tgentransport_getTimeStatusReport t;
          let since = (\<lambda>v. show_int (computeTimeHelper s v));
          let tm = st_time s;
          Some (''[created-ts='' @ show_int (tm_start tm) @ '','' @ proxyTimeStr @
                '',usecs-to-command='' @ since (tm_command tm) @
                '',usecs-to-response='' @ since (tm_response tm) @
                '',usecs-to-first-byte-recv='' @ since (tm_firstPayloadByteRecv tm) @
                '',usecs-to-last-byte-recv='' @ since (tm_lastPayloadByteRecv tm) @
                '',usecs-to-checksum-recv='' @ since (tm_checksumRecv tm) @
                '',usecs-to-first-byte-send='' @ since (tm_firstPayloadByteSend tm) @
                '',usecs-to-last-byte-send='' @ since (tm_lastPayloadByteSend tm) @
                '',usecs-to-checksum-send='' @ since (tm_checksumSend tm) @
                '',now-ts='' @ show_int now @ '']'', s, w)
        })"

definition tgen_message :: "string \<Rightarrow> world \<Rightarrow> world" where
  "tgen_message line w = w\<lparr>w_app := (w_app w)\<lparr>a_log := a_log (w_app w) @ [line]\<rparr>\<rparr>"

text \<open>The one line that is written when a stream ends, with error or success.\<close>

definition report_end :: "mathlib \<Rightarrow> string \<Rightarrow> ((int \<Rightarrow> int) \<Rightarrow> stream_time \<Rightarrow> stream_time) \<Rightarrow>
    stream \<Rightarrow> world \<Rightarrow> (stream \<times> world) option" where
  "report_end ml tag field s w =
     do {
       let bytesMessage = getBytesStatusReport ml s;
       (timeMessage, s1, w1) \<leftarrow> getTimeStatusReport s w;
       t \<leftarrow> st_transport s1;
       let (transportStr, t') = tgentransport_toString t;
       let (streamStr, s2) = tgenstream_toString (s1\<lparr>st_transport := Some t'\<rparr>);
       let w2 = tgen_message (tag @ '' transport '' @ transportStr @ '' stream '' @ streamStr @
                  '' bytes '' @ bytesMessage @ '' times '' @ timeMessage) w1;
       let (now, s3, w3) = stream_getTime s2 w2;
       Some (upd_time (tm_lastBytesStatusReport_update (\<lambda>_. now) \<circ> field (\<lambda>_. now)) s3, w3)
     }"

definition stream_log :: "mathlib \<Rightarrow> bool \<Rightarrow> stream \<Rightarrow> world \<Rightarrow> (stream \<times> world) option" where
  "stream_log ml wasActive s w =
     (if rv_state (st_recv s) = RECV_ERROR \<or> sd_state (st_send s) = SEND_ERROR \<or> st_error s \<noteq> ERR_NONE then
        (if tm_lastTimeErrorReport (st_time s) = 0
         then report_end ml ''[stream-error]'' tm_lastTimeErrorReport_update s w else Some (s, w))
      else if rv_state (st_recv s) = RECV_SUCCESS \<and> sd_state (st_send s) = SEND_SUCCESS then
        (if tm_lastTimeStatusReport (st_time s) = 0
         then report_end ml ''[stream-success]'' tm_lastTimeStatusReport_update s w else Some (s, w))
      else if wasActive then Some (stamp tm_lastBytesStatusReport_update s w)
      else Some (s, w))"

definition callNotifyComplete :: "stream \<Rightarrow> world \<Rightarrow> stream \<times> world" where
  "callNotifyComplete s w =
     (if st_notifyFunc s then
        (s\<lparr>st_notifyFunc := False\<rparr>,
         w\<lparr>w_app := (w_app w)\<lparr>a_notes := a_notes (w_app w) @
           [(st_actionID s, if st_error s = ERR_NONE then {STREAM_COMPLETE, STREAM_SUCCESS}
                            else {STREAM_COMPLETE})]\<rparr>\<rparr>)
      else (s, w))"

section \<open>Wanted events\<close>

definition recvDone0 :: "stream \<Rightarrow> bool" where
  "recvDone0 s \<longleftrightarrow> rv_state (st_recv s) = RECV_SUCCESS \<or> rv_state (st_recv s) = RECV_ERROR \<or>
     (rv_state (st_recv s) = RECV_NONE \<and> sd_state (st_send s) = SEND_ERROR) \<or> st_error s \<noteq> ERR_NONE"

definition sendDone :: "stream \<Rightarrow> bool" where
  "sendDone s \<longleftrightarrow> sd_state (st_send s) = SEND_SUCCESS \<or> sd_state (st_send s) = SEND_ERROR \<or>
     (sd_state (st_send s) = SEND_NONE \<and> rv_state (st_recv s) = RECV_ERROR) \<or> st_error s \<noteq> ERR_NONE"

text \<open>The special case: without a requested size, receiving is over when the expected bytes are in.\<close>

definition model_recvDone :: "stream \<Rightarrow> bool" where
  "model_recvDone s \<longleftrightarrow> sendDone s \<and> \<not> recvDone0 s \<and> rv_requestedBytes (st_recv s) = 0 \<and>
     \<not> rv_requestedZero (st_recv s) \<and> rv_payloadBytes (st_recv s) \<ge> rv_expectedBytes (st_recv s)"

definition computeWantedEvents :: "stream \<Rightarrow> tgen_event set \<times> stream" where
  "computeWantedEvents s =
     (let recvDone = (recvDone0 s \<or> model_recvDone s);
          s1 = (if model_recvDone s then changeRecvState RECV_SUCCESS s else s)
      in if recvDone \<and> sendDone s then ({EV_DONE}, s1)
         else
           ((if \<not> recvDone \<and> rv_state (st_recv s1) \<noteq> RECV_NONE then {EV_READ} else {}) \<union>
            (if \<not> sendDone s \<and> sd_state (st_send s1) \<noteq> SEND_NONE \<and>
                (sd_state (st_send s1) \<noteq> SEND_FOOTER \<or> tm_checksumRecv (st_time s1) > 0)
             then (if sd_deferBarrierMicros (st_send s1) > 0 then {EV_WRITE_DEFERRED} else {EV_WRITE})
             else {}), s1))"

definition onEpollERRHUP :: "stream \<Rightarrow> stream" where
  "onEpollERRHUP s =
     (case computeWantedEvents s of (nxt, s1) \<Rightarrow>
        if EV_DONE \<in> nxt then s1
        else
          (let s2 = (if EV_READ \<in> nxt then changeRecvState RECV_ERROR s1 else s1);
               s3 = (if EV_WRITE \<in> nxt then changeSendState SEND_ERROR s2 else s2)
           in changeError ERR_MISC s3))"

section \<open>Events\<close>

definition runTransportEventLoop :: "streamenv \<Rightarrow> tgen_event set \<Rightarrow> stream \<Rightarrow> world \<Rightarrow>
    (io_response \<times> stream \<times> world) option" where
  "runTransportEventLoop env events s w =
     do {
       t \<leftarrow> st_transport s;
       (retEvents, t', w1) \<leftarrow> tgentransport_onEvent (se_db env) events t w;
       let s1 = s\<lparr>st_transport := Some t'\<rparr>;
       (if retEvents = {} then
          do {
            (s2, w2) \<leftarrow> stream_log (se_ml env) False (changeError ERR_PROXY s1) w1;
            let (s3, w3) = callNotifyComplete s2 w2;
            Some (\<lparr>ir_events = {EV_DONE}, ir_deferUntilUSec = 0\<rparr>, s3, w3)
          }
        else
          (case stamp tm_lastProgress_update s1 w1 of (s2, w2) \<Rightarrow>
             Some (\<lparr>ir_events = (if EV_DONE \<in> retEvents then {EV_READ, EV_WRITE} else retEvents),
                    ir_deferUntilUSec = 0\<rparr>, s2, w2)))
     }"

definition runIO :: "streamenv \<Rightarrow> tgen_event set \<Rightarrow> stream \<Rightarrow> world \<Rightarrow> (stream \<times> world) option" where
  "runIO env events s w =
     do {
       (s1, w1) \<leftarrow> (if EV_READ \<in> events then onReadable env s w else Some (s, w));
       (s2, w2) \<leftarrow> (if EV_WRITE \<in> events then onWritable env s1 w1 else Some (s1, w1));
       (if EV_DONE \<in> events then
          do {
            (s3, w3) \<leftarrow> onReadable env s2 w2;
            (s4, w4) \<leftarrow> onReadable env s3 w3;
            (s5, w5) \<leftarrow> onWritable env (upd_send (sd_deferBarrierMicros_update (\<lambda>_. 0)) s4) w4;
            Some (onEpollERRHUP s5, w5)
          }
        else Some (s2, w2))
     }"

definition runStreamEventLoop :: "streamenv \<Rightarrow> tgen_event set \<Rightarrow> stream \<Rightarrow> world \<Rightarrow>
    (io_response \<times> stream \<times> world) option" where
  "runStreamEventLoop env events s w =
     do {
       (s1, w1) \<leftarrow> runIO env events s w;
       let wasActive = (rv_payloadBytes (st_recv s1) > rv_payloadBytes (st_recv s) \<or>
                        sd_payloadBytes (st_send s1) > sd_payloadBytes (st_send s));
       let (wanted, s2) = computeWantedEvents s1;
       (s3, w3) \<leftarrow> stream_log (se_ml env) wasActive s2 w1;
       (if EV_DONE \<in> events \<or> EV_DONE \<in> wanted
        then (case callNotifyComplete s3 w3 of (s4, w4) \<Rightarrow>
                Some (\<lparr>ir_events = wanted, ir_deferUntilUSec = 0\<rparr>, s4, w4))
        else if EV_WRITE_DEFERRED \<in> wanted
        then do { g_assert (sd_deferBarrierMicros (st_send s3) > 0);
                  Some (\<lparr>ir_events = wanted, ir_deferUntilUSec = sd_deferBarrierMicros (st_send s3)\<rparr>, s3, w3) }
        else Some (\<lparr>ir_events = wanted, ir_deferUntilUSec = 0\<rparr>, s3, w3))
     }"

definition fresh_time :: "stream \<Rightarrow> stream" where
  "fresh_time = upd_time (tm_nowCached_update (\<lambda>_. 0))"

definition transport_wants :: "stream \<Rightarrow> bool" where
  "transport_wants s = (case st_transport s of Some t \<Rightarrow> tgentransport_wantsEvents t | None \<Rightarrow> False)"

definition tgenstream_onEvent :: "streamenv \<Rightarrow> tgen_event set \<Rightarrow> stream \<Rightarrow> world \<Rightarrow>
    (io_response \<times> stream \<times> world) option" where
  "tgenstream_onEvent env events s0 w =
     (let s = fresh_time s0
      in if transport_wants s then runTransportEventLoop env events s w
         else runStreamEventLoop env events s w)"

section \<open>Timeouts\<close>

definition stream_checkTimeout :: "mathlib \<Rightarrow> stream \<Rightarrow> world \<Rightarrow> (bool \<times> stream \<times> world) option" where
  "stream_checkTimeout ml s0 w0 =
     (case stream_getTime s0 w0 of (now, s, w) \<Rightarrow>
        (let tm = st_time s;
             stalled = (tm_lastProgress tm > 0 \<and> now \<ge> tm_lastProgress tm + st_stalloutUSecs s);
             tookTooLong = (now \<ge> tm_start tm + st_timeoutUSecs s);
             isStallout = (st_stalloutUSecs s > 0 \<and> stalled)
         in if isStallout \<or> (st_timeoutUSecs s > 0 \<and> tookTooLong) then
              do {
                (s1, w1) \<leftarrow> stream_log ml False
                  (changeError (if isStallout then ERR_STALLOUT else ERR_TIMEOUT) s) w;
                let (s2, w2) = callNotifyComplete s1 w1;
                Some (True, s2, w2)
              }
            else Some (False, s, w)))"

definition tgenstream_onCheckTimeout :: "mathlib \<Rightarrow> stream \<Rightarrow> world \<Rightarrow> (bool \<times> stream \<times> world) option" where
  "tgenstream_onCheckTimeout ml s0 w =
     (let s = fresh_time s0 in
      case (if tm_lastProgress (st_time s) \<le> 0 then st_transport s else None) of
        Some t \<Rightarrow>
          (case tgentransport_checkTimeout (st_stalloutUSecs s) (st_timeoutUSecs s) t w of
             (isTimeout, t', w1) \<Rightarrow>
               (let s1 = s\<lparr>st_transport := Some t'\<rparr>
                in if isTimeout then
                     do {
                       (s2, w2) \<leftarrow> stream_log ml False (changeError ERR_PROXY s1) w1;
                       let (s3, w3) = callNotifyComplete s2 w2;
                       Some (True, s3, w3)
                     }
                   else Some (False, s1, w1)))
      | None \<Rightarrow> stream_checkTimeout ml s w)"

section \<open>Construction and release\<close>

text \<open>\<open>TGenStreamOptions\<close>; a pool of generators holds the number of its \<open>GRand\<close> (which is shared by all who copy the option).\<close>

record stream_options =
  op_packetModelPath :: "string topt"
  op_packetModelMode :: "string topt"
  op_markovModelSeed :: "u32 topt"
  op_seedGenerator :: "nat pool option topt"
  op_peers :: "peer pool option topt"
  op_socksProxies :: "peer pool option topt"
  op_socksUsername :: "string topt"
  op_socksPassword :: "string topt"
  op_socksAuthSeed :: "u32 topt"
  op_socksAuthGenerator :: "nat pool option topt"
  op_sendSize :: "u64 topt"
  op_recvSize :: "u64 topt"
  op_timeoutNanos :: "u64 topt"
  op_stalloutNanos :: "u64 topt"

definition opt_set :: "stream_options option \<Rightarrow> (stream_options \<Rightarrow> 'a topt) \<Rightarrow> 'a option" where
  "opt_set options field =
     (case options of None \<Rightarrow> None
      | Some op \<Rightarrow> if isSet (field op) then Some (opt_value (field op)) else None)"

definition nanos_to_usecs :: "u64 \<Rightarrow> int" where
  "nanos_to_usecs n = sint (n div 1000)"

definition stream_zero :: stream where
  "stream_zero =
     \<lparr>st_id = 0, st_vertexID = None, st_hostname = None, st_stringBuffer = None, st_error = ERR_NONE,
      st_isCommander = False, st_timeoutUSecs = 0, st_stalloutUSecs = 0, st_transport = None,
      st_mmodel = None, st_mmodelSendPath = False,
      st_recv = \<lparr>rv_state = RECV_NONE, rv_requestedBytes = 0, rv_requestedZero = False,
        rv_expectedBytes = 0, rv_payloadBytes = 0, rv_totalBytes = 0, rv_buffer = None,
        rv_authIndex = 0, rv_checksum = []\<rparr>,
      st_send = \<lparr>sd_state = SEND_NONE, sd_requestedBytes = 0, sd_requestedZero = False,
        sd_expectedBytes = 0, sd_payloadBytes = 0, sd_totalBytes = 0, sd_buffer = None,
        sd_offset = 0, sd_checksum = [], sd_deferBarrierMicros = 0\<rparr>,
      st_peer = \<lparr>pr_hostname = None, pr_buffer = None, pr_modelName = None, pr_modelSeed = 0,
        pr_modelSize = 0\<rparr>,
      st_time = \<lparr>tm_nowCached = 0, tm_start = 0, tm_command = 0, tm_response = 0,
        tm_firstPayloadByteRecv = 0, tm_lastPayloadByteRecv = 0, tm_checksumRecv = 0, tm_footerRecv = 0,
        tm_firstPayloadByteSend = 0, tm_lastPayloadByteSend = 0, tm_checksumSend = 0, tm_footerSend = 0,
        tm_lastBytesStatusReport = 0, tm_lastTimeStatusReport = 0, tm_lastTimeErrorReport = 0,
        tm_lastProgress = 0\<rparr>,
      st_notifyFunc = False, st_actionID = 0, st_refcount = 0\<rparr>"

text \<open>The sizes: a value of 0 means that nothing is to be transferred; no value, that the model decides.\<close>

definition set_sizes :: "stream_options option \<Rightarrow> stream \<Rightarrow> stream" where
  "set_sizes options s =
     (let s1 = (case opt_set options op_sendSize of
                  Some v \<Rightarrow> upd_send (\<lambda>d. d\<lparr>sd_requestedBytes := v,
                              sd_requestedZero := (v = 0 \<or> sd_requestedZero d)\<rparr>) s
                | None \<Rightarrow> upd_send (\<lambda>d. d\<lparr>sd_requestedBytes := 0, sd_requestedZero := False\<rparr>) s)
      in case opt_set options op_recvSize of
           Some v \<Rightarrow> upd_recv (\<lambda>d. d\<lparr>rv_requestedBytes := v,
                       rv_requestedZero := (v = 0 \<or> rv_requestedZero d)\<rparr>) s1
         | None \<Rightarrow> upd_send (sd_requestedZero_update (\<lambda>_. False))
                    (upd_recv (rv_requestedBytes_update (\<lambda>_. 0)) s1))"

record notify_cb =
  nc_func :: bool
  nc_actionID :: int

text \<open>A model makes the stream the commander; it then reads \<open>options\<close> without a check for NULL.\<close>

definition set_role :: "stream_options option \<Rightarrow> mmodel option \<Rightarrow> stream \<Rightarrow> stream option" where
  "set_role options mmodel s =
     (case mmodel of
        None \<Rightarrow> Some (changeRecvState RECV_AUTHENTICATE (s\<lparr>st_isCommander := False\<rparr>))
      | Some mm0 \<Rightarrow>
          do {
            op \<leftarrow> options;
            let mm = tgenmarkovmodel_ref mm0;
            let sendPath = (isSet (op_packetModelMode op) \<and> strcaseeq (opt_value (op_packetModelMode op)) ''path'' \<and>
                 (tgenmarkovmodel_getPath mm \<noteq> None \<or>
                  strcaseeq (tgenmarkovmodel_getName mm) tgenconfig_getDefaultPacketMarkovModelName));
            Some (changeSendState SEND_COMMAND
              (s\<lparr>st_mmodel := Some mm, st_mmodelSendPath := sendPath, st_isCommander := True\<rparr>))
          })"

definition notify_created :: "notify_cb \<Rightarrow> world \<Rightarrow> world" where
  "notify_created cb w =
     (if nc_func cb
      then w\<lparr>w_app := (w_app w)\<lparr>a_notes := a_notes (w_app w) @ [(- 1, {STREAM_CREATED})]\<rparr>\<rparr>
      else w)"

text \<open>
  The log call at the end prints the transport and asserts it is not NULL, so a stream without a
  transport is never returned. The argument of the callback is reference-counted by its owner.
\<close>

definition tgenstream_new :: "streamenv \<Rightarrow> string option \<Rightarrow> stream_options option \<Rightarrow> mmodel option \<Rightarrow>
    transport option \<Rightarrow> notify_cb \<Rightarrow> world \<Rightarrow> (stream \<times> world) option" where
  "tgenstream_new env idStr options mmodel transport cb w0 =
     (let s0 = stream_zero\<lparr>st_refcount := 1, st_id := a_streamCounter (w_app w0)\<rparr>;
          w1 = w0\<lparr>w_app := (w_app w0)\<lparr>a_streamCounter := a_streamCounter (w_app w0) + 1\<rparr>\<rparr>;
          (s1, w2) = (case transport of
             Some t \<Rightarrow> (upd_time (tm_start_update (\<lambda>_. tgentransport_getStartTimestamp t)) s0, w1)
           | None \<Rightarrow> stamp tm_start_update s0 w1);
          s2 = s1\<lparr>st_hostname := (case tgenconfig_gethostname (se_os env) 255 of
                                     (code, name) \<Rightarrow> if code = 0 then Some name else None),
                  st_vertexID := idStr,
                  st_timeoutUSecs := nanos_to_usecs (case opt_set options op_timeoutNanos of
                     Some v \<Rightarrow> v | None \<Rightarrow> DEFAULT_TIMEOUT_NSEC),
                  st_stalloutUSecs := nanos_to_usecs (case opt_set options op_stalloutNanos of
                     Some v \<Rightarrow> v | None \<Rightarrow> DEFAULT_STALLOUT_NSEC)\<rparr>;
          s3 = (set_sizes options s2)\<lparr>st_transport := map_option tgentransport_ref transport\<rparr>
      in do {
           s4 \<leftarrow> set_role options mmodel s3;
           g_assert (transport \<noteq> None);
           Some ((fresh_time s4)\<lparr>st_notifyFunc := nc_func cb, st_actionID := nc_actionID cb\<rparr>,
                 notify_created cb w2)
         })"

text \<open>What \<open>_tgenstream_free\<close> gives back: the references to the transport and to the model.\<close>

definition stream_free :: "stream \<Rightarrow> transport option \<times> mmodel option" where
  "stream_free s = (Option.bind (st_transport s) tgentransport_unref, Option.bind (st_mmodel s) tgenmarkovmodel_unref)"

definition tgenstream_ref :: "stream \<Rightarrow> stream" where
  "tgenstream_ref s = s\<lparr>st_refcount := st_refcount s + 1\<rparr>"

definition tgenstream_unref :: "stream \<Rightarrow> stream option" where
  "tgenstream_unref s =
     (let s' = s\<lparr>st_refcount := st_refcount s - 1\<rparr> in if st_refcount s' \<le> 0 then None else Some s')"

interpretation stream_rc: refcounted st_refcount tgenstream_ref tgenstream_unref
  by unfold_locales (auto simp: tgenstream_ref_def tgenstream_unref_def Let_def)

end
