(* ===== verification/StreamInput.thy ===== *)
theory StreamInput
  imports StreamLoop
begin

text \<open>
  What the reading side makes of the incoming bytes. The abstraction is \<open>inflow\<close>: the bytes a stream
  holds back together with all those the kernel will still deliver, in order. Lines, authentication
  and payload are described on it, so that how the bytes are cut into segments plays no role.
\<close>

section \<open>The incoming bytes\<close>

fun coming :: "rd list \<Rightarrow> bytes" where
  "coming [] = []"
| "coming (RData bs # q) = bs @ coming q"
| "coming (REOF # q) = []"
| "coming (RErr e # q) = coming q"

definition held :: "stream \<Rightarrow> bytes" where
  "held s = (case rv_buffer (st_recv s) of None \<Rightarrow> [] | Some b \<Rightarrow> b)"

definition inflow :: "stream \<Rightarrow> world \<Rightarrow> bytes" where
  "inflow s w = held s @ coming (w_rd w)"

lemma sys_read_coming:
  "sys_read n w = (r, w') \<Longrightarrow>
     coming (w_rd w) = (case r of Inr bs \<Rightarrow> bs | Inl _ \<Rightarrow> []) @ coming (w_rd w') \<and>
     w_in w' = w_in w @ (case r of Inr bs \<Rightarrow> bs | Inl _ \<Rightarrow> []) \<and>
     (case r of Inr bs \<Rightarrow> length bs \<le> n | Inl _ \<Rightarrow> True)"
  by (auto simp: sys_read_def split: list.splits rd.splits if_splits)

lemma xport_bytesCB_sel [simp]:
  "w_rd (xport_bytesCB t rw w) = w_rd w" "w_in (xport_bytesCB t rw w) = w_in w"
  "w_out (xport_bytesCB t rw w) = w_out w" "w_wr (xport_bytesCB t rw w) = w_wr w"
  "w_clock (xport_bytesCB t rw w) = w_clock w" "w_app (xport_bytesCB t rw w) = w_app w"
  by (simp_all add: xport_bytesCB_def)

lemma transport_read_coming:
  assumes "tgentransport_read n t w = (r, t', w')"
  shows "coming (w_rd w) = (case r of Inr bs \<Rightarrow> bs | Inl _ \<Rightarrow> []) @ coming (w_rd w')"
    and "w_in w' = w_in w @ (case r of Inr bs \<Rightarrow> bs | Inl _ \<Rightarrow> [])"
    and "case r of Inr bs \<Rightarrow> length bs \<le> n | Inl _ \<Rightarrow> True"
proof -
  obtain r0 w0 where s: "sys_read n w = (r0, w0)" by fastforce
  with assms have "r = r0" "w_rd w' = w_rd w0" "w_in w' = w_in w0"
    by (auto simp: tgentransport_read_def split: sum.splits if_splits)
  with sys_read_coming [OF s]
  show "coming (w_rd w) = (case r of Inr bs \<Rightarrow> bs | Inl _ \<Rightarrow> []) @ coming (w_rd w')"
    and "w_in w' = w_in w @ (case r of Inr bs \<Rightarrow> bs | Inl _ \<Rightarrow> [])"
    and "case r of Inr bs \<Rightarrow> length bs \<le> n | Inl _ \<Rightarrow> True"
    by simp_all
qed

lemma transport_read_frame:
  "tgentransport_read n t w = (r, t', w') \<Longrightarrow>
     w_wr w' = w_wr w \<and> w_out w' = w_out w \<and> w_clock w' = w_clock w \<and> w_app w' = w_app w"
  by (auto simp: tgentransport_read_def split: prod.splits sum.splits if_splits dest: sys_read_frame)

section \<open>Frames of the elementary updates\<close>

lemma change_sel [simp]:
  "rv_buffer (st_recv (changeRecvState q s)) = rv_buffer (st_recv s)"
  "rv_buffer (st_recv (changeError e s)) = rv_buffer (st_recv s)"
  "st_recv (changeSendState p s) = st_recv s"
  "rv_state (st_recv (changeRecvState q s)) = q" "rv_state (st_recv (changeError e s)) = rv_state (st_recv s)"
  "sd_state (st_send (changeSendState p s)) = p"
  "st_send (changeRecvState q s) = st_send s" "st_send (changeError e s) = st_send s"
  "st_error (changeError e s) = e" "st_error (changeRecvState q s) = st_error s"
  "st_error (changeSendState p s) = st_error s"
  "st_transport (changeRecvState q s) = st_transport s" "st_transport (changeError e s) = st_transport s"
  "st_transport (changeSendState p s) = st_transport s"
  "st_time (changeRecvState q s) = st_time s" "st_time (changeError e s) = st_time s"
  "st_time (changeSendState p s) = st_time s"
  "st_peer (changeRecvState q s) = st_peer s" "st_peer (changeError e s) = st_peer s"
  "st_peer (changeSendState p s) = st_peer s"
  "st_mmodel (changeRecvState q s) = st_mmodel s" "st_mmodel (changeError e s) = st_mmodel s"
  "st_mmodel (changeSendState p s) = st_mmodel s"
  "st_isCommander (changeRecvState q s) = st_isCommander s"
  "st_isCommander (changeError e s) = st_isCommander s"
  "st_isCommander (changeSendState p s) = st_isCommander s"
  "st_notifyFunc (changeRecvState q s) = st_notifyFunc s"
  "st_notifyFunc (changeError e s) = st_notifyFunc s"
  "st_notifyFunc (changeSendState p s) = st_notifyFunc s"
  by (simp_all add: changeRecvState_def changeSendState_def changeError_def stream_resetString_def
      upd_recv_def upd_send_def)

text \<open>Changing the receive state keeps everything else of the receive side.\<close>

lemma changeRecv_recv: "st_recv (changeRecvState q s) = (st_recv s)\<lparr>rv_state := q\<rparr>"
  "st_recv (changeError e s) = st_recv s"
  "st_send (changeSendState p s) = (st_send s)\<lparr>sd_state := p\<rparr>"
  by (simp_all add: changeRecvState_def changeError_def changeSendState_def stream_resetString_def
      upd_recv_def upd_send_def)

lemma held_simps [simp]:
  "held (changeRecvState q s) = held s" "held (changeError e s) = held s"
  "held (changeSendState p s) = held s" "held (upd_time k s) = held s" "held (upd_send g s) = held s"
  "held (upd_peer h s) = held s" "held (s\<lparr>st_transport := t\<rparr>) = held s"
  "held (upd_recv (rv_buffer_update (\<lambda>_. b)) s) = (case b of None \<Rightarrow> [] | Some x \<Rightarrow> x)"
  "held (upd_recv (rv_totalBytes_update m) s) = held s"
  by (simp_all add: held_def)

lemma held_None [simp]: "rv_buffer (st_recv s) = None \<Longrightarrow> held s = []"
  by (simp add: held_def)

text \<open>\<open>stamp\<close> changes the cached time and one field; the world only in its clock.\<close>

lemma stamp_frame:
  assumes "stamp field s w = (s', w')"
  shows "st_recv s' = st_recv s" "st_send s' = st_send s" "st_peer s' = st_peer s"
    "st_error s' = st_error s" "st_transport s' = st_transport s" "st_mmodel s' = st_mmodel s"
    "st_isCommander s' = st_isCommander s" "st_notifyFunc s' = st_notifyFunc s"
    "w_rd w' = w_rd w" "w_wr w' = w_wr w" "w_in w' = w_in w" "w_out w' = w_out w" "w_app w' = w_app w"
    "w_bytesCB w' = w_bytesCB w"
  using assms
  by (auto simp: stamp_def stream_getTime_def split: prod.splits if_splits dest: time_frame)

lemma stamp_inflow: "stamp field s w = (s', w') \<Longrightarrow> inflow s' w' = inflow s w \<and> held s' = held s"
  using stamp_frame [of field s w s' w'] by (simp add: inflow_def held_def)

section \<open>Reads\<close>

lemma after_read_sel [simp]:
  "rv_buffer (st_recv (after_read r s)) = rv_buffer (st_recv s)"
  "st_transport (after_read r s) = st_transport s" "st_send (after_read r s) = st_send s"
  "st_peer (after_read r s) = st_peer s" "st_time (after_read r s) = st_time s"
  "st_mmodel (after_read r s) = st_mmodel s" "st_isCommander (after_read r s) = st_isCommander s"
  "st_notifyFunc (after_read r s) = st_notifyFunc s"
  "rv_authIndex (st_recv (after_read r s)) = rv_authIndex (st_recv s)"
  "rv_requestedBytes (st_recv (after_read r s)) = rv_requestedBytes (st_recv s)"
  "rv_requestedZero (st_recv (after_read r s)) = rv_requestedZero (st_recv s)"
  "rv_payloadBytes (st_recv (after_read r s)) = rv_payloadBytes (st_recv s)"
  "rv_expectedBytes (st_recv (after_read r s)) = rv_expectedBytes (st_recv s)"
  "rv_checksum (st_recv (after_read r s)) = rv_checksum (st_recv s)"
  by (auto simp: after_read_def changeRecv_recv Let_def split: sum.splits)

lemma after_read_bytes [simp]:
  "bs \<noteq> [] \<Longrightarrow> rv_state (st_recv (after_read (Inr bs) s)) = rv_state (st_recv s)"
  "bs \<noteq> [] \<Longrightarrow> st_error (after_read (Inr bs) s) = st_error s"
  by (simp_all add: after_read_def)

lemma held_after_read [simp]: "held (after_read r s) = held s"
  by (simp add: held_def)

text \<open>With nothing held back a read takes its bytes from the front of the inflow.\<close>

lemma stream_read_fresh:
  assumes "rv_buffer (st_recv s) = None" "st_transport s = Some t" "limit > 0"
  obtains r t' w' where "tgentransport_read limit t w = (r, t', w')"
    and "stream_read limit s w = Some (r, after_read r (s\<lparr>st_transport := Some t'\<rparr>), w')"
  using assms by (cases "tgentransport_read limit t w") (simp add: stream_read_def)

lemma findNewLine_None: "findNewLineIndex bs = None \<longleftrightarrow> NL \<notin> set bs"
  by (induction bs) auto

lemma findNewLine_Some:
  "findNewLineIndex bs = Some i \<Longrightarrow> bs = take i bs @ NL # drop (i + 1) bs \<and> NL \<notin> set (take i bs)"
proof (induction bs arbitrary: i)
  case (Cons c cs)
  show ?case
  proof (cases "c = NL")
    case True
    with Cons.prems show ?thesis by simp
  next
    case False
    with Cons.prems obtain j where j: "i = Suc j" "findNewLineIndex cs = Some j" by auto
    with Cons.IH [OF j(2)] False show ?thesis by simp
  qed
qed simp

lemma findNewLine_append:
  "NL \<notin> set a \<Longrightarrow> findNewLineIndex (a @ NL # b) = Some (length a)"
  by (induction a) auto

lemma takeLine_spec:
  assumes "rv_buffer (st_recv s) = None"
  shows "\<exists>line s'. takeLine bs s = Some (line, s') \<and>
           bs = (case line of Some l \<Rightarrow> l @ NL # held s' | None \<Rightarrow> held s') \<and>
           (case line of Some l \<Rightarrow> NL \<notin> set l | None \<Rightarrow> NL \<notin> set bs) \<and>
           st_transport s' = st_transport s"
proof (cases "findNewLineIndex bs")
  case None
  then have "NL \<notin> set bs" by (simp add: findNewLine_None)
  with None assms show ?thesis by (cases "bs = []") (simp_all add: takeLine_def)
next
  case (Some i)
  with findNewLine_Some [OF Some] assms show ?thesis
    by (cases "drop (i + 1) bs") (auto simp: takeLine_def)
qed

section \<open>Lines\<close>

text \<open>A line that is delivered, and the newline after it, are the front of the inflow; nothing else is lost.\<close>

definition line_step :: "bytes option \<Rightarrow> bytes \<Rightarrow> bytes \<Rightarrow> bool" where
  "line_step line before after \<longleftrightarrow>
     (case line of Some l \<Rightarrow> NL \<notin> set l \<and> before = l @ NL # after | None \<Rightarrow> before = after)"

lemma getLine_step:
  assumes t: "st_transport s = Some t"
  shows "\<exists>line s' w'. getLine s w = Some (line, s', w') \<and> st_transport s' \<noteq> None \<and>
           line_step line (inflow s w) (inflow s' w')"
proof -
  define s0 where "s0 = upd_recv (rv_buffer_update (\<lambda>_. None)) s"
  have s0: "rv_buffer (st_recv s0) = None" "st_transport s0 = Some t" using t by (simp_all add: s0_def)
  have hv: "(case rv_buffer (st_recv s) of None \<Rightarrow> [] | Some b \<Rightarrow> b) = held s" by (simp add: held_def)
  show ?thesis
  proof (cases "findNewLineIndex (held s) = None")
    case False
    then obtain i where i: "findNewLineIndex (held s) = Some i" by auto
    obtain line s' where l: "takeLine (held s) s0 = Some (line, s')"
      "held s = (case line of Some l \<Rightarrow> l @ NL # held s' | None \<Rightarrow> held s')"
      "case line of Some l \<Rightarrow> NL \<notin> set l | None \<Rightarrow> NL \<notin> set (held s)" "st_transport s' = st_transport s0"
      using takeLine_spec [OF s0(1)] by blast
    then show ?thesis
      using False s0 by (cases line) (auto simp: getLine_def Let_def hv s0_def [symmetric] line_step_def inflow_def)
  next
    case True
    obtain r t' w' where r: "tgentransport_read READ_BUFLEN t w = (r, t', w')"
      "stream_read READ_BUFLEN s0 w = Some (r, after_read r (s0\<lparr>st_transport := Some t'\<rparr>), w')"
      using stream_read_fresh [OF s0, of READ_BUFLEN w] by (auto simp: READ_BUFLEN_def)
    let ?s1 = "after_read r (s0\<lparr>st_transport := Some t'\<rparr>)"
    note c = transport_read_coming [OF r(1)]
    show ?thesis
    proof (cases "\<exists>bs. r = Inr bs \<and> bs \<noteq> []")
      case False
      have none: "coming (w_rd w) = coming (w_rd w')" using c(1) False by (auto split: sum.splits)
      let ?s2 = "upd_recv (rv_buffer_update (\<lambda>_. rv_buffer (st_recv s))) ?s1"
      have "getLine s w = Some (None, ?s2, w')"
        using True r(2) False s0(1)
        by (auto simp: getLine_def Let_def hv s0_def [symmetric] split: sum.splits list.splits)
      moreover have "inflow ?s2 w' = inflow s w" using none by (simp add: inflow_def held_def)
      ultimately show ?thesis by (auto simp: line_step_def)
    next
      case True2: True
      then obtain c' cs where bs: "r = Inr (c' # cs)" by (metis list.exhaust)
      have "rv_buffer (st_recv ?s1) = None" using s0 by simp
      from takeLine_spec [OF this, of "held s @ c' # cs"]
      obtain line s' where l: "takeLine (held s @ c' # cs) ?s1 = Some (line, s')"
        "held s @ c' # cs = (case line of Some l \<Rightarrow> l @ NL # held s' | None \<Rightarrow> held s')"
        "case line of Some l \<Rightarrow> NL \<notin> set l | None \<Rightarrow> NL \<notin> set (held s @ c' # cs)"
        "st_transport s' = st_transport ?s1" by blast
      have inf: "inflow s w = (held s @ c' # cs) @ coming (w_rd w')" using c(1) bs by (simp add: inflow_def)
      have "getLine s w = Some (line, s', w')"
        using True r(2) l(1) bs by (simp add: getLine_def Let_def hv s0_def [symmetric])
      moreover have "line_step line (inflow s w) (inflow s' w')"
        unfolding inf l(2) using l(3) by (cases line) (simp_all add: line_step_def inflow_def)
      ultimately show ?thesis using l(4) by simp
    qed
  qed
qed

text \<open>
  The contract of a reader of lines: each call may deliver one line, and delivers them from the front
  of a stream of bytes. Whatever the calls do in between, the lines they have delivered are the first
  lines of that stream.
\<close>

locale line_reader =
  fixes stock :: "'s \<Rightarrow> bytes"
    and next_line :: "'s \<Rightarrow> (bytes option \<times> 's) option"
    and ready :: "'s \<Rightarrow> bool"
  assumes delivers: "ready s \<Longrightarrow>
    \<exists>line s'. next_line s = Some (line, s') \<and> ready s' \<and> line_step line (stock s) (stock s')"
begin

fun lines :: "nat \<Rightarrow> 's \<Rightarrow> (bytes list \<times> 's) option" where
  "lines 0 s = Some ([], s)"
| "lines (Suc n) s =
     (case next_line s of
        None \<Rightarrow> None
      | Some (line, s') \<Rightarrow>
          (case lines n s' of
             None \<Rightarrow> None
           | Some (ls, s'') \<Rightarrow> Some ((case line of Some l \<Rightarrow> l # ls | None \<Rightarrow> ls), s'')))"

lemma lines_stock:
  "ready s \<Longrightarrow> \<exists>ls s'. lines n s = Some (ls, s') \<and> ready s' \<and> length ls \<le> n \<and>
     split_all NL (stock s) = ls @ split_all NL (stock s')"
proof (induction n arbitrary: s)
  case (Suc n)
  from delivers [OF Suc.prems] obtain line s1 where 1: "next_line s = Some (line, s1)" "ready s1"
    "line_step line (stock s) (stock s1)" by blast
  from Suc.IH [OF 1(2)] obtain ls s2 where 2: "lines n s1 = Some (ls, s2)" "ready s2" "length ls \<le> n"
    "split_all NL (stock s1) = ls @ split_all NL (stock s2)" by blast
  show ?case
  proof (cases line)
    case None
    with 1 2 show ?thesis by (auto simp: line_step_def)
  next
    case (Some l)
    with 1 2 show ?thesis by (auto simp: line_step_def split_all_append)
  qed
qed simp

end

text \<open>The model's instance: a stream with a transport, together with its world.\<close>

definition getLine_pair :: "stream \<times> world \<Rightarrow> (bytes option \<times> (stream \<times> world)) option" where
  "getLine_pair x = getLine (fst x) (snd x)"

interpretation stream_lines: line_reader "\<lambda>x. inflow (fst x) (snd x)" getLine_pair
    "\<lambda>x. st_transport (fst x) \<noteq> None"
proof unfold_locales
  fix x :: "stream \<times> world"
  assume "st_transport (fst x) \<noteq> None"
  then obtain t where "st_transport (fst x) = Some t" by auto
  from getLine_step [OF this, of "snd x"]
  show "\<exists>line s'. getLine_pair x = Some (line, s') \<and> st_transport (fst s') \<noteq> None \<and>
      line_step line (inflow (fst x) (snd x)) (inflow (fst s') (snd s'))"
    by (force simp: getLine_pair_def)
qed

fun getLines :: "nat \<Rightarrow> stream \<Rightarrow> world \<Rightarrow> (bytes list \<times> stream \<times> world) option" where
  "getLines 0 s w = Some ([], s, w)"
| "getLines (Suc n) s w =
     do {
       (line, s1, w1) \<leftarrow> getLine s w;
       (ls, s2, w2) \<leftarrow> getLines n s1 w1;
       Some ((case line of Some l \<Rightarrow> l # ls | None \<Rightarrow> ls), s2, w2)
     }"

lemma getLines_lines: "getLines n s w = stream_lines.lines n (s, w)"
  by (induction n arbitrary: s w) (simp_all add: getLine_pair_def split: option.splits Option.bind_split)

section \<open>Authentication\<close>

text \<open>What was read agrees with the password from position \<open>i\<close> on; the byte after it is not looked at.\<close>

definition auth_agrees :: "nat \<Rightarrow> bytes \<Rightarrow> bool" where
  "auth_agrees i bs \<longleftrightarrow> take (20 - i) bs = take (length bs) (drop i TGEN_AUTH_PW)"

lemma length_AUTH_PW [simp]: "length TGEN_AUTH_PW = 20"
  by (simp add: TGEN_AUTH_PW_def)

lemma auth_agrees_Nil [simp]: "auth_agrees i []"
  by (simp add: auth_agrees_def)

lemma auth_agrees_20 [simp]: "auth_agrees 20 bs"
  by (simp add: auth_agrees_def)

lemma auth_agrees_Cons:
  "i < 20 \<Longrightarrow> auth_agrees i (c # cs) \<longleftrightarrow> c = TGEN_AUTH_PW ! i \<and> auth_agrees (Suc i) cs"
  by (simp add: auth_agrees_def Suc_diff_Suc [symmetric] Cons_nth_drop_Suc [symmetric] del: Cons_nth_drop_Suc)

lemma auth_loop_spec:
  assumes "rv_authIndex (st_recv s) = i" "i \<le> 20" "length bs \<le> 21 - i"
  shows "auth_loop bs s =
    Some (if auth_agrees i bs
          then (length bs = 21 - i, upd_recv (rv_authIndex_update (\<lambda>_. i + min (length bs) (20 - i))) s)
          else (False, changeError ERR_AUTHENTICATE (changeRecvState RECV_ERROR
                 (upd_recv (rv_authIndex_update (\<lambda>_. i + length (takeWhile (\<lambda>(a, b). a = b) (zip bs (drop i TGEN_AUTH_PW))))) s))))"
  using assms
proof (induction bs arbitrary: s i)
  case Nil
  then show ?case by (simp add: upd_recv_def)
next
  case (Cons c cs)
  show ?case
  proof (cases "i = 20")
    case True
    with Cons.prems show ?thesis by (simp add: upd_recv_def)
  next
    case False
    then have i: "i < 20" using Cons.prems by simp
    have pw: "drop i TGEN_AUTH_PW = TGEN_AUTH_PW ! i # drop (Suc i) TGEN_AUTH_PW"
      by (rule Cons_nth_drop_Suc [symmetric]) (simp add: i)
    show ?thesis
    proof (cases "c = TGEN_AUTH_PW ! i")
      case True
      have "rv_authIndex (st_recv (upd_recv (rv_authIndex_update Suc) s)) = Suc i" using Cons.prems by simp
      from Cons.IH [OF this] Cons.prems i
      show ?thesis using True
        by (auto simp: auth_agrees_Cons pw upd_recv_def comp_def)
    next
      case False
      have same: "s\<lparr>st_recv := st_recv s\<lparr>rv_authIndex := i\<rparr>\<rparr> = s"
        unfolding Cons.prems(1) [symmetric] by simp
      from False Cons.prems i show ?thesis
        by (simp add: auth_agrees_Cons pw upd_recv_def same)
    qed
  qed
qed

definition auth_at :: "nat \<Rightarrow> stream \<Rightarrow> bool" where
  "auth_at i s \<longleftrightarrow> rv_buffer (st_recv s) = None \<and> st_transport s \<noteq> None \<and>
     rv_state (st_recv s) = RECV_AUTHENTICATE \<and> rv_authIndex (st_recv s) = i \<and> i \<le> 20"

definition auth_step_ok :: "nat \<Rightarrow> bytes \<Rightarrow> bool \<Rightarrow> stream \<Rightarrow> bool" where
  "auth_step_ok i bs ok s' \<longleftrightarrow>
     (ok \<longleftrightarrow> auth_agrees i bs \<and> length bs = 21 - i) \<and>
     (if rv_state (st_recv s') = RECV_AUTHENTICATE
      then auth_agrees i bs \<and> auth_at (i + min (length bs) (20 - i)) s'
      else rv_state (st_recv s') = RECV_ERROR \<and> st_error s' \<noteq> ERR_NONE \<and> (auth_agrees i bs \<longrightarrow> bs = []))"

lemma readAuthenticate_step:
  assumes "auth_at i s"
  shows "\<exists>ok s' w' bs. readAuthenticate s w = Some (ok, s', w') \<and> w_in w' = w_in w @ bs \<and>
           coming (w_rd w) = bs @ coming (w_rd w') \<and> length bs \<le> 21 - i \<and> auth_step_ok i bs ok s'"
proof -
  from assms obtain t where s: "rv_buffer (st_recv s) = None" "st_transport s = Some t"
    "rv_state (st_recv s) = RECV_AUTHENTICATE" "rv_authIndex (st_recv s) = i" "i \<le> 20"
    by (auto simp: auth_at_def)
  obtain r t' w' where r: "tgentransport_read (21 - i) t w = (r, t', w')"
    "stream_read (21 - i) s w = Some (r, after_read r (s\<lparr>st_transport := Some t'\<rparr>), w')"
    using stream_read_fresh [OF s(1,2), of "21 - i" w] s(5) by auto
  note c = transport_read_coming [OF r(1)]
  let ?s1 = "after_read r (s\<lparr>st_transport := Some t'\<rparr>)"
  show ?thesis
  proof (cases "\<exists>bs. r = Inr bs \<and> bs \<noteq> []")
    case False
    have "readAuthenticate s w = Some (False, ?s1, w')"
      using r(2) False s(4) by (auto simp: readAuthenticate_def split: sum.splits)
    moreover have "auth_step_ok i [] False ?s1"
      using s False by (auto simp: auth_step_ok_def auth_at_def after_read_def Let_def changeRecv_recv split: sum.splits)
    moreover have "coming (w_rd w) = [] @ coming (w_rd w')" "w_in w' = w_in w @ []"
      using c False by (auto split: sum.splits)
    ultimately show ?thesis by force
  next
    case True
    then obtain bs where bs: "r = Inr bs" "bs \<noteq> []" by auto
    have len: "length bs \<le> 21 - i" using c(3) bs by simp
    have "rv_authIndex (st_recv ?s1) = i" using s by simp
    note l = auth_loop_spec [OF this s(5) len]
    show ?thesis
    proof (cases "auth_agrees i bs")
      case True
      then have "readAuthenticate s w = Some (length bs = 21 - i,
          upd_recv (rv_authIndex_update (\<lambda>_. i + min (length bs) (20 - i))) ?s1, w')"
        using r(2) bs s(3,4) l by (simp add: readAuthenticate_def)
      moreover have "auth_step_ok i bs (length bs = 21 - i)
          (upd_recv (rv_authIndex_update (\<lambda>_. i + min (length bs) (20 - i))) ?s1)"
        using s True bs by (simp add: auth_step_ok_def auth_at_def)
      ultimately show ?thesis using c bs len by force
    next
      case False
      let ?s2 = "changeError ERR_AUTHENTICATE (changeRecvState RECV_ERROR
                 (upd_recv (rv_authIndex_update (\<lambda>_. i + length (takeWhile (\<lambda>(a, b). a = b) (zip bs (drop i TGEN_AUTH_PW))))) ?s1))"
      have "readAuthenticate s w = Some (False, ?s2, w')"
        using r(2) bs s(3,4) l False by (simp add: readAuthenticate_def)
      moreover have "auth_step_ok i bs False ?s2"
        using False by (simp add: auth_step_ok_def)
      ultimately show ?thesis using c bs len by force
    qed
  qed
qed

text \<open>The calls the readable events make while the stream waits for the password.\<close>

fun authenticate :: "nat \<Rightarrow> stream \<Rightarrow> world \<Rightarrow> (bool \<times> stream \<times> world) option" where
  "authenticate 0 s w = Some (False, s, w)"
| "authenticate (Suc n) s w =
     do {
       (ok, s1, w1) \<leftarrow> readAuthenticate s w;
       (if ok \<or> rv_state (st_recv s1) \<noteq> RECV_AUTHENTICATE then Some (ok, s1, w1) else authenticate n s1 w1)
     }"

lemma auth_agrees_append:
  "length a < 21 - i \<Longrightarrow> i \<le> 20 \<Longrightarrow> auth_agrees i (a @ b) \<longleftrightarrow>
     auth_agrees i a \<and> auth_agrees (i + length a) b"
proof (induction a arbitrary: i)
  case (Cons c cs)
  show ?case
  proof (cases "i = 20")
    case False
    then have "i < 20" "length cs < 21 - Suc i" using Cons.prems by auto
    with Cons.IH [OF this(2)] show ?thesis by (simp add: auth_agrees_Cons)
  qed (use Cons.prems in simp)
qed simp

lemma authenticate_spec:
  assumes "auth_at i s"
  shows "\<exists>ok s' w' bs. authenticate n s w = Some (ok, s', w') \<and> w_in w' = w_in w @ bs \<and>
           coming (w_rd w) = bs @ coming (w_rd w') \<and> length bs \<le> 21 - i \<and>
           (ok \<longleftrightarrow> auth_agrees i bs \<and> length bs = 21 - i) \<and>
           (\<not> ok \<longrightarrow> rv_state (st_recv s') = RECV_AUTHENTICATE \<and> auth_agrees i bs \<or>
                    rv_state (st_recv s') = RECV_ERROR \<and> st_error s' \<noteq> ERR_NONE)"
  using assms
proof (induction n arbitrary: i s w)
  case 0
  then show ?case by (auto simp: auth_at_def)
next
  case (Suc n)
  from readAuthenticate_step [OF Suc.prems, of w] obtain ok s1 w1 bs where
    1: "readAuthenticate s w = Some (ok, s1, w1)" "w_in w1 = w_in w @ bs"
      "coming (w_rd w) = bs @ coming (w_rd w1)" "length bs \<le> 21 - i" "auth_step_ok i bs ok s1"
    by blast
  show ?case
  proof (cases "ok \<or> rv_state (st_recv s1) \<noteq> RECV_AUTHENTICATE")
    case True
    then show ?thesis using 1 by (auto simp: auth_step_ok_def split: if_splits)
  next
    case False
    have i: "i \<le> 20" using Suc.prems by (simp add: auth_at_def)
    from False 1(4,5) have a: "auth_agrees i bs" "length bs \<noteq> 21 - i"
      "auth_at (i + min (length bs) (20 - i)) s1" by (auto simp: auth_step_ok_def)
    then have len: "length bs < 21 - i" "min (length bs) (20 - i) = length bs" using 1(4) i by auto
    with a(3) have "auth_at (i + length bs) s1" by simp
    from Suc.IH [OF this, of w1] obtain ok' s2 w2 cs where
      2: "authenticate n s1 w1 = Some (ok', s2, w2)" "w_in w2 = w_in w1 @ cs"
        "coming (w_rd w1) = cs @ coming (w_rd w2)" "length cs \<le> 21 - (i + length bs)"
        "ok' \<longleftrightarrow> auth_agrees (i + length bs) cs \<and> length cs = 21 - (i + length bs)"
        "\<not> ok' \<longrightarrow> rv_state (st_recv s2) = RECV_AUTHENTICATE \<and> auth_agrees (i + length bs) cs \<or>
                  rv_state (st_recv s2) = RECV_ERROR \<and> st_error s2 \<noteq> ERR_NONE" by blast
    show ?thesis
      using 1 2 False a len auth_agrees_append [OF len(1) i, of cs]
      by (intro exI [of _ ok'] exI [of _ s2] exI [of _ w2] exI [of _ "bs @ cs"]) auto
  qed
qed

lemma auth_agrees_0: "auth_agrees 0 bs \<and> length bs = 21 \<longleftrightarrow> (\<exists>c. bs = TGEN_AUTH_PW @ [c])"
proof
  assume a: "auth_agrees 0 bs \<and> length bs = 21"
  then have t: "take 20 bs = TGEN_AUTH_PW" by (simp add: auth_agrees_def)
  from a have "length (drop 20 bs) = Suc 0" by simp
  then obtain c where "drop 20 bs = [c]" unfolding length_Suc_conv by auto
  then show "\<exists>c. bs = TGEN_AUTH_PW @ [c]" using t append_take_drop_id [of 20 bs] by metis
qed (auto simp: auth_agrees_def)

section \<open>Payload of a known size\<close>

text \<open>
  A read that serves itself from held-back bytes keeps the rest only up to the first NUL, so what
  follows is stated for held-back bytes without one.
\<close>

definition buf_ok :: "stream \<Rightarrow> bool" where
  "buf_ok s \<longleftrightarrow> rv_buffer (st_recv s) \<noteq> Some [] \<and> NUL \<notin> set (held s)"

definition got :: "errno + bytes \<Rightarrow> bytes" where
  "got r = (case r of Inr bs \<Rightarrow> bs | Inl _ \<Rightarrow> [])"

lemma stream_read_spec:
  assumes t: "st_transport s \<noteq> None" and b: "buf_ok s" and limit: "limit > 0"
  shows "\<exists>r s1 w1. stream_read limit s w = Some (r, s1, w1) \<and> inflow s w = got r @ inflow s1 w1 \<and>
           length (got r) \<le> limit \<and> st_transport s1 \<noteq> None \<and> buf_ok s1 \<and>
           rv_requestedBytes (st_recv s1) = rv_requestedBytes (st_recv s) \<and>
           rv_payloadBytes (st_recv s1) = rv_payloadBytes (st_recv s) \<and>
           rv_checksum (st_recv s1) = rv_checksum (st_recv s) \<and>
           rv_requestedZero (st_recv s1) = rv_requestedZero (st_recv s) \<and>
           (got r \<noteq> [] \<longrightarrow> rv_state (st_recv s1) = rv_state (st_recv s) \<and> st_error s1 = st_error s) \<and>
           (rv_state (st_recv s1) = rv_state (st_recv s) \<or> rv_state (st_recv s1) = RECV_ERROR)"
proof (cases "rv_buffer (st_recv s)")
  case None
  from t obtain tr where tr: "st_transport s = Some tr" by auto
  obtain r t' w' where r: "tgentransport_read limit tr w = (r, t', w')"
    "stream_read limit s w = Some (r, after_read r (s\<lparr>st_transport := Some t'\<rparr>), w')"
    using stream_read_fresh [OF None tr limit] by metis
  from transport_read_coming [OF r(1)] r(2) None show ?thesis
    by (auto simp: got_def inflow_def buf_ok_def after_read_def Let_def changeRecv_recv split: sum.splits)
next
  case (Some x)
  with b have x: "x \<noteq> []" "NUL \<notin> set x" by (simp_all add: buf_ok_def held_def)
  show ?thesis
  proof (cases "length x \<le> limit")
    case True
    with Some x t limit show ?thesis
      by (simp add: stream_read_def readBuffered_def got_def inflow_def held_def buf_ok_def upd_recv_def)
  next
    case False
    have "NUL \<notin> set (drop limit x)" using x(2) by (auto dest: in_set_dropD)
    with False Some x t limit show ?thesis
      by (simp add: stream_read_def readBuffered_def got_def inflow_def held_def buf_ok_def c_str_id upd_recv_def)
  qed
qed

definition receiving :: "stream \<Rightarrow> bool" where
  "receiving s \<longleftrightarrow> st_transport s \<noteq> None \<and> buf_ok s \<and> rv_state (st_recv s) = RECV_PAYLOAD \<and>
     rv_requestedBytes (st_recv s) > 0 \<and>
     unat (rv_payloadBytes (st_recv s)) = length (rv_checksum (st_recv s)) \<and>
     rv_payloadBytes (st_recv s) < rv_requestedBytes (st_recv s)"

lemma word_of_int_add_len:
  "unat (a :: u64) + k < 2 ^ 64 \<Longrightarrow> unat (a + of_nat k) = unat a + k"
  by (subst unat_word_ariths) (simp add: unat_of_nat take_bit_nat_eq_self)

lemma u64_less_unat: "(a :: u64) < b \<longleftrightarrow> unat a < unat b"
  by (rule word_less_nat_alt)

lemma u64_le_unat: "(a :: u64) \<le> b \<longleftrightarrow> unat a \<le> unat b"
  by (rule word_le_nat_alt)

lemma stamps_frame:
  assumes "(if b then stamp f1 s w else (s, w)) = (s2, w2)" "stamp f2 s2 w2 = (s3, w3)"
  shows "st_recv s3 = st_recv s" "st_transport s3 = st_transport s" "st_error s3 = st_error s"
    "w_rd w3 = w_rd w" "st_send s3 = st_send s"
  using assms stamp_frame [of f2 s2 w2 s3 w3] stamp_frame [of f1 s w s2 w2] by (auto split: if_splits)

lemma readPayload_step:
  assumes s: "receiving s"
  shows "\<exists>ok s' w' bs. readPayload s w = Some (ok, s', w') \<and> inflow s w = bs @ inflow s' w' \<and>
           rv_checksum (st_recv s') = rv_checksum (st_recv s) @ bs \<and>
           unat (rv_payloadBytes (st_recv s')) = length (rv_checksum (st_recv s')) \<and>
           rv_requestedBytes (st_recv s') = rv_requestedBytes (st_recv s) \<and>
           rv_payloadBytes (st_recv s') \<le> rv_requestedBytes (st_recv s') \<and>
           (ok \<longleftrightarrow> rv_payloadBytes (st_recv s') = rv_requestedBytes (st_recv s')) \<and>
           (\<not> ok \<longrightarrow> receiving s' \<or> rv_state (st_recv s') = RECV_ERROR) \<and> st_transport s' \<noteq> None"
proof -
  let ?R = "rv_requestedBytes (st_recv s)" and ?P = "rv_payloadBytes (st_recv s)"
  let ?limit = "min READ_BUFLEN (unat (?R - ?P))"
  note s' = s [unfolded receiving_def]
  have R: "?R \<noteq> 0" using s' by auto
  have le: "?P \<le> ?R" using s' by (simp add: less_imp_le)
  have rem: "unat (?R - ?P) = unat ?R - unat ?P" "unat ?P < unat ?R"
    using s' u64_sub_no_wrap [OF le] by (simp_all add: word_less_nat_alt)
  have lim: "?limit > 0" using rem by (simp add: READ_BUFLEN_def)
  obtain r s1 w1 where r: "stream_read ?limit s w = Some (r, s1, w1)" "inflow s w = got r @ inflow s1 w1"
    "length (got r) \<le> ?limit" "st_transport s1 \<noteq> None" "buf_ok s1" "rv_requestedBytes (st_recv s1) = ?R"
    "rv_payloadBytes (st_recv s1) = ?P" "rv_checksum (st_recv s1) = rv_checksum (st_recv s)"
    "got r \<noteq> [] \<longrightarrow> rv_state (st_recv s1) = rv_state (st_recv s) \<and> st_error s1 = st_error s"
    "rv_state (st_recv s1) = rv_state (st_recv s) \<or> rv_state (st_recv s1) = RECV_ERROR"
    using stream_read_spec [of s ?limit w] s' lim by blast
  show ?thesis
  proof (cases "got r = []")
    case True
    have "readPayload s w = Some (False, s1, w1)"
      using r(1,6) True R le by (auto simp: readPayload_def got_def word_gt_0 split: sum.splits)
    moreover have "receiving s1 \<or> rv_state (st_recv s1) = RECV_ERROR"
      using s' r by (auto simp: receiving_def)
    ultimately show ?thesis using r True s' by auto
  next
    case False
    then obtain bs where bs: "r = Inr bs" "bs \<noteq> []" by (auto simp: got_def split: sum.splits)
    obtain s2 w2 where st1: "(if ?P = 0 then stamp tm_firstPayloadByteRecv_update s1 w1 else (s1, w1)) = (s2, w2)"
      by fastforce
    obtain s3 w3 where st2: "stamp tm_lastPayloadByteRecv_update s2 w2 = (s3, w3)" by fastforce
    note f = stamps_frame [OF st1 st2]
    let ?s4 = "upd_recv (rv_payloadBytes_update (\<lambda>n. n + of_nat (length bs))) s3"
    let ?s5 = "upd_recv (rv_checksum_update (\<lambda>c. c @ bs)) ?s4"
    have len: "unat ?P + length bs \<le> unat ?R" using r(3) bs rem by (auto simp: got_def)
    have upR: "unat ?R < 2 ^ 64" by (rule unat_u64_less)
    have P': "unat (?P + of_nat (length bs)) = unat ?P + length bs"
      using len upR by (intro word_of_int_add_len) simp
    have st: "rv_state (st_recv s1) = RECV_PAYLOAD" using r(9) False s' by simp
    have res: "readPayload s w = Some (?P + of_nat (length bs) \<ge> ?R, ?s5, w3)"
      using r(1,6,7) bs R le st st1 st2 f
      by (simp add: readPayload_def word_gt_0)
    have inf: "inflow s w = bs @ inflow ?s5 w3"
      using r(2) bs f by (simp add: got_def inflow_def held_def)
    have geq: "?P + of_nat (length bs) \<ge> ?R \<longleftrightarrow> ?P + of_nat (length bs) = ?R"
      using len P' by (auto simp: word_le_nat_alt word_unat_eq_iff)
    have rec: "?P + of_nat (length bs) \<noteq> ?R \<Longrightarrow> receiving ?s5"
    proof -
      assume "?P + of_nat (length bs) \<noteq> ?R"
      with len P' have "?P + of_nat (length bs) < ?R"
        by (auto simp: word_less_nat_alt word_unat_eq_iff)
      then show "receiving ?s5"
        using s' r(4-8) f st P' bs by (auto simp: receiving_def buf_ok_def held_def)
    qed
    show ?thesis
      apply (rule exI [of _ "?P + of_nat (length bs) \<ge> ?R"], rule exI [of _ ?s5], rule exI [of _ w3], rule exI [of _ bs])
      using res inf geq rec r(4,6-8) f s' P' len
      by (simp add: word_le_nat_alt)
  qed
qed

text \<open>The calls the readable events make while the payload comes in.\<close>

fun receive_payload :: "nat \<Rightarrow> stream \<Rightarrow> world \<Rightarrow> (bool \<times> stream \<times> world) option" where
  "receive_payload 0 s w = Some (False, s, w)"
| "receive_payload (Suc n) s w =
     do {
       (ok, s1, w1) \<leftarrow> readPayload s w;
       (if ok \<or> rv_state (st_recv s1) \<noteq> RECV_PAYLOAD then Some (ok, s1, w1) else receive_payload n s1 w1)
     }"

lemma receive_payload_run:
  assumes "receiving s"
  shows "\<exists>ok s' w' bs. receive_payload n s w = Some (ok, s', w') \<and> inflow s w = bs @ inflow s' w' \<and>
           rv_checksum (st_recv s') = rv_checksum (st_recv s) @ bs \<and>
           unat (rv_payloadBytes (st_recv s')) = length (rv_checksum (st_recv s')) \<and>
           rv_requestedBytes (st_recv s') = rv_requestedBytes (st_recv s) \<and>
           rv_payloadBytes (st_recv s') \<le> rv_requestedBytes (st_recv s') \<and>
           (ok \<longleftrightarrow> rv_payloadBytes (st_recv s') = rv_requestedBytes (st_recv s')) \<and> st_transport s' \<noteq> None"
  using assms
proof (induction n arbitrary: s w)
  case 0
  then show ?case by (auto simp: receiving_def less_imp_le)
next
  case (Suc n)
  from readPayload_step [OF Suc.prems, of w] obtain ok s1 w1 bs where
    1: "readPayload s w = Some (ok, s1, w1)" "inflow s w = bs @ inflow s1 w1"
      "rv_checksum (st_recv s1) = rv_checksum (st_recv s) @ bs"
      "unat (rv_payloadBytes (st_recv s1)) = length (rv_checksum (st_recv s1))"
      "rv_requestedBytes (st_recv s1) = rv_requestedBytes (st_recv s)"
      "rv_payloadBytes (st_recv s1) \<le> rv_requestedBytes (st_recv s1)"
      "ok \<longleftrightarrow> rv_payloadBytes (st_recv s1) = rv_requestedBytes (st_recv s1)"
      "\<not> ok \<longrightarrow> receiving s1 \<or> rv_state (st_recv s1) = RECV_ERROR" "st_transport s1 \<noteq> None" by blast
  show ?case
  proof (cases "ok \<or> rv_state (st_recv s1) \<noteq> RECV_PAYLOAD")
    case True
    with 1 have "receive_payload (Suc n) s w = Some (ok, s1, w1)" by simp
    with 1 show ?thesis by blast
  next
    case False
    with 1(8) have "receiving s1" by auto
    from Suc.IH [OF this, of w1] obtain ok' s2 w2 cs where
      2: "receive_payload n s1 w1 = Some (ok', s2, w2)" "inflow s1 w1 = cs @ inflow s2 w2"
      "rv_checksum (st_recv s2) = rv_checksum (st_recv s1) @ cs"
      "unat (rv_payloadBytes (st_recv s2)) = length (rv_checksum (st_recv s2))"
      "rv_requestedBytes (st_recv s2) = rv_requestedBytes (st_recv s1)"
      "rv_payloadBytes (st_recv s2) \<le> rv_requestedBytes (st_recv s2)"
      "ok' \<longleftrightarrow> rv_payloadBytes (st_recv s2) = rv_requestedBytes (st_recv s2)" "st_transport s2 \<noteq> None" by blast
    from False 1(1) 2(1) have "receive_payload (Suc n) s w = Some (ok', s2, w2)" by simp
    moreover have "inflow s w = (bs @ cs) @ inflow s2 w2" using 1(2) 2(2) by simp
    moreover have "rv_checksum (st_recv s2) = rv_checksum (st_recv s) @ (bs @ cs)" using 1(3) 2(3) by simp
    moreover have "rv_requestedBytes (st_recv s2) = rv_requestedBytes (st_recv s)" using 1(5) 2(5) by simp
    ultimately show ?thesis using 2(4,6-8) by blast
  qed
qed

section \<open>Theorems about the incoming side\<close>

text \<open>A stream that waits for data on a plain transport, for the witnesses.\<close>

definition demo_open :: transport where
  "demo_open = (tgentransport_newPassive
     \<lparr>so_socket = 7, so_bind_ok = True, so_connect = None, so_getsockname = None, so_TGENIP = None,
      so_TGENSOCKS = None\<rparr> 7 10 11 None False)\<lparr>xp_state := XPORT_SUCCESSOPEN\<rparr>"

definition demo_stream :: "recv_state \<Rightarrow> send_state \<Rightarrow> stream" where
  "demo_stream q p = changeRecvState q (changeSendState p
     (stream_zero\<lparr>st_transport := Some demo_open, st_refcount := 1\<rparr>))"

definition demo_net :: "rd list \<Rightarrow> wr list \<Rightarrow> world" where
  "demo_net r q = \<lparr>w_rd = r, w_wr = q, w_in = [], w_out = [], w_clock = [100], w_bytesCB = [],
     w_app = \<lparr>a_notes = [], a_log = [], a_random = [], a_streamCounter = 0\<rparr>\<rparr>"

lemma demo_stream_sel [simp]:
  "st_transport (demo_stream q p) = Some demo_open" "st_recv (demo_stream q p) = (st_recv stream_zero)\<lparr>rv_state := q\<rparr>"
  "st_send (demo_stream q p) = (st_send stream_zero)\<lparr>sd_state := p\<rparr>"
  "held (demo_stream q p) = []" "st_time (demo_stream q p) = st_time stream_zero"
  "st_error (demo_stream q p) = ERR_NONE" "st_isCommander (demo_stream q p) = False"
  "st_mmodel (demo_stream q p) = None"
  by (simp_all add: demo_stream_def changeRecv_recv held_def stream_zero_def
      changeRecvState_def changeSendState_def stream_resetString_def)

text \<open>
  C14. Lines are independent of segmentation: any number of calls of \<open>_tgenstream_getLine\<close> on a stream
  with a transport succeeds, and the lines it has delivered are the first lines of the incoming bytes,
  complete and in order, however the kernel cut them; everything after them is still to be read.
\<close>

theorem lines_independent_of_segments:
  assumes "st_transport s \<noteq> None"
  shows "\<exists>ls s' w'. getLines n s w = Some (ls, s', w') \<and> length ls \<le> n \<and>
           split_all NL (inflow s w) = ls @ split_all NL (inflow s' w')"
  using stream_lines.lines_stock [of "(s, w)" n] assms unfolding getLines_lines by auto

theorem lines_independent_of_segments_witness:
  "\<exists>ls s' w'. getLines 3 (demo_stream RECV_HEADER SEND_NONE) (demo_net [RData ''ab'', RData (''c'' @ [NL])] []) =
     Some (ls, s', w') \<and> length ls \<le> 3 \<and>
     split_all NL (inflow (demo_stream RECV_HEADER SEND_NONE) (demo_net [RData ''ab'', RData (''c'' @ [NL])] [])) =
       ls @ split_all NL (inflow s' w')"
  by (rule lines_independent_of_segments) simp

text \<open>
  C22. Authentication accepts exactly the password: started on a fresh receive side, the successive
  calls of \<open>_tgenstream_readAuthenticate\<close> succeed just when the bytes read so far are the 20 characters
  of the password and one byte more, whatever that byte is; they never abort and never take a byte
  beyond these 21 from the connection, and as long as they have not failed what was read is a prefix
  of the password.
\<close>

theorem authentication_exact:
  assumes "auth_at 0 s"
  shows "\<exists>ok s' w' bs. authenticate n s w = Some (ok, s', w') \<and> w_in w' = w_in w @ bs \<and> length bs \<le> 21 \<and>
           coming (w_rd w) = bs @ coming (w_rd w') \<and>
           (ok \<longleftrightarrow> (\<exists>c. bs = TGEN_AUTH_PW @ [c])) \<and>
           (\<not> ok \<longrightarrow> rv_state (st_recv s') = RECV_AUTHENTICATE \<and> take 20 bs = take (length bs) TGEN_AUTH_PW \<or>
                    rv_state (st_recv s') = RECV_ERROR \<and> st_error s' \<noteq> ERR_NONE)"
proof -
  from authenticate_spec [OF assms, of n w] obtain ok s' w' bs where
    a: "authenticate n s w = Some (ok, s', w')" "w_in w' = w_in w @ bs"
      "coming (w_rd w) = bs @ coming (w_rd w')" "length bs \<le> 21 - 0"
      "ok \<longleftrightarrow> auth_agrees 0 bs \<and> length bs = 21 - 0"
      "\<not> ok \<longrightarrow> rv_state (st_recv s') = RECV_AUTHENTICATE \<and> auth_agrees 0 bs \<or>
               rv_state (st_recv s') = RECV_ERROR \<and> st_error s' \<noteq> ERR_NONE" by blast
  from a(5) have "ok \<longleftrightarrow> (\<exists>c. bs = TGEN_AUTH_PW @ [c])" using auth_agrees_0 [of bs] by simp
  with a show ?thesis by (auto simp: auth_agrees_def)
qed

theorem authentication_exact_witness:
  "\<exists>ok s' w' bs. authenticate 2 (demo_stream RECV_AUTHENTICATE SEND_NONE)
       (demo_net [RData ''T8nNx'', RData (''9L95LATtckJkR5n!'')] []) = Some (ok, s', w') \<and>
     bs = TGEN_AUTH_PW @ ''!'' \<and> w_in w' = bs \<and> ok"
proof -
  have a: "auth_at 0 (demo_stream RECV_AUTHENTICATE SEND_NONE)" by (simp add: auth_at_def stream_zero_def)
  have "rv_buffer (st_recv (demo_stream RECV_AUTHENTICATE SEND_NONE)) = None" by (simp add: stream_zero_def)
  from authentication_exact [OF a, of 2 "demo_net [RData ''T8nNx'', RData (''9L95LATtckJkR5n!'')] []"]
  obtain ok s' w' bs where r: "authenticate 2 (demo_stream RECV_AUTHENTICATE SEND_NONE)
       (demo_net [RData ''T8nNx'', RData (''9L95LATtckJkR5n!'')] []) = Some (ok, s', w')"
    "w_in w' = [] @ bs" "ok \<longleftrightarrow> (\<exists>c. bs = TGEN_AUTH_PW @ [c])"
    by (auto simp: demo_net_def)
  have "w_in w' = TGEN_AUTH_PW @ ''!''"
    using r(1)
    by (auto simp: numeral_2_eq_2 readAuthenticate_def stream_read_def demo_net_def tgentransport_read_def
        sys_read_def demo_open_def tgentransport_newPassive_def tgentransport_newHelper_def after_read_def
        stream_zero_def TGEN_AUTH_PW_def xport_bytesCB_def split: if_splits)
  then show ?thesis using r by auto
qed


definition demo_payload_stream :: stream where
  "demo_payload_stream = upd_recv (rv_requestedBytes_update (\<lambda>_. 3)) (demo_stream RECV_PAYLOAD SEND_NONE)"


text \<open>
  C31. The checksum line is accepted on half of the digest: of the received sum, the second word of the
  line, only the first 16 characters are compared with the 32 hexadecimal digits of the computed MD5,
  without regard to case; a stream for which they agree passes, any other fails with \<open>ERR_CHECKSUM\<close>.
\<close>

theorem checksum_compares_half:
  assumes "rv_requestedBytes (st_recv s) \<noteq> 0"
    and "getLine s w = Some (Some (''MD5 '' @ digest), s1, w1)" "CHR '' '' \<notin> set digest" "NUL \<notin> set digest"
  shows "\<exists>ok s' w'. readChecksum env s w = Some (ok, s', w') \<and>
           (ok \<longleftrightarrow> map ascii_tolower (take 16 (se_md5 env (rv_checksum (st_recv s1)))) =
                   map ascii_tolower (take 16 digest)) \<and>
           (\<not> ok \<longrightarrow> rv_state (st_recv s') = RECV_ERROR \<and> st_error s' = ERR_CHECKSUM)"
proof -
  obtain s2 w2 where st: "stamp tm_checksumRecv_update s1 w1 = (s2, w2)" by fastforce
  have "c_str (''MD5 '' @ digest) = ''MD5 '' @ digest" using assms(4) by (intro c_str_id) (auto simp: NUL_def)
  moreover have "g_strsplit (CHR '' '') (''MD5 '' @ digest) = [''MD5'', digest]"
    using split_all_append [of "CHR '' ''" "''MD5''" digest] split_all_no_delim [OF assms(3)]
    by (simp add: g_strsplit_def)
  ultimately show ?thesis
    using assms(1,2) st stamp_frame(1) [OF st]
    by (auto simp: readChecksum_def strncaseeq_def MD5_LENGTH_def)
qed

definition demo_env :: streamenv where
  "demo_env = \<lparr>se_sys = \<lparr>se_file = (\<lambda>_. \<lparr>fi_exists = False, fi_regular = False, fi_content = None\<rparr>),
       se_fmemopen = (\<lambda>bs. bs \<noteq> []), se_seek = (\<lambda>_. True), se_read_graphml = (\<lambda>_. None),
       se_write_graphml = (\<lambda>_. None)\<rparr>,
     se_db = \<lparr>getaddrinfo = (\<lambda>_. None), getnameinfo = (\<lambda>_. None)\<rparr>,
     se_ml = \<lparr>ml_rnd = Fin, ml_log = id, ml_exp = id, ml_sqrt = id, ml_cos = id, ml_pow = (\<lambda>x _. x),
       ml_rand = (\<lambda>_ _ b _. b)\<rparr>,
     se_md5 = (\<lambda>bs. replicate 32 (CHR ''a'')),
     se_os = \<lparr>os_TGENHOSTNAME = Some ''host'', os_TGENIP = None, os_TGENSOCKS = None, os_gethostname = None\<rparr>\<rparr>"

definition demo_sum_stream :: "bytes \<Rightarrow> stream" where
  "demo_sum_stream line = upd_recv (\<lambda>r. r\<lparr>rv_requestedBytes := 3, rv_buffer := Some (line @ [NL])\<rparr>)
     (demo_stream RECV_CHECKSUM SEND_NONE)"

theorem checksum_compares_half_witness:
  "\<exists>ok s' w'. readChecksum demo_env (demo_sum_stream (''MD5 '' @ replicate 16 (CHR ''A'') @ ''bogus'')) (demo_net [] [])
      = Some (ok, s', w') \<and> ok"
proof -
  let ?sum = "replicate 16 (CHR ''A'') @ ''bogus''"
  have req: "rv_requestedBytes (st_recv (demo_sum_stream (''MD5 '' @ ?sum))) \<noteq> 0"
    by (simp add: demo_sum_stream_def)
  have no: "CHR '' '' \<notin> set ?sum" "NUL \<notin> set ?sum" by (simp_all add: NUL_def)
  have nl: "findNewLineIndex ((''MD5 '' @ ?sum) @ NL # []) = Some (length (''MD5 '' @ ?sum))"
    by (rule findNewLine_append) (simp add: NL_def)
  have "\<exists>s1. getLine (demo_sum_stream (''MD5 '' @ ?sum)) (demo_net [] []) = Some (Some (''MD5 '' @ ?sum), s1, demo_net [] [])"
    using nl unfolding getLine_def takeLine_def Let_def demo_sum_stream_def by simp
  then obtain s1 where g: "getLine (demo_sum_stream (''MD5 '' @ ?sum)) (demo_net [] []) =
      Some (Some (''MD5 '' @ ?sum), s1, demo_net [] [])" by blast
  have low: "ascii_tolower (CHR ''A'') = CHR ''a''" "ascii_tolower (CHR ''a'') = CHR ''a''" by code_simp+
  have half: "map ascii_tolower (take 16 (se_md5 demo_env x)) = map ascii_tolower (take 16 ?sum)" for x
    by (simp add: demo_env_def low)
  from checksum_compares_half [OF req g no, of demo_env] obtain ok s' w' where
    r: "readChecksum demo_env (demo_sum_stream (''MD5 '' @ ?sum)) (demo_net [] []) = Some (ok, s', w')"
    "ok \<longleftrightarrow> map ascii_tolower (take 16 (se_md5 demo_env (rv_checksum (st_recv s1)))) = map ascii_tolower (take 16 ?sum)"
    by blast
  from r(2) have ok unfolding half by (rule iffD2) (rule refl)
  with r(1) show ?thesis by blast
qed

text \<open>
  Held-back bytes are lost at a NUL: when the bytes a handler asks for are followed by a NUL in the
  read buffer, the read succeeds, but what is kept is the empty string, and the next read of the
  stream fails the assertion that the buffer is not empty. A peer can stop the process this way.
\<close>

theorem nul_in_buffer_aborts:
  assumes "rv_buffer (st_recv s) = Some (a @ NUL # b)" "a \<noteq> []"
  shows "\<exists>s1. stream_read (length a) s w = Some (Inr a, s1, w) \<and> (\<forall>n w'. stream_read n s1 w' = None)"
proof -
  have "c_str (NUL # b) = []" by (simp add: c_str_def)
  with assms have "stream_read (length a) s w =
      Some (Inr a, upd_recv (rv_buffer_update (\<lambda>_. Some [])) s, w)"
    by (simp add: stream_read_def readBuffered_def)
  moreover have "stream_read n (upd_recv (rv_buffer_update (\<lambda>_. Some [])) s) w' = None" for n w'
    by (simp add: stream_read_def readBuffered_def g_assert_def)
  ultimately show ?thesis by blast
qed

theorem nul_in_buffer_aborts_witness:
  "\<exists>s1. stream_read 2 (upd_recv (rv_buffer_update (\<lambda>_. Some (''ab'' @ NUL # ''c''))) (demo_stream RECV_MODEL SEND_NONE))
        (demo_net [] []) = Some (Inr ''ab'', s1, demo_net [] []) \<and>
        (\<forall>n w'. stream_read n s1 w' = None)"
  using nul_in_buffer_aborts [of "upd_recv (rv_buffer_update (\<lambda>_. Some (''ab'' @ NUL # ''c'')))
      (demo_stream RECV_MODEL SEND_NONE)" "''ab''" "''c''" "demo_net [] []"]
  by (simp add: numeral_2_eq_2)

text \<open>
  An empty checksum line stops the process: it splits into no words, and the handler reads the
  second one.
\<close>

theorem empty_checksum_line_aborts:
  assumes "rv_requestedBytes (st_recv s) > 0" "rv_state (st_recv s) = RECV_CHECKSUM"
    and "rv_buffer (st_recv s) = Some (NL # rest)"
  shows "readChecksum env s w = None \<and> onReadable env s w = None"
proof -
  obtain s1 where g: "getLine s w = Some (Some [], s1, w)"
    using assms(3) by (cases rest) (auto simp: getLine_def takeLine_def Let_def)
  obtain s2 w2 where "stamp tm_checksumRecv_update s1 w = (s2, w2)" by fastforce
  with g assms have "readChecksum env s w = None"
    by (simp add: readChecksum_def c_str_def g_strsplit_def)
  with assms show ?thesis by (simp add: onReadable_def recv_stages_def recv_stage_def)
qed

theorem empty_checksum_line_aborts_witness:
  "readChecksum demo_env (demo_sum_stream []) (demo_net [] []) = None \<and>
   onReadable demo_env (demo_sum_stream []) (demo_net [] []) = None"
  by (rule empty_checksum_line_aborts) (simp_all add: demo_sum_stream_def word_gt_0)

lemma getTime_upd_recv:
  "stream_getTime (upd_recv f s) w = (case stream_getTime s w of (now, s', w') \<Rightarrow> (now, upd_recv f s', w'))"
  by (cases "g_get_monotonic_time w") (simp add: stream_getTime_def upd_time_def upd_recv_def)

text \<open>
  A read that would block counts as progress: when a stream that is receiving payload is told it
  can read but nothing has come, the total of received bytes goes down by one (wrapping below zero),
  and because it differs from before the moment is recorded as one of progress, which postpones the
  stallout; payload and state stay as they were.
\<close>

theorem would_block_counts_as_progress:
  assumes "receiving s" "rv_buffer (st_recv s) = None" "w_rd w = []"
  shows "\<exists>s' w'. onReadable env s w = Some (s', w') \<and>
           rv_totalBytes (st_recv s') = rv_totalBytes (st_recv s) - 1 \<and>
           rv_payloadBytes (st_recv s') = rv_payloadBytes (st_recv s) \<and>
           rv_state (st_recv s') = RECV_PAYLOAD \<and>
           tm_lastProgress (st_time s') = fst (stream_getTime s w)"
proof -
  let ?R = "rv_requestedBytes (st_recv s)" and ?P = "rv_payloadBytes (st_recv s)"
  obtain t where s: "st_transport s = Some t" "rv_state (st_recv s) = RECV_PAYLOAD" "?R > 0" "?P < ?R"
    using assms(1) by (auto simp: receiving_def)
  let ?s1 = "upd_recv (rv_totalBytes_update (\<lambda>n. n + (- 1))) s"
  have same: "s\<lparr>st_transport := Some t\<rparr> = s"
    by (rule stream.equality) (simp_all add: s(1))
  have rd: "stream_read n s w = Some (Inl EAGAIN, ?s1, w)" if "n > 0" for n
  proof -
    have "tgentransport_read n t w = (Inl EAGAIN, t, w)"
      using assms(3) by (simp add: tgentransport_read_def sys_read_def would_block_def)
    with assms(2) s(1) that have "stream_read n s w =
        Some (Inl EAGAIN, after_read (Inl EAGAIN) (s\<lparr>st_transport := Some t\<rparr>), w)"
      by (simp add: stream_read_def)
    then show ?thesis unfolding same by (simp add: after_read_def would_block_def)
  qed
  have "0 < unat (?R - ?P)" using s(4) by (simp add: word_less_nat_alt unat_sub order.strict_implies_order)
  then have "min READ_BUFLEN (unat (?R - ?P)) > 0" by (simp add: READ_BUFLEN_def)
  from rd [OF this] have "readPayload s w = Some (False, ?s1, w)"
    using s(3) less_imp_le [OF s(4)] unfolding readPayload_def Let_def word_gt_0 by simp
  then have st: "recv_stages env s w = Some (?s1, w)"
    using s(2) by (simp add: recv_stages_def recv_stage_def)
  obtain now s2 w2 where n: "stream_getTime s w = (now, s2, w2)" by (cases "stream_getTime s w")
  have "rv_totalBytes (st_recv s) - 1 - rv_totalBytes (st_recv s) = - 1" by simp
  then have ne: "rv_totalBytes (st_recv s) - 1 - rv_totalBytes (st_recv s) > 0" by (simp only: word_gt_0) simp
  have "stamp tm_lastProgress_update ?s1 w =
      (upd_time (tm_lastProgress_update (\<lambda>_. now)) (upd_recv (rv_totalBytes_update (\<lambda>n. n + (- 1))) s2), w2)"
    using getTime_upd_recv [of _ s w] n by (simp add: stamp_def)
  moreover have "st_recv s2 = st_recv s"
    using n by (auto simp: stream_getTime_def split: if_splits prod.splits)
  ultimately show ?thesis
    using st ne s(2) n by (simp add: onReadable_def word_gt_0)
qed

theorem would_block_counts_as_progress_witness:
  "\<exists>s' w'. onReadable demo_env demo_payload_stream (demo_net [] []) = Some (s', w') \<and>
     rv_totalBytes (st_recv s') = - 1 \<and> tm_lastProgress (st_time s') = 100"
proof -
  have "receiving demo_payload_stream"
    by (simp add: receiving_def demo_payload_stream_def stream_zero_def buf_ok_def held_def)
  from would_block_counts_as_progress [OF this, of "demo_net [] []" demo_env]
  show ?thesis
    by (auto simp: demo_payload_stream_def stream_zero_def demo_net_def stream_getTime_def
        g_get_monotonic_time_def)
qed

end
