(* ===== verification/StreamHeader.thy ===== *)
theory StreamHeader
  imports StreamInput
begin

text \<open>
  The two header lines of the protocol: what one end writes with \<open>printf\<close>, the other end's parser
  reads back. The names a stream announces (host, vertex id, model) are \<open>plain\<close> words: no space, NUL
  or newline.
\<close>

section \<open>Keys\<close>

lemma tolower_eval [simp]:
  "ascii_tolower (CHR ''A'') = CHR ''a''" "ascii_tolower (CHR ''B'') = CHR ''b''"
  "ascii_tolower (CHR ''C'') = CHR ''c''" "ascii_tolower (CHR ''D'') = CHR ''d''"
  "ascii_tolower (CHR ''E'') = CHR ''e''" "ascii_tolower (CHR ''F'') = CHR ''f''"
  "ascii_tolower (CHR ''G'') = CHR ''g''" "ascii_tolower (CHR ''H'') = CHR ''h''"
  "ascii_tolower (CHR ''I'') = CHR ''i''" "ascii_tolower (CHR ''J'') = CHR ''j''"
  "ascii_tolower (CHR ''K'') = CHR ''k''" "ascii_tolower (CHR ''L'') = CHR ''l''"
  "ascii_tolower (CHR ''M'') = CHR ''m''" "ascii_tolower (CHR ''N'') = CHR ''n''"
  "ascii_tolower (CHR ''O'') = CHR ''o''" "ascii_tolower (CHR ''P'') = CHR ''p''"
  "ascii_tolower (CHR ''Q'') = CHR ''q''" "ascii_tolower (CHR ''R'') = CHR ''r''"
  "ascii_tolower (CHR ''S'') = CHR ''s''" "ascii_tolower (CHR ''T'') = CHR ''t''"
  "ascii_tolower (CHR ''U'') = CHR ''u''" "ascii_tolower (CHR ''V'') = CHR ''v''"
  "ascii_tolower (CHR ''W'') = CHR ''w''" "ascii_tolower (CHR ''X'') = CHR ''x''"
  "ascii_tolower (CHR ''Y'') = CHR ''y''" "ascii_tolower (CHR ''Z'') = CHR ''z''"
  "ascii_tolower (CHR ''_'') = CHR ''_''"
  by code_simp+

text \<open>The entries of a header, one rule for each key.\<close>

lemma header_pair_simps [simp]:
  "header_pair ''PROTOCOL_VERSION'' v (s, h) =
     (case g_strsplit2 (CHR ''.'') v of
        [major, minor] \<Rightarrow>
          if c_atoi major = 2 then (s, h_saw FLAG_PROTOCOL h) else (s, h\<lparr>h_error := ERR_HEADER_VERSION\<rparr>)
      | _ \<Rightarrow> (s, h))"
  "header_pair ''HOSTNAME'' v (s, h) = (upd_peer (pr_hostname_update (\<lambda>_. Some v)) s, h_saw FLAG_HOSTNAME h)"
  "header_pair ''TRANSFER_ID'' v (s, h) =
     (if st_isCommander s then s
      else s\<lparr>st_vertexID := Some (case st_vertexID s of Some i \<Rightarrow> i @ '':'' @ v | None \<Rightarrow> v)\<rparr>, h_saw FLAG_ID h)"
  "header_pair ''CODE'' v (s, h) = (s, h_saw FLAG_CODE (h\<lparr>h_errorCode := Some v\<rparr>))"
  "header_pair ''SEND_SIZE'' v (s, h) =
     (if starts_tilde v
      then upd_recv (rv_requestedZero_update (\<lambda>_. True) \<circ> rv_requestedBytes_update (\<lambda>_. 0)) s
      else upd_recv (rv_requestedBytes_update (\<lambda>_. g_ascii_strtoull v)) s, h_saw FLAG_SENDSIZE h)"
  "header_pair ''RECV_SIZE'' v (s, h) =
     (if starts_tilde v
      then upd_send (sd_requestedZero_update (\<lambda>_. True) \<circ> sd_requestedBytes_update (\<lambda>_. 0)) s
      else upd_send (sd_requestedBytes_update (\<lambda>_. g_ascii_strtoull v)) s, h_saw FLAG_RECVSIZE h)"
  "header_pair ''MODEL_NAME'' v (s, h) = (upd_peer (pr_modelName_update (\<lambda>_. Some v)) s, h_saw FLAG_MODELNAME h)"
  "header_pair ''MODEL_SEED'' v (s, h) =
     (upd_peer (pr_modelSeed_update (\<lambda>_. word_of_int (c_strtol v))) s, h_saw FLAG_MODELSEED h)"
  by (simp_all add: header_pair_def strcaseeq_def)

lemma header_pair_model_simps [simp]:
  "header_pair ''MODEL_MODE'' ''path'' (s, h) = (s, h_saw FLAG_MODELMODE (h\<lparr>h_modeIsPath := True\<rparr>))"
  "header_pair ''MODEL_MODE'' ''graphml'' (s, h) = (s, h_saw FLAG_MODELMODE (h\<lparr>h_modeIsPath := False\<rparr>))"
  "header_pair ''MODEL_PATH'' v (s, h) = (s, h_saw FLAG_MODELPATH (h\<lparr>h_modelPath := Some v\<rparr>))"
  "header_pair ''MODEL_SIZE'' v (s, h) =
     (if c_atoll v > 0 \<and> c_atoll v \<le> TEN_MIB
      then (upd_peer (pr_modelSize_update (\<lambda>_. word_of_int (c_atoll v))) s, h_saw FLAG_MODELSIZE h)
      else (s, h\<lparr>h_error := ERR_HEADER_MODELSIZE\<rparr>))"
proof -
  have "ascii_tolower (CHR ''g'') = CHR ''g''" "ascii_tolower (CHR ''p'') = CHR ''p''" by code_simp+
  then show
    "header_pair ''MODEL_MODE'' ''path'' (s, h) = (s, h_saw FLAG_MODELMODE (h\<lparr>h_modeIsPath := True\<rparr>))"
    "header_pair ''MODEL_MODE'' ''graphml'' (s, h) = (s, h_saw FLAG_MODELMODE (h\<lparr>h_modeIsPath := False\<rparr>))"
    "header_pair ''MODEL_PATH'' v (s, h) = (s, h_saw FLAG_MODELPATH (h\<lparr>h_modelPath := Some v\<rparr>))"
    "header_pair ''MODEL_SIZE'' v (s, h) =
     (if c_atoll v > 0 \<and> c_atoll v \<le> TEN_MIB
      then (upd_peer (pr_modelSize_update (\<lambda>_. word_of_int (c_atoll v))) s, h_saw FLAG_MODELSIZE h)
      else (s, h\<lparr>h_error := ERR_HEADER_MODELSIZE\<rparr>))"
    by (simp_all add: header_pair_def strcaseeq_def strncaseeq_def Let_def)
qed

section \<open>Lines\<close>

definition plain :: "string \<Rightarrow> bool" where
  "plain x \<longleftrightarrow> CHR '' '' \<notin> set x \<and> NUL \<notin> set x \<and> NL \<notin> set x"

text \<open>A header line of the given entries.\<close>

definition entry :: "string \<times> string \<Rightarrow> string" where
  "entry kv = fst kv @ ''='' @ snd kv"

definition header_line :: "(string \<times> string) list \<Rightarrow> string" where
  "header_line kvs = join_with (CHR '' '') (map entry kvs)"

definition entry_ok :: "string \<times> string \<Rightarrow> bool" where
  "entry_ok kv \<longleftrightarrow> plain (fst kv) \<and> plain (snd kv) \<and> CHR ''='' \<notin> set (fst kv)"

lemma plain_special [simp]: "CHR '' '' \<noteq> NUL" "CHR '' '' \<noteq> NL" "CHR ''='' \<noteq> NUL" "CHR ''='' \<noteq> NL"
  "NUL \<noteq> CHR '' ''" "NL \<noteq> CHR '' ''" "NUL \<noteq> CHR ''=''" "NL \<noteq> CHR ''=''"
  by (simp_all add: NUL_def NL_def)

lemma entry_plain: "entry_ok kv \<Longrightarrow> plain (entry kv)"
  by (auto simp: entry_ok_def entry_def plain_def)

lemma join_chars: "c \<in> set (join_with d xs) \<Longrightarrow> c = d \<or> (\<exists>x \<in> set xs. c \<in> set x)"
  by (induction d xs rule: join_with.induct) auto

lemma header_line_chars:
  assumes "list_all entry_ok kvs"
  shows "NUL \<notin> set (header_line kvs)" "NL \<notin> set (header_line kvs)"
proof -
  have "c \<noteq> NUL \<and> c \<noteq> NL" if "c \<in> set (header_line kvs)" for c
    using join_chars [OF that [unfolded header_line_def]] assms entry_plain
    by (auto simp: list_all_iff plain_def)
  then show "NUL \<notin> set (header_line kvs)" "NL \<notin> set (header_line kvs)" by blast+
qed

lemma header_line_split:
  assumes "list_all entry_ok kvs" "kvs \<noteq> []"
  shows "g_strsplit (CHR '' '') (header_line kvs) = map entry kvs"
proof -
  have "hd (map entry kvs) \<noteq> []" using assms(2) by (cases kvs) (simp_all add: entry_def)
  with assms(2) have "header_line kvs \<noteq> []"
    unfolding header_line_def by (intro join_with_not_Nil) simp_all
  moreover have "split_all (CHR '' '') (header_line kvs) = map entry kvs"
    unfolding header_line_def using assms entry_plain
    by (intro split_all_join) (auto simp: list_all_iff plain_def)
  ultimately show ?thesis by (simp add: g_strsplit_def)
qed

fun header_entries :: "(string \<times> string) list \<Rightarrow> stream \<times> header \<Rightarrow> stream \<times> header" where
  "header_entries [] x = x"
| "header_entries ((k, v) # kvs) x =
     (if h_error (snd x) \<noteq> ERR_NONE then x else header_entries kvs (header_pair k v x))"

lemma header_pairs_entries:
  "list_all entry_ok kvs \<Longrightarrow> header_pairs (map entry kvs) x = header_entries kvs x"
proof (induction kvs x rule: header_entries.induct)
  case (2 k v kvs x)
  then have "g_strsplit2 (CHR ''='') (entry (k, v)) = [k, v]"
    using g_strsplit2_append [of "CHR ''=''" k v] by (simp add: entry_def entry_ok_def)
  with 2 show ?case by simp
qed simp

text \<open>A line in the read buffer is what \<open>getLine\<close> delivers.\<close>

lemma getLine_buffered:
  assumes "rv_buffer (st_recv s) = Some (l @ NL # rest)" "NL \<notin> set l"
  shows "getLine s w = Some (Some l,
    upd_recv (rv_buffer_update (\<lambda>_. if rest = [] then None else Some rest)) s, w)"
  using assms findNewLine_append [OF assms(2), of rest]
  by (simp add: getLine_def takeLine_def Let_def upd_recv_def)

lemma readHeader_line:
  assumes "rv_buffer (st_recv s) = Some (header_line kvs @ NL # rest)" "list_all entry_ok kvs" "kvs \<noteq> []"
    and "s1 = upd_recv (rv_buffer_update (\<lambda>_. if rest = [] then None else Some rest)) s"
  shows "readHeader env s w =
    (case header_check env (header_entries kvs (s1, header_start)) of
       None \<Rightarrow> None | Some (e, s2) \<Rightarrow> Some (header_done e s2 w))"
  using getLine_buffered [OF assms(1) header_line_chars(2) [OF assms(2)]] assms(2-4)
  by (auto simp: readHeader_def c_str_id header_line_chars header_line_split header_pairs_entries
      split: option.splits Option.bind_split)

section \<open>The command\<close>

definition command_entries :: "stream \<Rightarrow> string \<Rightarrow> u32 \<Rightarrow> bytes \<Rightarrow> (string \<times> string) list" where
  "command_entries c name seed graphml =
     [(''PROTOCOL_VERSION'', ''2.0''), (''HOSTNAME'', show_opt (st_hostname c)),
      (''TRANSFER_ID'', show_opt (st_vertexID c)),
      (''SEND_SIZE'', show_size (sd_requestedZero (st_send c)) (sd_requestedBytes (st_send c))),
      (''RECV_SIZE'', show_size (rv_requestedZero (st_recv c)) (rv_requestedBytes (st_recv c))),
      (''MODEL_NAME'', name), (''MODEL_SEED'', show_nat (unat seed)),
      (''MODEL_MODE'', ''graphml''), (''MODEL_SIZE'', show_nat (length graphml))]"

lemma command_msg_line:
  assumes "st_mmodel c = Some mm" "\<not> st_mmodelSendPath c"
    and "tgenmarkovmodel_toGraphmlString (se_sys env) mm = Some (Some g)"
  shows "command_msg env c = Some (TGEN_AUTH_PW @ CHR '' '' #
           header_line (command_entries c (mm_name mm) (mm_prngSeed mm) g) @ NL # g)"
proof -
  have "c_str g = g" using assms(3)
    by (auto simp: tgenmarkovmodel_toGraphmlString_def Let_def c_str_id split: option.splits Option.bind_split_asm)
  then show ?thesis using assms
    by (simp add: command_msg_def header_line_def command_entries_def entry_def
        tgenmarkovmodel_getName_def tgenmarkovmodel_getSeed_def)
qed

lemma show_nat_plain [simp]: "plain (show_nat n)"
  using show_nat_digits [of n] isdigit_not_special by (fastforce simp: plain_def)

lemma show_size_plain [simp]: "plain (show_size z v)"
  by (simp add: show_size_def show_u64_def) (simp add: plain_def NUL_def NL_def)

lemma command_entries_ok:
  assumes "plain (show_opt (st_hostname c))" "plain (show_opt (st_vertexID c))" "plain name"
  shows "list_all entry_ok (command_entries c name seed g)"
  using assms by (simp add: command_entries_def entry_ok_def) (simp add: plain_def NUL_def NL_def)

lemma tilde_show_nat [simp]: "\<not> starts_tilde (show_nat n)"
proof -
  have "c \<noteq> CHR ''~''" if "c \<in> set (show_nat n)" for c
    using that show_nat_digits [of n] isdigit_not_special by blast
  then show ?thesis by (cases "show_nat n") (auto simp: starts_tilde_def)
qed

lemma version_eval [simp]:
  "g_strsplit2 (CHR ''.'') ''2.0'' = [''2'', ''0'']" "c_atoi ''2'' = 2"
  by code_simp+

lemma seed_roundtrip [simp]: "(word_of_int (c_strtol (show_nat (unat seed))) :: u32) = seed"
proof -
  have "unat seed < 2 ^ 63" using unsigned_less [where 'b = 32 and 'a = nat, of seed] by simp
  then show ?thesis by (simp add: strtol_show_nat)
qed

text \<open>What the other end knows after it has read the command.\<close>

definition command_understood :: "stream \<Rightarrow> mmodel \<Rightarrow> bytes \<Rightarrow> stream \<Rightarrow> stream \<Rightarrow> bool" where
  "command_understood c mm g s s' \<longleftrightarrow>
     rv_requestedBytes (st_recv s') = sd_requestedBytes (st_send c) \<and>
     rv_requestedZero (st_recv s') = sd_requestedZero (st_send c) \<and>
     sd_requestedBytes (st_send s') = rv_requestedBytes (st_recv c) \<and>
     sd_requestedZero (st_send s') = rv_requestedZero (st_recv c) \<and>
     pr_hostname (st_peer s') = Some (show_opt (st_hostname c)) \<and>
     pr_modelName (st_peer s') = Some (mm_name mm) \<and>
     pr_modelSeed (st_peer s') = mm_prngSeed mm \<and> unat (pr_modelSize (st_peer s')) = length g \<and>
     st_vertexID s' = Some ((case st_vertexID s of Some i \<Rightarrow> i @ '':'' | None \<Rightarrow> []) @ show_opt (st_vertexID c)) \<and>
     rv_state (st_recv s') = rv_state (st_recv s) \<and> st_error s' = st_error s \<and> held s' = g"

text \<open>A stream that nothing has been requested of, and one whose zero flags go with a zero size.\<close>

definition sizes_unset :: "stream \<Rightarrow> bool" where
  "sizes_unset s \<longleftrightarrow> \<not> rv_requestedZero (st_recv s) \<and> \<not> sd_requestedZero (st_send s)"

definition zero_sizes :: "stream \<Rightarrow> bool" where
  "zero_sizes c \<longleftrightarrow> (rv_requestedZero (st_recv c) \<longrightarrow> rv_requestedBytes (st_recv c) = 0) \<and>
     (sd_requestedZero (st_send c) \<longrightarrow> sd_requestedBytes (st_send c) = 0)"

lemma size_value:
  "starts_tilde (show_size z v) \<longleftrightarrow> z" "\<not> z \<Longrightarrow> g_ascii_strtoull (show_size z v) = v"
  by (auto simp: show_size_def show_u64_def) (auto simp: starts_tilde_def)

lemma command_parse:
  assumes "\<not> st_isCommander s" "sizes_unset s" "zero_sizes c"
    and "0 < length g" "int (length g) \<le> TEN_MIB"
  shows "\<exists>s2. header_check env (header_entries (command_entries c (mm_name mm) (mm_prngSeed mm) g) (s, header_start)) =
           Some (ERR_NONE, s2) \<and> (held s = g \<longrightarrow> command_understood c mm g s s2) \<and>
           \<not> st_isCommander s2"
proof -
  have len: "length g < 2 ^ 63" "int (length g) \<le> 10485760" using assms(5) by (simp_all add: TEN_MIB_def)
  have sz: "c_atoll (show_nat (length g)) = int (length g)"
    using strtol_show_nat [OF len(1)] by (simp add: c_atoll_def)
  have z: "sd_requestedZero (st_send c) \<longrightarrow> sd_requestedBytes (st_send c) = 0"
    "rv_requestedZero (st_recv c) \<longrightarrow> rv_requestedBytes (st_recv c) = 0"
    using assms(3) by (simp_all add: zero_sizes_def)
  have sizes: "int (length g) \<le> TEN_MIB" "(of_nat (length g) :: u64) \<noteq> 0" "unat (of_nat (length g) :: u64) = length g"
  proof -
    show "int (length g) \<le> TEN_MIB" by (rule assms(5))
    have "length g < 2 ^ 64" using len(1) by simp
    then show u: "unat (of_nat (length g) :: u64) = length g" by (rule unat_of_nat_u64)
    show "(of_nat (length g) :: u64) \<noteq> 0"
    proof
      assume "(of_nat (length g) :: u64) = 0"
      with u have "length g = 0" by (metis unat_0)
      with assms(4) show False by simp
    qed
  qed
  show ?thesis
    using assms(1,2,4) sizes z
    by (cases "sd_requestedZero (st_send c)"; cases "rv_requestedZero (st_recv c)")
      (simp_all add: command_entries_def header_start_def size_value sz header_check_def
        header_required_def command_understood_def sizes_unset_def held_def upd_recv_def upd_send_def
        upd_peer_def split: option.splits)
qed

section \<open>Theorems about the headers\<close>


text \<open>A commander with a model that is written as a short text.\<close>

definition demo_writer :: streamenv where
  "demo_writer = demo_env\<lparr>se_sys := (se_sys demo_env)\<lparr>se_write_graphml := (\<lambda>_. Some ''<g/>'')\<rparr>\<rparr>"

definition demo_mm :: mmodel where
  "demo_mm = \<lparr>mm_refcount = 1, mm_prngSeed = 42, mm_calls = 0, mm_name = ''m'', mm_path = None,
     mm_graph = \<lparr>ig_gettype = False, ig_vtype = (\<lambda>_. None), ig_etype = (\<lambda>_. None),
       ig_has_vattr = (\<lambda>_. False), ig_has_eattr = (\<lambda>_. False), ig_VAS = (\<lambda>_ _. None),
       ig_EAS = (\<lambda>_ _. None), ig_EAN = (\<lambda>_ _. NaN), ig_vertices = Some [], ig_edges = Some [],
       ig_edge = (\<lambda>_. None), ig_incident = (\<lambda>_. None)\<rparr>,
     mm_startVertexIndex = 0, mm_currentStateVertexIndex = 0, mm_foundEndState = False\<rparr>"

definition demo_commander :: stream where
  "demo_commander = (upd_send (sd_requestedBytes_update (\<lambda>_. 1000))
     (upd_recv (rv_requestedZero_update (\<lambda>_. True)) (demo_stream RECV_NONE SEND_COMMAND)))
     \<lparr>st_isCommander := True, st_mmodel := Some demo_mm, st_hostname := Some ''client'', st_vertexID := Some ''v1''\<rparr>"

lemma demo_writer_text: "tgenmarkovmodel_toGraphmlString (se_sys demo_writer) mm = Some (Some ''<g/>'')"
  by (simp add: demo_writer_def demo_env_def tgenmarkovmodel_toGraphmlString_def c_str_def NUL_def)


text \<open>
  C23. The response survives the wire: what an accepting stream with a plain host name answers is the
  password, a space and one line; a commander that finds this line in its read buffer accepts it
  exactly when the answering stream had no error, and otherwise ends both of its directions with
  \<open>ERR_HEADER\<close>.
\<close>

theorem response_roundtrip:
  assumes "plain (show_opt (st_hostname s))" "st_isCommander c"
  shows "\<exists>line. response_msg s = TGEN_AUTH_PW @ '' '' @ line @ [NL] \<and>
           (rv_buffer (st_recv c) = Some (line @ [NL]) \<longrightarrow>
              (\<exists>ok c' w'. readHeader env c w = Some (ok, c', w') \<and> (ok \<longleftrightarrow> st_error s = ERR_NONE) \<and>
                 (\<not> ok \<longrightarrow> st_error c' = ERR_HEADER \<and> rv_state (st_recv c') = RECV_ERROR \<and>
                          sd_state (st_send c') = SEND_SUCCESS)))"
proof (rule exI [of _ "header_line [(''PROTOCOL_VERSION'', ''2.0''), (''HOSTNAME'', show_opt (st_hostname s)),
    (''CODE'', errorToString (st_error s))]"], intro conjI impI)
  let ?e = "[(''PROTOCOL_VERSION'', ''2.0''), (''HOSTNAME'', show_opt (st_hostname s)),
    (''CODE'', errorToString (st_error s))]"
  show "response_msg s = TGEN_AUTH_PW @ '' '' @ header_line ?e @ [NL]"
    by (simp add: response_msg_def header_line_def entry_def)
  assume b: "rv_buffer (st_recv c) = Some (header_line ?e @ [NL])"
  have "plain (errorToString x)" for x by (cases x) (simp_all add: plain_def NUL_def NL_def)
  then have ok: "list_all entry_ok ?e"
    using assms(1) by (simp add: entry_ok_def) (simp add: plain_def NUL_def NL_def)
  let ?c1 = "upd_recv (rv_buffer_update (\<lambda>_. if ([] :: bytes) = [] then None else Some [])) c"
  have code: "strcaseeq (errorToString x) ''NONE'' \<longleftrightarrow> x = ERR_NONE" for x
    by (cases x) (simp_all add: strcaseeq_def)
  have "header_check env (header_entries ?e (?c1, header_start)) =
      Some (if st_error s = ERR_NONE then ERR_NONE else ERR_HEADER,
            upd_peer (pr_hostname_update (\<lambda>_. Some (show_opt (st_hostname s)))) ?c1)"
    using assms(2) by (simp add: header_start_def header_check_def header_required_def code)
  with readHeader_line [OF b ok _ refl, of env w]
  have r: "readHeader env c w = Some (header_done (if st_error s = ERR_NONE then ERR_NONE else ERR_HEADER)
      (upd_peer (pr_hostname_update (\<lambda>_. Some (show_opt (st_hostname s)))) ?c1) w)" by simp
  show "\<exists>ok c' w'. readHeader env c w = Some (ok, c', w') \<and> (ok \<longleftrightarrow> st_error s = ERR_NONE) \<and>
      (\<not> ok \<longrightarrow> st_error c' = ERR_HEADER \<and> rv_state (st_recv c') = RECV_ERROR \<and> sd_state (st_send c') = SEND_SUCCESS)"
    unfolding r using assms(2)
    by (cases "st_error s = ERR_NONE") (auto simp: header_done_def stream_resetString_def split: prod.splits)
qed

theorem response_roundtrip_witness:
  "\<exists>line c c' w'. response_msg (changeError ERR_MODEL (demo_stream RECV_ERROR SEND_RESPONSE)) =
       TGEN_AUTH_PW @ '' '' @ line @ [NL] \<and>
     readHeader demo_env c (demo_net [] []) = Some (False, c', w') \<and> st_error c' = ERR_HEADER"
proof -
  let ?s = "changeError ERR_MODEL (demo_stream RECV_ERROR SEND_RESPONSE)"
  let ?c = "\<lambda>l. upd_recv (rv_buffer_update (\<lambda>_. Some l)) demo_commander"
  have p: "plain (show_opt (st_hostname ?s))"
    by (simp add: show_opt_def plain_def NUL_def NL_def demo_stream_def changeRecvState_def changeSendState_def
        changeError_def stream_resetString_def upd_recv_def upd_send_def stream_zero_def)
  have c: "st_isCommander (?c l)" for l by (simp add: demo_commander_def)
  note r = response_roundtrip [OF p c, of _ demo_env "demo_net [] []"]
  from r obtain line where line: "response_msg ?s = TGEN_AUTH_PW @ '' '' @ line @ [NL]" by blast
  from r [of "line @ [NL]"] line show ?thesis by fastforce
qed

definition nameless_path_header :: "streamenv \<Rightarrow> stream \<Rightarrow> bytes \<Rightarrow> bool" where
  "nameless_path_header env s l =
     (case header_pairs (g_strsplit (CHR '' '') (c_str l)) (s, header_start) of (s2, h) \<Rightarrow>
        h_error h = ERR_NONE \<and> \<not> st_isCommander s2 \<and> h_modeIsPath h \<and>
        pr_modelName (st_peer s2) = None \<and> header_load_path env h s2 = None)"

lemma load_path_named: "pr_modelName (st_peer s) = Some n \<Longrightarrow> header_load_path env h s \<noteq> None"
  by (auto simp: header_load_path_def tgenmarkovmodel_newFromString_def tgenmarkovmodel_newFromPath_def
      mmodel_new_named_def Let_def split: option.splits)


text \<open>A reader for which every text is a graph.\<close>

definition demo_reader :: streamenv where
  "demo_reader = demo_env\<lparr>se_sys := (se_sys demo_env)\<lparr>se_fmemopen := (\<lambda>_. True), se_read_graphml := (\<lambda>_. Some (mm_graph demo_mm))\<rparr>\<rparr>"


section \<open>Reports leave the stream as it is\<close>

lemma getTime_frame:
  assumes "stream_getTime s w = (now, s', w')"
  shows "st_recv s' = st_recv s" "st_send s' = st_send s" "st_peer s' = st_peer s"
    "st_error s' = st_error s" "st_transport s' = st_transport s" "st_mmodel s' = st_mmodel s"
    "st_isCommander s' = st_isCommander s" "st_notifyFunc s' = st_notifyFunc s" "st_actionID s' = st_actionID s"
    "w_rd w' = w_rd w" "w_wr w' = w_wr w" "w_in w' = w_in w" "w_out w' = w_out w" "w_app w' = w_app w"
  using assms
  by (auto simp: stream_getTime_def upd_time_def split: prod.splits if_splits dest: time_frame)

lemma toString_frame:
  "tgenstream_toString s = (b, s') \<Longrightarrow> s' = s\<lparr>st_stringBuffer := Some b\<rparr>"
  by (auto simp: tgenstream_toString_def Let_def split: option.splits)

lemma transport_toString_frame:
  "tgentransport_toString t = (b, t') \<Longrightarrow> xp_state t' = xp_state t \<and> xp_error t' = xp_error t \<and>
     xp_socketD t' = xp_socketD t \<and> xp_bytesCB t' = xp_bytesCB t \<and> xp_time t' = xp_time t"
  by (auto simp: tgentransport_toString_def Let_def split: option.splits prod.splits)

definition reported :: "stream \<Rightarrow> world \<Rightarrow> stream \<Rightarrow> world \<Rightarrow> bool" where
  "reported s w s' w' \<longleftrightarrow>
     st_recv s' = st_recv s \<and> st_send s' = st_send s \<and> st_peer s' = st_peer s \<and> st_error s' = st_error s \<and>
     st_mmodel s' = st_mmodel s \<and> st_isCommander s' = st_isCommander s \<and>
     st_notifyFunc s' = st_notifyFunc s \<and> st_actionID s' = st_actionID s \<and>
     (st_transport s' \<noteq> None \<longleftrightarrow> st_transport s \<noteq> None) \<and>
     w_rd w' = w_rd w \<and> w_wr w' = w_wr w \<and> w_in w' = w_in w \<and> w_out w' = w_out w \<and>
     a_notes (w_app w') = a_notes (w_app w)"

lemma reported_refl [simp]: "reported s w s w"
  by (simp add: reported_def)

lemma stamp_reported: "stamp field s w = (s', w') \<Longrightarrow> reported s w s' w'"
  by (auto simp: stamp_def reported_def upd_time_def split: prod.splits dest: getTime_frame)

lemma report_end_reported:
  assumes "report_end ml tag field s w = Some (s', w')"
  shows "reported s w s' w'"
proof -
  obtain now s1 w1 where 1: "stream_getTime s w = (now, s1, w1)" by (cases "stream_getTime s w")
  with assms obtain t where t: "st_transport s1 = Some t"
    by (auto simp: report_end_def getTimeStatusReport_def split: option.splits Option.bind_splits)
  obtain ts t' where ts: "tgentransport_toString t = (ts, t')" by fastforce
  obtain b s2 where b: "tgenstream_toString (s1\<lparr>st_transport := Some t'\<rparr>) = (b, s2)" by fastforce
  note s2 = toString_frame [OF b]
  obtain m where m: "report_end ml tag field s w =
      (case stream_getTime s2 (tgen_message m w1) of (now, s3, w3) \<Rightarrow>
         Some (upd_time (tm_lastBytesStatusReport_update (\<lambda>_. now) \<circ> field (\<lambda>_. now)) s3, w3))"
    using 1 t ts b by (simp add: report_end_def getTimeStatusReport_def Let_def)
  obtain now' s3 w3 where 3: "stream_getTime s2 (tgen_message m w1) = (now', s3, w3)"
    by (cases "stream_getTime s2 (tgen_message m w1)")
  have "w_app (tgen_message m w1) = (w_app w1)\<lparr>a_log := a_log (w_app w1) @ [m]\<rparr>"
    "w_rd (tgen_message m w1) = w_rd w1" "w_wr (tgen_message m w1) = w_wr w1"
    "w_in (tgen_message m w1) = w_in w1" "w_out (tgen_message m w1) = w_out w1"
    by (simp_all add: tgen_message_def)
  moreover have "st_transport s = Some t" using t getTime_frame(5) [OF 1] by simp
  ultimately show ?thesis
    using getTime_frame [OF 1] getTime_frame [OF 3] m 3 s2 assms by (simp add: reported_def upd_time_def)
qed

lemma stream_log_reported:
  "stream_log ml act s w = Some (s', w') \<Longrightarrow> reported s w s' w'"
  by (auto simp: stream_log_def split: if_splits prod.splits
      intro: report_end_reported stamp_reported)

text \<open>With a transport the report is always written.\<close>

lemma stream_log_Some: "st_transport s \<noteq> None \<Longrightarrow> \<exists>s' w'. stream_log ml act s w = Some (s', w')"
proof -
  assume "st_transport s \<noteq> None"
  then obtain t where t: "st_transport s = Some t" by auto
  obtain now s1 w1 where 1: "stream_getTime s w = (now, s1, w1)" by (cases "stream_getTime s w")
  with t have "st_transport s1 = Some t" using getTime_frame(5) [OF 1] by simp
  with 1 have "\<exists>s' w'. report_end ml tag field s w = Some (s', w')" for tag field
    by (auto simp: report_end_def getTimeStatusReport_def Let_def split: prod.splits)
  then show ?thesis by (auto simp: stream_log_def split: prod.splits)
qed

text \<open>
  An error in the header is never answered: when an accepting stream that is only polled for
  reading finds its header line wrong, it switches to sending the response with the error code, but
  in the same event it asks the io module to be removed, having written nothing; the commander sees
  the connection close instead of the code.
\<close>

theorem header_error_not_answered:
  assumes "rv_state (st_recv s) = RECV_HEADER" "\<not> st_isCommander s"
    and "readHeader env s w = Some (False, s1, w1)" "rv_state (st_recv s1) = RECV_ERROR" "st_error s1 \<noteq> ERR_NONE"
    and "runStreamEventLoop env {EV_READ} s w = Some (r, s', w')"
  shows "EV_DONE \<in> ir_events r \<and> EV_WRITE \<notin> ir_events r \<and> \<not> st_notifyFunc s' \<and>
         w_out w' = w_out w1 \<and> sd_state (st_send s') = sd_state (st_send s1)"
proof -
  obtain s2 w2 where 2: "(if rv_totalBytes (st_recv s1) - rv_totalBytes (st_recv s) > 0
      then stamp tm_lastProgress_update s1 w1 else (s1, w1)) = (s2, w2)" by fastforce
  then have r2: "reported s1 w1 s2 w2" by (auto split: if_splits intro: stamp_reported)
  have "recv_stages env s w = Some (s1, w1)"
    using assms(1,3,4) by (simp add: recv_stages_def recv_stage_def)
  with 2 have rd: "onReadable env s w = Some (s2, w2)" by (simp add: onReadable_def)
  have err: "st_error s2 \<noteq> ERR_NONE" using r2 assms(5) by (simp add: reported_def)
  then have want: "computeWantedEvents s2 = ({EV_DONE}, s2)"
    by (simp add: computeWantedEvents_def recvDone0_def sendDone_def model_recvDone_def)
  from assms(6) rd want obtain act s3 w3 where l: "stream_log (se_ml env) act s2 w2 = Some (s3, w3)"
    and res: "r = \<lparr>ir_events = {EV_DONE}, ir_deferUntilUSec = 0\<rparr>" "(s', w') = callNotifyComplete s3 w3"
    by (auto simp: runStreamEventLoop_def runIO_def split: Option.bind_split_asm prod.splits)
  from stream_log_reported [OF l] r2 res show ?thesis
    by (auto simp: callNotifyComplete_def reported_def split: if_splits)
qed


end
