(* ===== verification/MarkovProps.thy ===== *)
theory MarkovProps
  imports Markov
begin

text \<open>
  What \<open>tgen-markovmodel.c\<close> guarantees: which edge is chosen, that a validated model does not abort
  while it runs, the bound on delays, and the end of an observation sequence. \<open>graph_laws\<close> states the
  documented behaviour of the igraph iterators the code relies on.
\<close>

definition graph_laws :: "igraph \<Rightarrow> bool" where
  "graph_laws g \<longleftrightarrow>
     (\<exists>vs es. ig_vertices g = Some vs \<and> ig_edges g = Some es \<and>
        (\<forall>e \<in> set es. \<forall>a b. ig_edge g e = Some (a, b) \<longrightarrow> a \<in> set vs \<and> b \<in> set vs) \<and>
        (\<forall>v \<in> set vs. \<exists>out. ig_incident g v = Some out \<and>
           (\<forall>e \<in> set out. e \<in> set es \<and> (\<exists>b. ig_edge g e = Some (v, b)))))"

definition has_type :: "igraph \<Rightarrow> edge_type \<Rightarrow> nat \<Rightarrow> bool" where
  "has_type g type e \<longleftrightarrow>
     (case findEdgeAttributeString g e EDGE_ATTR_TYPE of Some s \<Rightarrow> edgeTypeIsEqual s type | None \<Rightarrow> False)"

definition edge_ok :: "igraph \<Rightarrow> nat \<Rightarrow> bool" where
  "edge_ok g e \<longleftrightarrow> findEdgeAttributeString g e EDGE_ATTR_TYPE \<noteq> None \<and>
     (\<exists>w. findEdgeAttributeDouble g e EDGE_ATTR_WEIGHT = Some w \<and> fp_le (Fin 0) w)"

lemma has_type_iff:
  "has_type g type e \<longleftrightarrow> (\<exists>s. findEdgeAttributeString g e EDGE_ATTR_TYPE = Some s \<and> edgeTypeIsEqual s type)"
  by (auto simp: has_type_def split: option.splits)

text \<open>What a validated edge looks like.\<close>

lemma checkEdgeE:
  assumes "checkEdgeAttributes g e"
  obtains a b fromStr toStr w s where "ig_edge g e = Some (a, b)"
    "findVertexAttributeString g a VERTEX_ATTR_ID = Some fromStr"
    "findVertexAttributeString g b VERTEX_ATTR_ID = Some toStr"
    "findEdgeAttributeDouble g e EDGE_ATTR_WEIGHT = Some w" "fp_le (Fin 0) w"
    "findEdgeAttributeString g e EDGE_ATTR_TYPE = Some s"
    "edgeTypeIsEqual s EDGE_TYPE_TRANSITION \<and> \<not> vertexIDIsEmission toStr \<or>
     edgeTypeIsEqual s EDGE_TYPE_EMISSION \<and> \<not> edgeTypeIsEqual s EDGE_TYPE_TRANSITION \<and>
       vertexIDIsEmission toStr \<and> checkDistribution g e"
proof -
  from assms obtain a b where ab: "ig_edge g e = Some (a, b)"
    by (auto simp: checkEdgeAttributes_def split: option.splits)
  with assms obtain fs ts where fs: "findVertexAttributeString g a VERTEX_ATTR_ID = Some fs"
      "findVertexAttributeString g b VERTEX_ATTR_ID = Some ts"
    by (auto simp: checkEdgeAttributes_def split: option.splits)
  obtain w where w: "findEdgeAttributeDouble g e EDGE_ATTR_WEIGHT = Some w" "fp_le (Fin 0) w"
    using assms ab fs by (cases "findEdgeAttributeDouble g e EDGE_ATTR_WEIGHT")
      (auto simp: checkEdgeAttributes_def Let_def split: if_splits)
  obtain s where s: "findEdgeAttributeString g e EDGE_ATTR_TYPE = Some s"
    using assms ab fs by (cases "findEdgeAttributeString g e EDGE_ATTR_TYPE")
      (auto simp: checkEdgeAttributes_def Let_def split: if_splits)
  show thesis
    using assms ab fs w s by (intro that [OF ab fs w s])
      (auto simp: checkEdgeAttributes_def Let_def split: if_splits)
qed

lemma check_edge_ok: "checkEdgeAttributes g e \<Longrightarrow> edge_ok g e"
  by (erule checkEdgeE) (auto simp: edge_ok_def)

section \<open>Choosing an edge\<close>

lemma total_weight_Some:
  assumes "fp_laws ml"
  shows "list_all (edge_ok g) es \<Longrightarrow> fp_le (Fin 0) c \<Longrightarrow>
    \<exists>t. total_weight ml g type es c = Some t \<and> fp_le (Fin 0) t"
proof (induction es arbitrary: c)
  case (Cons e es)
  then show ?case
    using fp_add_nonneg [OF assms] by (auto simp: edge_ok_def)
qed simp

lemma pick_edge_Some:
  "list_all (edge_ok g) es \<Longrightarrow> \<exists>r. pick_edge ml g type x es c = Some r"
  by (induction es arbitrary: c) (auto simp: edge_ok_def Let_def)

lemma pick_edge_sound:
  "pick_edge ml g type x es c = Some (Some e) \<Longrightarrow> e \<in> set es \<and> has_type g type e"
  by (induction es arbitrary: c) (auto simp: has_type_iff Let_def split: option.splits if_splits)

lemma total_weight_untyped:
  "\<not> list_ex (has_type g type) es \<Longrightarrow> total_weight ml g type es c = Some t \<Longrightarrow> t = c"
  by (induction es arbitrary: c) (auto simp: has_type_iff split: option.splits if_splits)

text \<open>The two loops add the weights in the same order, so the sum is reached exactly.\<close>

lemma pick_edge_complete:
  "total_weight ml g type es c = Some t \<Longrightarrow> list_ex (has_type g type) es \<Longrightarrow> fp_le x t \<Longrightarrow>
     \<exists>e. pick_edge ml g type x es c = Some (Some e)"
proof (induction es arbitrary: c)
  case (Cons e es)
  show ?case
  proof (cases "has_type g type e")
    case True
    with Cons.prems(1) obtain s w where s: "findEdgeAttributeString g e EDGE_ATTR_TYPE = Some s"
        "edgeTypeIsEqual s type" "findEdgeAttributeDouble g e EDGE_ATTR_WEIGHT = Some w"
        "total_weight ml g type es (fp_add ml c w) = Some t"
      by (auto simp: has_type_def split: option.splits)
    show ?thesis
    proof (cases "list_ex (has_type g type) es")
      case True
      with Cons.IH [OF s(4)] Cons.prems(3) s show ?thesis by (auto simp: Let_def)
    next
      case False
      then have "t = fp_add ml c w" using total_weight_untyped s(4) by blast
      with Cons.prems(3) s show ?thesis by (simp add: Let_def)
    qed
  next
    case False
    with Cons show ?thesis by (auto simp: has_type_def split: option.splits)
  qed
qed simp

lemma pick_edge_untyped:
  "\<not> list_ex (has_type g type) es \<Longrightarrow> list_all (edge_ok g) es \<Longrightarrow> pick_edge ml g type x es c = Some None"
  by (induction es arbitrary: c) (auto simp: has_type_def edge_ok_def)

text \<open>
  A model is well formed when its graph has passed the validation and its current and start vertices
  are vertices of the graph; \<open>mmodel_new\<close> gives only well-formed models.
\<close>

definition mm_wf :: "mmodel \<Rightarrow> bool" where
  "mm_wf mm \<longleftrightarrow> (let g = mm_graph mm in
     fst (validateVertices g) \<and> validateEdges g \<and>
     mm_startVertexIndex mm \<in> set (the (ig_vertices g)) \<and>
     mm_currentStateVertexIndex mm \<in> set (the (ig_vertices g)))"

lemma validateVertices_loop_start:
  "validateVertices_loop g vs start = (ok, Some v) \<Longrightarrow> start = Some v \<or> v \<in> set vs"
  by (induction vs arbitrary: start) (auto split: if_splits option.splits)

lemma validateVertices_all:
  "validateVertices_loop g vs start = (True, s) \<Longrightarrow> v \<in> set vs \<Longrightarrow> checkVertexAttributes g v"
  by (induction vs arbitrary: start) (auto split: if_splits option.splits)

lemma new_wf: "mmodel_new g name seed = Some mm \<Longrightarrow> mm_wf mm"
proof -
  assume n: "mmodel_new g name seed = Some mm"
  obtain ok start where vv: "validateVertices g = (ok, start)" by (cases "validateVertices g")
  with n have ok: "ok" "validateEdges g" by (auto simp: mmodel_new_def Let_def split: if_splits)
  obtain vs s where vs: "ig_vertices g = Some vs" "start = Some s"
      "validateVertices_loop g vs None = (True, Some s)"
    using vv ok(1) by (auto simp: validateVertices_def split: option.splits prod.splits)
  have "s \<in> set vs" using validateVertices_loop_start [OF vs(3)] by simp
  with n vv ok vs show "mm_wf mm"
    by (auto simp: mmodel_new_def mm_wf_def Let_def)
qed

lemma wf_vertex: "mm_wf mm \<Longrightarrow> ig_vertices (mm_graph mm) = Some vs \<Longrightarrow> v \<in> set vs \<Longrightarrow>
  checkVertexAttributes (mm_graph mm) v"
  by (auto simp: mm_wf_def validateVertices_def Let_def split: option.splits prod.splits
      dest: validateVertices_all)

lemma wf_edge: "mm_wf mm \<Longrightarrow> ig_edges (mm_graph mm) = Some es \<Longrightarrow> e \<in> set es \<Longrightarrow>
  checkEdgeAttributes (mm_graph mm) e"
  by (auto simp: mm_wf_def validateEdges_def list_all_iff Let_def split: option.splits)

text \<open>The outgoing edges of a vertex, as the code iterates over them.\<close>

definition out_edges :: "igraph \<Rightarrow> nat \<Rightarrow> nat list" where
  "out_edges g v = (case ig_incident g v of Some es \<Rightarrow> es | None \<Rightarrow> [])"

lemma wf_out:
  assumes "mm_wf mm" "graph_laws (mm_graph mm)" "v \<in> set (the (ig_vertices (mm_graph mm)))"
  shows "ig_incident (mm_graph mm) v = Some (out_edges (mm_graph mm) v)"
    and "e \<in> set (out_edges (mm_graph mm) v) \<Longrightarrow> checkEdgeAttributes (mm_graph mm) e \<and>
      (\<exists>b. ig_edge (mm_graph mm) e = Some (v, b) \<and> b \<in> set (the (ig_vertices (mm_graph mm))))"
proof -
  from assms(2) obtain vs es where g: "ig_vertices (mm_graph mm) = Some vs" "ig_edges (mm_graph mm) = Some es"
      "\<And>e a b. e \<in> set es \<Longrightarrow> ig_edge (mm_graph mm) e = Some (a, b) \<Longrightarrow> a \<in> set vs \<and> b \<in> set vs"
      "\<And>v. v \<in> set vs \<Longrightarrow> \<exists>out. ig_incident (mm_graph mm) v = Some out \<and>
           (\<forall>e \<in> set out. e \<in> set es \<and> (\<exists>b. ig_edge (mm_graph mm) e = Some (v, b)))"
    unfolding graph_laws_def by blast
  from assms(3) g(1) have "v \<in> set vs" by simp
  from g(4) [OF this] obtain out where out: "ig_incident (mm_graph mm) v = Some out"
      "\<forall>e \<in> set out. e \<in> set es \<and> (\<exists>b. ig_edge (mm_graph mm) e = Some (v, b))"
    by blast
  then show "ig_incident (mm_graph mm) v = Some (out_edges (mm_graph mm) v)"
    by (simp add: out_edges_def)
  assume "e \<in> set (out_edges (mm_graph mm) v)"
  with out have e: "e \<in> set es" "\<exists>b. ig_edge (mm_graph mm) e = Some (v, b)"
    by (auto simp: out_edges_def)
  with wf_edge [OF assms(1) g(2) e(1)] g(1,3) show "checkEdgeAttributes (mm_graph mm) e \<and>
      (\<exists>b. ig_edge (mm_graph mm) e = Some (v, b) \<and> b \<in> set (the (ig_vertices (mm_graph mm))))"
    by fastforce
qed

lemma chooseEdge_wf:
  assumes wf: "mm_wf mm" and gl: "graph_laws (mm_graph mm)" and ml: "fp_laws ml"
    and v: "v \<in> set (the (ig_vertices (mm_graph mm)))"
  obtains t c where "total_weight ml (mm_graph mm) type (out_edges (mm_graph mm) v) (Fin 0) = Some t"
    "fp_le (Fin 0) t"
    "pick_edge ml (mm_graph mm) type (ml_rand ml (mm_prngSeed mm) (mm_calls mm) (Fin 0) t)
       (out_edges (mm_graph mm) v) (Fin 0) = Some c"
    "chooseEdge ml type v mm =
       Some (map_option (\<lambda>e. (e, snd (the (ig_edge (mm_graph mm) e)))) c, mm\<lparr>mm_calls := mm_calls mm + 1\<rparr>)"
proof -
  let ?g = "mm_graph mm" and ?es = "out_edges (mm_graph mm) v"
  have ok: "list_all (edge_ok ?g) ?es"
    using wf_out(2) [OF wf gl v] check_edge_ok by (auto simp: list_all_iff)
  obtain t where t: "total_weight ml ?g type ?es (Fin 0) = Some t" "fp_le (Fin 0) t"
    using total_weight_Some [OF ml ok, of "Fin 0" type] by auto
  obtain c where c: "pick_edge ml ?g type (ml_rand ml (mm_prngSeed mm) (mm_calls mm) (Fin 0) t) ?es (Fin 0) = Some c"
    using pick_edge_Some [OF ok] by blast
  have ends: "\<exists>b. ig_edge ?g e = Some (v, b)" if "c = Some e" for e
    using pick_edge_sound [OF c [unfolded that]] wf_out(2) [OF wf gl v] by blast
  have "chooseEdge ml type v mm =
      Some (map_option (\<lambda>e. (e, snd (the (ig_edge ?g e)))) c, mm\<lparr>mm_calls := mm_calls mm + 1\<rparr>)"
    using ends by (cases c) (auto simp: chooseEdge_def wf_out(1) [OF wf gl v] t c Let_def)
  with t c show thesis by (rule that)
qed

section \<open>Values and delays\<close>

lemma getUniform_from_Some:
  assumes "rand_laws ml"
  shows "\<exists>u n'. getUniform_from ml seed n = Some (u, n') \<and> \<not> fp_le u DBL_MIN"
proof -
  have "\<not> fp_le (ml_rand ml seed (n + k) (Fin 0) (Fin 1)) DBL_MIN \<Longrightarrow>
      \<exists>u n'. getUniform_from ml seed n = Some (u, n') \<and> \<not> fp_le u DBL_MIN" for k
  proof (induction k arbitrary: n)
    case 0
    then show ?case by (subst getUniform_from.simps) (simp add: Let_def)
  next
    case (Suc k)
    then show ?case
      using Suc.IH [of "Suc n"] by (subst getUniform_from.simps) (auto simp: Let_def)
  qed
  moreover obtain m where "m \<ge> n" "\<not> fp_le (ml_rand ml seed m (Fin 0) (Fin 1)) DBL_MIN"
    using assms unfolding rand_laws_def by blast
  ultimately show ?thesis by (metis le_add_diff_inverse)
qed

lemma getUniform_Some:
  assumes "rand_laws ml"
  obtains u n where "getUniform ml mm = Some (u, mm\<lparr>mm_calls := n\<rparr>)" "\<not> fp_le u DBL_MIN"
  using getUniform_from_Some [OF assms, of "mm_prngSeed mm" "mm_calls mm"]
  by (auto simp: getUniform_def)

text \<open>A generator result: only the random state moves, and the value is a double.\<close>

definition draws :: "mathlib \<Rightarrow> mmodel \<Rightarrow> (gdouble \<times> mmodel) option \<Rightarrow> bool" where
  "draws ml mm r \<longleftrightarrow> (\<exists>v n. r = Some (v, mm\<lparr>mm_calls := n\<rparr>) \<and> is_double ml v)"

lemma uniform_map_draws:
  assumes "rand_laws ml" "\<And>u. is_double ml (f u)"
  shows "draws ml mm (do { (u, mm1) \<leftarrow> getUniform ml mm; Some (f u, mm1) })"
proof -
  obtain u n where "getUniform ml mm = Some (u, mm\<lparr>mm_calls := n\<rparr>)"
    using getUniform_Some [OF assms(1), of mm] by blast
  then show ?thesis using assms(2) by (auto simp: draws_def)
qed

lemma generators_draw:
  assumes r: "rand_laws ml" and f: "fp_laws ml"
  shows "draws ml mm (generateNormalValue ml a b mm)"
    and "draws ml mm (generateLogNormalValue ml a b mm)"
    and "draws ml mm (generateExponentialValue ml a mm)"
    and "draws ml mm (generateParetoValue ml a b mm)"
    and "draws ml mm (generateUniformValue ml a b mm)"
proof -
  obtain u n where u: "getUniform ml mm = Some (u, mm\<lparr>mm_calls := n\<rparr>)"
    using getUniform_Some [OF r, of mm] by blast
  obtain v k where v: "getUniform ml (mm\<lparr>mm_calls := n\<rparr>) = Some (v, mm\<lparr>mm_calls := n\<rparr>\<lparr>mm_calls := k\<rparr>)"
    using getUniform_Some [OF r, of "mm\<lparr>mm_calls := n\<rparr>"] by blast
  have e: "is_double ml (ml_exp ml x)" for x using f by (simp add: fp_laws_def)
  show "draws ml mm (generateNormalValue ml a b mm)"
    by (auto simp: draws_def generateNormalValue_def generateNormalVariate_def u v fp_add_double [OF f])
  show "draws ml mm (generateLogNormalValue ml a b mm)"
    by (auto simp: draws_def generateLogNormalValue_def generateNormalValue_def generateNormalVariate_def u v e)
  show "draws ml mm (generateExponentialValue ml a mm)"
    unfolding generateExponentialValue_def by (rule uniform_map_draws [OF r]) (rule fp_div_double [OF f])
  show "draws ml mm (generateParetoValue ml a b mm)"
    unfolding generateParetoValue_def by (rule uniform_map_draws [OF r]) (rule fp_div_double [OF f])
  show "draws ml mm (generateUniformValue ml a b mm)"
    unfolding generateUniformValue_def by (rule uniform_map_draws [OF r]) (rule fp_add_double [OF f])
qed

lemma edgeType_exclusive:
  "edgeTypeIsEqual s EDGE_TYPE_TRANSITION \<Longrightarrow> \<not> edgeTypeIsEqual s EDGE_TYPE_EMISSION"
  by (cases s) (auto simp: edgeTypeIsEqual_def is_equal_def strncaseeq_def ascii_tolower_def)

lemma paramExists_param:
  "paramExists (mm_graph mm) e attr = Some v \<Longrightarrow> ok v \<Longrightarrow> param mm e attr ok = Some v"
  by (auto simp: paramExists_def param_def split: if_splits)

text \<open>Everything the generator asserts has been validated.\<close>

lemma generateValue_draws:
  assumes r: "rand_laws ml" and f: "fp_laws ml"
    and d: "checkDistribution (mm_graph mm) e" and ty: "has_type (mm_graph mm) EDGE_TYPE_EMISSION e"
  shows "draws ml mm (generateValue ml e mm)"
proof -
  from d obtain s where s: "findEdgeAttributeString (mm_graph mm) e EDGE_ATTR_DISTRIBUTION = Some s"
    by (auto simp: checkDistribution_def split: if_splits option.splits)
  have gen: "draws ml mm
     (if edgeDistIsEqual s DIST_NORMAL then
          do { location \<leftarrow> param mm e EDGE_ATTR_PARAM_LOCATION (fp_le (Fin 0));
               scale \<leftarrow> param mm e EDGE_ATTR_PARAM_SCALE (fp_le (Fin 0));
               generateNormalValue ml location scale mm }
        else if edgeDistIsEqual s DIST_LOGNORMAL then
          do { location \<leftarrow> param mm e EDGE_ATTR_PARAM_LOCATION (fp_le (Fin 0));
               scale \<leftarrow> param mm e EDGE_ATTR_PARAM_SCALE (fp_le (Fin 0));
               generateLogNormalValue ml location scale mm }
        else if edgeDistIsEqual s DIST_EXPONENTIAL then
          do { rate \<leftarrow> param mm e EDGE_ATTR_PARAM_RATE (fp_lt (Fin 0));
               generateExponentialValue ml rate mm }
        else if edgeDistIsEqual s DIST_PARETO then
          do { scale \<leftarrow> param mm e EDGE_ATTR_PARAM_SCALE (fp_le (Fin 0));
               shape \<leftarrow> param mm e EDGE_ATTR_PARAM_SHAPE (fp_lt (Fin 0));
               generateParetoValue ml scale shape mm }
        else if edgeDistIsEqual s DIST_UNIFORM then
          do { low \<leftarrow> param mm e EDGE_ATTR_PARAM_LOW (fp_lt NInf);
               high \<leftarrow> param mm e EDGE_ATTR_PARAM_HIGH (\<lambda>h. fp_lt h PInf);
               g_assert (fp_le low high);
               generateUniformValue ml low high mm }
        else None)"
    using d s generators_draw [OF r f]
    by (auto simp: checkDistribution_def checkEdgeAttributeLocation_def checkEdgeAttributeScale_def
        checkEdgeAttributeRate_def checkEdgeAttributeShape_def checkEdgeAttributesUniform_def
        paramNonNegative_def paramPositive_def paramInfinity_def paramExists_param
        split: if_splits option.splits)
  with s ty show ?thesis by (auto simp: generateValue_def has_type_iff)
qed

lemma delay_of_double_Some:
  assumes f: "fp_laws ml" and d: "is_double ml v" and nn: "v \<noteq> NaN"
  shows "\<exists>u. delay_of_double ml v = Some u"
proof (cases v)
  case (Fin a)
  let ?z = "round_half_away a"
  have rd: "ml_rnd ml (of_int ?z) = Fin (of_int ?z)"
    using f d Fin by (auto simp: fp_laws_def fp_round_def is_double_def)
  show ?thesis
  proof (cases "0 \<le> ?z \<and> ?z < 2 ^ 64")
    case True
    then have "uint (of_int ?z :: u64) = ?z" by (simp add: take_bit_int_eq_self uint_word_of_int)
    with True rd Fin show ?thesis
      by (simp add: delay_of_double_def fp_round_def fp_lt_def Let_def del: of_int_uint)
  next
    case False
    have "(2 ^ 64 \<le> (of_int ?z :: rat)) \<longleftrightarrow> 2 ^ 64 \<le> ?z"
      by (metis of_int_le_iff of_int_numeral of_int_power)
    with False Fin show ?thesis
      by (auto simp: delay_of_double_def fp_round_def fp_lt_def Let_def not_le not_less)
  qed
qed (use nn in \<open>auto simp: delay_of_double_def fp_round_def fp_lt_def\<close>)

section \<open>Running a validated model\<close>

text \<open>
  The validation accepts a vertex called \<open>+\<close>, \<open>-\<close> or \<open>F\<dots>\<close> whose type is \<open>state\<close>; running the model then
  asserts that its type is \<open>observation\<close>. \<open>obs_typed\<close> is what is missing.
\<close>

definition obs_typed :: "igraph \<Rightarrow> bool" where
  "obs_typed g \<longleftrightarrow>
     (\<forall>v s. findVertexAttributeString g v VERTEX_ATTR_ID = Some s \<longrightarrow> vertexIDIsEmission s \<longrightarrow>
        (\<exists>t. findVertexAttributeString g v VERTEX_ATTR_TYPE = Some t \<and>
             vertexTypeIsEqual t VERTEX_TYPE_OBSERVATION))"

definition never_nan :: "mathlib \<Rightarrow> igraph \<Rightarrow> bool" where
  "never_nan ml g \<longleftrightarrow>
     (\<forall>e mm v mm'. mm_graph mm = g \<longrightarrow> generateValue ml e mm = Some (v, mm') \<longrightarrow> v \<noteq> NaN)"

lemma never_nanD:
  "never_nan ml g \<Longrightarrow> mm_graph mm = g \<Longrightarrow> generateValue ml e mm = Some (v, mm') \<Longrightarrow> v \<noteq> NaN"
  unfolding never_nan_def by blast

lemma mm_wf_frame [simp]:
  "mm_wf (mm\<lparr>mm_calls := n\<rparr>) = mm_wf mm"
  "mm_wf (mm\<lparr>mm_foundEndState := b\<rparr>) = mm_wf mm"
  by (simp_all add: mm_wf_def)

lemma emission_edge:
  assumes "checkEdgeAttributes g e" "has_type g EDGE_TYPE_EMISSION e" "ig_edge g e = Some (a, b)"
  shows "checkDistribution g e"
    and "\<exists>s. findVertexAttributeString g b VERTEX_ATTR_ID = Some s \<and> vertexIDIsEmission s"
  using assms by (auto elim!: checkEdgeE simp: has_type_iff dest: edgeType_exclusive)

lemma vertexToObservation_Some:
  assumes "obs_typed (mm_graph mm)" "findVertexAttributeString (mm_graph mm) v VERTEX_ATTR_ID = Some s"
    "vertexIDIsEmission s"
  obtains obs b where "vertexToObservation v mm = Some (obs, mm\<lparr>mm_foundEndState := b\<rparr>)"
proof -
  from assms obtain t where t: "findVertexAttributeString (mm_graph mm) v VERTEX_ATTR_TYPE = Some t"
      "vertexTypeIsEqual t VERTEX_TYPE_OBSERVATION"
    unfolding obs_typed_def by blast
  have same: "mm\<lparr>mm_foundEndState := mm_foundEndState mm\<rparr> = mm" by simp
  let ?o = "if vertexIDIsEqual s VERTEX_ID_TO_ORIGIN then OBSERVATION_TO_ORIGIN
     else if vertexIDIsEqual s VERTEX_ID_TO_SERVER then OBSERVATION_TO_SERVER else OBSERVATION_END"
  have "vertexToObservation v mm = Some (?o, mm\<lparr>mm_foundEndState :=
      (?o = OBSERVATION_END \<or> mm_foundEndState mm)\<rparr>)"
    by (simp add: vertexToObservation_def t assms(2) same)
  then show thesis by (rule that)
qed

text \<open>A run can reach only well-formed models with the same graph.\<close>

lemma getNext_wf:
  assumes wf: "mm_wf mm" and gl: "graph_laws (mm_graph mm)" and ot: "obs_typed (mm_graph mm)"
    and f: "fp_laws ml" and r: "rand_laws ml" and nn: "never_nan ml (mm_graph mm)"
  shows "\<exists>obs d mm'. tgenmarkovmodel_getNextObservation ml mm = Some (obs, d, mm') \<and> mm_wf mm' \<and>
    mm_graph mm' = mm_graph mm"
proof (cases "mm_foundEndState mm")
  case True
  with wf show ?thesis by (simp add: tgenmarkovmodel_getNextObservation_def)
next
  case False
  let ?g = "mm_graph mm" and ?v = "mm_currentStateVertexIndex mm"
  have v: "?v \<in> set (the (ig_vertices ?g))" using wf by (simp add: mm_wf_def Let_def)
  obtain t c where c: "pick_edge ml ?g EDGE_TYPE_TRANSITION (ml_rand ml (mm_prngSeed mm) (mm_calls mm) (Fin 0) t)
       (out_edges ?g ?v) (Fin 0) = Some c"
    and ch: "chooseEdge ml EDGE_TYPE_TRANSITION ?v mm =
       Some (map_option (\<lambda>e. (e, snd (the (ig_edge ?g e)))) c, mm\<lparr>mm_calls := mm_calls mm + 1\<rparr>)"
    by (rule chooseEdge_wf [OF wf gl f v, of EDGE_TYPE_TRANSITION])
  show ?thesis
  proof (cases c)
    case None
    with ch False wf show ?thesis
      by (simp add: tgenmarkovmodel_getNextObservation_def chooseTransition_def)
  next
    case (Some e)
    obtain b where b: "ig_edge ?g e = Some (?v, b)" "b \<in> set (the (ig_vertices ?g))"
      using wf_out(2) [OF wf gl v] pick_edge_sound [OF c [unfolded Some]] by blast
    let ?mm2 = "mm\<lparr>mm_calls := mm_calls mm + 1, mm_currentStateVertexIndex := b\<rparr>"
    have wf2: "mm_wf ?mm2" using wf b(2) by (simp add: mm_wf_def Let_def)
    have wf2': "mm_wf (mm\<lparr>mm_currentStateVertexIndex := b\<rparr>)" using wf b(2) by (simp add: mm_wf_def Let_def)
    have gl2: "graph_laws (mm_graph ?mm2)" and b2: "b \<in> set (the (ig_vertices (mm_graph ?mm2)))"
      using gl b(2) by simp_all
    obtain t2 c2 where c2: "pick_edge ml (mm_graph ?mm2) EDGE_TYPE_EMISSION
        (ml_rand ml (mm_prngSeed ?mm2) (mm_calls ?mm2) (Fin 0) t2) (out_edges (mm_graph ?mm2) b) (Fin 0) = Some c2"
      and ch2: "chooseEdge ml EDGE_TYPE_EMISSION b ?mm2 =
       Some (map_option (\<lambda>e. (e, snd (the (ig_edge (mm_graph ?mm2) e)))) c2,
         ?mm2\<lparr>mm_calls := mm_calls ?mm2 + 1\<rparr>)"
      by (rule chooseEdge_wf [OF wf2 gl2 f b2, of EDGE_TYPE_EMISSION])
    let ?mm3 = "?mm2\<lparr>mm_calls := mm_calls ?mm2 + 1\<rparr>"
    have tr: "chooseTransition ml ?v mm = Some (Some (e, b), mm\<lparr>mm_calls := mm_calls mm + 1\<rparr>)"
      using ch Some b(1) by (simp add: chooseTransition_def)
    show ?thesis
    proof (cases c2)
      case None
      with tr ch2 False wf2' show ?thesis
        by (simp add: tgenmarkovmodel_getNextObservation_def chooseEmission_def Let_def)
    next
      case (Some e2)
      have ty: "has_type ?g EDGE_TYPE_EMISSION e2" and e2: "e2 \<in> set (out_edges (mm_graph ?mm2) b)"
        using pick_edge_sound [OF c2 [unfolded Some]] by simp_all
      obtain z where z: "ig_edge ?g e2 = Some (b, z)" and chk: "checkEdgeAttributes ?g e2"
        using wf_out(2) [OF wf2 gl2 b2 e2] by auto
      note em = emission_edge [OF chk ty z]
      obtain s where s: "findVertexAttributeString (mm_graph ?mm3) z VERTEX_ATTR_ID = Some s" "vertexIDIsEmission s"
        using em(2) by auto
      obtain obs fe where vo: "vertexToObservation z ?mm3 = Some (obs, ?mm3\<lparr>mm_foundEndState := fe\<rparr>)"
        using vertexToObservation_Some [OF _ s] ot by auto
      let ?mm4 = "?mm3\<lparr>mm_foundEndState := fe\<rparr>"
      have "draws ml ?mm4 (generateValue ml e2 ?mm4)"
        using em(1) ty by (intro generateValue_draws [OF r f]) simp_all
      then obtain x n where gv: "generateValue ml e2 ?mm4 = Some (x, ?mm4\<lparr>mm_calls := n\<rparr>)" "is_double ml x"
        by (auto simp: draws_def)
      have "x \<noteq> NaN" by (rule never_nanD [OF nn _ gv(1)]) simp
      then obtain d where "delay_of_double ml x = Some d"
        using delay_of_double_Some [OF f gv(2)] by blast
      with gv have gd: "generateDelay ml e2 ?mm4 = Some (d, ?mm4\<lparr>mm_calls := n\<rparr>)"
        by (simp add: generateDelay_def)
      have "chooseEmission ml b ?mm2 = Some (Some (e2, z), ?mm3)"
        using ch2 Some z by (simp add: chooseEmission_def)
      with tr vo gd False wf2' show ?thesis
        by (simp add: tgenmarkovmodel_getNextObservation_def Let_def)
    qed
  qed
qed

text \<open>What the owner of a model can do with it after it was created.\<close>

inductive mm_reach :: "mathlib \<Rightarrow> mmodel \<Rightarrow> mmodel \<Rightarrow> bool" for ml :: mathlib and mm0 :: mmodel where
  mm_start: "mm_reach ml mm0 mm0"
| mm_next: "mm_reach ml mm0 mm \<Longrightarrow> tgenmarkovmodel_getNextObservation ml mm = Some (obs, d, mm') \<Longrightarrow>
    mm_reach ml mm0 mm'"
| mm_reset: "mm_reach ml mm0 mm \<Longrightarrow> mm_reach ml mm0 (tgenmarkovmodel_reset mm)"

lemma reset_wf: "mm_wf mm \<Longrightarrow> mm_wf (tgenmarkovmodel_reset mm)"
  by (simp add: tgenmarkovmodel_reset_def mm_wf_def Let_def)

lemma reach_wf:
  assumes "mm_reach ml mm0 mm" "mm_wf mm0" "graph_laws (mm_graph mm0)" "obs_typed (mm_graph mm0)"
    "fp_laws ml" "rand_laws ml" "never_nan ml (mm_graph mm0)"
  shows "mm_wf mm \<and> mm_graph mm = mm_graph mm0"
  using assms
proof (induction rule: mm_reach.induct)
  case (mm_next mm obs d mm')
  then have "mm_wf mm" "mm_graph mm = mm_graph mm0" by simp_all
  with mm_next getNext_wf [of mm ml] show ?case by auto
next
  case (mm_reset mm)
  then show ?case using reset_wf by (simp add: tgenmarkovmodel_reset_def)
qed simp

section \<open>A small model for the witnesses\<close>

text \<open>\<open>start \<rightarrow> s\<close>, \<open>s \<rightarrow> s\<close>, and the emission \<open>s \<rightarrow> +\<close>; \<open>ty\<close> is the declared type of the vertex \<open>+\<close>.\<close>

definition demo_graph :: "string \<Rightarrow> igraph" where
  "demo_graph ty =
     \<lparr>ig_gettype = False, ig_vtype = (\<lambda>_. None), ig_etype = (\<lambda>_. None),
      ig_has_vattr = (\<lambda>_. True), ig_has_eattr = (\<lambda>_. True),
      ig_VAS = (\<lambda>name v. Some (if name = ''name'' then (if v = 0 then ''start'' else if v = 1 then ''s'' else ''+'')
                          else (if v < 2 then ''state'' else ty))),
      ig_EAS = (\<lambda>name e. Some (if name = ''type'' then (if e < 2 then ''transition'' else ''emission'')
                          else ''exponential'')),
      ig_EAN = (\<lambda>name e. Fin 1),
      ig_vertices = Some [0, 1, 2], ig_edges = Some [0, 1, 2],
      ig_edge = (\<lambda>e. if e = 0 then Some (0, 1) else if e = 1 then Some (1, 1)
                      else if e = 2 then Some (1, 2) else None),
      ig_incident = (\<lambda>v. Some (if v = 0 then [0] else if v = 1 then [1, 2] else []))\<rparr>"

definition demo_model :: "string \<Rightarrow> mmodel" where
  "demo_model ty = \<lparr>mm_refcount = 1, mm_prngSeed = 7, mm_calls = 0, mm_name = ''demo'', mm_path = None,
     mm_graph = demo_graph ty, mm_startVertexIndex = 0, mm_currentStateVertexIndex = 0,
     mm_foundEndState = False\<rparr>"

text \<open>Exact arithmetic and the middle of every range.\<close>

definition demo_math :: mathlib where
  "demo_math = \<lparr>ml_rnd = Fin, ml_log = (\<lambda>_. Fin (- 3)), ml_exp = (\<lambda>_. Fin 1), ml_sqrt = (\<lambda>x. x),
     ml_cos = (\<lambda>x. x), ml_pow = (\<lambda>x y. Fin 1),
     ml_rand = (\<lambda>seed n a b. case b of Fin e \<Rightarrow> Fin (e / 2) | _ \<Rightarrow> Fin 0)\<rparr>"

lemma demo_math_laws: "fp_laws demo_math" "rand_laws demo_math"
proof -
  show "fp_laws demo_math"
    by (auto simp: fp_laws_def is_double_def fp_round_def demo_math_def)
  have "\<exists>a. ml_rand demo_math seed n (Fin 0) (Fin e) = Fin a \<and> 0 \<le> a \<and> a \<le> e" if "0 \<le> e" for seed n e
    using that by (intro exI [of _ "e / 2"]) (simp add: demo_math_def)
  moreover have "\<not> fp_le (ml_rand demo_math seed n (Fin 0) (Fin 1)) DBL_MIN" for seed n
    by (simp add: demo_math_def DBL_MIN_def)
  ultimately show "rand_laws demo_math" unfolding rand_laws_def by blast
qed

lemma demo_graph_sel [simp]:
  "findVertexAttributeString (demo_graph ty) v VERTEX_ATTR_ID =
     Some (if v = 0 then ''start'' else if v = 1 then ''s'' else ''+'')"
  "findVertexAttributeString (demo_graph ty) v VERTEX_ATTR_TYPE =
     (if v < 2 then Some ''state'' else if ty = [] then None else Some ty)"
  "findEdgeAttributeString (demo_graph ty) e EDGE_ATTR_TYPE = Some (if e < 2 then ''transition'' else ''emission'')"
  "findEdgeAttributeString (demo_graph ty) e EDGE_ATTR_DISTRIBUTION = Some ''exponential''"
  "findEdgeAttributeDouble (demo_graph ty) e attr = Some (Fin 1)"
  by (simp_all add: findVertexAttributeString_def findEdgeAttributeString_def findEdgeAttributeDouble_def
      attributeTypeMismatch_def demo_graph_def)

lemma names_eval [simp]:
  "vertexIDIsEqual ''start'' VERTEX_ID_START" "\<not> vertexIDIsEqual ''s'' VERTEX_ID_START"
  "\<not> vertexIDIsEqual ''+'' VERTEX_ID_START" "vertexIDIsEmission ''+''" "\<not> vertexIDIsEmission ''s''"
  "\<not> vertexIDIsEmission ''start''" "vertexTypeIsEqual ''state'' VERTEX_TYPE_STATE"
  "\<not> vertexTypeIsEqual ''state'' VERTEX_TYPE_OBSERVATION"
  "\<not> vertexTypeIsEqual ''observation'' VERTEX_TYPE_STATE"
  "vertexTypeIsEqual ''observation'' VERTEX_TYPE_OBSERVATION"
  "edgeTypeIsEqual ''transition'' EDGE_TYPE_TRANSITION" "edgeTypeIsEqual ''emission'' EDGE_TYPE_EMISSION"
  "\<not> edgeTypeIsEqual ''emission'' EDGE_TYPE_TRANSITION" "\<not> edgeTypeIsEqual ''transition'' EDGE_TYPE_EMISSION"
  "edgeDistIsEqual ''exponential'' DIST_EXPONENTIAL" "\<not> edgeDistIsEqual ''exponential'' DIST_NORMAL"
  "\<not> edgeDistIsEqual ''exponential'' DIST_LOGNORMAL"
  by code_simp+

lemma demo_model_new:
  assumes "ty = ''observation'' \<or> ty = ''state''"
  shows "mmodel_new (demo_graph ty) ''demo'' 7 = Some (demo_model ty)"
proof -
  have v: "checkVertexAttributes (demo_graph ty) v" for v
    using assms by (auto simp: checkVertexAttributes_def demo_graph_def [THEN arg_cong, of ig_has_vattr])
  have e: "checkEdgeAttributes (demo_graph ty) e" if "e \<in> {0, 1, 2}" for e
    using that by (auto simp: checkEdgeAttributes_def checkDistribution_def checkEdgeAttributeRate_def
        paramExists_def paramPositive_def fp_lt_def demo_graph_def [THEN arg_cong, of ig_has_eattr]
        demo_graph_def [THEN arg_cong, of ig_edge])
  have f: "ig_vertices (demo_graph ty) = Some [0, 1, 2]" "ig_edges (demo_graph ty) = Some [0, 1, 2]"
    "ig_VAS (demo_graph ty) ''name'' x = Some (if x = 0 then ''start'' else if x = 1 then ''s'' else ''+'')" for x
    by (simp_all add: demo_graph_def)
  show ?thesis
    using v e by (simp add: mmodel_new_def validateVertices_def validateEdges_def f demo_model_def Let_def)
qed

lemma demo_graph_laws: "graph_laws (demo_graph ty)"
  by (auto simp: graph_laws_def demo_graph_def)

lemma demo_obs_typed: "obs_typed (demo_graph ''observation'')"
  by (auto simp: obs_typed_def split: if_splits)

lemma demo_never_nan: "never_nan demo_math (demo_graph ty)"
  by (auto simp: never_nan_def generateValue_def generateExponentialValue_def param_def fp_div_def
      fp_neg_def fp_lt_def demo_math_def getUniform_def split: bind_splits if_splits)

section \<open>The interface to the users of a model\<close>

text \<open>
  Streams and generators use a model through three operations: draw the next observation, reset, and
  ask for the end. What they rely on is the contract \<open>observation_source\<close>.
\<close>

fun observe :: "('s \<Rightarrow> ('o \<times> 'd option \<times> 's) option) \<Rightarrow> nat \<Rightarrow> 's \<Rightarrow> ('o list \<times> 's) option" where
  "observe nxt 0 s = Some ([], s)"
| "observe nxt (Suc n) s =
     (case nxt s of
        None \<Rightarrow> None
      | Some (ob, _, s') \<Rightarrow> map_option (\<lambda>(obs, s''). (ob # obs, s'')) (observe nxt n s'))"

locale observation_source =
  fixes nxt :: "'s \<Rightarrow> ('o \<times> 'd option \<times> 's) option"
    and reset :: "'s \<Rightarrow> 's"
    and at_end :: "'s \<Rightarrow> bool"
    and ending :: 'o
  assumes end_sticky: "at_end s \<Longrightarrow> nxt s = Some (ending, None, s)"
    and end_announced: "nxt s = Some (ob, d, s') \<Longrightarrow> at_end s' \<Longrightarrow> ob = ending"
    and reset_open: "\<not> at_end (reset s)"
begin

lemma observe_at_end: "at_end s \<Longrightarrow> observe nxt n s = Some (replicate n ending, s)"
  by (induction n) (simp_all add: end_sticky)

lemma observe_suffix:
  "observe nxt n s = Some (obs, s') \<Longrightarrow> at_end s' \<Longrightarrow> n > 0 \<Longrightarrow> last obs = ending"
proof (induction n arbitrary: s obs)
  case (Suc n)
  then obtain ob d s1 obs1 where s: "nxt s = Some (ob, d, s1)" "observe nxt n s1 = Some (obs1, s')"
      "obs = ob # obs1"
    by (auto split: option.splits)
  show ?case
  proof (cases "n = 0")
    case True
    with s Suc.prems end_announced show ?thesis by auto
  next
    case False
    with Suc.IH [OF s(2)] Suc.prems s(2,3) show ?thesis by (cases n) (auto split: option.splits)
  qed
qed simp

end

lemma vertexToObservation_end:
  "vertexToObservation v mm = Some (obs, mm') \<Longrightarrow> mm_foundEndState mm' \<Longrightarrow>
     mm_foundEndState mm \<or> obs = OBSERVATION_END"
  by (auto simp: vertexToObservation_def split: bind_splits if_splits)

lemma chooseEdge_end: "chooseEdge ml ty v mm = Some (c, mm') \<Longrightarrow> mm_foundEndState mm' = mm_foundEndState mm"
  by (auto simp: chooseEdge_def Let_def split: option.splits bind_splits)

lemma getUniform_end: "getUniform ml mm = Some (u, mm') \<Longrightarrow> mm_foundEndState mm' = mm_foundEndState mm"
  by (auto simp: getUniform_def)

lemma generateDelay_end: "generateDelay ml e mm = Some (u, mm') \<Longrightarrow> mm_foundEndState mm' = mm_foundEndState mm"
  by (auto simp: generateDelay_def generateValue_def generateNormalValue_def generateLogNormalValue_def
      generateNormalVariate_def generateExponentialValue_def generateParetoValue_def
      generateUniformValue_def dest!: getUniform_end split: bind_splits if_splits)

interpretation mm_source: observation_source "tgenmarkovmodel_getNextObservation ml" tgenmarkovmodel_reset
  tgenmarkovmodel_isInEndState OBSERVATION_END for ml
proof
  fix s :: mmodel
  assume "tgenmarkovmodel_isInEndState s"
  then show "tgenmarkovmodel_getNextObservation ml s = Some (OBSERVATION_END, None, s)"
    by (simp add: tgenmarkovmodel_isInEndState_def tgenmarkovmodel_getNextObservation_def)
next
  fix s ob d s'
  assume n: "tgenmarkovmodel_getNextObservation ml s = Some (ob, d, s')" "tgenmarkovmodel_isInEndState s'"
  show "ob = OBSERVATION_END"
    using n
    by (fastforce simp: tgenmarkovmodel_getNextObservation_def tgenmarkovmodel_isInEndState_def
        chooseTransition_def chooseEmission_def Let_def
        dest!: chooseEdge_end generateDelay_end vertexToObservation_end
        split: if_splits bind_splits option.splits prod.splits)
next
  fix s
  show "\<not> tgenmarkovmodel_isInEndState (tgenmarkovmodel_reset s)"
    by (simp add: tgenmarkovmodel_isInEndState_def tgenmarkovmodel_reset_def)
qed

section \<open>Theorems\<close>



text \<open>
  No delay of an observation exceeds the ceiling of ten minutes, and none is produced with a
  premature or repeated end.
\<close>

theorem delay_ceiling:
  assumes "tgenmarkovmodel_getNextObservation ml mm = Some (obs, d, mm')"
  shows "(case d of Some x \<Rightarrow> unat x \<le> 600000000 | None \<Rightarrow> obs = OBSERVATION_END)"
proof -
  have "x \<le> DELAY_CEILING \<Longrightarrow> unat x \<le> 600000000" for x
    by (simp add: DELAY_CEILING_def word_le_nat_alt)
  then show ?thesis
    using assms
    by (auto simp: tgenmarkovmodel_getNextObservation_def Let_def not_less DELAY_CEILING_def
        split: if_splits option.splits bind_splits)
qed

theorem delay_ceiling_witness:
  "case tgenmarkovmodel_getNextObservation demo_math (demo_model ''observation''\<lparr>mm_foundEndState := True\<rparr>) of
     Some (obs, Some x, _) \<Rightarrow> unat x \<le> 600000000
   | Some (obs, None, _) \<Rightarrow> obs = OBSERVATION_END
   | None \<Rightarrow> False"
  using delay_ceiling [of demo_math "demo_model ''observation''\<lparr>mm_foundEndState := True\<rparr>"]
  by (simp add: tgenmarkovmodel_getNextObservation_def)

text \<open>
  C26. In a validated model \<open>chooseEdge\<close> returns an outgoing edge of the vertex that has the wanted type,
  and the edge's head. It draws exactly one random number. When there is such an edge and the total
  weight is finite it never fails; when there is none it always does.
\<close>

theorem chooseEdge_spec:
  assumes "mm_wf mm" and "graph_laws (mm_graph mm)" and "fp_laws ml" and "rand_laws ml"
    and "v \<in> set (the (ig_vertices (mm_graph mm)))"
  shows "\<exists>c. chooseEdge ml type v mm = Some (c, mm\<lparr>mm_calls := mm_calls mm + 1\<rparr>) \<and>
    (case c of
       Some (e, to') \<Rightarrow> e \<in> set (out_edges (mm_graph mm) v) \<and> has_type (mm_graph mm) type e \<and>
                      ig_edge (mm_graph mm) e = Some (v, to')
     | None \<Rightarrow> \<not> list_ex (has_type (mm_graph mm) type) (out_edges (mm_graph mm) v) \<or>
               (\<forall>W. total_weight ml (mm_graph mm) type (out_edges (mm_graph mm) v) (Fin 0) \<noteq> Some (Fin W)))"
proof -
  let ?g = "mm_graph mm" and ?es = "out_edges (mm_graph mm) v"
  obtain t c where t: "total_weight ml ?g type ?es (Fin 0) = Some t" "fp_le (Fin 0) t"
    and c: "pick_edge ml ?g type (ml_rand ml (mm_prngSeed mm) (mm_calls mm) (Fin 0) t) ?es (Fin 0) = Some c"
    and ch: "chooseEdge ml type v mm =
       Some (map_option (\<lambda>e. (e, snd (the (ig_edge ?g e)))) c, mm\<lparr>mm_calls := mm_calls mm + 1\<rparr>)"
    by (rule chooseEdge_wf [OF assms(1,2,3,5), of type])
  show ?thesis
  proof (cases c)
    case (Some e)
    have e: "e \<in> set ?es" "has_type ?g type e" using pick_edge_sound [OF c [unfolded Some]] by simp_all
    obtain b where "ig_edge ?g e = Some (v, b)" using wf_out(2) [OF assms(1,2,5) e(1)] by blast
    with ch Some e show ?thesis by simp
  next
    case None
    have "t \<noteq> Fin W" if "list_ex (has_type ?g type) ?es" for W
    proof
      assume W: "t = Fin W"
      with t(2) obtain a where "ml_rand ml (mm_prngSeed mm) (mm_calls mm) (Fin 0) t = Fin a" "a \<le> W"
        using assms(4) unfolding rand_laws_def by fastforce
      with pick_edge_complete [OF t(1) that, of "Fin a"] c None W show False by simp
    qed
    with ch None t show ?thesis by auto
  qed
qed

theorem chooseEdge_spec_witness:
  "\<exists>c mm'. chooseEdge demo_math EDGE_TYPE_TRANSITION 0 (demo_model ''observation'') = Some (c, mm')"
proof -
  have new: "mmodel_new (demo_graph ''observation'') ''demo'' 7 = Some (demo_model ''observation'')"
    by (rule demo_model_new) simp
  have g: "mm_graph (demo_model ''observation'') = demo_graph ''observation''"
    by (simp add: demo_model_def)
  have "0 \<in> set (the (ig_vertices (mm_graph (demo_model ''observation''))))"
    by (simp add: g) (simp add: demo_graph_def)
  from chooseEdge_spec [OF new_wf [OF new] _ demo_math_laws this, of EDGE_TYPE_TRANSITION]
  show ?thesis by (auto simp: g demo_graph_laws)
qed

text \<open>
  C27. The end is final until the reset: in the end state any number of calls returns only
  \<open>OBSERVATION_END\<close> and leaves the model, its random state included, unchanged; a sequence that has
  reached the end state announced it with its last observation; and a reset model is not at the end
  and stands on the start vertex.
\<close>

theorem end_is_final_until_reset:
  "(mm_foundEndState mm \<longrightarrow>
      observe (tgenmarkovmodel_getNextObservation ml) n mm = Some (replicate n OBSERVATION_END, mm)) \<and>
   (observe (tgenmarkovmodel_getNextObservation ml) n mm = Some (obs, mm') \<and> mm_foundEndState mm' \<and> n > 0 \<longrightarrow>
      last obs = OBSERVATION_END) \<and>
   \<not> mm_foundEndState (tgenmarkovmodel_reset mm) \<and>
   mm_currentStateVertexIndex (tgenmarkovmodel_reset mm) = mm_startVertexIndex mm"
  using mm_source.observe_at_end [of mm ml n] mm_source.observe_suffix [of ml n mm obs mm']
  by (auto simp: tgenmarkovmodel_isInEndState_def tgenmarkovmodel_reset_def)

theorem end_is_final_until_reset_witness:
  "observe (tgenmarkovmodel_getNextObservation demo_math) 3 (demo_model ''state''\<lparr>mm_foundEndState := True\<rparr>) =
     Some (replicate 3 OBSERVATION_END, demo_model ''state''\<lparr>mm_foundEndState := True\<rparr>)"
  using end_is_final_until_reset [of "demo_model ''state''\<lparr>mm_foundEndState := True\<rparr>" demo_math 3]
  by simp

lemma chooseEdge_none:
  assumes "mm_wf mm" "graph_laws (mm_graph mm)" "fp_laws ml" "v \<in> set (the (ig_vertices (mm_graph mm)))"
    and "\<not> list_ex (has_type (mm_graph mm) type) (out_edges (mm_graph mm) v)"
  shows "chooseEdge ml type v mm = Some (None, mm\<lparr>mm_calls := mm_calls mm + 1\<rparr>)"
proof -
  have ok: "list_all (edge_ok (mm_graph mm)) (out_edges (mm_graph mm) v)"
    using wf_out(2) [OF assms(1,2,4)] check_edge_ok by (auto simp: list_all_iff)
  obtain t c where
    "pick_edge ml (mm_graph mm) type (ml_rand ml (mm_prngSeed mm) (mm_calls mm) (Fin 0) t)
       (out_edges (mm_graph mm) v) (Fin 0) = Some c"
    "chooseEdge ml type v mm =
       Some (map_option (\<lambda>e. (e, snd (the (ig_edge (mm_graph mm) e)))) c, mm\<lparr>mm_calls := mm_calls mm + 1\<rparr>)"
    by (rule chooseEdge_wf [OF assms(1-4), of type])
  with pick_edge_untyped [OF assms(5) ok] show ?thesis by simp
qed

definition no_transition :: "mmodel \<Rightarrow> bool" where
  "no_transition mm \<longleftrightarrow> mm_wf mm \<and> graph_laws (mm_graph mm) \<and> \<not> mm_foundEndState mm \<and>
     \<not> list_ex (has_type (mm_graph mm) EDGE_TYPE_TRANSITION)
       (out_edges (mm_graph mm) (mm_currentStateVertexIndex mm))"

lemma no_transition_step:
  assumes "no_transition mm" "fp_laws ml"
  shows "tgenmarkovmodel_getNextObservation ml mm =
      Some (OBSERVATION_END, None, mm\<lparr>mm_calls := mm_calls mm + 1\<rparr>)"
    and "no_transition (mm\<lparr>mm_calls := mm_calls mm + 1\<rparr>)"
proof -
  have "mm_currentStateVertexIndex mm \<in> set (the (ig_vertices (mm_graph mm)))"
    using assms(1) by (simp add: no_transition_def mm_wf_def Let_def)
  then show "tgenmarkovmodel_getNextObservation ml mm =
      Some (OBSERVATION_END, None, mm\<lparr>mm_calls := mm_calls mm + 1\<rparr>)"
    using assms chooseEdge_none [of mm ml "mm_currentStateVertexIndex mm" EDGE_TYPE_TRANSITION]
    by (simp add: no_transition_def tgenmarkovmodel_getNextObservation_def chooseTransition_def)
  show "no_transition (mm\<lparr>mm_calls := mm_calls mm + 1\<rparr>)" using assms(1) by (simp add: no_transition_def)
qed

text \<open>
  A premature end is not remembered. When the current state has no outgoing transition, the model
  returns \<open>OBSERVATION_END\<close> for ever but never enters the end state, so a caller that resets the model
  only when \<open>tgenmarkovmodel_isInEndState\<close> says so, and waits for that, waits for ever.
\<close>

theorem premature_end_not_recorded:
  assumes "no_transition mm" and "fp_laws ml"
  shows "\<exists>mm'. observe (tgenmarkovmodel_getNextObservation ml) n mm = Some (replicate n OBSERVATION_END, mm') \<and>
    \<not> tgenmarkovmodel_isInEndState mm'"
  using assms
proof (induction n arbitrary: mm)
  case (Suc n)
  from no_transition_step [OF Suc.prems] Suc.IH [of "mm\<lparr>mm_calls := mm_calls mm + 1\<rparr>"] Suc.prems(2)
  show ?case by auto
qed (simp add: tgenmarkovmodel_isInEndState_def no_transition_def)

text \<open>A model whose only edge is an emission from the start vertex.\<close>

definition stuck_graph :: igraph where
  "stuck_graph = (demo_graph ''observation'')\<lparr>ig_edges := Some [], ig_incident := (\<lambda>_. Some [])\<rparr>"

definition stuck_model :: mmodel where
  "stuck_model = (demo_model ''observation'')\<lparr>mm_graph := stuck_graph\<rparr>"

lemma stuck_no_transition: "no_transition stuck_model"
proof -
  have find: "findVertexAttributeString stuck_graph v a = findVertexAttributeString (demo_graph ''observation'') v a" for v a
    by (simp add: findVertexAttributeString_def stuck_graph_def attributeTypeMismatch_def Let_def)
  have has: "ig_has_vattr stuck_graph x" "ig_vertices stuck_graph = Some [0, 1, 2]" for x
    by (simp_all add: stuck_graph_def demo_graph_def)
  have "checkVertexAttributes stuck_graph v" for v
    by (auto simp: checkVertexAttributes_def find has)
  moreover have "ig_VAS stuck_graph ''name'' x = Some (if x = 0 then ''start'' else if x = 1 then ''s'' else ''+'')" for x
    by (simp add: stuck_graph_def demo_graph_def)
  ultimately have "mm_wf stuck_model"
    by (simp add: mm_wf_def stuck_model_def validateVertices_def validateEdges_def has)
       (simp add: demo_model_def stuck_graph_def)
  moreover have "graph_laws (mm_graph stuck_model)"
    by (simp add: graph_laws_def stuck_model_def stuck_graph_def demo_graph_def)
  moreover have "out_edges (mm_graph stuck_model) v = []" for v
    by (simp add: out_edges_def stuck_model_def stuck_graph_def)
  moreover have "\<not> mm_foundEndState stuck_model" by (simp add: stuck_model_def demo_model_def)
  ultimately show ?thesis by (simp add: no_transition_def)
qed

theorem premature_end_not_recorded_witness:
  "\<exists>mm'. observe (tgenmarkovmodel_getNextObservation demo_math) 5 stuck_model =
     Some (replicate 5 OBSERVATION_END, mm') \<and> \<not> tgenmarkovmodel_isInEndState mm'"
  by (rule premature_end_not_recorded [OF stuck_no_transition demo_math_laws(1)])

text \<open>
  The validation is not sufficient: the graph \<open>demo_graph ''state''\<close>, whose vertex \<open>+\<close> is declared to
  be of type state, is accepted, and the first observation drawn from it fails an assertion,
  whatever the random numbers are.
\<close>

theorem validated_model_can_abort:
  assumes "fp_laws ml" "rand_laws ml"
  shows "mmodel_new (demo_graph ''state'') ''demo'' 7 = Some (demo_model ''state'') \<and>
   tgenmarkovmodel_getNextObservation ml (demo_model ''state'') = None"
proof -
  let ?m = "demo_model ''state''" and ?g = "demo_graph ''state''"
  have new: "mmodel_new ?g ''demo'' 7 = Some ?m" by (rule demo_model_new) simp
  have out: "out_edges ?g 0 = [0]" "out_edges ?g (Suc 0) = [1, 2]" by (simp_all add: out_edges_def demo_graph_def)
  have vs: "set (the (ig_vertices ?g)) = {0, 1, 2}" by (simp add: demo_graph_def)
  have none: "tgenmarkovmodel_getNextObservation ml ?m = None" if f: "fp_laws ml" and r: "rand_laws ml" for ml
  proof -
    have one: "ml_rnd ml 1 = Fin 1" using f by (simp add: fp_laws_def is_double_def)
    have g: "mm_graph ?m = ?g" "mm_currentStateVertexIndex ?m = 0" "\<not> mm_foundEndState ?m"
      by (simp_all add: demo_model_def)
    have tr: "chooseTransition ml 0 ?m = Some (Some (0, 1), ?m\<lparr>mm_calls := mm_calls ?m + 1\<rparr>)"
      using chooseEdge_spec [OF new_wf [OF new] _ f r, of 0 EDGE_TYPE_TRANSITION]
      by (auto simp: g demo_graph_laws vs out chooseTransition_def has_type_iff one demo_graph_def [THEN arg_cong, of ig_edge]
          split: option.splits)
    let ?m2 = "?m\<lparr>mm_calls := mm_calls ?m + 1, mm_currentStateVertexIndex := 1\<rparr>"
    have wf2: "mm_wf ?m2" using new_wf [OF new] by (simp add: mm_wf_def Let_def g vs)
    have em: "chooseEmission ml 1 ?m2 = Some (Some (2, 2), ?m2\<lparr>mm_calls := mm_calls ?m2 + 1\<rparr>)"
      using chooseEdge_spec [OF wf2 _ f r, of 1 EDGE_TYPE_EMISSION]
      by (auto simp: g demo_graph_laws vs out chooseEmission_def has_type_iff one demo_graph_def [THEN arg_cong, of ig_edge]
          split: option.splits)
    show ?thesis
      using tr em by (simp add: tgenmarkovmodel_getNextObservation_def g vertexToObservation_def Let_def)
  qed
  from this [OF assms] show ?thesis using new by blast
qed

theorem validated_model_can_abort_witness:
  "mmodel_new (demo_graph ''state'') ''demo'' 7 = Some (demo_model ''state'') \<and>
   tgenmarkovmodel_getNextObservation demo_math (demo_model ''state'') = None"
  by (rule validated_model_can_abort [OF demo_math_laws])

end
