(* ===== verification/StreamOutput.thy ===== *)
theory StreamOutput
  imports StreamHeader MarkovProps "HOL-Library.Sublist"
begin

text \<open>
  What the writing side puts on the connection. The abstraction is the byte string written so far
  together with what is still buffered: no step of the sender loses, repeats or reorders a byte of it.
\<close>

section \<open>A buffered sink\<close>

text \<open>
  The contract of an object that flushes a buffer into a sink: whatever a flush did, the bytes in the
  sink followed by those still buffered are the same as before.
\<close>

locale buffered_sink =
  fixes unsent :: "'s \<Rightarrow> bytes"
    and sunk :: "'w \<Rightarrow> bytes"
    and flush :: "'s \<Rightarrow> 'w \<Rightarrow> (nat \<times> 's \<times> 'w) option"
  assumes conserve: "flush s w = Some (n, s', w') \<Longrightarrow> sunk w' @ unsent s' = sunk w @ unsent s"
    and progress_count: "flush s w = Some (n, s', w') \<Longrightarrow> length (sunk w') = length (sunk w) + n"
begin

fun flushes :: "nat \<Rightarrow> 's \<Rightarrow> 'w \<Rightarrow> (nat \<times> 's \<times> 'w) option" where
  "flushes 0 s w = Some (0, s, w)"
| "flushes (Suc k) s w =
     (case flush s w of
        None \<Rightarrow> None
      | Some (n, s1, w1) \<Rightarrow>
          (case flushes k s1 w1 of None \<Rightarrow> None | Some (m, s2, w2) \<Rightarrow> Some (n + m, s2, w2)))"

lemma flushes_conserve:
  "flushes k s w = Some (n, s', w') \<Longrightarrow>
     sunk w' @ unsent s' = sunk w @ unsent s \<and> length (sunk w') = length (sunk w) + n"
  by (induction k arbitrary: s w n)
    (fastforce split: option.splits dest: conserve progress_count)+

lemma flushes_prefix:
  assumes "flushes k s w = Some (n, s', w')"
  shows "sunk w' = sunk w @ take n (unsent s)" "n \<le> length (unsent s)" "unsent s' = drop n (unsent s)"
proof -
  from flushes_conserve [OF assms] have c: "sunk w' @ unsent s' = sunk w @ unsent s"
    and n: "length (sunk w') = length (sunk w) + n" by auto
  have "length (sunk w') + length (unsent s') = length (sunk w) + length (unsent s)"
    using arg_cong [OF c, of length] by simp
  with n show le: "n \<le> length (unsent s)" by simp
  have "sunk w' = take (length (sunk w')) (sunk w @ unsent s)" by (simp add: c [symmetric])
  then show s: "sunk w' = sunk w @ take n (unsent s)" using n by simp
  have "unsent s' = drop (length (sunk w')) (sunk w @ unsent s)" by (simp add: c [symmetric])
  then show "unsent s' = drop n (unsent s)" using n by simp
qed

end

definition unsent :: "stream \<Rightarrow> bytes" where
  "unsent s = (case sd_buffer (st_send s) of None \<Rightarrow> [] | Some b \<Rightarrow> drop (sd_offset (st_send s)) b)"

lemma transport_write_spec:
  assumes "tgentransport_write bs t w = (r, t', w')"
  shows "w_out w' = w_out w @ (case r of Inr n \<Rightarrow> take n bs | Inl _ \<Rightarrow> [])"
    and "case r of Inr n \<Rightarrow> n \<le> length bs | Inl _ \<Rightarrow> True" and "w_app w' = w_app w" and "w_rd w' = w_rd w"
  using assms
  by (auto simp: tgentransport_write_def split: prod.splits sum.splits if_splits
      dest: sys_write_Inr sys_write_Inl sys_write_frame)

text \<open>Everything \<open>flushOut\<close> does, in one statement.\<close>

definition buffer_ok :: "stream \<Rightarrow> bool" where
  "buffer_ok s \<longleftrightarrow> (case sd_buffer (st_send s) of None \<Rightarrow> sd_offset (st_send s) = 0
                   | Some b \<Rightarrow> sd_offset (st_send s) < length b)"

definition flush_frame :: "stream \<Rightarrow> stream \<Rightarrow> bool" where
  "flush_frame s s' \<longleftrightarrow>
     st_recv s' = st_recv s \<and> st_mmodel s' = st_mmodel s \<and> st_isCommander s' = st_isCommander s \<and>
     st_time s' = st_time s \<and> st_notifyFunc s' = st_notifyFunc s \<and> st_peer s' = st_peer s \<and>
     sd_requestedBytes (st_send s') = sd_requestedBytes (st_send s) \<and>
     sd_requestedZero (st_send s') = sd_requestedZero (st_send s) \<and>
     sd_payloadBytes (st_send s') = sd_payloadBytes (st_send s) \<and>
     sd_checksum (st_send s') = sd_checksum (st_send s) \<and>
     sd_deferBarrierMicros (st_send s') = sd_deferBarrierMicros (st_send s) \<and>
     (st_transport s \<noteq> None \<longrightarrow> st_transport s' \<noteq> None) \<and>
     (sd_state (st_send s') = sd_state (st_send s) \<and> st_error s' = st_error s \<or>
      sd_state (st_send s') = SEND_ERROR \<and> st_error s' \<noteq> ERR_NONE)"

lemma flushOut_spec:
  assumes "flushOut s w = Some (n, s', w')"
  shows "w_out w' @ unsent s' = w_out w @ unsent s" "length (w_out w') = length (w_out w) + n"
    "n \<le> length (unsent s)" "flush_frame s s'" "buffer_ok s \<Longrightarrow> buffer_ok s'"
    "sd_totalBytes (st_send s') = sd_totalBytes (st_send s) + of_nat n" "w_app w' = w_app w" "w_rd w' = w_rd w"
proof -
  have "w_out w' @ unsent s' = w_out w @ unsent s \<and> length (w_out w') = length (w_out w) + n \<and>
    n \<le> length (unsent s) \<and> flush_frame s s' \<and> (buffer_ok s \<longrightarrow> buffer_ok s') \<and>
    sd_totalBytes (st_send s') = sd_totalBytes (st_send s) + of_nat n \<and> w_app w' = w_app w \<and> w_rd w' = w_rd w"
  proof (cases "sd_buffer (st_send s)")
    case None
    with assms show ?thesis by (auto simp: flushOut_def unsent_def flush_frame_def)
  next
    case (Some b)
    with assms obtain t where t: "st_transport s = Some t" by (auto simp: flushOut_def split: Option.bind_splits)
    obtain r t' w0 where wr: "tgentransport_write (drop (sd_offset (st_send s)) b) t w = (r, t', w0)"
      by (cases "tgentransport_write (drop (sd_offset (st_send s)) b) t w")
    note sp = transport_write_spec [OF wr]
    show ?thesis
    proof (cases r)
      case (Inl e)
      with assms Some t wr sp show ?thesis
        by (auto simp: flushOut_def unsent_def flush_frame_def buffer_ok_def changeRecv_recv Let_def split: if_splits)
    next
      case (Inr k)
      with sp have k: "k \<le> length b - sd_offset (st_send s)" by simp
      show ?thesis
      proof (cases "k = 0")
        case True
        with assms Some t wr sp Inr show ?thesis
          by (auto simp: flushOut_def unsent_def flush_frame_def buffer_ok_def changeRecv_recv Let_def split: if_splits)
      next
        case False
        with assms Some t wr sp Inr k show ?thesis
          by (auto simp: flushOut_def unsent_def flush_frame_def buffer_ok_def Let_def add.commute
              simp flip: drop_drop split: if_splits)
      qed
    qed
  qed
  then show "w_out w' @ unsent s' = w_out w @ unsent s" "length (w_out w') = length (w_out w) + n"
    "n \<le> length (unsent s)" "flush_frame s s'" "buffer_ok s \<Longrightarrow> buffer_ok s'"
    "sd_totalBytes (st_send s') = sd_totalBytes (st_send s) + of_nat n" "w_app w' = w_app w" "w_rd w' = w_rd w"
    by blast+
qed

interpretation stream_sink: buffered_sink unsent w_out flushOut
  by unfold_locales (auto dest: flushOut_spec(1,2))

section \<open>The generation loop\<close>

text \<open>What the loop leaves alone: everything but the model, the counters of expected bytes, the pause and the clock.\<close>

definition loop_frame :: "stream \<Rightarrow> stream \<Rightarrow> bool" where
  "loop_frame s s' \<longleftrightarrow>
     rv_state (st_recv s') = rv_state (st_recv s) \<and> rv_payloadBytes (st_recv s') = rv_payloadBytes (st_recv s) \<and>
     rv_totalBytes (st_recv s') = rv_totalBytes (st_recv s) \<and> rv_buffer (st_recv s') = rv_buffer (st_recv s) \<and>
     rv_checksum (st_recv s') = rv_checksum (st_recv s) \<and>
     sd_state (st_send s') = sd_state (st_send s) \<and>
     sd_requestedBytes (st_send s') = sd_requestedBytes (st_send s) \<and>
     sd_requestedZero (st_send s') = sd_requestedZero (st_send s) \<and>
     sd_payloadBytes (st_send s') = sd_payloadBytes (st_send s) \<and>
     sd_totalBytes (st_send s') = sd_totalBytes (st_send s) \<and>
     sd_buffer (st_send s') = sd_buffer (st_send s) \<and> sd_offset (st_send s') = sd_offset (st_send s) \<and>
     sd_checksum (st_send s') = sd_checksum (st_send s) \<and>
     st_mmodel s' \<noteq> None \<and>
     st_transport s' = st_transport s \<and> st_error s' = st_error s \<and> st_isCommander s' = st_isCommander s \<and>
     st_notifyFunc s' = st_notifyFunc s \<and> st_peer s' = st_peer s"

lemma loop_frame_refl: "st_mmodel s \<noteq> None \<Longrightarrow> loop_frame s s"
  by (simp add: loop_frame_def)

lemma loop_frame_trans: "loop_frame s s1 \<Longrightarrow> loop_frame s1 s2 \<Longrightarrow> loop_frame s s2"
  by (simp add: loop_frame_def)

lemma payload_observe_frame:
  assumes "payload_observe ml acc s = Some x"
  shows "loop_frame s (snd (snd x))"
  using assms
  by (cases acc) (auto simp: payload_observe_def loop_frame_def Let_def upd_peer_def upd_recv_def upd_send_def
      split: Option.bind_splits if_splits)

lemma payload_defer_frame:
  assumes "st_mmodel s \<noteq> None"
  shows "loop_frame s (fst (payload_defer d s w))" "w_out (snd (payload_defer d s w)) = w_out w"
    "w_app (snd (payload_defer d s w)) = w_app w" "w_rd (snd (payload_defer d s w)) = w_rd w"
    "w_wr (snd (payload_defer d s w)) = w_wr w"
  using assms
  by (auto simp: payload_defer_def stream_getTime_def loop_frame_def upd_time_def upd_send_def split: prod.splits
      dest: time_frame)

text \<open>Induction over a run of the loop that ends.\<close>

lemma payload_loop_run:
  assumes run: "payload_loop ml limit acc s w = Some y" and m: "st_mmodel s \<noteq> None"
    and stop: "\<And>acc s. st_mmodel s \<noteq> None \<Longrightarrow> \<not> fst acc < limit \<Longrightarrow> P acc s (fst acc, s, w)"
    and last: "\<And>acc s x. payload_observe ml acc s = Some x \<Longrightarrow> fst acc < limit \<Longrightarrow> st_mmodel (snd (snd x)) \<noteq> None \<Longrightarrow>
      fst x \<Longrightarrow> P acc s (fst (fst (snd x)), snd (snd x), w)"
    and pause: "\<And>acc s x. payload_observe ml acc s = Some x \<Longrightarrow> fst acc < limit \<Longrightarrow> st_mmodel (snd (snd x)) \<noteq> None \<Longrightarrow>
      \<not> fst x \<Longrightarrow> snd (fst (snd x)) > MICROS_AT_ONCE \<Longrightarrow>
      P acc s (fst (fst (snd x)), payload_defer (snd (fst (snd x))) (snd (snd x)) w)"
    and more: "\<And>acc s x y. payload_observe ml acc s = Some x \<Longrightarrow> fst acc < limit \<Longrightarrow> st_mmodel (snd (snd x)) \<noteq> None \<Longrightarrow>
      \<not> fst x \<Longrightarrow> P (fst (snd x)) (snd (snd x)) y \<Longrightarrow> P acc s y"
  shows "P acc s y"
proof -
  have "ml' = ml \<and> limit' = limit \<and> w' = w \<and> st_mmodel s \<noteq> None \<longrightarrow> P acc s y"
    if "payload_loop ml' limit' acc s w' = Some y" for ml' limit' w'
  proof (rule payload_loop.raw_induct [OF _ that], goal_cases)
    case (1 loop ml' limit' acc s w' y)
    show ?case
    proof (intro impI, elim conjE)
      assume e: "ml' = ml" "limit' = limit" "w' = w" and m: "st_mmodel s \<noteq> None"
      show "P acc s y"
      proof (cases "fst acc < limit")
        case False
        with 1(2) e stop [OF m False] show ?thesis by simp
      next
        case True
        with 1(2) e obtain x where x: "payload_observe ml acc s = Some x" by (auto split: Option.bind_splits)
        then have mx: "st_mmodel (snd (snd x)) \<noteq> None"
          using payload_observe_frame by (simp add: loop_frame_def)
        note l = last [OF x True mx] and d = pause [OF x True mx] and c = more [OF x True mx]
        consider "fst x" | "\<not> fst x" "snd (fst (snd x)) > MICROS_AT_ONCE"
          | "\<not> fst x" "\<not> snd (fst (snd x)) > MICROS_AT_ONCE" by blast
        then show ?thesis
        proof cases
          case 3
          with 1(2) x True e have "loop ml limit (fst (snd x)) (snd (snd x)) w = Some y" by simp
          from 1(1) [OF this] mx 3(1) show ?thesis by (intro c) simp_all
        qed (use 1(2) x True e l d in auto)
      qed
    qed
  qed
  from this [OF run] m show ?thesis by simp
qed

lemma payload_loop_frame:
  assumes "payload_loop ml limit acc s w = Some y" "st_mmodel s \<noteq> None"
  shows "loop_frame s (fst (snd y)) \<and> w_out (snd (snd y)) = w_out w \<and> w_app (snd (snd y)) = w_app w \<and>
    w_rd (snd (snd y)) = w_rd w \<and> w_wr (snd (snd y)) = w_wr w"
  by (rule payload_loop_run [where P = "\<lambda>acc s y. loop_frame s (fst (snd y)) \<and> w_out (snd (snd y)) = w_out w \<and>
        w_app (snd (snd y)) = w_app w \<and> w_rd (snd (snd y)) = w_rd w \<and> w_wr (snd (snd y)) = w_wr w", OF assms])
    (auto simp: loop_frame_refl payload_defer_frame intro: loop_frame_trans dest: payload_observe_frame)

section \<open>Sending a payload of a requested size\<close>

text \<open>
  The state between two calls: what is on the wire since \<open>base\<close> and what is buffered together are the
  bytes fed to the checksum, the counter is the number of bytes on the wire, and there are never more
  bytes than requested.
\<close>

definition sending :: "u64 \<Rightarrow> bytes \<Rightarrow> stream \<Rightarrow> world \<Rightarrow> bool" where
  "sending R base s w \<longleftrightarrow>
     sd_requestedBytes (st_send s) = R \<and> R > 0 \<and> st_mmodel s \<noteq> None \<and> buffer_ok s \<and>
     w_out w @ unsent s = base @ sd_checksum (st_send s) \<and>
     length base + unat (sd_payloadBytes (st_send s)) = length (w_out w) \<and>
     length (sd_checksum (st_send s)) \<le> unat R"

lemma sending_le:
  assumes "sending R base s w"
  shows "length (unsent s) + unat (sd_payloadBytes (st_send s)) = length (sd_checksum (st_send s))"
    "sd_payloadBytes (st_send s) \<le> R" "prefix base (w_out w)"
proof -
  from assms have e: "w_out w @ unsent s = base @ sd_checksum (st_send s)"
    and l: "length base + unat (sd_payloadBytes (st_send s)) = length (w_out w)"
    and c: "length (sd_checksum (st_send s)) \<le> unat R" by (auto simp: sending_def)
  show s: "length (unsent s) + unat (sd_payloadBytes (st_send s)) = length (sd_checksum (st_send s))"
    using arg_cong [OF e, of length] l by simp
  with c show "sd_payloadBytes (st_send s) \<le> R" by (simp add: word_le_nat_alt)
  have "prefix base (w_out w @ unsent s)" by (simp add: e)
  moreover have "prefix (w_out w) (w_out w @ unsent s)" by simp
  ultimately show "prefix base (w_out w)" using l by (metis le_add1 prefix_length_prefix)
qed

lemma stamp_send:
  "stamp f s w = (s', w') \<Longrightarrow> st_send s' = st_send s \<and> st_mmodel s' = st_mmodel s \<and> st_transport s' = st_transport s \<and>
     st_recv s' = st_recv s \<and> st_error s' = st_error s \<and> st_isCommander s' = st_isCommander s \<and> w_out w' = w_out w"
  by (auto simp: stamp_def stream_getTime_def split: prod.splits if_splits dest: time_frame)

lemma flush_payload_spec:
  assumes "flush_payload s w = Some (s', w')"
  obtains n s1 w1 where "flushOut s w = Some (n, s1, w1)"
    "st_send s' = sd_payloadBytes_update (\<lambda>k. k + of_nat n) (st_send s1)" "st_mmodel s' = st_mmodel s1"
    "w_out w' = w_out w1" "st_recv s' = st_recv s1" "st_error s' = st_error s1"
    "st_transport s' = st_transport s1" "st_isCommander s' = st_isCommander s1"
  using assms
  by (auto simp: flush_payload_def Let_def split: Option.bind_split_asm prod.splits if_splits dest!: stamp_send)

lemma flush_payload_sending:
  assumes "sending R base s w" "flush_payload s w = Some (s', w')"
  shows "sending R base s' w'" "prefix (w_out w) (w_out w')" "sd_checksum (st_send s') = sd_checksum (st_send s)"
    "st_recv s' = st_recv s"
proof -
  from assms(2) obtain n s1 w1 where f: "flushOut s w = Some (n, s1, w1)"
    and s': "st_send s' = sd_payloadBytes_update (\<lambda>k. k + of_nat n) (st_send s1)" "st_mmodel s' = st_mmodel s1"
      "w_out w' = w_out w1" "st_recv s' = st_recv s1" "st_error s' = st_error s1" by (rule flush_payload_spec) blast
  note sp = flushOut_spec [OF f]
  have keep: "sd_requestedBytes (st_send s1) = sd_requestedBytes (st_send s)"
    "sd_payloadBytes (st_send s1) = sd_payloadBytes (st_send s)" "sd_checksum (st_send s1) = sd_checksum (st_send s)"
    "st_mmodel s1 = st_mmodel s" "st_recv s1 = st_recv s" using sp(4) by (simp_all add: flush_frame_def)
  have "unat (sd_payloadBytes (st_send s)) + n < 2 ^ 64"
    using sending_le(1) [OF assms(1)] sp(3) assms(1) unsigned_less [where 'a = nat and 'b = 64, of R]
    by (simp add: sending_def)
  then have "unat (sd_payloadBytes (st_send s) + of_nat n) = unat (sd_payloadBytes (st_send s)) + n"
    by (simp add: unat_word_ariths unat_of_nat)
  moreover have "unsent s' = unsent s1" "buffer_ok s' = buffer_ok s1" using s'(1) by (simp_all add: unsent_def buffer_ok_def split: option.split)
  ultimately show "sending R base s' w'"
    using assms(1) sp(1,2,5) keep s'(1-3) by (simp add: sending_def)
  show "prefix (w_out w) (w_out w')"
    using stream_sink.flushes_prefix(1) [of 1 s w n s1 w1] f s'(3) by simp
  show "sd_checksum (st_send s') = sd_checksum (st_send s)" "st_recv s' = st_recv s" using keep s' by simp_all
qed

lemma random_string:
  "getRandomString n w = (buf, w') \<Longrightarrow> length buf = n \<and> w_out w' = w_out w \<and> w_wr w' = w_wr w \<and> w_rd w' = w_rd w"
  by (auto simp: getRandomString_def g_random_int_def split: prod.splits list.splits)

lemma generate_payload_sending:
  assumes "sending R base s w" "sd_buffer (st_send s) = None" "generate_payload env s w = Some (s', w')"
  shows "sending R base s' w'" "prefix (w_out w) (w_out w')" "prefix (sd_checksum (st_send s)) (sd_checksum (st_send s'))"
proof -
  let ?room = "unat (R - sd_payloadBytes (st_send s))"
  define limit where "limit = min ?room WRITE_BUFLEN"
  have R: "sd_requestedBytes (st_send s) = R" "R > 0" and m: "st_mmodel s \<noteq> None"
    using assms(1) by (simp_all add: sending_def)
  have un: "unsent s = []" using assms(2) by (simp add: unsent_def)
  have le: "sd_payloadBytes (st_send s) \<le> R" by (rule sending_le(2) [OF assms(1)])
  have room: "length (sd_checksum (st_send s)) + limit \<le> unat R"
    using sending_le(1) [OF assms(1)] le un by (simp add: limit_def unat_sub word_le_nat_alt)
  from assms(3) R le obtain c s1 w1 where loop: "payload_loop (se_ml env) limit (0, 0) s w = Some (c, s1, w1)"
    and rest: "(let n = (if sd_requestedBytes (st_send s1) > 0 then min limit c else c);
        s2 = (\<lambda>buf. upd_send (sd_buffer_update (\<lambda>_. Some buf)) s1)
      in if n > 0 then (case getRandomString n w1 of (buf, w2) \<Rightarrow>
             flush_payload (if sd_requestedBytes (st_send (s2 buf)) > 0
                then upd_send (sd_checksum_update (\<lambda>c. c @ buf)) (s2 buf) else s2 buf) w2)
         else Some (s1, w1)) = Some (s', w')"
    by (auto simp: generate_payload_def Let_def limit_def split: Option.bind_split_asm if_splits)
  note fr = payload_loop_frame [OF loop m]
  have keep: "sd_requestedBytes (st_send s1) = R" "w_out w1 = w_out w" "sd_checksum (st_send s1) = sd_checksum (st_send s)"
    "sd_payloadBytes (st_send s1) = sd_payloadBytes (st_send s)" "sd_buffer (st_send s1) = None"
    "sd_offset (st_send s1) = sd_offset (st_send s)" "st_mmodel s1 \<noteq> None"
    using fr R assms(2) by (simp_all add: loop_frame_def)
  have base: "sending R base s1 w1"
    using assms(1,2) keep un by (simp add: sending_def unsent_def buffer_ok_def)
  have "sending R base s' w' \<and> prefix (w_out w) (w_out w') \<and>
      prefix (sd_checksum (st_send s)) (sd_checksum (st_send s'))"
  proof (cases "min limit c > 0")
    case False
    with rest keep R base show ?thesis by (auto simp: Let_def)
  next
    case True
    obtain buf w2 where b: "getRandomString (min limit c) w1 = (buf, w2)" by fastforce
    from random_string [OF b] have len: "length buf = min limit c" and w2: "w_out w2 = w_out w1" by auto
    let ?s3 = "upd_send (sd_checksum_update (\<lambda>c. c @ buf)) (upd_send (sd_buffer_update (\<lambda>_. Some buf)) s1)"
    have f: "flush_payload ?s3 w2 = Some (s', w')" using rest keep R True b by (simp add: Let_def)
    have off: "sd_offset (st_send s) = 0" using assms(1,2) by (simp add: sending_def buffer_ok_def)
    have "sending R base ?s3 w2"
      using base True len room keep w2 off assms(1) un by (simp add: sending_def unsent_def buffer_ok_def)
    from flush_payload_sending [OF this f] keep w2 show ?thesis by simp
  qed
  then show "sending R base s' w'" "prefix (w_out w) (w_out w')"
    "prefix (sd_checksum (st_send s)) (sd_checksum (st_send s'))" by blast+
qed

text \<open>One call keeps the state of affairs, only adds to the wire, and reports completion at the right moment.\<close>

lemma writePayload_sending:
  assumes "sending R base s w" "writePayload env s w = Some (ok, s', w')"
  shows "sending R base s' w'" "prefix (w_out w) (w_out w')" "prefix (sd_checksum (st_send s)) (sd_checksum (st_send s'))"
    "ok \<longrightarrow> sd_payloadBytes (st_send s') = R \<and> unsent s' = []"
proof -
  have R: "sd_requestedBytes (st_send s) = R" "R > 0" and m: "st_mmodel s \<noteq> None"
    using assms(1) by (simp_all add: sending_def)
  from assms(2) m obtain s1 w1 where f: "flush_payload s w = Some (s1, w1)"
    and rest: "(if \<not> Option.is_none (sd_buffer (st_send s1)) then Some (False, s1, w1)
         else if doneSending s1 then Some (True, s1, w1)
         else do { (s2, w2) \<leftarrow> generate_payload env s1 w1; Some (False, s2, w2) }) = Some (ok, s', w')"
    by (auto simp: writePayload_def split: Option.bind_split_asm)
  note s1 = flush_payload_sending [OF assms(1) f]
  have R1: "sd_requestedBytes (st_send s1) = R" using s1(1) by (simp add: sending_def)
  have "sending R base s' w' \<and> prefix (w_out w) (w_out w') \<and>
      prefix (sd_checksum (st_send s)) (sd_checksum (st_send s')) \<and>
      (ok \<longrightarrow> sd_payloadBytes (st_send s') = R \<and> unsent s' = [])"
  proof (cases "sd_buffer (st_send s1) = None \<and> \<not> doneSending s1")
    case True
    with rest have g: "generate_payload env s1 w1 = Some (s', w')" "\<not> ok" by (auto split: Option.bind_split_asm)
    from generate_payload_sending [OF s1(1) _ g(1)] True s1 g(2) show ?thesis
      by (auto intro: prefix_order.trans)
  next
    case False
    with rest have e: "s' = s1" "w' = w1" "ok \<longrightarrow> sd_buffer (st_send s1) = None \<and> doneSending s1"
      by (auto simp: Option.is_none_def split: if_splits)
    have "ok \<longrightarrow> sd_payloadBytes (st_send s1) = R \<and> unsent s1 = []"
      using e(3) R1 R(2) sending_le(2) [OF s1(1)] by (auto simp: doneSending_def Let_def unsent_def)
    with e s1 show ?thesis by simp
  qed
  then show "sending R base s' w'" "prefix (w_out w) (w_out w')" "prefix (sd_checksum (st_send s)) (sd_checksum (st_send s'))"
    "ok \<longrightarrow> sd_payloadBytes (st_send s') = R \<and> unsent s' = []" by blast+
qed

fun send_payload :: "streamenv \<Rightarrow> nat \<Rightarrow> stream \<Rightarrow> world \<Rightarrow> (bool \<times> stream \<times> world) option" where
  "send_payload env 0 s w = Some (False, s, w)"
| "send_payload env (Suc n) s w =
     do {
       (ok, s1, w1) \<leftarrow> writePayload env s w;
       (if ok then Some (True, s1, w1) else send_payload env n s1 w1)
     }"

lemma send_payload_sending:
  assumes "sending R base s w" "send_payload env n s w = Some (ok, s', w')"
  shows "sending R base s' w' \<and> prefix (sd_checksum (st_send s)) (sd_checksum (st_send s')) \<and>
    (ok \<longrightarrow> sd_payloadBytes (st_send s') = R \<and> unsent s' = [])"
  using assms
proof (induction n arbitrary: s w)
  case (Suc n)
  from Suc.prems(2) obtain ok1 s1 w1 where p: "writePayload env s w = Some (ok1, s1, w1)"
    and rest: "(if ok1 then Some (True, s1, w1) else send_payload env n s1 w1) = Some (ok, s', w')"
    by (auto split: Option.bind_split_asm)
  note one = writePayload_sending [OF Suc.prems(1) p]
  show ?case
  proof (cases ok1)
    case True
    with rest one show ?thesis by simp
  next
    case False
    with rest Suc.IH [OF one(1)] one(3) show ?thesis by (auto intro: prefix_order.trans)
  qed
qed simp

section \<open>When the loop ends\<close>

text \<open>
  A model the sender can draw from: in every state of the invariant the next observation exists and
  the invariant holds again (after the reset that the loop does at an end), and either it is a packet in
  the sender's direction or the rank decreases.
\<close>

definition own_packet :: "bool \<Rightarrow> observation \<Rightarrow> bool" where
  "own_packet commander obs \<longleftrightarrow> obs = (if commander then OBSERVATION_TO_SERVER else OBSERVATION_TO_ORIGIN)"

definition productive :: "mathlib \<Rightarrow> bool \<Rightarrow> (mmodel \<Rightarrow> bool) \<Rightarrow> (mmodel \<Rightarrow> nat) \<Rightarrow> bool" where
  "productive ml commander keeps rank \<longleftrightarrow>
     (\<forall>mm. keeps mm \<longrightarrow>
        (case tgenmarkovmodel_getNextObservation ml mm of
           None \<Rightarrow> False
         | Some (obs, d, mm1) \<Rightarrow>
             (let mm2 = (if obs = OBSERVATION_END then tgenmarkovmodel_reset mm1 else mm1)
              in keeps mm2 \<and> (own_packet commander obs \<or> rank mm2 < rank mm))))"

lemma observe_productive:
  assumes "productive ml (st_isCommander s) keeps rank" "st_mmodel s = Some mm" "keeps mm"
    and "sd_requestedBytes (st_send s) > 0"
  obtains c d s1 mm1 where "payload_observe ml acc s = Some (False, (c, d), s1)" "st_mmodel s1 = Some mm1" "keeps mm1"
    "st_isCommander s1 = st_isCommander s" "sd_requestedBytes (st_send s1) = sd_requestedBytes (st_send s)"
    "c \<ge> fst acc" "c = fst acc \<longrightarrow> rank mm1 < rank mm"
proof -
  from assms(1,3) obtain obs d mm1 where o: "tgenmarkovmodel_getNextObservation ml mm = Some (obs, d, mm1)"
    and i: "keeps (if obs = OBSERVATION_END then tgenmarkovmodel_reset mm1 else mm1)"
    and r: "own_packet (st_isCommander s) obs \<or>
      rank (if obs = OBSERVATION_END then tgenmarkovmodel_reset mm1 else mm1) < rank mm"
    by (auto simp: productive_def Let_def split: option.splits)
  obtain a b where acc: "acc = (a, b)" by (cases acc)
  show thesis
    by (cases obs; cases "st_isCommander s")
       (use o i r acc assms(2,4) in \<open>auto intro!: that simp: payload_observe_def own_packet_def PACKET_DATA_SIZE_def\<close>)
qed

lemma productive_loop_ends:
  assumes "productive ml commander keeps rank"
  shows "st_mmodel s = Some mm \<Longrightarrow> keeps mm \<Longrightarrow> st_isCommander s = commander \<Longrightarrow> sd_requestedBytes (st_send s) > 0 \<Longrightarrow>
    \<exists>y. payload_loop ml limit acc s w = Some y"
proof (induction "(limit - fst acc, rank mm)" arbitrary: acc s mm rule: wf_induct_rule [OF wf_lex_prod [OF wf_less_than wf_less_than]])
  case 1
  show ?case
  proof (cases "fst acc < limit")
    case False
    then show ?thesis by (simp add: payload_loop.simps)
  next
    case True
    have p: "productive ml (st_isCommander s) keeps rank" using assms 1(4) by simp
    obtain c d s1 mm1 where x: "payload_observe ml acc s = Some (False, (c, d), s1)" "st_mmodel s1 = Some mm1" "keeps mm1"
      "st_isCommander s1 = st_isCommander s" "sd_requestedBytes (st_send s1) = sd_requestedBytes (st_send s)"
      "c \<ge> fst acc" "c = fst acc \<longrightarrow> rank mm1 < rank mm"
      by (rule observe_productive [OF p 1(2,3,5), of acc])
    have "((limit - fst (c, d), rank mm1), (limit - fst acc, rank mm)) \<in> less_than <*lex*> less_than"
      using x(6,7) True by auto
    from 1(1) [OF this x(2,3)] x(4,5) 1(4,5)
    have "\<exists>y. payload_loop ml limit (c, d) s1 w = Some y" by simp
    with x(1) True show ?thesis by (subst payload_loop.simps) auto
  qed
qed

text \<open>The invariant of the model is kept over whole calls, so every call returns.\<close>

definition can_send :: "streamenv \<Rightarrow> (mmodel \<Rightarrow> bool) \<Rightarrow> (mmodel \<Rightarrow> nat) \<Rightarrow> stream \<Rightarrow> bool" where
  "can_send env keeps rank s \<longleftrightarrow>
     productive (se_ml env) (st_isCommander s) keeps rank \<and> st_transport s \<noteq> None \<and>
     (\<exists>mm. st_mmodel s = Some mm \<and> keeps mm)"

lemma payload_loop_keeps:
  assumes run: "payload_loop ml limit acc s w = Some y" and c: "productive ml commander keeps rank"
    and s: "st_mmodel s = Some mm" "keeps mm" "st_isCommander s = commander" "sd_requestedBytes (st_send s) > 0"
  shows "\<exists>mm'. st_mmodel (fst (snd y)) = Some mm' \<and> keeps mm'"
proof -
  let ?ok = "\<lambda>s. (\<exists>mm. st_mmodel s = Some mm \<and> keeps mm) \<and> st_isCommander s = commander \<and> sd_requestedBytes (st_send s) > 0"
  have step: "\<not> fst x \<and> ?ok (snd (snd x))" if "payload_observe ml acc s = Some x" "?ok s" for acc s x
  proof -
    from that(2) obtain mm where s: "st_mmodel s = Some mm" "keeps mm" "st_isCommander s = commander"
      "sd_requestedBytes (st_send s) > 0" by blast
    have p: "productive ml (st_isCommander s) keeps rank" using c s(3) by simp
    show ?thesis by (rule observe_productive [OF p s(1,2,4), of acc]) (use that(1) s in auto)
  qed
  have "st_mmodel s \<noteq> None" using s by simp
  then have "?ok s \<longrightarrow> ?ok (fst (snd y))"
    by (rule payload_loop_run [where P = "\<lambda>acc s y. ?ok s \<longrightarrow> ?ok (fst (snd y))", OF run])
      (auto dest: step simp: payload_defer_def stream_getTime_def upd_time_def upd_send_def split: prod.splits)
  with s show ?thesis by blast
qed

lemma flushOut_total: "st_transport s \<noteq> None \<Longrightarrow> \<exists>y. flushOut s w = Some y"
  by (auto simp: flushOut_def Let_def split: option.splits prod.splits sum.splits)

lemma flush_payload_total:
  assumes "can_send env keeps rank s"
  obtains s' w' where "flush_payload s w = Some (s', w')" "can_send env keeps rank s'"
proof -
  from assms flushOut_total [of s w] obtain n s1 w1 where f: "flushOut s w = Some (n, s1, w1)"
    by (auto simp: can_send_def)
  then have c: "can_send env keeps rank s1"
    using assms flushOut_spec(4) [OF f] by (simp add: can_send_def flush_frame_def)
  have "flush_payload s w \<noteq> None" by (simp add: flush_payload_def f Let_def split: prod.split)
  then obtain s' w' where g: "flush_payload s w = Some (s', w')" by auto
  obtain n' s2 w2 where g2: "flushOut s w = Some (n', s2, w2)" "st_mmodel s' = st_mmodel s2"
    "st_transport s' = st_transport s2" "st_isCommander s' = st_isCommander s2"
    by (rule flush_payload_spec [OF g]) blast
  then have "can_send env keeps rank s'" using f c by (simp add: can_send_def)
  with g that show thesis by blast
qed

lemma writePayload_total:
  assumes "sending R base s w" "can_send env keeps rank s"
  obtains ok s' w' where "writePayload env s w = Some (ok, s', w')" "can_send env keeps rank s'"
proof -
  obtain s1 w1 where f: "flush_payload s w = Some (s1, w1)" "can_send env keeps rank s1"
    by (rule flush_payload_total [OF assms(2)])
  have s1: "sending R base s1 w1" by (rule flush_payload_sending(1) [OF assms(1) f(1)])
  have m: "st_mmodel s \<noteq> None" using assms(1) by (simp add: sending_def)
  show thesis
  proof (cases "sd_buffer (st_send s1) = None \<and> \<not> doneSending s1")
    case False
    then have "writePayload env s w = Some (sd_buffer (st_send s1) = None, s1, w1)"
      using f m by (auto simp: writePayload_def Option.is_none_def)
    with that f(2) show ?thesis by blast
  next
    case True
    let ?limit = "min (unat (R - sd_payloadBytes (st_send s1))) WRITE_BUFLEN"
    from f(2) obtain mm where c: "productive (se_ml env) (st_isCommander s1) keeps rank" "st_mmodel s1 = Some mm" "keeps mm"
      by (auto simp: can_send_def)
    have R: "sd_requestedBytes (st_send s1) = R" "R > 0" "sd_payloadBytes (st_send s1) \<le> R"
      using s1 sending_le(2) [OF s1] by (simp_all add: sending_def)
    then have R0: "sd_requestedBytes (st_send s1) > 0" by simp
    from productive_loop_ends [OF c refl R0] obtain cn s2 w2 where
      l: "payload_loop (se_ml env) ?limit (0, 0) s1 w1 = Some (cn, s2, w2)" by fastforce
    have fr: "loop_frame s1 s2" using payload_loop_frame [OF l] c(2) by simp
    from payload_loop_keeps [OF l c refl R0] fr f(2) have k: "can_send env keeps rank s2"
      by (simp add: can_send_def loop_frame_def)
    have k2: "can_send env keeps rank (upd_send g s2)" for g using k by (simp add: can_send_def)
    obtain buf w3 where b: "getRandomString (min ?limit cn) w2 = (buf, w3)" by fastforce
    let ?s3 = "upd_send (sd_checksum_update (\<lambda>c. c @ buf)) (upd_send (sd_buffer_update (\<lambda>_. Some buf)) s2)"
    have "can_send env keeps rank ?s3" using k by (simp add: can_send_def)
    then obtain s4 w4 where f4: "flush_payload ?s3 w3 = Some (s4, w4)" "can_send env keeps rank s4"
      by (rule flush_payload_total)
    have R2: "sd_requestedBytes (st_send s2) = R" using fr R by (simp add: loop_frame_def)
    have "\<exists>s' w'. generate_payload env s1 w1 = Some (s', w') \<and> can_send env keeps rank s'"
      using R l b f4 k R2 by (cases "min ?limit cn > 0") (auto simp: generate_payload_def Let_def)
    with True f(1) m that show ?thesis by (auto simp: writePayload_def)
  qed
qed

lemma send_payload_total:
  assumes "can_send env keeps rank s" "sending R base s w"
  shows "\<exists>ok s' w'. send_payload env n s w = Some (ok, s', w')"
  using assms
proof (induction n arbitrary: s w)
  case (Suc n)
  obtain ok s1 w1 where p: "writePayload env s w = Some (ok, s1, w1)" "can_send env keeps rank s1"
    by (rule writePayload_total [OF Suc.prems(2,1)])
  from Suc.IH [OF p(2) writePayload_sending(1) [OF Suc.prems(2) p(1)]] p(1) show ?case by (cases ok) auto
qed (simp add: ex_bool_eq)

section \<open>Theorems about the outgoing side\<close>

text \<open>The model of the witnesses emits packets to the server for ever; the sender starts on it.\<close>

definition at_work :: "mmodel \<Rightarrow> bool" where
  "at_work mm \<longleftrightarrow> (\<exists>calls cur. mm = (demo_model ''observation'')\<lparr>mm_calls := calls, mm_currentStateVertexIndex := cur\<rparr> \<and> cur < 2)"
lemma demo_edges [simp]:
   "ig_incident (demo_graph ty) v = Some (if v = 0 then [0] else if v = 1 then [1, 2] else [])"
   "ig_edge (demo_graph ty) e = (if e = 0 then Some (0, 1) else if e = 1 then Some (1, 1)
                      else if e = 2 then Some (1, 2) else None)" by (simp_all add: demo_graph_def)
lemma demo_choose:
  assumes "mm_graph mm = demo_graph ty" "v < 2"
  shows "chooseTransition demo_math v mm = Some (Some (v, 1), mm\<lparr>mm_calls := mm_calls mm + 1\<rparr>)"
    "chooseEmission demo_math 1 mm = Some (Some (2, 2), mm\<lparr>mm_calls := mm_calls mm + 1\<rparr>)"
  using assms
  by (auto simp: less_2_cases_iff chooseTransition_def chooseEmission_def chooseEdge_def demo_math_def)

lemma demo_delay:
  assumes "mm_graph mm = demo_graph ty"
  shows "\<exists>d. generateDelay demo_math 2 mm = Some (d, mm\<lparr>mm_calls := mm_calls mm + 1\<rparr>)"
proof -
  have "getUniform demo_math mm = Some (Fin (1/2), mm\<lparr>mm_calls := mm_calls mm + 1\<rparr>)"
    by (simp add: getUniform_def getUniform_from.simps demo_math_def DBL_MIN_def)
  moreover have r3: "round_half_away 3 = 3" by code_simp
  then have "delay_of_double demo_math (Fin 3) = Some 3"
    by (simp add: r3 delay_of_double_def fp_round_def demo_math_def Let_def fp_lt_def)
  ultimately show ?thesis using assms
    by (simp add: generateDelay_def generateValue_def generateExponentialValue_def param_def fp_div_def fp_neg_def demo_math_def fp_lt_def)
qed

lemma demo_productive: "productive demo_math True at_work (\<lambda>_. 0)"
  unfolding productive_def
proof (intro allI impI)
  fix mm assume "at_work mm"
  then obtain calls cur where mm: "mm = (demo_model ''observation'')\<lparr>mm_calls := calls, mm_currentStateVertexIndex := cur\<rparr>" "cur < 2"
    by (auto simp: at_work_def)
  have g: "mm_graph mm = demo_graph ''observation''" "\<not> mm_foundEndState mm" "mm_currentStateVertexIndex mm < 2"
    by (simp_all add: mm demo_model_def)
  let ?m1 = "mm\<lparr>mm_calls := mm_calls mm + 1, mm_currentStateVertexIndex := 1\<rparr>"
  let ?m2 = "?m1\<lparr>mm_calls := mm_calls ?m1 + 1\<rparr>"
  obtain d where d: "generateDelay demo_math 2 ?m2 = Some (d, ?m2\<lparr>mm_calls := mm_calls ?m2 + 1\<rparr>)"
    using demo_delay [of ?m2 "''observation''"] g by auto
  have plus: "\<not> vertexIDIsEqual ''+'' VERTEX_ID_TO_ORIGIN" "vertexIDIsEqual ''+'' VERTEX_ID_TO_SERVER" by code_simp+
  have v: "vertexToObservation 2 ?m2 = Some (OBSERVATION_TO_SERVER, ?m2)"
    using g plus by (simp add: vertexToObservation_def)
  have "tgenmarkovmodel_getNextObservation demo_math mm =
      Some (OBSERVATION_TO_SERVER, Some (if d > DELAY_CEILING then DELAY_CEILING else d), ?m2\<lparr>mm_calls := mm_calls ?m2 + 1\<rparr>)"
    using g d v demo_choose(1) [OF g(1) g(3)] demo_choose(2) [of ?m1 "''observation''" 0]
    by (simp add: tgenmarkovmodel_getNextObservation_def)
  moreover have "at_work (?m2\<lparr>mm_calls := mm_calls ?m2 + 1\<rparr>)" unfolding at_work_def
    by (intro exI [of _ "mm_calls mm + 3"] exI [of _ 1]) (simp add: mm)
  ultimately show "case tgenmarkovmodel_getNextObservation demo_math mm of None \<Rightarrow> False
      | Some (obs, d, mm1) \<Rightarrow>
          let mm2 = (if obs = OBSERVATION_END then tgenmarkovmodel_reset mm1 else mm1)
          in at_work mm2 \<and> (own_packet True obs \<or> (0::nat) < 0)"
    by (simp add: own_packet_def)
qed

definition demo_sender :: stream where
  "demo_sender = (upd_send (sd_requestedBytes_update (\<lambda>_. 3000)) (demo_stream RECV_PAYLOAD SEND_PAYLOAD))
     \<lparr>st_isCommander := True, st_mmodel := Some (demo_model ''observation'')\<rparr>"

definition demo_sending :: streamenv where
  "demo_sending = demo_env\<lparr>se_ml := demo_math\<rparr>"

lemma demo_sender_start:
  "sending 3000 [] demo_sender (demo_net [] q)" "at_work (demo_model ''observation'')"
  "st_transport demo_sender \<noteq> None"
proof -
  show "sending 3000 [] demo_sender (demo_net [] q)"
    by (simp add: sending_def buffer_ok_def unsent_def demo_sender_def stream_zero_def demo_net_def)
  have "mm_calls (demo_model ty) = 0" "mm_currentStateVertexIndex (demo_model ty) = 0" for ty
    by (simp_all add: demo_model_def)
  then show "at_work (demo_model ''observation'')"
    unfolding at_work_def by (intro exI [of _ 0] conjI) simp_all
  show "st_transport demo_sender \<noteq> None" by (simp add: demo_sender_def)
qed



text \<open>
  C16. The generation loop terminates: with a model from whose every state packets of the sender's
  direction follow (some measure decreases with every other observation, resets included), every call
  of \<open>_tgenstream_writePayload\<close> that sends a requested number of bytes returns, however many calls are made.
\<close>

theorem payload_calls_return:
  assumes "productive (se_ml env) (st_isCommander s) keeps rank" "st_mmodel s = Some mm" "keeps mm"
    and "st_transport s \<noteq> None" "sending R base s w"
  shows "\<exists>ok s' w'. send_payload env n s w = Some (ok, s', w')"
  using send_payload_total [OF _ assms(5)] assms(1-4) by (simp add: can_send_def)

theorem payload_calls_return_witness:
  "\<exists>ok s' w'. send_payload demo_sending 5 demo_sender (demo_net [] [WRoom 100, WErr EAGAIN, WRoom 9000]) = Some (ok, s', w')"
  by (rule payload_calls_return [where keeps = at_work and rank = "\<lambda>_. 0" and R = 3000 and base = "[]" and
        mm = "demo_model ''observation''"])
    (use demo_sender_start demo_productive in \<open>simp_all add: demo_sending_def demo_sender_def\<close>)

lemma observe_end:
  assumes "st_mmodel s = Some mm" "tgenmarkovmodel_getNextObservation ml mm = Some (OBSERVATION_END, d, mm1)"
    and "sd_requestedBytes (st_send s) > 0"
  shows "payload_observe ml acc s = Some (False, acc, s\<lparr>st_mmodel := Some (tgenmarkovmodel_reset mm1)\<rparr>)"
  using assms by (cases acc) (simp add: payload_observe_def)

text \<open>
  The sender hangs on a premature end. With a requested number of bytes still to send, an empty
  buffer and a model that stands on its start vertex and has no outgoing transition there, the call of
  \<open>_tgenstream_writePayload\<close> never returns: the loop resets the model at each \<open>OBSERVATION_END\<close> and asks again.
\<close>

theorem stuck_model_hangs:
  assumes "st_mmodel s = Some mm" "no_transition mm" "mm_currentStateVertexIndex mm = mm_startVertexIndex mm"
    and "fp_laws (se_ml env)" "sd_requestedBytes (st_send s) > sd_payloadBytes (st_send s)"
    and "sd_buffer (st_send s) = None"
  shows "writePayload env s w = None"
proof -
  let ?stuck = "\<lambda>s. \<exists>mm. st_mmodel s = Some mm \<and> no_transition mm \<and>
      mm_currentStateVertexIndex mm = mm_startVertexIndex mm \<and> sd_requestedBytes (st_send s) > 0"
  have step: "\<not> fst x \<and> fst (snd x) = acc \<and> ?stuck (snd (snd x))"
    if "payload_observe (se_ml env) acc s = Some x" "?stuck s" for acc s x
  proof -
    from that(2) obtain mm where m: "st_mmodel s = Some mm" "no_transition mm"
      "mm_currentStateVertexIndex mm = mm_startVertexIndex mm" "sd_requestedBytes (st_send s) > 0" by blast
    let ?mm = "tgenmarkovmodel_reset (mm\<lparr>mm_calls := mm_calls mm + 1\<rparr>)"
    have "x = (False, acc, s\<lparr>st_mmodel := Some ?mm\<rparr>)"
      using observe_end [OF m(1) no_transition_step(1) [OF m(2) assms(4)] m(4), of acc] that(1) by simp
    moreover have "no_transition ?mm" "mm_currentStateVertexIndex ?mm = mm_startVertexIndex ?mm"
      using m(2,3) by (simp_all add: no_transition_def tgenmarkovmodel_reset_def mm_wf_def Let_def)
    ultimately show ?thesis using m(4) by auto
  qed
  have loop: "payload_loop (se_ml env) limit acc s w = None"
    if "?stuck s" "fst acc < limit" "snd acc \<le> MICROS_AT_ONCE" for limit acc s w
  proof (rule ccontr)
    assume "payload_loop (se_ml env) limit acc s w \<noteq> None"
    then obtain y where y: "payload_loop (se_ml env) limit acc s w = Some y" by blast
    have "st_mmodel s \<noteq> None" using that(1) by auto
    then have "?stuck s \<and> fst acc < limit \<and> snd acc \<le> MICROS_AT_ONCE \<longrightarrow> False"
    proof (rule payload_loop_run [where P = "\<lambda>acc s y. ?stuck s \<and> fst acc < limit \<and> snd acc \<le> MICROS_AT_ONCE \<longrightarrow> False", OF y], goal_cases)
      case (2 acc s x) with step [OF 2(1)] show ?case by blast
    next
      case (3 acc s x)
      show ?case
      proof
        assume a: "?stuck s \<and> fst acc < limit \<and> snd acc \<le> MICROS_AT_ONCE"
        with step [OF 3(1)] have "fst (snd x) = acc" by blast
        with 3(5) a show False by (meson leD)
      qed
    next
      case (4 acc s x y) with step [OF 4(1)] show ?case by blast
    qed simp
    with that show False by blast
  qed
  have flush: "flush_payload s w = Some (upd_send (sd_payloadBytes_update (\<lambda>k. k + of_nat 0)) s, w)"
    using assms(6) by (simp add: flush_payload_def flushOut_def)
  let ?s = "upd_send (sd_payloadBytes_update (\<lambda>k. k + of_nat 0)) s"
  have R: "sd_requestedBytes (st_send s) > 0" by (rule le_less_trans [OF word_zero_le assms(5)])
  have room: "unat (sd_requestedBytes (st_send s) - sd_payloadBytes (st_send s)) > 0"
    using assms(5) by (simp add: unat_gt_0)
  let ?limit = "min (unat (sd_requestedBytes (st_send s) - sd_payloadBytes (st_send s))) WRITE_BUFLEN"
  have "payload_loop (se_ml env) ?limit (0, 0) ?s w = None"
    by (rule loop) (use assms(1-3) R room in \<open>simp_all add: WRITE_BUFLEN_def\<close>)
  then have "generate_payload env ?s w = None"
    using assms(5) R by (simp add: generate_payload_def Let_def)
  then show ?thesis
    using assms(1,5,6) flush R by (simp add: writePayload_def doneSending_def Let_def)
qed

theorem stuck_model_hangs_witness:
  "writePayload demo_sending (demo_sender\<lparr>st_mmodel := Some stuck_model\<rparr>) (demo_net [] [WRoom 100]) = None"
  by (rule stuck_model_hangs [OF _ stuck_no_transition])
    (simp_all add: demo_sender_def demo_sending_def demo_math_laws stuck_model_def demo_model_def stream_zero_def)

section \<open>Checksum and footer on the other side\<close>

definition hex_digest :: "(bytes \<Rightarrow> string) \<Rightarrow> bool" where
  "hex_digest md5 \<longleftrightarrow> (\<forall>bs. length (md5 bs) = 32 \<and> set (md5 bs) \<subseteq> set ''0123456789abcdef'')"

lemma hex_digest_plain:
  assumes "hex_digest md5"
  shows "c \<in> set (md5 bs) \<Longrightarrow> c \<noteq> NL \<and> c \<noteq> CHR '' '' \<and> c \<noteq> NUL \<and> ascii_tolower c = c"
proof -
  assume c: "c \<in> set (md5 bs)"
  have "list_all (\<lambda>c. c \<noteq> NL \<and> c \<noteq> CHR '' '' \<and> c \<noteq> NUL \<and> ascii_tolower c = c) ''0123456789abcdef''" by code_simp
  moreover from c assms have "c \<in> set ''0123456789abcdef''" unfolding hex_digest_def by blast
  ultimately show ?thesis unfolding list_all_iff by (rule bspec)
qed

text \<open>
  Checksum and footer survive the wire: a receiver that finds the sender's checksum line and footer
  in its read buffer accepts the checksum exactly when the digests of what was sent and what was
  received agree in their first 16 digits, then accepts the footer, and has then used up exactly
  these two lines; a disagreement ends in \<open>ERR_CHECKSUM\<close>.
\<close>

theorem checksum_footer_roundtrip:
  assumes "hex_digest (se_md5 env)" "se_md5 env' = se_md5 env"
    and "sd_requestedBytes (st_send s) > 0" "rv_requestedBytes (st_recv r) > 0"
    and "rv_buffer (st_recv r) = Some (checksum_msg env s @ footer_msg)"
  shows "\<exists>ok r1 w1. readChecksum env' r w = Some (ok, r1, w1) \<and>
     (ok \<longleftrightarrow> take 16 (se_md5 env (rv_checksum (st_recv r))) = take 16 (se_md5 env (sd_checksum (st_send s)))) \<and>
     (ok \<longrightarrow> (\<exists>r2 w2. readFooter r1 w1 = Some (True, r2, w2) \<and> rv_buffer (st_recv r2) = None \<and> st_error r2 = st_error r)) \<and>
     (\<not> ok \<longrightarrow> st_error r1 = ERR_CHECKSUM \<and> rv_state (st_recv r1) = RECV_ERROR)"
proof -
  let ?d = "se_md5 env (sd_checksum (st_send s))" and ?c = "se_md5 env (rv_checksum (st_recv r))"
  let ?l = "''MD5 '' @ ?d" and ?f = "''FIN'' @ [NL]"
  note plain = hex_digest_plain [OF assms(1)]
  have low: "map ascii_tolower (take n (se_md5 env bs)) = take n (se_md5 env bs)" for n bs
    using plain by (intro map_idI) (auto dest: in_set_takeD)
  have b: "rv_buffer (st_recv r) = Some (?l @ NL # ?f)" using assms(5) by (simp add: checksum_msg_def footer_msg_def)
  have nl: "NL \<notin> set ?l" using plain by (auto simp: NL_def)
  let ?r = "upd_recv (rv_buffer_update (\<lambda>_. Some ?f)) r"
  have g: "getLine r w = Some (Some ?l, ?r, w)" using getLine_buffered [OF b nl, of w] by simp
  obtain r1 w1 where st: "stamp tm_checksumRecv_update ?r w = (r1, w1)" by fastforce
  have c1: "c_str ?l = ?l" using plain by (intro c_str_id) (auto simp: NUL_def)
  have sp: "CHR '' '' \<notin> set ?d" using plain by blast
  have parts: "g_strsplit (CHR '' '') ?l = [''MD5'', ?d]"
    using split_all_append [of "CHR '' ''" "''MD5''" ?d] split_all_no_delim [OF sp] by (simp add: g_strsplit_def)
  have ne: "rv_requestedBytes (st_recv r) \<noteq> 0" using assms(4) by auto
  let ?ok = "take 16 ?c = take 16 ?d"
  have rd: "readChecksum env' r w = Some (if ?ok then (True, r1, w1)
      else (False, changeError ERR_CHECKSUM (changeRecvState RECV_ERROR r1), w1))"
    using assms(2) ne g st c1 parts low stamp_send [OF st]
    by (simp add: readChecksum_def strncaseeq_def MD5_LENGTH_def)
  have r1: "rv_buffer (st_recv r1) = Some (''FIN'' @ NL # [])" "rv_requestedBytes (st_recv r1) \<noteq> 0" "st_error r1 = st_error r"
    using stamp_send [OF st] ne by simp_all
  have g2: "getLine r1 w1 = Some (Some ''FIN'', upd_recv (rv_buffer_update (\<lambda>_. None)) r1, w1)"
    using getLine_buffered [OF r1(1), of w1] by (simp add: NL_def)
  obtain r2 w2 where st2: "stamp tm_footerRecv_update (upd_recv (rv_buffer_update (\<lambda>_. None)) r1) w1 = (r2, w2)" by fastforce
  have fin: "strncaseeq 3 (c_str ''FIN'') ''FIN''" by code_simp
  have "readFooter r1 w1 = Some (True, r2, w2) \<and> rv_buffer (st_recv r2) = None \<and> st_error r2 = st_error r"
    using r1 g2 st2 stamp_send [OF st2] fin by (simp add: readFooter_def)
  with rd show ?thesis by (cases ?ok) (auto simp: changeError_def stream_resetString_def changeRecv_recv)
qed

theorem checksum_footer_roundtrip_witness:
  "\<exists>r1 w1 r2 w2. readChecksum demo_env (upd_recv (\<lambda>r. r\<lparr>rv_requestedBytes := 3, rv_buffer := Some (checksum_msg demo_env demo_sender @ footer_msg)\<rparr>)
       (demo_stream RECV_CHECKSUM SEND_NONE)) (demo_net [] []) = Some (True, r1, w1) \<and> readFooter r1 w1 = Some (True, r2, w2)"
proof -
  let ?r = "upd_recv (\<lambda>r. r\<lparr>rv_requestedBytes := 3, rv_buffer := Some (checksum_msg demo_env demo_sender @ footer_msg)\<rparr>)
       (demo_stream RECV_CHECKSUM SEND_NONE)"
  have same: "take 16 (se_md5 demo_env x) = take 16 (se_md5 demo_env y)" for x y by (simp add: demo_env_def)
  have "hex_digest (se_md5 demo_env)" by (simp add: hex_digest_def demo_env_def)
  moreover have "sd_requestedBytes (st_send demo_sender) > 0" "rv_requestedBytes (st_recv ?r) > 0"
    "rv_buffer (st_recv ?r) = Some (checksum_msg demo_env demo_sender @ footer_msg)"
    by (simp_all add: demo_sender_def)
  ultimately obtain ok r1 w1 where r: "readChecksum demo_env ?r (demo_net [] []) = Some (ok, r1, w1)"
    "ok = (take 16 (se_md5 demo_env (rv_checksum (st_recv ?r))) = take 16 (se_md5 demo_env (sd_checksum (st_send demo_sender))))"
    "ok \<longrightarrow> (\<exists>r2 w2. readFooter r1 w1 = Some (True, r2, w2) \<and> rv_buffer (st_recv r2) = None \<and> st_error r2 = st_error ?r)"
    by (rule exE [OF checksum_footer_roundtrip [OF _ refl, of demo_env demo_sender ?r "demo_net [] []"]]) (elim exE conjE)
  from r(2) same have ok: "ok = True" by blast
  from r(3) ok obtain r2 w2 where "readFooter r1 w1 = Some (True, r2, w2)" by blast
  with r(1) [unfolded ok] show ?thesis by blast
qed

end
