(* ===== verification/StreamRun.thy ===== *)
theory StreamRun
  imports StreamOutput
begin

text \<open>
  A stream from event to event: the phases both directions can be in together, and what a stream
  reports to its owner when it ends. A run is any sequence of events, timeout checks and changes of the
  outside world.
\<close>

section \<open>Phases\<close>

definition receiving_states :: "recv_state set" where
  "receiving_states = {RECV_PAYLOAD, RECV_CHECKSUM, RECV_FOOTER, RECV_SUCCESS}"

definition sending_states :: "send_state set" where
  "sending_states = {SEND_PAYLOAD, SEND_CHECKSUM, SEND_FOOTER, SEND_FLUSH, SEND_SUCCESS}"

text \<open>
  The commander first writes its command, then awaits the response while it sends; the other side is
  silent until it has the header and the model, and then answers and receives.
\<close>

definition phase_ok :: "stream \<Rightarrow> bool" where
  "phase_ok s \<longleftrightarrow> st_error s \<noteq> ERR_NONE \<or>
     (if st_isCommander s
      then (sd_state (st_send s) = SEND_COMMAND \<and> rv_state (st_recv s) = RECV_NONE) \<or>
           (sd_state (st_send s) \<in> sending_states \<and>
            rv_state (st_recv s) \<in> {RECV_AUTHENTICATE, RECV_HEADER} \<union> receiving_states)
      else (sd_state (st_send s) = SEND_NONE \<and>
            rv_state (st_recv s) \<in> {RECV_AUTHENTICATE, RECV_HEADER, RECV_MODEL}) \<or>
           (sd_state (st_send s) \<in> {SEND_RESPONSE} \<union> sending_states \<and> rv_state (st_recv s) \<in> receiving_states))"

fun recv_rank :: "recv_state \<Rightarrow> nat" where
  "recv_rank RECV_NONE = 0" | "recv_rank RECV_AUTHENTICATE = 1" | "recv_rank RECV_HEADER = 2"
| "recv_rank RECV_MODEL = 3" | "recv_rank RECV_PAYLOAD = 4" | "recv_rank RECV_CHECKSUM = 5"
| "recv_rank RECV_FOOTER = 6" | "recv_rank RECV_SUCCESS = 7" | "recv_rank RECV_ERROR = 8"

fun send_rank :: "send_state \<Rightarrow> nat" where
  "send_rank SEND_NONE = 0" | "send_rank SEND_COMMAND = 1" | "send_rank SEND_RESPONSE = 2"
| "send_rank SEND_PAYLOAD = 3" | "send_rank SEND_CHECKSUM = 4" | "send_rank SEND_FOOTER = 5"
| "send_rank SEND_FLUSH = 6" | "send_rank SEND_SUCCESS = 7" | "send_rank SEND_ERROR = 8"

section \<open>Handlers\<close>

text \<open>What a handler may do: fail with an error, or leave both states alone; it notifies nobody.\<close>

definition same_owner :: "stream \<Rightarrow> world \<Rightarrow> stream \<Rightarrow> world \<Rightarrow> bool" where
  "same_owner s w s' w' \<longleftrightarrow> st_isCommander s' = st_isCommander s \<and> st_notifyFunc s' = st_notifyFunc s \<and>
     st_actionID s' = st_actionID s \<and> a_notes (w_app w') = a_notes (w_app w)"

definition calm :: "stream \<Rightarrow> world \<Rightarrow> stream \<Rightarrow> world \<Rightarrow> bool" where
  "calm s w s' w' \<longleftrightarrow> same_owner s w s' w' \<and>
     (st_error s' \<noteq> ERR_NONE \<or>
      st_error s = ERR_NONE \<and> rv_state (st_recv s') = rv_state (st_recv s) \<and>
      sd_state (st_send s') = sd_state (st_send s))"

lemma same_owner_refl [simp]: "same_owner s w s w" by (simp add: same_owner_def)

lemma same_owner_trans: "same_owner s w s1 w1 \<Longrightarrow> same_owner s1 w1 s2 w2 \<Longrightarrow> same_owner s w s2 w2"
  by (simp add: same_owner_def)

lemma calm_refl [simp]: "calm s w s w" by (simp add: calm_def)

lemma calm_trans: "calm s w s1 w1 \<Longrightarrow> calm s1 w1 s2 w2 \<Longrightarrow> calm s w s2 w2"
  by (auto simp: calm_def intro: same_owner_trans)

lemma state_sel [simp]:
  "st_error (changeRecvState q s) = st_error s" "st_error (changeSendState p s) = st_error s"
  "st_error (changeError e s) = e" "st_error (stream_resetString s) = st_error s"
  "st_send (changeRecvState q s) = st_send s" "st_recv (changeSendState p s) = st_recv s"
  "st_send (changeError e s) = st_send s" "st_recv (changeError e s) = st_recv s"
  "st_recv (changeRecvState q s) = (st_recv s)\<lparr>rv_state := q\<rparr>"
  "st_send (changeSendState p s) = (st_send s)\<lparr>sd_state := p\<rparr>"
  "st_recv (stream_resetString s) = st_recv s" "st_send (stream_resetString s) = st_send s"
  by (simp_all add: changeRecvState_def changeSendState_def changeError_def stream_resetString_def)

lemma owner_sel [simp]:
  "st_isCommander (changeRecvState q s) = st_isCommander s" "st_isCommander (changeSendState p s) = st_isCommander s"
  "st_isCommander (changeError e s) = st_isCommander s" "st_isCommander (stream_resetString s) = st_isCommander s"
  "st_notifyFunc (changeRecvState q s) = st_notifyFunc s" "st_notifyFunc (changeSendState p s) = st_notifyFunc s"
  "st_notifyFunc (changeError e s) = st_notifyFunc s" "st_notifyFunc (stream_resetString s) = st_notifyFunc s"
  "st_actionID (changeRecvState q s) = st_actionID s" "st_actionID (changeSendState p s) = st_actionID s"
  "st_actionID (changeError e s) = st_actionID s" "st_actionID (stream_resetString s) = st_actionID s"
  "st_actionID (upd_recv f s) = st_actionID s" "st_actionID (upd_send g s) = st_actionID s"
  "st_actionID (upd_peer h s) = st_actionID s" "st_actionID (upd_time k s) = st_actionID s"
  by (simp_all add: changeRecvState_def changeSendState_def changeError_def stream_resetString_def
      upd_recv_def upd_send_def upd_peer_def upd_time_def)

lemma stamp_calm: "stamp f s w = (s', w') \<Longrightarrow> calm s w s' w'"
  by (drule stamp_reported) (simp add: reported_def calm_def same_owner_def)

lemma stamp_states: "stamp f s w = (s', w') \<Longrightarrow> st_recv s' = st_recv s \<and> st_send s' = st_send s \<and> st_error s' = st_error s"
  by (drule stamp_reported) (simp add: reported_def)

lemma transport_read_notes:
  "tgentransport_read n t w = (r, t', w') \<Longrightarrow> w_app w' = w_app w"
  by (auto simp: tgentransport_read_def split: prod.splits sum.splits if_splits dest: sys_read_frame)

lemma after_read_owner [simp]:
  "st_isCommander (after_read r s) = st_isCommander s" "st_notifyFunc (after_read r s) = st_notifyFunc s"
  "st_actionID (after_read r s) = st_actionID s"
  by (simp_all add: after_read_def Let_def split: sum.split)

lemma after_read_calm: "st_error (after_read r s) \<noteq> ERR_NONE \<or>
    st_error s = ERR_NONE \<and> rv_state (st_recv (after_read r s)) = rv_state (st_recv s) \<and> st_send (after_read r s) = st_send s"
  by (auto simp: after_read_def Let_def split: sum.splits)

lemma stream_read_calm: "stream_read n s w = Some (r, s', w') \<Longrightarrow> calm s w s' w'"
  using after_read_calm
  by (fastforce simp: stream_read_def readBuffered_def calm_def same_owner_def
      split: option.splits prod.splits Option.bind_split_asm if_splits dest: transport_read_notes)

lemma calm_upd [simp]:
  "calm s w (upd_recv (rv_buffer_update f) s1) w1 = calm s w s1 w1"
  "calm (upd_recv (rv_buffer_update f) s) w s1 w1 = calm s w s1 w1"
  "calm s w (upd_peer h s1) w1 = calm s w s1 w1" "calm (upd_peer h s) w s1 w1 = calm s w s1 w1"
  "calm s w (upd_time k s1) w1 = calm s w s1 w1"
  "calm s w (upd_recv (rv_payloadBytes_update g) s1) w1 = calm s w s1 w1"
  "calm s w (upd_recv (rv_checksum_update c) s1) w1 = calm s w s1 w1"
  "calm s w (s1\<lparr>st_mmodel := mm\<rparr>) w1 = calm s w s1 w1"
  "calm (s\<lparr>st_mmodel := mm\<rparr>) w s1 w1 = calm s w s1 w1"
  "calm s w (stream_resetString s1) w1 = calm s w s1 w1"
  by (auto simp: calm_def same_owner_def)

lemma takeLine_calm: "takeLine b s1 = Some (l, s') \<Longrightarrow> calm s w s' w' = calm s w s1 w'"
  by (auto simp: takeLine_def Let_def split: option.splits prod.splits Option.bind_split_asm if_splits)

lemma getLine_calm:
  assumes "getLine s w = Some (l, s', w')"
  shows "calm s w s' w'"
proof -
  let ?s0 = "upd_recv (rv_buffer_update (\<lambda>_. None)) s"
  let ?have = "case rv_buffer (st_recv s) of None \<Rightarrow> [] | Some b \<Rightarrow> b"
  show ?thesis
  proof (cases "findNewLineIndex ?have")
    case (Some i)
    with assms obtain s1 where "takeLine ?have ?s0 = Some (l, s1)" "s' = s1" "w' = w"
      by (auto simp: getLine_def Let_def split: Option.bind_split_asm)
    then show ?thesis using takeLine_calm [of _ ?s0 l s1 s w w] by simp
  next
    case None
    with assms obtain r s1 w1 where r: "stream_read READ_BUFLEN ?s0 w = Some (r, s1, w1)"
      and rest: "(case r of
              Inr (c # cs) \<Rightarrow> do { (line, s2) \<leftarrow> takeLine (?have @ c # cs) s1; Some (line, s2, w1) }
            | _ \<Rightarrow> do { g_assert (rv_buffer (st_recv s1) = None);
                       Some (None, upd_recv (rv_buffer_update (\<lambda>_. rv_buffer (st_recv s))) s1, w1) }) = Some (l, s', w')"
      by (auto simp: getLine_def Let_def split: Option.bind_split_asm)
    from stream_read_calm [OF r] have "calm s w s1 w1" by simp
    with rest show ?thesis
      by (auto split: sum.splits list.splits Option.bind_split_asm simp: takeLine_calm)
  qed
qed

lemma auth_loop_calm: "auth_loop bs s1 = Some (ok, s') \<Longrightarrow> calm s w s1 w' \<Longrightarrow> calm s w s' w'"
proof (induction bs s1 rule: auth_loop.induct)
  case (2 c cs s1)
  have "calm s w (upd_recv (rv_authIndex_update Suc) s1) w'" using 2(3) by (simp add: calm_def same_owner_def)
  with 2 show ?case
    by (auto simp: Let_def calm_def same_owner_def split: if_splits Option.bind_split_asm)
qed simp

lemma readAuthenticate_calm: "readAuthenticate s w = Some (ok, s', w') \<Longrightarrow> calm s w s' w'"
  by (auto simp: readAuthenticate_def split: Option.bind_split_asm sum.splits if_splits
      dest!: stream_read_calm intro: auth_loop_calm)

lemma calm_if: "calm s w (if b then s1 else s2) w' = (if b then calm s w s1 w' else calm s w s2 w')"
  by simp

lemma calm_sizes [simp]:
  "calm s w (upd_recv (rv_requestedBytes_update f) s1) w1 = calm s w s1 w1"
  "calm s w (upd_recv (rv_requestedZero_update g \<circ> rv_requestedBytes_update f) s1) w1 = calm s w s1 w1"
  "calm s w (upd_send (sd_requestedBytes_update f) s1) w1 = calm s w s1 w1"
  "calm s w (upd_send (sd_requestedZero_update g \<circ> sd_requestedBytes_update f) s1) w1 = calm s w s1 w1"
  "calm s w (s1\<lparr>st_vertexID := v\<rparr>) w1 = calm s w s1 w1"
  by (simp_all add: calm_def same_owner_def)

lemma header_pair_calm: "calm s w (fst (header_pair key value x)) w' = calm s w (fst x) w'"
  by (cases x) (simp add: header_pair_def Let_def if_distrib [of fst] calm_if split: list.split cong: if_cong del: split_paired_All)

lemma header_pairs_calm: "header_pairs parts (s1, h) = (s2, h') \<Longrightarrow> calm s w s2 w' = calm s w s1 w'"
proof (induction parts arbitrary: s1 h)
  case (Cons part parts)
  show ?case
  proof (cases "h_error h = ERR_NONE")
    case True
    obtain s3 h3 where x: "(case g_strsplit2 (CHR ''='') part of [key, value] \<Rightarrow> header_pair key value (s1, h) | _ \<Rightarrow> (s1, h)) = (s3, h3)"
      by fastforce
    have "calm s w (fst (case g_strsplit2 (CHR ''='') part of [key, value] \<Rightarrow> header_pair key value (s1, h) | _ \<Rightarrow> (s1, h))) w' =
        calm s w s1 w'" by (simp add: header_pair_calm split: list.split)
    then have "calm s w s3 w' = calm s w s1 w'" unfolding x by simp
    with Cons.IH [of s3 h3] Cons.prems True x show ?thesis by simp
  qed (use Cons.prems in simp)
qed simp

lemma header_check_calm: "header_check env (s1, h) = Some (e, s2) \<Longrightarrow> calm s w s2 w' = calm s w s1 w'"
  by (auto simp: header_check_def Let_def split: if_splits option.splits Option.bind_split_asm)

lemma header_done_calm: "calm s w s1 w1 \<Longrightarrow> header_done e s1 w1 = (ok, s2, w2) \<Longrightarrow> calm s w s2 w2"
  using stamp_calm [of tm_response_update "stream_resetString s1" w1 s2 w2] calm_trans [of s w "stream_resetString s1" w1 s2 w2]
  by (auto simp: header_done_def Let_def split: if_splits prod.splits) (simp_all add: calm_def same_owner_def)

lemma readHeader_calm:
  assumes "readHeader env s w = Some (ok, s', w')"
  shows "calm s w s' w'"
proof -
  from assms obtain l s1 w1 where g: "getLine s w = Some (l, s1, w1)"
    by (auto simp: readHeader_def split: Option.bind_split_asm)
  show ?thesis
  proof (cases l)
    case None
    with assms g getLine_calm [OF g] show ?thesis by (simp add: readHeader_def)
  next
    case (Some line)
    obtain s2 h where p: "header_pairs (g_strsplit (CHR '' '') (c_str line)) (s1, header_start) = (s2, h)" by fastforce
    with assms g Some obtain e s3 where c: "header_check env (s2, h) = Some (e, s3)" "header_done e s3 w1 = (ok, s', w')"
      by (auto simp: readHeader_def split: Option.bind_split_asm)
    have "calm s w s3 w1"
      using getLine_calm [OF g] header_pairs_calm [OF p] header_check_calm [OF c(1)] by simp
    from header_done_calm [OF this c(2)] show ?thesis .
  qed
qed

lemma readModel_calm:
  assumes "readModel env s w = Some (ok, s', w')"
  shows "calm s w s' w'"
proof -
  let ?b = "case pr_buffer (st_peer s) of None \<Rightarrow> [] | Some b \<Rightarrow> b"
  let ?s0 = "upd_peer (pr_buffer_update (\<lambda>_. Some ?b)) s"
  let ?n = "min READ_BUFLEN (unat (pr_modelSize (st_peer ?s0) - of_nat (length ?b)))"
  from assms obtain r s1 w1 where r: "stream_read ?n ?s0 w = Some (r, s1, w1)"
    by (auto simp: readModel_def Let_def split: Option.bind_split_asm)
  from stream_read_calm [OF r] have c: "calm s w s1 w1" by simp
  show ?thesis
  proof (cases "\<exists>bs. r = Inr bs \<and> bs \<noteq> [] \<and> rv_state (st_recv s1) = RECV_MODEL")
    case False
    with assms r c show ?thesis
      by (auto simp: readModel_def Let_def split: Option.bind_split_asm sum.splits if_splits)
  next
    case True
    then obtain bs where bs: "r = Inr bs" "bs \<noteq> []" "rv_state (st_recv s1) = RECV_MODEL" by blast
    show ?thesis
    proof (cases "length (?b @ bs) = unat (pr_modelSize (st_peer s1))")
      case False
      with assms r c bs show ?thesis by (auto simp: readModel_def Let_def split: Option.bind_split_asm)
    next
      case True
      with assms r bs obtain mm where
        "(let s2 = (upd_peer (pr_buffer_update (\<lambda>_. None)) s1)\<lparr>st_mmodel := mm\<rparr> in
           (case mm of
              Some _ \<Rightarrow>
                if st_isCommander s2 then Some (True, s2, w1)
                else (case stamp tm_command_update s2 w1 of (s3, w3) \<Rightarrow> Some (True, s3, w3))
            | None \<Rightarrow>
                Some (False, changeSendState SEND_RESPONSE
                  (changeError ERR_MODEL (changeRecvState RECV_ERROR s2)), w1))) = Some (ok, s', w')"
        by (auto simp: readModel_def Let_def split: Option.bind_split_asm)
      moreover have "calm s w (changeSendState SEND_RESPONSE (changeError ERR_MODEL (changeRecvState RECV_ERROR s2))) w1"
        if "calm s w s2 w1" for s2 using that by (simp add: calm_def same_owner_def)
      ultimately show ?thesis using c
        by (auto simp: Let_def split: option.splits if_splits prod.splits intro: calm_trans dest!: stamp_calm)
    qed
  qed
qed

lemma modelStage_calm: "modelStage env s w = Some (ok, s', w') \<Longrightarrow> calm s w s' w'"
  by (auto simp: modelStage_def split: Option.bind_split_asm if_splits dest: readModel_calm)

lemma readPayload_calm:
  assumes "readPayload s w = Some (ok, s', w')"
  shows "calm s w s' w'"
proof (cases "rv_requestedBytes (st_recv s) = 0 \<and> rv_requestedZero (st_recv s)")
  case False
  with assms obtain n r s1 w1 where r: "stream_read n s w = Some (r, s1, w1)"
    and rest: "(case r of
           Inl _ \<Rightarrow> Some (False, s1, w1)
         | Inr bs \<Rightarrow>
             if bs = [] \<and> rv_requestedBytes (st_recv s1) = 0 then Some (True, s1, w1)
             else if bs = [] \<or> rv_state (st_recv s1) \<noteq> RECV_PAYLOAD then Some (False, s1, w1)
             else do {
               let (s2, w2) = (if rv_payloadBytes (st_recv s1) = 0
                               then stamp tm_firstPayloadByteRecv_update s1 w1 else (s1, w1));
               let (s3, w3) = stamp tm_lastPayloadByteRecv_update s2 w2;
               let s4 = upd_recv (rv_payloadBytes_update (\<lambda>n. n + of_nat (length bs))) s3;
               let s5 = (if rv_requestedBytes (st_recv s4) > 0
                         then upd_recv (rv_checksum_update (\<lambda>c. c @ bs)) s4 else s4);
               Some (rv_requestedBytes (st_recv s5) > 0 \<and>
                     rv_payloadBytes (st_recv s5) \<ge> rv_requestedBytes (st_recv s5), s5, w3)
             }) = Some (ok, s', w')"
    by (auto simp: readPayload_def Let_def split: Option.bind_split_asm if_splits)
  from rest stream_read_calm [OF r] show ?thesis
    by (auto simp: Let_def split: sum.splits if_splits prod.splits intro: calm_trans dest!: stamp_calm)
qed (use assms in \<open>simp add: readPayload_def\<close>)

lemma line_end_calm:
  assumes "getLine s w = Some (l, s1, w1)" "stamp f s1 w1 = (s2, w2)"
  shows "calm s w s2 w2" "e \<noteq> ERR_NONE \<Longrightarrow> calm s w (changeError e (changeRecvState RECV_ERROR s2)) w2"
  using calm_trans [OF getLine_calm [OF assms(1)] stamp_calm [OF assms(2)]]
  by (simp_all add: calm_def same_owner_def)

lemma readChecksum_calm: "readChecksum env s w = Some (ok, s', w') \<Longrightarrow> calm s w s' w'"
  by (auto simp: readChecksum_def Let_def split: Option.bind_split_asm option.splits if_splits prod.splits
      intro: getLine_calm line_end_calm)

lemma readFooter_calm: "readFooter s w = Some (ok, s', w') \<Longrightarrow> calm s w s' w'"
  by (auto simp: readFooter_def Let_def split: Option.bind_split_asm option.splits if_splits prod.splits
      intro: getLine_calm line_end_calm)

text \<open>The writing side.\<close>

lemma transport_write_notes:
  "tgentransport_write bs t w = (r, t', w') \<Longrightarrow> w_app w' = w_app w"
  by (auto simp: tgentransport_write_def split: prod.splits sum.splits if_splits dest: sys_write_frame)

lemma calm_send_upd [simp]:
  "calm s w (upd_send (sd_buffer_update b) s1) w1 = calm s w s1 w1"
  "calm (upd_send (sd_buffer_update b) s) w s1 w1 = calm s w s1 w1"
  "calm s w (upd_send (sd_payloadBytes_update f) s1) w1 = calm s w s1 w1"
  "calm s w (upd_send (sd_checksum_update c) s1) w1 = calm s w s1 w1"
  "calm (upd_send (sd_checksum_update c) s) w s1 w1 = calm s w s1 w1"
  "calm s w (upd_send (sd_deferBarrierMicros_update d) s1) w1 = calm s w s1 w1"
  "calm s w (upd_send (sd_expectedBytes_update f) s1) w1 = calm s w s1 w1"
  "calm s w (upd_recv (rv_expectedBytes_update f) s1) w1 = calm s w s1 w1"
  by (auto simp: calm_def same_owner_def)

lemma flushOut_calm: "flushOut s w = Some (n, s', w') \<Longrightarrow> calm s w s' w'"
  by (auto simp: flushOut_def Let_def calm_def same_owner_def
      split: option.splits Option.bind_split_asm prod.splits sum.splits if_splits dest: transport_write_notes)

lemma write_stage_calm: "write_stage msg f s w = Some (ok, s', w') \<Longrightarrow> calm s w s' w'"
  by (auto simp: write_stage_def split: option.splits Option.bind_split_asm prod.splits
      dest!: flushOut_calm stamp_calm intro: calm_trans)

lemma getTime_calm: "stream_getTime s w = (now, s', w') \<Longrightarrow> calm s w s' w'"
  by (auto simp: calm_def same_owner_def dest: getTime_frame)

lemma payload_observe_calm:
  assumes "payload_observe ml acc s = Some x"
  shows "calm s w (snd (snd x)) w"
  using assms
  by (cases acc) (auto simp: payload_observe_def Let_def split: Option.bind_splits if_splits)

lemma payload_loop_calm:
  assumes "payload_loop ml limit acc s w = Some y" "st_mmodel s \<noteq> None"
  shows "calm s w (fst (snd y)) (snd (snd y))"
  by (rule payload_loop_run [where P = "\<lambda>acc s y. calm s w (fst (snd y)) (snd (snd y))", OF assms])
    (auto simp: payload_defer_def split: prod.splits
      dest!: payload_observe_calm [where w = w] getTime_calm intro: calm_trans)

lemma flush_payload_calm: "flush_payload s w = Some (s', w') \<Longrightarrow> calm s w s' w'"
  by (auto simp: flush_payload_def Let_def split: Option.bind_split_asm prod.splits if_splits
      dest!: flushOut_calm stamp_calm intro: calm_trans)

lemma generate_payload_calm:
  assumes "generate_payload env s w = Some (s', w')" "st_mmodel s \<noteq> None"
  shows "calm s w s' w'"
proof -
  from assms obtain limit c s1 w1 where l: "payload_loop (se_ml env) limit (0, 0) s w = Some (c, s1, w1)"
    and rest: "(let n = (if sd_requestedBytes (st_send s1) > 0 then min limit c else c) in
       (if n > 0 then
          (case getRandomString n w1 of (buf, w2) \<Rightarrow>
             (let s2 = upd_send (sd_buffer_update (\<lambda>_. Some buf)) s1;
                  s3 = (if sd_requestedBytes (st_send s2) > 0
                        then upd_send (sd_checksum_update (\<lambda>c. c @ buf)) s2 else s2)
              in flush_payload s3 w2))
        else Some (s1, w1))) = Some (s', w')"
    by (auto simp: generate_payload_def Let_def split: Option.bind_split_asm if_splits)
  have "calm s w s1 w1" using payload_loop_calm [OF l assms(2)] by simp
  moreover have "calm s1 w1 s1 w2" if "getRandomString n w1 = (buf, w2)" for n buf w2
    using that by (auto simp: getRandomString_def g_random_int_def calm_def same_owner_def split: prod.splits list.splits)
  ultimately show ?thesis using rest
    by (auto simp: Let_def split: if_splits prod.splits dest!: flush_payload_calm) (blast intro: calm_trans)+
qed

lemma writePayload_calm:
  assumes "writePayload env s w = Some (ok, s', w')"
  shows "calm s w s' w'"
proof (cases "st_mmodel s = None")
  case True
  with assms show ?thesis by (auto simp: writePayload_def calm_def same_owner_def)
next
  case False
  with assms obtain s1 w1 where f: "flush_payload s w = Some (s1, w1)"
    and rest: "(if \<not> Option.is_none (sd_buffer (st_send s1)) then Some (False, s1, w1)
         else if doneSending s1 then Some (True, s1, w1)
         else do { (s2, w2) \<leftarrow> generate_payload env s1 w1; Some (False, s2, w2) }) = Some (ok, s', w')"
    by (auto simp: writePayload_def split: Option.bind_split_asm)
  obtain n s0 w0 where "flushOut s w = Some (n, s0, w0)" "st_mmodel s1 = st_mmodel s0"
    by (rule flush_payload_spec [OF f]) blast
  then have "st_mmodel s1 \<noteq> None" using False flushOut_spec(4) by (auto simp: flush_frame_def)
  with rest flush_payload_calm [OF f] show ?thesis
    by (auto split: if_splits Option.bind_split_asm dest!: generate_payload_calm intro: calm_trans)
qed

lemma write_handlers_calm:
  "writeCommand env s w = Some (ok, s', w') \<Longrightarrow> calm s w s' w'"
  "writeResponse s w = Some (ok, s', w') \<Longrightarrow> calm s w s' w'"
  "writeChecksum env s w = Some (ok, s', w') \<Longrightarrow> calm s w s' w'"
  "writeFooter s w = Some (ok, s', w') \<Longrightarrow> calm s w s' w'"
  "flushStage s w = Some (ok, s', w') \<Longrightarrow> calm s w s' w'"
  by (auto simp: writeCommand_def writeResponse_def writeChecksum_def writeFooter_def flushStage_def
      split: if_splits Option.bind_split_asm intro: write_stage_calm flushOut_calm)

section \<open>Stages\<close>

text \<open>
  What one event may do: an error is never taken back, the phases stay consistent, and as long as there
  is no error neither direction goes back to an earlier state.
\<close>

definition moves :: "stream \<Rightarrow> world \<Rightarrow> stream \<Rightarrow> world \<Rightarrow> bool" where
  "moves s w s' w' \<longleftrightarrow> same_owner s w s' w' \<and> (st_error s \<noteq> ERR_NONE \<longrightarrow> st_error s' \<noteq> ERR_NONE) \<and>
     (phase_ok s \<longrightarrow> phase_ok s') \<and>
     (phase_ok s \<and> st_error s' = ERR_NONE \<longrightarrow>
        recv_rank (rv_state (st_recv s)) \<le> recv_rank (rv_state (st_recv s')) \<and>
        send_rank (sd_state (st_send s)) \<le> send_rank (sd_state (st_send s')))"

lemma moves_refl [simp]: "moves s w s w" by (simp add: moves_def)

lemma moves_trans:
  assumes "moves s w s1 w1" "moves s1 w1 s2 w2"
  shows "moves s w s2 w2"
proof -
  have "same_owner s w s2 w2" using assms by (auto simp: moves_def intro: same_owner_trans)
  moreover have "st_error s2 = ERR_NONE \<longrightarrow> st_error s1 = ERR_NONE" using assms(2) by (auto simp: moves_def)
  ultimately show ?thesis using assms unfolding moves_def by (meson le_trans)
qed

lemma calm_moves:
  assumes "calm s w s' w'"
  shows "moves s w s' w'"
proof (cases "st_error s' = ERR_NONE")
  case True
  with assms show ?thesis by (simp add: calm_def moves_def phase_ok_def same_owner_def)
next
  case False
  with assms show ?thesis by (simp add: calm_def moves_def phase_ok_def)
qed

text \<open>The transition at the end of a stage, from a state in which the stage is due.\<close>

lemma moves_step:
  assumes "same_owner s w s' w" "st_error s' = st_error s"
    and "phase_ok s \<Longrightarrow> st_error s = ERR_NONE \<Longrightarrow> phase_ok s' \<and>
      recv_rank (rv_state (st_recv s)) \<le> recv_rank (rv_state (st_recv s')) \<and>
      send_rank (sd_state (st_send s)) \<le> send_rank (sd_state (st_send s'))"
  shows "moves s w s' w"
  using assms by (cases "st_error s = ERR_NONE") (auto simp: moves_def phase_ok_def)

lemma recv_stage_moves:
  assumes "recv_stage q handler advance s w = Some (s', w')"
    and handler: "\<And>ok s1 w1. handler s w = Some (ok, s1, w1) \<Longrightarrow> calm s w s1 w1"
    and advance: "\<And>s1 w1. rv_state (st_recv s1) = q \<Longrightarrow> moves s1 w1 (advance s1) w1"
      "\<And>s1 w1. st_error s1 \<noteq> ERR_NONE \<Longrightarrow> moves s1 w1 (advance s1) w1"
  shows "moves s w s' w'"
proof (cases "rv_state (st_recv s) = q")
  case True
  with assms(1) obtain ok s1 w1 where h: "handler s w = Some (ok, s1, w1)" "s' = (if ok then advance s1 else s1)" "w' = w1"
    by (auto simp: recv_stage_def split: Option.bind_split_asm)
  note c = handler [OF h(1)]
  have "moves s1 w1 (advance s1) w1"
    using c advance [of s1 w1] True by (auto simp: calm_def)
  with h calm_moves [OF c] show ?thesis by (auto intro: moves_trans)
qed (use assms(1) in \<open>simp add: recv_stage_def\<close>)

lemma send_stage_moves:
  assumes "send_stage q handler advance s w = Some (s', w')"
    and handler: "\<And>ok s1 w1. handler s w = Some (ok, s1, w1) \<Longrightarrow> calm s w s1 w1"
    and advance: "\<And>s1 w1. sd_state (st_send s1) = q \<Longrightarrow> moves s1 w1 (advance s1) w1"
      "\<And>s1 w1. st_error s1 \<noteq> ERR_NONE \<Longrightarrow> moves s1 w1 (advance s1) w1"
  shows "moves s w s' w'"
proof (cases "sd_state (st_send s) = q")
  case True
  with assms(1) obtain ok s1 w1 where h: "handler s w = Some (ok, s1, w1)" "s' = (if ok then advance s1 else s1)" "w' = w1"
    by (auto simp: send_stage_def split: Option.bind_split_asm)
  note c = handler [OF h(1)]
  have "moves s1 w1 (advance s1) w1"
    using c advance [of s1 w1] True by (auto simp: calm_def)
  with h calm_moves [OF c] show ?thesis by (auto intro: moves_trans)
qed (use assms(1) in \<open>simp add: send_stage_def\<close>)

lemmas phase_simps = phase_ok_def receiving_states_def sending_states_def same_owner_def

lemma recv_stages_moves:
  assumes "recv_stages env s w = Some (s', w')"
  shows "moves s w s' w'"
proof -
  from assms obtain s1 w1 s2 w2 s3 w3 s4 w4 s5 w5 where
    1: "recv_stage RECV_AUTHENTICATE readAuthenticate (changeRecvState RECV_HEADER) s w = Some (s1, w1)" and
    2: "recv_stage RECV_HEADER (readHeader env)
          (\<lambda>s. changeRecvState (if st_isCommander s then RECV_PAYLOAD else RECV_MODEL) s) s1 w1 = Some (s2, w2)" and
    3: "recv_stage RECV_MODEL (modelStage env)
          (\<lambda>s. changeRecvState RECV_PAYLOAD (changeSendState SEND_RESPONSE s)) s2 w2 = Some (s3, w3)" and
    4: "recv_stage RECV_PAYLOAD readPayload (changeRecvState RECV_CHECKSUM) s3 w3 = Some (s4, w4)" and
    5: "recv_stage RECV_CHECKSUM (readChecksum env) (changeRecvState RECV_FOOTER) s4 w4 = Some (s5, w5)" and
    6: "recv_stage RECV_FOOTER readFooter (changeRecvState RECV_SUCCESS) s5 w5 = Some (s', w')"
    by (auto simp: recv_stages_def split: Option.bind_split_asm)
  have "moves s w s1 w1"
    by (rule recv_stage_moves [OF 1 readAuthenticate_calm]) (auto intro!: moves_step simp: phase_simps split: if_splits)
  moreover have "moves s1 w1 s2 w2"
    by (rule recv_stage_moves [OF 2 readHeader_calm]) (auto intro!: moves_step simp: phase_simps split: if_splits)
  moreover have "moves s2 w2 s3 w3"
    by (rule recv_stage_moves [OF 3 modelStage_calm]) (auto intro!: moves_step simp: phase_simps split: if_splits)
  moreover have "moves s3 w3 s4 w4"
    by (rule recv_stage_moves [OF 4 readPayload_calm]) (auto intro!: moves_step simp: phase_simps split: if_splits)
  moreover have "moves s4 w4 s5 w5"
    by (rule recv_stage_moves [OF 5 readChecksum_calm]) (auto intro!: moves_step simp: phase_simps split: if_splits)
  moreover have "moves s5 w5 s' w'"
    by (rule recv_stage_moves [OF 6 readFooter_calm]) (auto intro!: moves_step simp: phase_simps split: if_splits)
  ultimately show ?thesis by (blast intro: moves_trans)
qed

lemma send_stages_moves:
  assumes "send_stages env s w = Some (s', w')"
  shows "moves s w s' w'"
proof -
  from assms obtain s1 w1 s2 w2 s3 w3 s4 w4 s5 w5 where
    1: "send_stage SEND_COMMAND (\<lambda>s w. do { g_assert (st_isCommander s); writeCommand env s w })
          (\<lambda>s. changeSendState SEND_PAYLOAD (changeRecvState RECV_AUTHENTICATE s)) s w = Some (s1, w1)" and
    2: "send_stage SEND_RESPONSE (\<lambda>s w. do { g_assert (\<not> st_isCommander s); writeResponse s w })
          (\<lambda>s. changeSendState (if st_error s = ERR_NONE then SEND_PAYLOAD else SEND_SUCCESS) s) s1 w1 = Some (s2, w2)" and
    3: "send_stage SEND_PAYLOAD (writePayload env) (changeSendState SEND_CHECKSUM) s2 w2 = Some (s3, w3)" and
    4: "send_stage SEND_CHECKSUM (writeChecksum env) (changeSendState SEND_FOOTER) s3 w3 = Some (s4, w4)" and
    5: "send_stage SEND_FOOTER writeFooter (changeSendState SEND_FLUSH) s4 w4 = Some (s5, w5)" and
    6: "send_stage SEND_FLUSH flushStage (changeSendState SEND_SUCCESS) s5 w5 = Some (s', w')"
    by (auto simp: send_stages_def split: Option.bind_split_asm)
  have "moves s w s1 w1"
    by (rule send_stage_moves [OF 1])
      (auto intro!: moves_step dest: write_handlers_calm(1) simp: phase_simps split: Option.bind_split_asm if_splits)
  moreover have "moves s1 w1 s2 w2"
    by (rule send_stage_moves [OF 2])
      (auto intro!: moves_step dest: write_handlers_calm(2) simp: phase_simps split: Option.bind_split_asm if_splits)
  moreover have "moves s2 w2 s3 w3"
    by (rule send_stage_moves [OF 3 writePayload_calm]) (auto intro!: moves_step simp: phase_simps split: if_splits)
  moreover have "moves s3 w3 s4 w4"
    by (rule send_stage_moves [OF 4 write_handlers_calm(3)]) (auto intro!: moves_step simp: phase_simps split: if_splits)
  moreover have "moves s4 w4 s5 w5"
    by (rule send_stage_moves [OF 5 write_handlers_calm(4)]) (auto intro!: moves_step simp: phase_simps split: if_splits)
  moreover have "moves s5 w5 s' w'"
    by (rule send_stage_moves [OF 6 write_handlers_calm(5)]) (auto intro!: moves_step simp: phase_simps split: if_splits)
  ultimately show ?thesis by (blast intro: moves_trans)
qed

section \<open>Events\<close>

definition both_done :: "stream \<Rightarrow> bool" where
  "both_done s \<longleftrightarrow> rv_state (st_recv s) = RECV_SUCCESS \<and> sd_state (st_send s) = SEND_SUCCESS"

text \<open>A finished stream stays finished.\<close>

definition steps :: "stream \<Rightarrow> world \<Rightarrow> stream \<Rightarrow> world \<Rightarrow> bool" where
  "steps s w s' w' \<longleftrightarrow> moves s w s' w' \<and> (both_done s \<longrightarrow> both_done s')"

lemma steps_refl [simp]: "steps s w s w" by (simp add: steps_def)

lemma steps_trans: "steps s w s1 w1 \<Longrightarrow> steps s1 w1 s2 w2 \<Longrightarrow> steps s w s2 w2"
  by (auto simp: steps_def intro: moves_trans)

lemma steps_if_states:
  "moves s w s' w' \<Longrightarrow> st_recv s' = st_recv s \<Longrightarrow> st_send s' = st_send s \<Longrightarrow> steps s w s' w'"
  by (simp add: steps_def both_done_def)

lemma stamp_steps: "stamp f s w = (s', w') \<Longrightarrow> steps s w s' w'"
  by (intro steps_if_states) (auto dest: stamp_states stamp_calm calm_moves)

lemma getTime_steps: "stream_getTime s w = (now, s', w') \<Longrightarrow> steps s w s' w'"
  by (intro steps_if_states) (auto dest: getTime_frame getTime_calm calm_moves)

lemma recv_stages_done: "both_done s \<Longrightarrow> recv_stages env s w = Some (s, w)"
  by (simp add: both_done_def recv_stages_def recv_stage_def)

lemma send_stages_done: "both_done s \<Longrightarrow> send_stages env s w = Some (s, w)"
  by (simp add: both_done_def send_stages_def send_stage_def)

lemma recv_stages_steps: "recv_stages env s w = Some (s', w') \<Longrightarrow> steps s w s' w'"
  using recv_stages_moves [of env s w s' w'] recv_stages_done [of s env w] by (auto simp: steps_def)

lemma send_stages_steps: "send_stages env s w = Some (s', w') \<Longrightarrow> steps s w s' w'"
  using send_stages_moves [of env s w s' w'] send_stages_done [of s env w] by (auto simp: steps_def)

lemma onReadable_steps: "onReadable env s w = Some (s', w') \<Longrightarrow> steps s w s' w'"
  by (auto simp: onReadable_def split: Option.bind_split_asm if_splits
      dest!: recv_stages_steps stamp_steps intro: steps_trans)

lemma defer_steps: "steps s w (upd_send (sd_deferBarrierMicros_update f) s) w"
  by (simp add: steps_def moves_def same_owner_def phase_ok_def both_done_def)

lemma onWritable_steps: "onWritable env s w = Some (s', w') \<Longrightarrow> steps s w s' w'"
  by (auto simp: onWritable_def split: Option.bind_split_asm if_splits prod.splits
      dest!: send_stages_steps stamp_steps getTime_steps) (blast intro: steps_trans defer_steps)+

lemma wanted_cases:
  assumes "computeWantedEvents s = (ev, s')"
  shows "s' = (if model_recvDone s then changeRecvState RECV_SUCCESS s else s)"
    "EV_DONE \<in> ev \<longleftrightarrow> (recvDone0 s \<or> model_recvDone s) \<and> sendDone s"
  using assms by (auto simp: computeWantedEvents_def Let_def split: if_splits)

lemma wanted_steps: "computeWantedEvents s = (ev, s') \<Longrightarrow> steps s w s' w"
proof -
  assume "computeWantedEvents s = (ev, s')"
  note s' = wanted_cases(1) [OF this]
  have "moves s w (changeRecvState RECV_SUCCESS s) w" if "model_recvDone s"
    using that by (intro moves_step)
      (auto simp: phase_simps model_recvDone_def sendDone_def recvDone0_def split: if_splits)
  then show ?thesis by (simp add: s' steps_def both_done_def)
qed

text \<open>Once an end is wanted without an error, both directions have succeeded.\<close>

lemma wanted_done:
  assumes "computeWantedEvents s = (ev, s')" "phase_ok s" "EV_DONE \<in> ev"
  shows "st_error s' = st_error s" "st_error s = ERR_NONE \<longrightarrow> both_done s'"
proof -
  show "st_error s' = st_error s" by (simp add: wanted_cases(1) [OF assms(1)])
  show "st_error s = ERR_NONE \<longrightarrow> both_done s'"
  proof
    assume e: "st_error s = ERR_NONE"
    have "recvDone0 s \<or> model_recvDone s" "sendDone s" using wanted_cases(2) [OF assms(1)] assms(3) by auto
    moreover have "sd_state (st_send s) \<noteq> SEND_ERROR" "rv_state (st_recv s) \<noteq> RECV_ERROR"
      using assms(2) e by (auto simp: phase_simps split: if_splits)
    ultimately show "both_done s'"
      using e by (auto simp: wanted_cases(1) [OF assms(1)] both_done_def recvDone0_def sendDone_def)
  qed
qed

lemma wanted_error: "st_error s \<noteq> ERR_NONE \<Longrightarrow> computeWantedEvents s = ({EV_DONE}, s)"
  by (simp add: computeWantedEvents_def recvDone0_def sendDone_def model_recvDone_def)

lemma ERRHUP_steps: "steps s w (onEpollERRHUP s) w"
proof -
  obtain ev s1 where c: "computeWantedEvents s = (ev, s1)" by fastforce
  have a: "steps s w s1 w" by (rule wanted_steps [OF c])
  show ?thesis
  proof (cases "EV_DONE \<in> ev")
    case True
    with a c show ?thesis by (simp add: onEpollERRHUP_def)
  next
    case False
    with wanted_cases(2) [OF c] have nb: "\<not> both_done s"
      by (auto simp: both_done_def recvDone0_def sendDone_def)
    have "moves s1 w (onEpollERRHUP s) w"
      using c False by (auto simp: onEpollERRHUP_def Let_def moves_def phase_ok_def same_owner_def)
    with a nb show ?thesis by (auto simp: steps_def intro: moves_trans)
  qed
qed

lemma ERRHUP_done: "EV_DONE \<in> fst (computeWantedEvents (onEpollERRHUP s))"
proof -
  obtain ev s1 where c: "computeWantedEvents s = (ev, s1)" by fastforce
  show ?thesis
  proof (cases "EV_DONE \<in> ev")
    case True
    with c have "onEpollERRHUP s = s1" by (simp add: onEpollERRHUP_def)
    moreover have "recvDone0 s1 \<and> sendDone s1"
      using wanted_cases [OF c] True by (cases "model_recvDone s") (auto simp: recvDone0_def sendDone_def model_recvDone_def)
    ultimately show ?thesis by (simp add: computeWantedEvents_def Let_def)
  next
    case False
    with c have "st_error (onEpollERRHUP s) \<noteq> ERR_NONE" by (simp add: onEpollERRHUP_def Let_def)
    then show ?thesis by (simp add: wanted_error)
  qed
qed

lemma runIO_steps:
  assumes "runIO env events s w = Some (s', w')"
  shows "steps s w s' w'" "EV_DONE \<in> events \<longrightarrow> EV_DONE \<in> fst (computeWantedEvents s')"
proof -
  from assms obtain s1 w1 s2 w2 where
    1: "(if EV_READ \<in> events then onReadable env s w else Some (s, w)) = Some (s1, w1)" and
    2: "(if EV_WRITE \<in> events then onWritable env s1 w1 else Some (s1, w1)) = Some (s2, w2)" and
    3: "(if EV_DONE \<in> events then
          do {
            (s3, w3) \<leftarrow> onReadable env s2 w2;
            (s4, w4) \<leftarrow> onReadable env s3 w3;
            (s5, w5) \<leftarrow> onWritable env (upd_send (sd_deferBarrierMicros_update (\<lambda>_. 0)) s4) w4;
            Some (onEpollERRHUP s5, w5)
          }
        else Some (s2, w2)) = Some (s', w')"
    by (auto simp: runIO_def split: Option.bind_split_asm)
  have "steps s w s1 w1" using 1 by (cases "EV_READ \<in> events") (simp_all add: onReadable_steps)
  moreover have "steps s1 w1 s2 w2" using 2 by (cases "EV_WRITE \<in> events") (simp_all add: onWritable_steps)
  ultimately have a: "steps s w s2 w2" by (rule steps_trans)
  have "steps s2 w2 s' w' \<and> (EV_DONE \<in> events \<longrightarrow> EV_DONE \<in> fst (computeWantedEvents s'))"
  proof (cases "EV_DONE \<in> events")
    case True
    with 3 obtain s3 w3 s4 w4 s5 where b: "onReadable env s2 w2 = Some (s3, w3)" "onReadable env s3 w3 = Some (s4, w4)"
      "onWritable env (upd_send (sd_deferBarrierMicros_update (\<lambda>_. 0)) s4) w4 = Some (s5, w')" "s' = onEpollERRHUP s5"
      by (auto split: Option.bind_split_asm)
    have "steps s2 w2 s' w'"
      unfolding b(4)
      by (intro steps_trans [OF onReadable_steps [OF b(1)]] steps_trans [OF onReadable_steps [OF b(2)]]
          steps_trans [OF defer_steps onWritable_steps [OF b(3)], THEN steps_trans] ERRHUP_steps)
    then show ?thesis using b(4) ERRHUP_done by simp
  qed (use 3 in simp)
  with a show "steps s w s' w'" "EV_DONE \<in> events \<longrightarrow> EV_DONE \<in> fst (computeWantedEvents s')"
    by (blast intro: steps_trans)+
qed

section \<open>What the owner is told\<close>

text \<open>The effect of one handler call, the notification included.\<close>

definition reports_step :: "stream \<Rightarrow> world \<Rightarrow> stream \<Rightarrow> world \<Rightarrow> bool" where
  "reports_step s w s' w' \<longleftrightarrow>
     (st_notifyFunc s' = st_notifyFunc s \<and> a_notes (w_app w') = a_notes (w_app w)) \<or>
     (st_notifyFunc s \<and> \<not> st_notifyFunc s' \<and>
      (a_notes (w_app w') = a_notes (w_app w) @ [(st_actionID s, {STREAM_COMPLETE, STREAM_SUCCESS})] \<and> both_done s' \<or>
       a_notes (w_app w') = a_notes (w_app w) @ [(st_actionID s, {STREAM_COMPLETE})] \<and> st_error s' \<noteq> ERR_NONE))"

definition handled :: "stream \<Rightarrow> world \<Rightarrow> stream \<Rightarrow> world \<Rightarrow> bool" where
  "handled s w s' w' \<longleftrightarrow> (\<exists>s0 w0. steps s w s0 w0 \<and> phase_ok s0 \<and>
     ((s', w') = (s0, w0) \<or> (s', w') = callNotifyComplete s0 w0 \<and> (st_error s0 = ERR_NONE \<longrightarrow> both_done s0)))"

lemma stream_log_steps: "stream_log ml act s w = Some (s', w') \<Longrightarrow> steps s w s' w'"
  by (drule stream_log_reported)
    (auto simp: reported_def steps_def moves_def phase_ok_def same_owner_def both_done_def)

lemma error_steps: "e \<noteq> ERR_NONE \<Longrightarrow> steps s w (changeError e s) w"
  by (simp add: steps_def moves_def phase_ok_def same_owner_def both_done_def)

lemma same_steps:
  "steps s w (fresh_time s) w" "steps s w (s\<lparr>st_transport := t\<rparr>) w"
  by (simp_all add: steps_def moves_def phase_ok_def same_owner_def both_done_def fresh_time_def)

lemma world_steps: "a_notes (w_app w') = a_notes (w_app w) \<Longrightarrow> steps s w s w'"
  by (simp add: steps_def moves_def phase_ok_def same_owner_def both_done_def)

lemma steps_phase: "steps s w s' w' \<Longrightarrow> phase_ok s \<Longrightarrow> phase_ok s'"
  by (simp add: steps_def moves_def)

lemma steps_error: "steps s w s' w' \<Longrightarrow> st_error s \<noteq> ERR_NONE \<Longrightarrow> st_error s' \<noteq> ERR_NONE"
  by (simp add: steps_def moves_def)

lemma handledI: "steps s w s0 w0 \<Longrightarrow> phase_ok s \<Longrightarrow> handled s w s0 w0"
  by (auto simp: handled_def dest: steps_phase)

lemma handled_completeI:
  "steps s w s0 w0 \<Longrightarrow> phase_ok s \<Longrightarrow> (st_error s0 = ERR_NONE \<Longrightarrow> both_done s0) \<Longrightarrow>
     callNotifyComplete s0 w0 = (s', w') \<Longrightarrow> handled s w s' w'"
  unfolding handled_def by (intro exI [of _ s0] exI [of _ w0]) (simp add: steps_phase)

lemma fails_handled:
  assumes "steps s w s0 w0" "phase_ok s" "e \<noteq> ERR_NONE"
    and "stream_log ml act (changeError e s0) w0 = Some (s1, w1)" "callNotifyComplete s1 w1 = (s', w')"
  shows "handled s w s' w'"
proof (rule handled_completeI [OF _ assms(2) _ assms(5)])
  show "steps s w s1 w1"
    using assms(1) error_steps [OF assms(3)] stream_log_steps [OF assms(4)] by (blast intro: steps_trans)
  show "both_done s1" if "st_error s1 = ERR_NONE"
    using steps_error [OF stream_log_steps [OF assms(4)]] assms(3) that by simp
qed

text \<open>The transport never touches the notifications.\<close>

lemma runStreamEventLoop_handled:
  assumes "runStreamEventLoop env events s w = Some (r, s', w')" "phase_ok s"
  shows "handled s w s' w'"
proof -
  from assms(1) obtain s1 w1 wanted s2 act s3 w3 where io: "runIO env events s w = Some (s1, w1)"
    and want: "computeWantedEvents s1 = (wanted, s2)" and log: "stream_log (se_ml env) act s2 w1 = Some (s3, w3)"
    and rest: "(if EV_DONE \<in> events \<or> EV_DONE \<in> wanted
        then (case callNotifyComplete s3 w3 of (s4, w4) \<Rightarrow> Some (\<lparr>ir_events = wanted, ir_deferUntilUSec = 0\<rparr>, s4, w4))
        else if EV_WRITE_DEFERRED \<in> wanted
        then do { g_assert (sd_deferBarrierMicros (st_send s3) > 0);
                  Some (\<lparr>ir_events = wanted, ir_deferUntilUSec = sd_deferBarrierMicros (st_send s3)\<rparr>, s3, w3) }
        else Some (\<lparr>ir_events = wanted, ir_deferUntilUSec = 0\<rparr>, s3, w3)) = Some (r, s', w')"
    by (auto simp: runStreamEventLoop_def Let_def split: Option.bind_split_asm prod.splits)
  have a: "steps s w s2 w1" using runIO_steps(1) [OF io] wanted_steps [OF want] by (rule steps_trans)
  have b: "steps s w s3 w3" using a stream_log_steps [OF log] by (rule steps_trans)
  show ?thesis
  proof (cases "EV_DONE \<in> events \<or> EV_DONE \<in> wanted")
    case True
    with runIO_steps(2) [OF io] want have d: "EV_DONE \<in> wanted" by auto
    have "both_done s3" if "st_error s3 = ERR_NONE"
    proof -
      have "phase_ok s1" by (rule steps_phase [OF runIO_steps(1) [OF io] assms(2)])
      from wanted_done [OF want this d] stream_log_reported [OF log] that show ?thesis
        by (auto simp: reported_def both_done_def)
    qed
    with True rest b show ?thesis
      by (intro handled_completeI [OF b assms(2)]) (auto split: prod.splits)
  next
    case False
    with rest have "s' = s3" "w' = w3" by (auto split: if_splits Option.bind_split_asm)
    with handledI [OF b assms(2)] show ?thesis by simp
  qed
qed

text \<open>The transport never touches what belongs to the application.\<close>

definition app_kept :: "(transport \<Rightarrow> world \<Rightarrow> (tgen_event set \<times> transport \<times> world) option) \<Rightarrow> bool" where
  "app_kept f \<longleftrightarrow> (\<forall>t w ev t' w'. f t w = Some (ev, t', w') \<longrightarrow> w_app w' = w_app w)"

lemma app_keptD: "app_kept f \<Longrightarrow> f t w = Some (ev, t', w') \<Longrightarrow> w_app w' = w_app w"
  by (simp add: app_kept_def)

lemma app_send:
  assumes "\<And>t w t' w'. finish t w = (t', w') \<Longrightarrow> w_app w' = w_app w"
  shows "app_kept (socks_send finish)"
  by (auto simp: app_kept_def socks_send_def split: option.splits prod.splits sum.splits if_splits
      dest!: transport_write_notes assms)

lemma app_receive:
  assumes "\<And>buf. app_kept (handle buf)"
  shows "app_kept (socks_receive n handle)"
  by (auto simp: app_kept_def socks_receive_def socksReceiveHelper_def Let_def
      split: option.splits prod.splits sum.splits if_splits Option.bind_split_asm
      dest!: transport_read_notes app_keptD [OF assms])

lemma finish_app:
  "finish_init t w = (t', w') \<Longrightarrow> w_app w' = w_app w" "finish_auth t w = (t', w') \<Longrightarrow> w_app w' = w_app w"
  "finish_request t w = (t', w') \<Longrightarrow> w_app w' = w_app w"
  by (auto simp: finish_init_def finish_auth_def finish_request_def split: prod.splits dest: time_frame)

lemma finish_response_app: "app_kept (\<lambda>t w. finish_response (f t) w)"
  by (auto simp: app_kept_def finish_response_def split: prod.splits dest: time_frame)

lemma app_compose: "app_kept f \<Longrightarrow> app_kept (\<lambda>t w. f (g t) w)"
  by (simp add: app_kept_def)

lemma app_if: "app_kept f \<Longrightarrow> app_kept g \<Longrightarrow> app_kept (\<lambda>t w. if b t w then f t w else g t w)"
  by (simp add: app_kept_def)

lemma app_pure: "app_kept (\<lambda>t w. Some (e t w, g t w, w))"
  by (simp add: app_kept_def)

lemma app_timed:
  assumes "\<And>now. app_kept (f now)"
  shows "app_kept (\<lambda>t w. case g_get_monotonic_time w of (now, w') \<Rightarrow> f now t w')"
  using assms by (auto simp: app_kept_def split: prod.splits dest!: time_frame)

lemma handlers_app:
  "app_kept sendSocksInit" "app_kept receiveSocksChoice" "app_kept sendSocksAuth" "app_kept receiveSocksAuth"
  "app_kept (sendSocksRequest db)" "app_kept receiveResponseStatus" "app_kept receiveResponseType"
  "app_kept receiveResponseTypeIPv4" "app_kept receiveResponseTypeNameLen" "app_kept receiveResponseTypeName"
proof -
  show "app_kept sendSocksInit"
    using app_keptD [OF app_send [OF finish_app(1)]]
    by (auto simp: app_kept_def sendSocksInit_def split: option.splits Option.bind_split_asm)
  show "app_kept sendSocksAuth"
    using app_keptD [OF app_send [OF finish_app(2)]]
    by (auto simp: app_kept_def sendSocksAuth_def split: option.splits)
  show "app_kept (sendSocksRequest db)"
    using app_keptD [OF app_send [OF finish_app(3)]]
    by (auto simp: app_kept_def sendSocksRequest_def split: option.splits prod.splits)
  show "app_kept receiveSocksChoice"
    unfolding receiveSocksChoice_def handleSocksChoice_def [abs_def] Let_def
    by (intro app_receive app_timed app_if app_pure)
  show "app_kept receiveSocksAuth"
    unfolding receiveSocksAuth_def Let_def by (intro app_receive app_if app_pure)
  show ip: "app_kept receiveResponseTypeIPv4"
    unfolding receiveResponseTypeIPv4_def by (rule app_receive) (rule finish_response_app)
  show name: "app_kept receiveResponseTypeName"
    using app_keptD [OF app_receive [OF finish_response_app]]
    by (auto simp: app_kept_def receiveResponseTypeName_def Let_def split: option.splits list.splits)
  show len: "app_kept receiveResponseTypeNameLen"
    unfolding receiveResponseTypeNameLen_def by (intro app_receive app_compose [OF name])
  show type: "app_kept receiveResponseType"
    unfolding receiveResponseType_def Let_def by (intro app_receive app_if app_pure app_compose [OF ip] app_compose [OF len])
  show "app_kept receiveResponseStatus"
    unfolding receiveResponseStatus_def Let_def by (intro app_receive app_if app_pure app_compose [OF type])
qed

lemma transport_step_app: "app_kept (xport_step db events)"
  unfolding app_kept_def
proof (intro allI impI)
  fix t w ev t' w'
  assume x: "xport_step db events t w = Some (ev, t', w')"
  note h = handlers_app(1-4,6-10) [THEN app_keptD, of t w ev t' w'] handlers_app(5) [THEN app_keptD, of db t w ev t' w']
  show "w_app w' = w_app w"
    using x h by (cases "xp_state t") (simp_all add: xport_step_def split: if_splits)
qed

lemma transport_event_app:
  assumes "tgentransport_onEvent db events t w = Some (ev, t', w')"
  shows "w_app w' = w_app w"
proof -
  obtain now w1 where t: "g_get_monotonic_time w = (now, w1)" by fastforce
  then have "w_app w1 = w_app w" by (auto dest: time_frame)
  then show ?thesis
    using assms t unfolding tgentransport_onEvent_def Let_def
    by (auto split: if_splits dest!: app_keptD [OF transport_step_app])
qed

lemma transport_timeout_app: "tgentransport_checkTimeout a b t w = (x, t', w') \<Longrightarrow> w_app w' = w_app w"
  by (auto simp: tgentransport_checkTimeout_def Let_def split: if_splits prod.splits dest: time_frame)

lemma handled_pre: "steps s w s0 w0 \<Longrightarrow> handled s0 w0 s' w' \<Longrightarrow> handled s w s' w'"
  unfolding handled_def by (blast intro: steps_trans)

lemma runTransportEventLoop_handled:
  assumes "runTransportEventLoop env events s w = Some (r, s', w')" "phase_ok s"
  shows "handled s w s' w'"
proof -
  from assms(1) obtain t ret t' w1 where t: "st_transport s = Some t"
    and ev: "tgentransport_onEvent (se_db env) events t w = Some (ret, t', w1)"
    by (auto simp: runTransportEventLoop_def split: Option.bind_split_asm)
  let ?s = "s\<lparr>st_transport := Some t'\<rparr>"
  have a: "steps s w ?s w1"
    using transport_event_app [OF ev] by (intro steps_trans [OF same_steps(2) world_steps]) simp
  show ?thesis
  proof (cases "ret = {}")
    case True
    with assms(1) t ev obtain s1 w2 where "stream_log (se_ml env) False (changeError ERR_PROXY ?s) w1 = Some (s1, w2)"
      "callNotifyComplete s1 w2 = (s', w')"
      by (auto simp: runTransportEventLoop_def split: Option.bind_split_asm prod.splits)
    from fails_handled [OF a assms(2) _ this] show ?thesis by simp
  next
    case False
    with assms(1) t ev have "stamp tm_lastProgress_update ?s w1 = (s', w')"
      by (auto simp: runTransportEventLoop_def split: prod.splits)
    with a show ?thesis by (intro handledI assms(2) steps_trans [OF a stamp_steps])
  qed
qed

lemma stream_onEvent_handled:
  assumes "tgenstream_onEvent env events s w = Some (r, s', w')" "phase_ok s"
  shows "handled s w s' w'"
proof -
  have "phase_ok (fresh_time s)" using steps_phase [OF same_steps(1) assms(2)] .
  with assms(1) have "handled (fresh_time s) w s' w'"
    by (auto simp: tgenstream_onEvent_def Let_def split: if_splits
        intro: runTransportEventLoop_handled runStreamEventLoop_handled)
  then show ?thesis by (rule handled_pre [OF same_steps(1)])
qed

lemma onCheckTimeout_handled:
  assumes "tgenstream_onCheckTimeout ml s w = Some (r, s', w')" "phase_ok s"
  shows "handled s w s' w'"
proof (cases "if tm_lastProgress (st_time (fresh_time s)) \<le> 0 then st_transport (fresh_time s) else None")
  case None
  obtain now s1 w1 where g: "stream_getTime (fresh_time s) w = (now, s1, w1)" by (cases "stream_getTime (fresh_time s) w")
  have a: "steps s w s1 w1" by (rule steps_trans [OF same_steps(1) getTime_steps [OF g]])
  from assms(1) None g consider "s' = s1" "w' = w1"
    | e s2 w2 where "e \<noteq> ERR_NONE" "stream_log ml False (changeError e s1) w1 = Some (s2, w2)" "callNotifyComplete s2 w2 = (s', w')"
    by (auto simp: tgenstream_onCheckTimeout_def stream_checkTimeout_def Let_def
        split: if_splits Option.bind_split_asm prod.splits)
  then show ?thesis by cases (auto intro: handledI a assms(2) fails_handled [OF a assms(2)])
next
  case (Some t)
  obtain x t' w1 where c: "tgentransport_checkTimeout (st_stalloutUSecs (fresh_time s)) (st_timeoutUSecs (fresh_time s)) t w = (x, t', w1)"
    by (metis prod_cases3)
  let ?s = "(fresh_time s)\<lparr>st_transport := Some t'\<rparr>"
  have a: "steps s w ?s w1"
    using transport_timeout_app [OF c]
    by (intro steps_trans [OF same_steps(1) steps_trans [OF same_steps(2) world_steps]]) simp
  from assms(1) Some c consider "s' = ?s" "w' = w1"
    | s2 w2 where "stream_log ml False (changeError ERR_PROXY ?s) w1 = Some (s2, w2)" "callNotifyComplete s2 w2 = (s', w')"
    by (auto simp: tgenstream_onCheckTimeout_def Let_def split: if_splits Option.bind_split_asm prod.splits)
  then show ?thesis
  proof cases
    case 1
    with handledI [OF a assms(2)] show ?thesis by simp
  next
    case 2
    then show ?thesis by (intro fails_handled [OF a assms(2), of ERR_PROXY]) auto
  qed
qed

text \<open>What a handled event means for phases, progress and reports.\<close>

lemma handled_effect:
  assumes "handled s w s' w'" "phase_ok s"
  shows "phase_ok s'" "reports_step s w s' w'" "both_done s \<longrightarrow> both_done s'"
    "st_error s \<noteq> ERR_NONE \<longrightarrow> st_error s' \<noteq> ERR_NONE" "st_actionID s' = st_actionID s"
    "st_error s' = ERR_NONE \<longrightarrow> recv_rank (rv_state (st_recv s)) \<le> recv_rank (rv_state (st_recv s')) \<and>
       send_rank (sd_state (st_send s)) \<le> send_rank (sd_state (st_send s'))"
proof -
  from assms(1) obtain s0 w0 where s0: "steps s w s0 w0" "phase_ok s0"
    and c: "(s', w') = (s0, w0) \<or> (s', w') = callNotifyComplete s0 w0 \<and> (st_error s0 = ERR_NONE \<longrightarrow> both_done s0)"
    by (auto simp: handled_def)
  have same: "st_recv s' = st_recv s0" "st_send s' = st_send s0" "st_error s' = st_error s0"
    "st_isCommander s' = st_isCommander s0" "st_actionID s' = st_actionID s0"
    using c by (auto simp: callNotifyComplete_def split: if_splits)
  show "phase_ok s'" "both_done s \<longrightarrow> both_done s'" "st_error s \<noteq> ERR_NONE \<longrightarrow> st_error s' \<noteq> ERR_NONE"
    "st_actionID s' = st_actionID s"
    "st_error s' = ERR_NONE \<longrightarrow> recv_rank (rv_state (st_recv s)) \<le> recv_rank (rv_state (st_recv s')) \<and>
       send_rank (sd_state (st_send s)) \<le> send_rank (sd_state (st_send s'))"
    using s0 same assms(2) by (auto simp: phase_ok_def steps_def moves_def both_done_def same_owner_def)
  have own: "st_notifyFunc s0 = st_notifyFunc s" "st_actionID s0 = st_actionID s" "a_notes (w_app w0) = a_notes (w_app w)"
    using s0(1) by (simp_all add: steps_def moves_def same_owner_def)
  show "reports_step s w s' w'"
    using c own unfolding reports_step_def callNotifyComplete_def
    by (auto simp: both_done_def split: if_splits)
qed

section \<open>Runs\<close>

inductive stream_run :: "streamenv \<Rightarrow> stream \<Rightarrow> world \<Rightarrow> stream \<Rightarrow> world \<Rightarrow> bool"
  for env :: streamenv and s :: stream and w :: world where
  start: "stream_run env s w s w"
| outside: "stream_run env s w s1 w1 \<Longrightarrow> a_notes (w_app w2) = a_notes (w_app w1) \<Longrightarrow> stream_run env s w s1 w2"
| event: "stream_run env s w s1 w1 \<Longrightarrow> tgenstream_onEvent env events s1 w1 = Some (r, s2, w2) \<Longrightarrow>
    stream_run env s w s2 w2"
| timeout: "stream_run env s w s1 w1 \<Longrightarrow> tgenstream_onCheckTimeout (se_ml env) s1 w1 = Some (b, s2, w2) \<Longrightarrow>
    stream_run env s w s2 w2"

lemma run_effect:
  assumes "stream_run env s w s' w'" "phase_ok s"
  shows "phase_ok s' \<and> reports_step s w s' w' \<and> st_actionID s' = st_actionID s \<and>
    (both_done s \<longrightarrow> both_done s') \<and> (st_error s \<noteq> ERR_NONE \<longrightarrow> st_error s' \<noteq> ERR_NONE) \<and>
    (st_error s' = ERR_NONE \<longrightarrow> recv_rank (rv_state (st_recv s)) \<le> recv_rank (rv_state (st_recv s')) \<and>
       send_rank (sd_state (st_send s)) \<le> send_rank (sd_state (st_send s')))"
proof -
  have step: "phase_ok s2 \<and> reports_step s w s2 w2 \<and> st_actionID s2 = st_actionID s \<and>
      (both_done s \<longrightarrow> both_done s2) \<and> (st_error s \<noteq> ERR_NONE \<longrightarrow> st_error s2 \<noteq> ERR_NONE) \<and>
      (st_error s2 = ERR_NONE \<longrightarrow> recv_rank (rv_state (st_recv s)) \<le> recv_rank (rv_state (st_recv s2)) \<and>
       send_rank (sd_state (st_send s)) \<le> send_rank (sd_state (st_send s2)))"
    if a: "phase_ok s1 \<and> reports_step s w s1 w1 \<and> st_actionID s1 = st_actionID s \<and>
      (both_done s \<longrightarrow> both_done s1) \<and> (st_error s \<noteq> ERR_NONE \<longrightarrow> st_error s1 \<noteq> ERR_NONE) \<and>
      (st_error s1 = ERR_NONE \<longrightarrow> recv_rank (rv_state (st_recv s)) \<le> recv_rank (rv_state (st_recv s1)) \<and>
       send_rank (sd_state (st_send s)) \<le> send_rank (sd_state (st_send s1)))"
    and h: "handled s1 w1 s2 w2" for s1 w1 s2 w2
  proof -
    from a have p: "phase_ok s1" by simp
    note e = handled_effect [OF h p]
    have "reports_step s w s2 w2"
      using a e(2,3,4) unfolding reports_step_def by (elim conjE disjE) simp_all
    moreover have "st_error s2 = ERR_NONE \<longrightarrow> st_error s1 = ERR_NONE" using e(4) by blast
    ultimately show ?thesis using a e by (auto intro: le_trans)
  qed
  from assms(1) show ?thesis
  proof induction
    case start
    then show ?case using assms(2) by (simp add: reports_step_def)
  next
    case (outside s1 w1 w2)
    then show ?case by (simp add: reports_step_def)
  next
    case (event s1 w1 events r s2 w2)
    from event.IH have "phase_ok s1" by blast
    from step [OF event.IH stream_onEvent_handled [OF event.hyps(2) this]] show ?case .
  next
    case (timeout s1 w1 b s2 w2)
    from timeout.IH have "phase_ok s1" by blast
    from step [OF timeout.IH onCheckTimeout_handled [OF timeout.hyps(2) this]] show ?case .
  qed
qed

lemma set_sizes_keep [simp]:
  "rv_state (st_recv (set_sizes options s)) = rv_state (st_recv s)"
  "sd_state (st_send (set_sizes options s)) = sd_state (st_send s)"
  "st_error (set_sizes options s) = st_error s" "st_notifyFunc (set_sizes options s) = st_notifyFunc s"
  by (simp_all add: set_sizes_def Let_def split: option.split)

lemma set_role_phase:
  assumes "set_role options mmodel s = Some s'" "st_error s = ERR_NONE"
    and "rv_state (st_recv s) = RECV_NONE" "sd_state (st_send s) = SEND_NONE"
  shows "phase_ok s'" "st_error s' = ERR_NONE" "st_isCommander s' \<longleftrightarrow> mmodel \<noteq> None"
  using assms by (auto simp: set_role_def phase_ok_def Let_def split: option.splits Option.bind_split_asm)

lemma new_role:
  assumes "tgenstream_new env idStr options mmodel transport cb w0 = Some (s, w)"
  obtains s3 s4 where "set_role options mmodel s3 = Some s4" "st_error s3 = ERR_NONE"
    "rv_state (st_recv s3) = RECV_NONE" "sd_state (st_send s3) = SEND_NONE"
    "s = (fresh_time s4)\<lparr>st_notifyFunc := nc_func cb, st_actionID := nc_actionID cb\<rparr>"
proof -
  let ?s0 = "stream_zero\<lparr>st_refcount := 1, st_id := a_streamCounter (w_app w0)\<rparr>"
  let ?w1 = "w0\<lparr>w_app := (w_app w0)\<lparr>a_streamCounter := a_streamCounter (w_app w0) + 1\<rparr>\<rparr>"
  obtain s1 w2 where 1: "(case transport of
             Some t \<Rightarrow> (upd_time (tm_start_update (\<lambda>_. tgentransport_getStartTimestamp t)) ?s0, ?w1)
           | None \<Rightarrow> stamp tm_start_update ?s0 ?w1) = (s1, w2)" by fastforce
  then have s1: "st_recv s1 = st_recv stream_zero" "st_send s1 = st_send stream_zero" "st_error s1 = ERR_NONE"
    by (auto split: option.splits dest!: stamp_states simp: stream_zero_def)
  show thesis
    using assms s1 unfolding tgenstream_new_def Let_def 1
    by (auto split: Option.bind_split_asm intro!: that simp: stream_zero_def)
qed

lemma phase_keep [simp]:
  "phase_ok (fresh_time s) = phase_ok s" "phase_ok (s\<lparr>st_notifyFunc := f, st_actionID := i\<rparr>) = phase_ok s"
  by (simp_all add: phase_ok_def fresh_time_def)

lemma new_phase: "tgenstream_new env idStr options mmodel transport cb w0 = Some (s, w) \<Longrightarrow> phase_ok s"
proof -
  assume "tgenstream_new env idStr options mmodel transport cb w0 = Some (s, w)"
  then obtain s3 s4 where r: "set_role options mmodel s3 = Some s4" "st_error s3 = ERR_NONE"
    "rv_state (st_recv s3) = RECV_NONE" "sd_state (st_send s3) = SEND_NONE"
    "s = (fresh_time s4)\<lparr>st_notifyFunc := nc_func cb, st_actionID := nc_actionID cb\<rparr>" by (rule new_role)
  from set_role_phase(1) [OF r(1-4)] show "phase_ok s" by (simp add: r(5))
qed

section \<open>Theorems about whole streams\<close>


definition demo_role :: "world \<Rightarrow> (stream \<times> world) option" where
  "demo_role = tgenstream_new demo_env (Some ''v'') None None (Some demo_open) \<lparr>nc_func = True, nc_actionID = 3\<rparr>"

lemma demo_role_new: "\<exists>s w'. demo_role (demo_net [] []) = Some (s, w') \<and> st_transport s = Some (tgentransport_ref demo_open) \<and>
    st_notifyFunc s \<and> st_actionID s = 3 \<and> tm_lastProgress (st_time s) = 0"
  by (simp add: demo_role_def tgenstream_new_def set_role_def set_sizes_def stream_zero_def fresh_time_def Let_def
      opt_set_def upd_time_def upd_send_def upd_recv_def changeRecvState_def stream_resetString_def split: prod.split)





definition demo_uploader :: stream where
  "demo_uploader = (upd_recv (\<lambda>r. r\<lparr>rv_requestedZero := True, rv_buffer := Some (''FIN'' @ [NL])\<rparr>)
     (demo_stream RECV_FOOTER SEND_FOOTER))\<lparr>st_isCommander := True\<rparr>"


text \<open>
  An explicit send size of zero is lost. When the configuration sets the send size to zero and
  leaves the receive size open, the new stream is the one it would be with both sizes open: the branch
  for the missing receive size clears the sender's flag instead of the receiver's, and the stream
  sends whatever its model makes it send.
\<close>

theorem zero_send_size_lost:
  assumes "isSet (op_sendSize op)" "opt_value (op_sendSize op) = 0" "\<not> isSet (op_recvSize op)"
  shows "tgenstream_new env idStr (Some op) mmodel transport cb w =
         tgenstream_new env idStr (Some (op\<lparr>op_sendSize := unset 0\<rparr>)) mmodel transport cb w"
proof -
  let ?op = "op\<lparr>op_sendSize := unset 0\<rparr>"
  have "set_sizes (Some op) s = set_sizes (Some ?op) s" for s
    using assms by (simp add: set_sizes_def opt_set_def unset_def upd_send_def upd_recv_def)
  moreover have "set_role (Some op) mm s = set_role (Some ?op) mm s" for mm s
    by (simp add: set_role_def split: option.split)
  moreover have "opt_set (Some op) op_timeoutNanos = opt_set (Some ?op) op_timeoutNanos"
    "opt_set (Some op) op_stalloutNanos = opt_set (Some ?op) op_stalloutNanos"
    by (simp_all add: opt_set_def)
  ultimately show ?thesis by (simp add: tgenstream_new_def)
qed

definition demo_options :: stream_options where
  "demo_options = \<lparr>op_packetModelPath = unset [], op_packetModelMode = unset [], op_markovModelSeed = unset 0,
     op_seedGenerator = unset None, op_peers = unset None, op_socksProxies = unset None, op_socksUsername = unset [],
     op_socksPassword = unset [], op_socksAuthSeed = unset 0, op_socksAuthGenerator = unset None,
     op_sendSize = set_to 0, op_recvSize = unset 0, op_timeoutNanos = unset 0, op_stalloutNanos = unset 0\<rparr>"

theorem zero_send_size_lost_witness:
  "tgenstream_new demo_env None (Some demo_options) (Some demo_mm) (Some demo_open) \<lparr>nc_func = False, nc_actionID = 0\<rparr> (demo_net [] []) =
   tgenstream_new demo_env None (Some (demo_options\<lparr>op_sendSize := unset 0\<rparr>)) (Some demo_mm) (Some demo_open)
     \<lparr>nc_func = False, nc_actionID = 0\<rparr> (demo_net [] [])"
  by (rule zero_send_size_lost) (simp_all add: demo_options_def set_to_def unset_def)

end
