(* ===== verification/StreamTransfer.thy ===== *)
theory StreamTransfer
  imports StreamOutput
begin

text \<open>
  One direction of a transfer, from one stream to the other: the payload with its checksum line as it
  is written, and as it is read when the network delivers those bytes in any pieces.
\<close>

section \<open>A network that delivers\<close>

text \<open>Every read finds some bytes, until all are read.\<close>

fun has_bytes :: "rd \<Rightarrow> bool" where
  "has_bytes (RData bs) = (bs \<noteq> [])"
| "has_bytes REOF = False"
| "has_bytes (RErr e) = False"

definition delivers :: "world \<Rightarrow> bool" where
  "delivers w \<longleftrightarrow> list_all has_bytes (w_rd w)"

lemma delivers_frame: "w_rd w' = w_rd w \<Longrightarrow> delivers w' = delivers w"
  by (simp add: delivers_def)

lemma read_delivers:
  assumes "tgentransport_read n t w = (r, t', w')" "delivers w" "n > 0" "coming (w_rd w) \<noteq> []"
  shows "delivers w'" "\<exists>bs. r = Inr bs \<and> bs \<noteq> []"
proof -
  from assms(2,4) obtain bs q where q: "w_rd w = RData bs # q" "bs \<noteq> []" "list_all has_bytes q"
    by (cases "w_rd w"; cases "hd (w_rd w)") (simp_all add: delivers_def)
  let ?w = "w\<lparr>w_rd := (if drop n bs = [] then q else RData (drop n bs) # q), w_in := w_in w @ take n bs\<rparr>"
  have "sys_read n w = (Inr (take n bs), ?w)" "take n bs \<noteq> []" using q assms(3) by (simp_all add: sys_read_def)
  with assms(1) have "r = Inr (take n bs)" "w_rd w' = w_rd ?w" by (auto simp: tgentransport_read_def)
  with q assms(3) show "delivers w'" "\<exists>bs. r = Inr bs \<and> bs \<noteq> []" by (auto simp: delivers_def)
qed

lemma stream_read_delivers:
  assumes "stream_read limit s w = Some (r, s1, w1)" "delivers w" "inflow s w \<noteq> []" "buf_ok s" "st_transport s \<noteq> None"
  shows "delivers w1 \<and> got r \<noteq> []"
proof (cases "rv_buffer (st_recv s)")
  case None
  from assms(5) obtain t where t: "st_transport s = Some t" by auto
  have l: "limit > 0" using assms(1) by (auto simp: stream_read_def)
  obtain r' t' w' where r: "tgentransport_read limit t w = (r', t', w')"
    "stream_read limit s w = Some (r', after_read r' (s\<lparr>st_transport := Some t'\<rparr>), w')"
    using stream_read_fresh [OF None t l] by metis
  with read_delivers [OF r(1) assms(2) l] assms(1,3) None show ?thesis by (auto simp: inflow_def got_def)
next
  case (Some x)
  with assms show ?thesis
    by (auto simp: stream_read_def readBuffered_def got_def buf_ok_def bind_Some_conv split: if_splits)
qed

section \<open>The payload arrives\<close>

lemma readPayload_delivers:
  assumes "readPayload s w = Some (ok, s', w')" "receiving s" "delivers w" "inflow s w \<noteq> []"
  shows "delivers w' \<and> rv_state (st_recv s') = RECV_PAYLOAD \<and> st_error s' = st_error s \<and>
     rv_checksum (st_recv s') \<noteq> rv_checksum (st_recv s)"
proof -
  note s = assms(2) [unfolded receiving_def]
  let ?limit = "min READ_BUFLEN (unat (rv_requestedBytes (st_recv s) - rv_payloadBytes (st_recv s)))"
  have R: "rv_requestedBytes (st_recv s) \<noteq> 0" using s by auto
  from assms(1) R obtain r s1 w1 where r: "stream_read ?limit s w = Some (r, s1, w1)"
    by (auto simp: readPayload_def bind_Some_conv word_gt_0 Let_def)
  then have lim: "?limit > 0" by (auto simp: stream_read_def)
  from stream_read_delivers [OF r assms(3,4)] s have d: "delivers w1" "got r \<noteq> []" by auto
  then obtain bs where bs: "r = Inr bs" "bs \<noteq> []" by (auto simp: got_def split: sum.splits)
  from stream_read_spec [of s ?limit w] s lim r d(2) have s1: "rv_requestedBytes (st_recv s1) = rv_requestedBytes (st_recv s)"
    "rv_checksum (st_recv s1) = rv_checksum (st_recv s)" "rv_state (st_recv s1) = RECV_PAYLOAD" "st_error s1 = st_error s"
    by auto
  obtain s2 w2 where st1: "(if rv_payloadBytes (st_recv s1) = 0 then stamp tm_firstPayloadByteRecv_update s1 w1 else (s1, w1)) = (s2, w2)"
    by fastforce
  obtain s3 w3 where st2: "stamp tm_lastPayloadByteRecv_update s2 w2 = (s3, w3)" by fastforce
  note f = stamps_frame [OF st1 st2]
  let ?s4 = "upd_recv (rv_payloadBytes_update (\<lambda>n. n + of_nat (length bs))) s3"
  let ?s5 = "upd_recv (rv_checksum_update (\<lambda>c. c @ bs)) ?s4"
  have "\<exists>ok. readPayload s w = Some (ok, ?s5, w3)"
    using r bs R s s1 st1 st2 f by (simp add: readPayload_def word_gt_0 less_imp_le)
  with assms(1) have "s' = ?s5" "w' = w3" by auto
  with d(1) delivers_frame [OF f(4)] f s1 bs(2) show ?thesis by simp
qed

text \<open>As many calls as there are bytes to come are enough.\<close>

lemma receive_payload_delivers:
  assumes "receiving s" "delivers w" "unat (rv_requestedBytes (st_recv s)) - length (rv_checksum (st_recv s)) \<le> n"
    and "unat (rv_requestedBytes (st_recv s)) \<le> length (rv_checksum (st_recv s)) + length (inflow s w)"
  shows "\<exists>s' w'. receive_payload n s w = Some (True, s', w') \<and> delivers w' \<and> st_error s' = st_error s"
  using assms
proof (induction n arbitrary: s w)
  case 0
  then show ?case by (simp add: receiving_def word_less_nat_alt)
next
  case (Suc n)
  from readPayload_step [OF Suc.prems(1), of w] obtain ok s1 w1 bs where
    1: "readPayload s w = Some (ok, s1, w1)" "inflow s w = bs @ inflow s1 w1"
      "rv_checksum (st_recv s1) = rv_checksum (st_recv s) @ bs"
      "rv_requestedBytes (st_recv s1) = rv_requestedBytes (st_recv s)"
      "\<not> ok \<longrightarrow> receiving s1 \<or> rv_state (st_recv s1) = RECV_ERROR" by blast
  have "inflow s w \<noteq> []"
    using Suc.prems(1,4) by (auto simp: receiving_def word_less_nat_alt)
  from readPayload_delivers [OF 1(1) Suc.prems(1,2) this] 1(3)
  have d: "delivers w1" "rv_state (st_recv s1) = RECV_PAYLOAD" "st_error s1 = st_error s" "bs \<noteq> []" by auto
  show ?case
  proof (cases ok)
    case True
    with 1(1) d show ?thesis by simp
  next
    case False
    from d(4) obtain x xs where "bs = x # xs" by (cases bs) auto
    with Suc.prems(3,4) 1(2-4) have
      "unat (rv_requestedBytes (st_recv s1)) - length (rv_checksum (st_recv s1)) \<le> n"
      "unat (rv_requestedBytes (st_recv s1)) \<le> length (rv_checksum (st_recv s1)) + length (inflow s1 w1)" by auto
    from Suc.IH [OF _ d(1) this] False 1(5) d(2,3) show ?thesis by (simp add: 1(1))
  qed
qed

section \<open>The checksum line is written\<close>

fun write_checksum :: "streamenv \<Rightarrow> nat \<Rightarrow> stream \<Rightarrow> world \<Rightarrow> (bool \<times> stream \<times> world) option" where
  "write_checksum env 0 s w = Some (False, s, w)"
| "write_checksum env (Suc n) s w =
     do { (ok, s1, w1) \<leftarrow> writeChecksum env s w; (if ok then Some (True, s1, w1) else write_checksum env n s1 w1) }"

text \<open>Nothing of the line is buffered yet, or what is on the wire and what is buffered make it up.\<close>

definition writing :: "streamenv \<Rightarrow> bytes \<Rightarrow> bytes \<Rightarrow> stream \<Rightarrow> world \<Rightarrow> bool" where
  "writing env base C s w \<longleftrightarrow> sd_requestedBytes (st_send s) \<noteq> 0 \<and> sd_checksum (st_send s) = C \<and> buffer_ok s \<and>
     (if sd_buffer (st_send s) = None then w_out w = base
      else w_out w @ unsent s = base @ ''MD5 '' @ se_md5 env C @ [NL])"

lemma writeChecksum_step:
  assumes "writing env base C s w" "writeChecksum env s w = Some (ok, s', w')"
  shows "if ok then w_out w' = base @ ''MD5 '' @ se_md5 env C @ [NL] else writing env base C s' w'"
proof -
  let ?msg = "''MD5 '' @ se_md5 env C @ [NL]"
  define s0 where "s0 = (if sd_buffer (st_send s) = None then upd_send (sd_buffer_update (\<lambda>_. Some ?msg)) s else s)"
  have s0: "buffer_ok s0" "w_out w @ unsent s0 = base @ ?msg" "sd_checksum (st_send s0) = C" "sd_requestedBytes (st_send s0) \<noteq> 0"
    "sd_buffer (st_send s0) \<noteq> None"
    using assms(1) by (auto simp: s0_def writing_def buffer_ok_def unsent_def)
  have "(case sd_buffer (st_send s) of Some _ \<Rightarrow> Some s
      | None \<Rightarrow> do { m \<leftarrow> Some (checksum_msg env s); Some (upd_send (sd_buffer_update (\<lambda>_. Some m)) s) }) = Some s0"
    using assms(1) by (auto simp: s0_def writing_def checksum_msg_def split: option.split)
  with assms obtain n s1 w1 where f: "flushOut s0 w = Some (n, s1, w1)"
    and rest: "(case sd_buffer (st_send s1) of
          None \<Rightarrow> (case stamp tm_checksumSend_update s1 w1 of (s2, w2) \<Rightarrow> Some (True, s2, w2))
        | Some _ \<Rightarrow> Some (False, s1, w1)) = Some (ok, s', w')"
    by (auto simp: writeChecksum_def write_stage_def writing_def bind_Some_conv)
  note sp = flushOut_spec [OF f]
  have out: "w_out w1 @ unsent s1 = base @ ?msg" using sp(1) s0(2) by simp
  show ?thesis
  proof (cases "sd_buffer (st_send s1)")
    case None
    then have "w_out w1 = base @ ?msg" using out by (simp add: unsent_def)
    with rest None show ?thesis by (auto split: prod.splits dest!: stamp_send)
  next
    case (Some b)
    with rest have "\<not> ok" "s' = s1" "w' = w1" by auto
    with out sp(4,5) s0 Some show ?thesis by (simp add: writing_def flush_frame_def)
  qed
qed

lemma checksum_written:
  "writing env base C s w \<Longrightarrow> write_checksum env n s w = Some (True, s', w') \<Longrightarrow>
     w_out w' = base @ ''MD5 '' @ se_md5 env C @ [NL]"
proof (induction n arbitrary: s w)
  case (Suc n)
  from Suc.prems(2) obtain ok s1 w1 where c: "writeChecksum env s w = Some (ok, s1, w1)"
    and rest: "(if ok then Some (True, s1, w1) else write_checksum env n s1 w1) = Some (True, s', w')"
    by (auto simp: bind_Some_conv)
  from writeChecksum_step [OF Suc.prems(1) c] rest Suc.IH show ?case by (auto split: if_splits)
qed simp

section \<open>The checksum line is read\<close>

lemma takeLine_frame:
  "takeLine bs s = Some (line, s') \<Longrightarrow> rv_checksum (st_recv s') = rv_checksum (st_recv s) \<and>
     rv_requestedBytes (st_recv s') = rv_requestedBytes (st_recv s) \<and> st_error s' = st_error s"
  by (auto simp: takeLine_def Let_def bind_Some_conv split: prod.splits if_splits)

lemma after_read_frame:
  "rv_checksum (st_recv (after_read r s)) = rv_checksum (st_recv s)"
  "rv_requestedBytes (st_recv (after_read r s)) = rv_requestedBytes (st_recv s)"
  "st_error (after_read r s) = ERR_CHECKSUM \<longleftrightarrow> st_error s = ERR_CHECKSUM \<and> (case r of Inl e \<Rightarrow> would_block e | Inr bs \<Rightarrow> st_error (after_read r s) = st_error s)"
  "r = Inr bs \<Longrightarrow> bs \<noteq> [] \<Longrightarrow> st_error (after_read r s) = st_error s"
  by (auto simp: after_read_def Let_def changeRecv_recv split: sum.split)

lemma getLine_frame:
  assumes g: "getLine s w = Some (line, s', w')" and t: "st_transport s = Some t"
  shows "rv_checksum (st_recv s') = rv_checksum (st_recv s) \<and> rv_requestedBytes (st_recv s') = rv_requestedBytes (st_recv s) \<and>
     (st_error s' = ERR_CHECKSUM \<longrightarrow> st_error s = ERR_CHECKSUM) \<and>
     (delivers w \<and> NL \<in> set (inflow s w) \<longrightarrow> delivers w' \<and> st_error s' = st_error s \<and>
        (line = None \<longrightarrow> length (coming (w_rd w')) < length (coming (w_rd w))))"
proof -
  define s0 where "s0 = upd_recv (rv_buffer_update (\<lambda>_. None)) s"
  have s0: "rv_buffer (st_recv s0) = None" "st_transport s0 = Some t" "st_error s0 = st_error s"
    "rv_checksum (st_recv s0) = rv_checksum (st_recv s)" "rv_requestedBytes (st_recv s0) = rv_requestedBytes (st_recv s)"
    using t by (simp_all add: s0_def)
  have hv: "(case rv_buffer (st_recv s) of None \<Rightarrow> [] | Some b \<Rightarrow> b) = held s" by (simp add: held_def)
  show ?thesis
  proof (cases "findNewLineIndex (held s)")
    case (Some i)
    then obtain s1 where "takeLine (held s) s0 = Some (line, s1)" "s' = s1" "w' = w"
      using g by (auto simp: getLine_def Let_def hv s0_def [symmetric] bind_Some_conv)
    moreover from this(1) Some have "line \<noteq> None" by (auto simp: takeLine_def Let_def bind_Some_conv split: if_splits)
    ultimately show ?thesis using takeLine_frame s0 by metis
  next
    case None
    then have nl: "NL \<notin> set (held s)" by (simp add: findNewLine_None)
    obtain r t' w1 where r: "tgentransport_read READ_BUFLEN t w = (r, t', w1)"
      "stream_read READ_BUFLEN s0 w = Some (r, after_read r (s0\<lparr>st_transport := Some t'\<rparr>), w1)"
      using stream_read_fresh [OF s0(1,2), of READ_BUFLEN w] by (auto simp: READ_BUFLEN_def)
    let ?s1 = "after_read r (s0\<lparr>st_transport := Some t'\<rparr>)"
    note c = transport_read_coming(1) [OF r(1)]
    have del: "delivers w1 \<and> (\<exists>bs. r = Inr bs \<and> bs \<noteq> [])" if "delivers w" "NL \<in> set (inflow s w)"
    proof -
      have "coming (w_rd w) \<noteq> []" using that(2) nl by (cases "coming (w_rd w) = []") (simp_all add: inflow_def)
      with read_delivers [OF r(1) that(1)] show ?thesis by (simp add: READ_BUFLEN_def)
    qed
    show ?thesis
    proof (cases "\<exists>c cs. r = Inr (c # cs)")
      case True
      then obtain x xs where x: "r = Inr (x # xs)" by blast
      with g r None obtain s2 where "takeLine (held s @ x # xs) ?s1 = Some (line, s2)" "s' = s2" "w' = w1"
        by (auto simp: getLine_def Let_def hv s0_def [symmetric] bind_Some_conv)
      with takeLine_frame [OF this(1)] after_read_frame s0 x c del show ?thesis by auto
    next
      case False
      with g r None s0(1) have "s' = upd_recv (rv_buffer_update (\<lambda>_. rv_buffer (st_recv s))) ?s1" "w' = w1"
        by (auto simp: getLine_def Let_def hv s0_def [symmetric] bind_Some_conv split: sum.splits list.splits)
      with after_read_frame(1-3) s0 False del show ?thesis
        by (auto simp: neq_Nil_conv)
    qed
  qed
qed

fun read_checksum :: "streamenv \<Rightarrow> nat \<Rightarrow> stream \<Rightarrow> world \<Rightarrow> (bool \<times> stream \<times> world) option" where
  "read_checksum env 0 s w = Some (False, s, w)"
| "read_checksum env (Suc n) s w =
     do { (ok, s1, w1) \<leftarrow> readChecksum env s w; (if ok then Some (True, s1, w1) else read_checksum env n s1 w1) }"

text \<open>The line of the right digest is in the inflow.\<close>

definition expecting :: "streamenv \<Rightarrow> bytes \<Rightarrow> stream \<Rightarrow> world \<Rightarrow> bool" where
  "expecting env rest s w \<longleftrightarrow> st_transport s \<noteq> None \<and> rv_requestedBytes (st_recv s) \<noteq> 0 \<and>
     inflow s w = (''MD5 '' @ se_md5 env (rv_checksum (st_recv s))) @ NL # rest"

lemma first_line: "l @ NL # a = m @ NL # b \<Longrightarrow> NL \<notin> set l \<Longrightarrow> NL \<notin> set m \<Longrightarrow> l = m \<and> a = b"
proof (induction l arbitrary: m)
  case (Cons c l)
  then show ?case by (cases m) auto
qed (auto simp: Cons_eq_append_conv)

lemma readChecksum_step:
  assumes "expecting env rest s w" "hex_digest (se_md5 env)"
  obtains ok s' w' where "readChecksum env s w = Some (ok, s', w')"
    "st_error s' = ERR_CHECKSUM \<longrightarrow> st_error s = ERR_CHECKSUM" "if ok then inflow s' w' = rest else expecting env rest s' w'"
    "delivers w \<Longrightarrow> delivers w' \<and> st_error s' = st_error s \<and> (ok \<or> length (coming (w_rd w')) < length (coming (w_rd w)))"
proof -
  let ?d = "se_md5 env (rv_checksum (st_recv s))"
  note plain = hex_digest_plain [OF assms(2)]
  from assms(1) obtain t where t: "st_transport s = Some t" and R: "rv_requestedBytes (st_recv s) \<noteq> 0"
    and inf: "inflow s w = (''MD5 '' @ ?d) @ NL # rest"
    by (auto simp: expecting_def)
  from getLine_step [OF t] obtain line s1 w1 where g: "getLine s w = Some (line, s1, w1)" "st_transport s1 \<noteq> None"
    "line_step line (inflow s w) (inflow s1 w1)" by blast
  note fr = getLine_frame [OF g(1) t]
  have nl: "NL \<in> set (inflow s w)" using inf by simp
  have low: "map ascii_tolower (take n (se_md5 env bs)) = take n (se_md5 env bs)" for n bs
    using plain by (intro map_idI) (auto dest: in_set_takeD)
  show thesis
  proof (cases line)
    case None
    with g R have "readChecksum env s w = Some (False, s1, w1)" by (simp add: readChecksum_def)
    moreover have "expecting env rest s1 w1" using g(2,3) fr inf R None by (simp add: expecting_def line_step_def)
    ultimately show thesis using that fr nl None by auto
  next
    case (Some l)
    with g(3) inf have l: "NL \<notin> set l" "l @ NL # inflow s1 w1 = (''MD5 '' @ ?d) @ NL # rest" by (auto simp: line_step_def)
    have nd: "NL \<notin> set (''MD5 '' @ ?d)" using plain by (auto simp: NL_def)
    have eq: "l = ''MD5 '' @ ?d" "inflow s1 w1 = rest"
      using first_line [OF l(2,1) nd] by simp_all
    obtain s2 w2 where st: "stamp tm_checksumRecv_update s1 w1 = (s2, w2)" by fastforce
    have c1: "c_str l = l" unfolding eq using plain by (intro c_str_id) (auto simp: NUL_def)
    have sp: "CHR '' '' \<notin> set ?d" using plain by blast
    have parts: "g_strsplit (CHR '' '') l = [''MD5'', ?d]"
      using split_all_append [of "CHR '' ''" "''MD5''" ?d] split_all_no_delim [OF sp] by (simp add: g_strsplit_def eq)
    have "readChecksum env s w = Some (True, s2, w2)"
      using R g Some st c1 parts low stamp_frame [OF st] fr by (simp add: readChecksum_def strncaseeq_def)
    moreover have "inflow s2 w2 = rest" using stamp_inflow [OF st] eq by simp
    moreover have "delivers w2 = delivers w1" "st_error s2 = st_error s1" using stamp_frame [OF st] by (simp_all add: delivers_def)
    ultimately show thesis using that fr nl by auto
  qed
qed

lemma read_checksum_run:
  assumes "expecting env rest s w" "hex_digest (se_md5 env)"
  shows "\<exists>ok s' w'. read_checksum env n s w = Some (ok, s', w') \<and> (ok \<longrightarrow> inflow s' w' = rest) \<and>
     (st_error s' = ERR_CHECKSUM \<longrightarrow> st_error s = ERR_CHECKSUM) \<and>
     (delivers w \<and> length (coming (w_rd w)) < n \<longrightarrow> ok \<and> st_error s' = st_error s)"
  using assms(1)
proof (induction n arbitrary: s w)
  case 0
  show ?case by (rule exI [of _ False]) simp
next
  case (Suc n)
  from readChecksum_step [OF Suc.prems assms(2)] obtain ok s1 w1 where
    1: "readChecksum env s w = Some (ok, s1, w1)" "st_error s1 = ERR_CHECKSUM \<longrightarrow> st_error s = ERR_CHECKSUM"
      "if ok then inflow s1 w1 = rest else expecting env rest s1 w1"
      "delivers w \<Longrightarrow> delivers w1 \<and> st_error s1 = st_error s \<and> (ok \<or> length (coming (w_rd w1)) < length (coming (w_rd w)))"
    by blast
  show ?case
  proof (cases ok)
    case True
    with 1 show ?thesis by auto
  next
    case False
    with 1(3) have "expecting env rest s1 w1" by simp
    from Suc.IH [OF this] obtain ok' s2 w2 where "read_checksum env n s1 w1 = Some (ok', s2, w2)" "ok' \<longrightarrow> inflow s2 w2 = rest"
      "st_error s2 = ERR_CHECKSUM \<longrightarrow> st_error s1 = ERR_CHECKSUM"
      "delivers w1 \<and> length (coming (w_rd w1)) < n \<longrightarrow> ok' \<and> st_error s2 = st_error s1" by blast
    with 1 False show ?thesis by auto
  qed
qed

section \<open>The transfer\<close>

text \<open>What a sender that is through with payload and checksum has put on the wire.\<close>

lemma wire_content:
  assumes "sending R (w_out w) s w" "send_payload env n s w = Some (True, s1, w1)" "write_checksum env k s1 w1 = Some (True, s2, w2)"
  defines "C \<equiv> sd_checksum (st_send s1)"
  shows "w_out w2 = w_out w @ C @ ''MD5 '' @ se_md5 env C @ [NL] \<and> length C = unat R"
proof -
  from send_payload_sending [OF assms(1,2)] have s1: "sending R (w_out w) s1 w1"
    and d: "sd_payloadBytes (st_send s1) = R" "unsent s1 = []" by auto
  have out: "w_out w1 = w_out w @ C" using s1 d(2) by (simp add: sending_def C_def)
  have "sd_buffer (st_send s1) = None"
    using s1 d(2) by (auto simp: sending_def buffer_ok_def unsent_def split: option.splits)
  then have "writing env (w_out w @ C) C s1 w1" using s1 out by (auto simp: writing_def sending_def C_def)
  from checksum_written [OF this assms(3)] have "w_out w2 = w_out w @ C @ ''MD5 '' @ se_md5 env C @ [NL]" by simp
  moreover have "length C = unat R" using sending_le(1) [OF s1] d by (simp add: C_def)
  ultimately show ?thesis by simp
qed

text \<open>
  C2. A transfer is verified end to end. Let a sender finish its payload and its checksum line, over any
  number of writes that take any number of bytes, and let a receiver that asks for the same number of bytes
  find what the sender wrote in its incoming bytes, cut into any pieces, with any interruptions: when it has
  the payload, its checksum covers the very bytes the sender's covers, it never rejects the checksum line,
  and once it accepted it, it has used up exactly these bytes. If the network delivers, as many
  calls as there are bytes are enough for it to accept.
\<close>

theorem transfer_verified:
  assumes "st_mmodel s \<noteq> None" "sd_requestedBytes (st_send s) = R" "R > 0"
    and "sd_buffer (st_send s) = None" "sd_offset (st_send s) = 0" "sd_payloadBytes (st_send s) = 0"
    and "sd_checksum (st_send s) = []" "send_payload env n s w = Some (True, s1, w1)"
    and "write_checksum env k s1 w1 = Some (True, s2, w2)" "w_out w2 = w_out w @ wire"
    and "st_transport r \<noteq> None" "buf_ok r" "rv_state (st_recv r) = RECV_PAYLOAD"
    and "rv_requestedBytes (st_recv r) = R" "rv_payloadBytes (st_recv r) = 0" "rv_checksum (st_recv r) = []"
    and "hex_digest (se_md5 env)" "se_md5 env' = se_md5 env" "inflow r v = wire @ rest"
  shows "\<exists>ok r1 v1. receive_payload m r v = Some (ok, r1, v1) \<and>
     (ok \<longrightarrow> rv_checksum (st_recv r1) = sd_checksum (st_send s1) \<and>
        (\<exists>ok' r2 v2. read_checksum env' j r1 v1 = Some (ok', r2, v2) \<and> (ok' \<longrightarrow> inflow r2 v2 = rest) \<and>
           (st_error r2 = ERR_CHECKSUM \<longrightarrow> st_error r1 = ERR_CHECKSUM) \<and>
           (delivers v \<and> length (inflow r v) < min m j \<longrightarrow> ok' \<and> st_error r2 = st_error r))) \<and>
     (delivers v \<and> length (inflow r v) < m \<longrightarrow> ok)"
proof -
  let ?C = "sd_checksum (st_send s1)"
  have "sending R (w_out w) s w" using assms(1-7) by (simp add: sending_def buffer_ok_def unsent_def)
  from wire_content [OF this assms(8,9)] assms(10,19)
  have v: "inflow r v = ?C @ (''MD5 '' @ se_md5 env' ?C) @ NL # rest" and C: "length ?C = unat R" using assms(18) by auto
  have rec: "receiving r" using assms(3,11-16) by (simp add: receiving_def)
  from receive_payload_run [OF rec, of m v] obtain ok r1 v1 bs where
    r: "receive_payload m r v = Some (ok, r1, v1)" "inflow r v = bs @ inflow r1 v1"
      "rv_checksum (st_recv r1) = rv_checksum (st_recv r) @ bs"
      "unat (rv_payloadBytes (st_recv r1)) = length (rv_checksum (st_recv r1))"
      "rv_requestedBytes (st_recv r1) = rv_requestedBytes (st_recv r)"
      "ok \<longleftrightarrow> rv_payloadBytes (st_recv r1) = rv_requestedBytes (st_recv r1)" "st_transport r1 \<noteq> None" by blast
  have live: "ok \<and> delivers v1 \<and> st_error r1 = st_error r" if "delivers v" "length (inflow r v) < m"
  proof -
    have "unat R \<le> length (inflow r v)" using v C by simp
    with receive_payload_delivers [OF rec that(1), of m] that(2) r(1) assms(14) show ?thesis by auto
  qed
  have "rv_checksum (st_recv r1) = ?C \<and>
        (\<exists>ok' r2 v2. read_checksum env' j r1 v1 = Some (ok', r2, v2) \<and> (ok' \<longrightarrow> inflow r2 v2 = rest) \<and>
           (st_error r2 = ERR_CHECKSUM \<longrightarrow> st_error r1 = ERR_CHECKSUM) \<and>
           (delivers v \<and> length (inflow r v) < min m j \<longrightarrow> ok' \<and> st_error r2 = st_error r))" if ok
  proof -
    have "length bs = length ?C" using r(3-6) C that assms(14,16) by simp
    with r(2) v have bs: "bs = ?C" "inflow r1 v1 = (''MD5 '' @ se_md5 env' ?C) @ NL # rest" by (metis append_eq_append_conv)+
    then have c: "rv_checksum (st_recv r1) = ?C" using r(3) assms(16) by simp
    have "expecting env' rest r1 v1" using bs c r(5,7) assms(3,14) by (simp add: expecting_def)
    from read_checksum_run [OF this, of j] assms(17,18) obtain ok' r2 v2 where
      "read_checksum env' j r1 v1 = Some (ok', r2, v2)" "ok' \<longrightarrow> inflow r2 v2 = rest"
      "st_error r2 = ERR_CHECKSUM \<longrightarrow> st_error r1 = ERR_CHECKSUM"
      "delivers v1 \<and> length (coming (w_rd v1)) < j \<longrightarrow> ok' \<and> st_error r2 = st_error r1" by auto
    moreover have "length (coming (w_rd v1)) \<le> length (inflow r v)" unfolding r(2) by (simp add: inflow_def)
    ultimately show ?thesis using c live by auto
  qed
  with r(1) live show ?thesis by blast
qed


text \<open>Three bytes, written in two pieces and read in two others.\<close>

definition demo_small_sender :: stream where
  "demo_small_sender = upd_send (sd_requestedBytes_update (\<lambda>_. 3)) demo_sender"

definition demo_room :: world where
  "demo_room = demo_net [] [WRoom 2, WRoom 10, WRoom 40]"

lemma demo_first_observation:
  "\<exists>obs d mm. tgenmarkovmodel_getNextObservation demo_math (demo_model ''observation'') = Some (obs, d, mm) \<and> own_packet True obs"
proof -
  have "at_work (demo_model ''observation'')" by (rule demo_sender_start)
  with demo_productive show ?thesis
    unfolding productive_def by (force split: option.splits simp: Let_def)
qed

lemma demo_observed:
  assumes "st_mmodel s = Some (demo_model ''observation'')" "st_isCommander s"
  shows "\<exists>s' w' mm. payload_loop demo_math 3 (0, 0) s w = Some (PACKET_DATA_SIZE, s', w') \<and> st_mmodel s' = Some mm \<and>
     st_transport s' = st_transport s \<and> w_wr w' = w_wr w \<and>
     sd_requestedBytes (st_send s') = sd_requestedBytes (st_send s) \<and> sd_payloadBytes (st_send s') = sd_payloadBytes (st_send s) \<and>
     sd_buffer (st_send s') = sd_buffer (st_send s) \<and> sd_offset (st_send s') = sd_offset (st_send s)"
proof -
  obtain d mm where o: "tgenmarkovmodel_getNextObservation demo_math (demo_model ''observation'') = Some (OBSERVATION_TO_SERVER, d, mm)"
    using demo_first_observation by (auto simp: own_packet_def)
  let ?d = "case d of Some x \<Rightarrow> x | None \<Rightarrow> 0"
  let ?s = "upd_send (sd_expectedBytes_update (\<lambda>n. n + of_nat PACKET_DATA_SIZE)) (s\<lparr>st_mmodel := Some mm\<rparr>)"
  have obs: "payload_observe demo_math (0, 0) s = Some (False, (PACKET_DATA_SIZE, ?d), ?s)"
    using assms o by (simp add: payload_observe_def Let_def)
  have stop: "payload_loop demo_math 3 (PACKET_DATA_SIZE, ?d) ?s w = Some (PACKET_DATA_SIZE, ?s, w)"
    by (subst payload_loop.simps) (simp add: PACKET_DATA_SIZE_def)
  obtain now s1 w1 where t: "stream_getTime ?s w = (now, s1, w1)" by (metis prod_cases3)
  have "st_send s1 = st_send ?s \<and> st_mmodel s1 = st_mmodel ?s \<and> st_transport s1 = st_transport ?s \<and> w_wr w1 = w_wr w"
    using t by (auto simp: stream_getTime_def split: if_splits prod.splits dest: time_frame)
  then show ?thesis
    using obs stop t by (subst payload_loop.simps) (simp add: payload_defer_def)
qed

lemma flush_room:
  assumes "sd_buffer (st_send s) = Some b" "sd_offset (st_send s) = off" "off < length b" "st_transport s = Some t"
    and "w_wr w = WRoom k # q" "0 < k"
  obtains s' w' where "flushOut s w = Some (min k (length b - off), s', w')" "w_wr w' = q"
    "st_transport s' = Some t" "st_mmodel s' = st_mmodel s"
    "sd_requestedBytes (st_send s') = sd_requestedBytes (st_send s)" "sd_payloadBytes (st_send s') = sd_payloadBytes (st_send s)"
    "if length b \<le> off + k then sd_buffer (st_send s') = None \<and> sd_offset (st_send s') = 0
     else sd_buffer (st_send s') = Some b \<and> sd_offset (st_send s') = off + k"
proof -
  define n where "n = min k (length b - off)"
  have n: "n \<noteq> 0" "length b \<le> off + n \<longleftrightarrow> length b \<le> off + k" "\<not> length b \<le> off + k \<Longrightarrow> n = k"
    using assms(3,6) by (auto simp: n_def)
  then obtain w1 where "tgentransport_write (drop off b) t w = (Inr n, t, w1)" "w_wr w1 = q"
    using assms(5) by (simp add: tgentransport_write_def sys_write_def flip: n_def)
  with assms that n show thesis by (simp add: flushOut_def Let_def flip: n_def)
qed

lemma flush_payload_room:
  assumes "sd_buffer (st_send s) = Some b" "sd_offset (st_send s) = off" "off < length b" "st_transport s = Some t"
    and "w_wr w = WRoom k # q" "0 < k"
  obtains s' w' where "flush_payload s w = Some (s', w')" "w_wr w' = q" "st_transport s' = Some t" "st_mmodel s' = st_mmodel s"
    "sd_requestedBytes (st_send s') = sd_requestedBytes (st_send s)"
    "sd_payloadBytes (st_send s') = sd_payloadBytes (st_send s) + of_nat (min k (length b - off))"
    "if length b \<le> off + k then sd_buffer (st_send s') = None \<and> sd_offset (st_send s') = 0
     else sd_buffer (st_send s') = Some b \<and> sd_offset (st_send s') = off + k"
proof -
  from assms obtain s1 w1 where 1: "flushOut s w = Some (min k (length b - off), s1, w1)" "w_wr w1 = q"
    "st_transport s1 = Some t" "st_mmodel s1 = st_mmodel s"
    "sd_requestedBytes (st_send s1) = sd_requestedBytes (st_send s)" "sd_payloadBytes (st_send s1) = sd_payloadBytes (st_send s)"
    "if length b \<le> off + k then sd_buffer (st_send s1) = None \<and> sd_offset (st_send s1) = 0
     else sd_buffer (st_send s1) = Some b \<and> sd_offset (st_send s1) = off + k" by (rule flush_room)
  obtain s2 w2 where s2: "(if sd_payloadBytes (st_send s1) = 0 then stamp tm_firstPayloadByteSend_update s1 w1
                   else (s1, w1)) = (s2, w2)" by fastforce
  obtain s3 w3 where s3: "stamp tm_lastPayloadByteSend_update s2 w2 = (s3, w3)" by fastforce
  have f: "st_send s3 = st_send s1" "st_transport s3 = st_transport s1" "st_mmodel s3 = st_mmodel s1" "w_wr w3 = w_wr w1"
    using s2 stamp_frame [OF s3] stamp_frame [of tm_firstPayloadByteSend_update s1 w1 s2 w2] by (auto split: if_splits)
  have "flush_payload s w = Some (upd_send (sd_payloadBytes_update (\<lambda>m. m + of_nat (min k (length b - off)))) s3, w3)"
    using 1(1) s2 s3 assms(3,6) by (simp add: flush_payload_def)
  then show thesis by (rule that) (use 1 f in simp_all)
qed

lemma demo_small_sent:
  "\<exists>s1 w1 s2 w2. send_payload demo_sending 2 demo_small_sender demo_room = Some (True, s1, w1) \<and>
     write_checksum demo_sending 1 s1 w1 = Some (True, s2, w2)"
proof -
  let ?s = demo_small_sender
  have s: "st_mmodel ?s = Some (demo_model ''observation'')" "st_isCommander ?s" "st_transport ?s = Some demo_open"
    "sd_buffer (st_send ?s) = None" "sd_offset (st_send ?s) = 0" "sd_payloadBytes (st_send ?s) = 0" "sd_requestedBytes (st_send ?s) = 3"
    by (simp_all add: demo_small_sender_def demo_sender_def stream_zero_def)
  have ml: "se_ml demo_sending = demo_math" by (simp add: demo_sending_def)
  have e: "sd_payloadBytes_update (\<lambda>k. k) sd = sd" "upd_send (\<lambda>x. x) x = x" for sd x by (simp_all add: upd_send_def)
  have fp: "flush_payload ?s demo_room = Some (?s, demo_room)"
    using s(4) by (simp add: flush_payload_def flushOut_def e upd_send_def)
  from demo_observed [OF s(1,2), of demo_room] s obtain t1 v1 mm where t1:
    "payload_loop demo_math 3 (0, 0) ?s demo_room = Some (PACKET_DATA_SIZE, t1, v1)" "st_mmodel t1 = Some mm"
    "st_transport t1 = Some demo_open" "w_wr v1 = w_wr demo_room" "sd_requestedBytes (st_send t1) = 3" "sd_payloadBytes (st_send t1) = 0"
    "sd_buffer (st_send t1) = None" "sd_offset (st_send t1) = 0" by auto
  obtain buf v2 where buf: "getRandomString 3 v1 = (buf, v2)" by fastforce
  note rs = random_string [OF buf]
  let ?t2 = "upd_send (sd_checksum_update (\<lambda>c. c @ buf)) (upd_send (sd_buffer_update (\<lambda>_. Some buf)) t1)"
  obtain t3 v3 where t3: "flush_payload ?t2 v2 = Some (t3, v3)" "w_wr v3 = [WRoom 10, WRoom 40]" "st_transport t3 = Some demo_open"
    "st_mmodel t3 = Some mm" "sd_requestedBytes (st_send t3) = 3" "sd_payloadBytes (st_send t3) = 2"
    "sd_buffer (st_send t3) = Some buf" "sd_offset (st_send t3) = 2"
    by (rule flush_payload_room [of ?t2 buf 0 demo_open v2 2 "[WRoom 10, WRoom 40]"])
      (use t1 rs in \<open>simp_all add: demo_room_def demo_net_def\<close>)
  have w1: "writePayload demo_sending ?s demo_room = Some (False, t3, v3)"
    using s fp t1 buf t3(1) by (simp add: writePayload_def doneSending_def generate_payload_def ml WRITE_BUFLEN_def PACKET_DATA_SIZE_def)
  obtain t4 v4 where t4: "flush_payload t3 v3 = Some (t4, v4)" "w_wr v4 = [WRoom 40]" "st_transport t4 = Some demo_open"
    "st_mmodel t4 = Some mm" "sd_requestedBytes (st_send t4) = 3" "sd_payloadBytes (st_send t4) = 3"
    "sd_buffer (st_send t4) = None" "sd_offset (st_send t4) = 0"
    by (rule flush_payload_room [of t3 buf 2 demo_open v3 10 "[WRoom 40]"]) (use t3 rs in simp_all)
  have "writePayload demo_sending t3 v3 = Some (True, t4, v4)"
    using t3 t4 by (simp add: writePayload_def doneSending_def)
  with w1 have sent: "send_payload demo_sending 2 ?s demo_room = Some (True, t4, v4)" by (simp add: numeral_2_eq_2)
  let ?t5 = "upd_send (sd_buffer_update (\<lambda>_. Some (checksum_msg demo_sending t4))) t4"
  have len: "length (checksum_msg demo_sending t4) = 37" by (simp add: checksum_msg_def demo_sending_def demo_env_def)
  obtain t6 v6 where "flushOut ?t5 v4 = Some (min 40 37, t6, v6)" "sd_buffer (st_send t6) = None"
    by (rule flush_room [of ?t5 "checksum_msg demo_sending t4" 0 demo_open v4 40 "[]"]) (use t4 len in simp_all)
  with t4 have "\<exists>t7 v7. writeChecksum demo_sending t4 v4 = Some (True, t7, v7)"
    by (cases "stamp tm_checksumSend_update t6 v6") (simp add: writeChecksum_def write_stage_def)
  with sent show ?thesis by auto
qed

theorem transfer_verified_witness:
  "\<exists>s1 w1 s2 w2 C r1 v1 r2 v2.
     send_payload demo_sending 2 demo_small_sender demo_room = Some (True, s1, w1) \<and>
     write_checksum demo_sending 1 s1 w1 = Some (True, s2, w2) \<and> w_out w2 = C @ ''MD5 '' @ se_md5 demo_sending C @ [NL] \<and>
     receive_payload 100 demo_payload_stream (demo_net [RData (take 5 (w_out w2)), RData (drop 5 (w_out w2))] []) = Some (True, r1, v1) \<and>
     rv_checksum (st_recv r1) = C \<and> read_checksum demo_sending 100 r1 v1 = Some (True, r2, v2) \<and> inflow r2 v2 = [] \<and>
     st_error r2 = ERR_NONE"
proof -
  obtain s1 w1 s2 w2 where s: "send_payload demo_sending 2 demo_small_sender demo_room = Some (True, s1, w1)"
    "write_checksum demo_sending 1 s1 w1 = Some (True, s2, w2)" using demo_small_sent by blast
  let ?C = "sd_checksum (st_send s1)" and ?v = "demo_net [RData (take 5 (w_out w2)), RData (drop 5 (w_out w2))] []"
  have start: "st_mmodel demo_small_sender \<noteq> None" "sd_requestedBytes (st_send demo_small_sender) = 3" "(3 :: u64) > 0"
    "sd_buffer (st_send demo_small_sender) = None" "sd_offset (st_send demo_small_sender) = 0"
    "sd_payloadBytes (st_send demo_small_sender) = 0" "sd_checksum (st_send demo_small_sender) = []" "w_out demo_room = []"
    by (simp_all add: demo_small_sender_def demo_sender_def stream_zero_def demo_room_def demo_net_def)
  have ready: "st_transport demo_payload_stream \<noteq> None" "buf_ok demo_payload_stream" "rv_state (st_recv demo_payload_stream) = RECV_PAYLOAD"
    "rv_requestedBytes (st_recv demo_payload_stream) = 3" "rv_payloadBytes (st_recv demo_payload_stream) = 0"
    "rv_checksum (st_recv demo_payload_stream) = []" "st_error demo_payload_stream = ERR_NONE" "held demo_payload_stream = []"
    by (simp_all add: demo_payload_stream_def stream_zero_def buf_ok_def held_def)
  have hex: "hex_digest (se_md5 demo_sending)" by (simp add: hex_digest_def demo_sending_def demo_env_def)
  have "sending 3 (w_out demo_room) demo_small_sender demo_room"
    using start by (simp add: sending_def buffer_ok_def unsent_def)
  from wire_content [OF this s] have wire: "w_out w2 = ?C @ ''MD5 '' @ se_md5 demo_sending ?C @ [NL]" "length ?C = 3"
    using start(8) by simp_all
  have len: "length (w_out w2) = 40" unfolding wire(1) using wire(2) by (simp add: demo_sending_def demo_env_def)
  have inf: "inflow demo_payload_stream ?v = w_out w2 @ []" using ready(8) by (simp add: inflow_def demo_net_def)
  have "w_out w2 \<noteq> []" using wire(1) by simp
  then have del: "delivers ?v" using len by (simp add: delivers_def demo_net_def)
  have "w_out w2 = w_out demo_room @ w_out w2" using start(8) by simp
  from transfer_verified [OF start(1-7) s this ready(1-6) hex refl inf, of 100 100] del inf len wire(1) s ready(7)
  show ?thesis by auto
qed

end
