(* ===== verification/Timer.thy ===== *)
theory Timer
  imports StreamLoop
begin

text \<open>
  \<open>tgen-timer.c\<close>: one-shot and persistent timers on \<open>timerfd\<close> descriptors. The kernel objects the event
  loop uses are the base record \<open>kern\<close> of the process state: the timerfds with their settings, the
  interest list of the epoll instance, and the results of the calls still to come, as queues; a used-up
  queue means success (and no event).
\<close>

record itimerspec =
  it_value_sec :: u64
  it_value_nsec :: u64
  it_interval_sec :: u64
  it_interval_nsec :: u64

datatype epoll_flag = EPOLLIN | EPOLLOUT | EPOLLERR | EPOLLHUP

record kern =
  k_timerfds :: "int \<rightharpoonup> itimerspec" \<comment> \<open>open timerfds and what they are set to\<close>
  k_timerfd_create :: "int list" \<comment> \<open>results of \<open>timerfd_create\<close>; -1 when used up\<close>
  k_settime :: "bool list" \<comment> \<open>success of \<open>timerfd_settime\<close>\<close>
  k_timer_read :: "errno option list" \<comment> \<open>the error of a \<open>read\<close> on a timerfd, if any\<close>
  k_epoll :: "int \<rightharpoonup> epoll_flag set" \<comment> \<open>the interest list\<close>
  k_epoll_ctl :: "bool list" \<comment> \<open>success of \<open>epoll_ctl\<close>\<close>
  k_epoll_wait :: "(errno + (int \<times> epoll_flag set) list) list"
  k_clock :: "int list" \<comment> \<open>as in \<open>world\<close>: the last reading repeats\<close>
  k_closed :: "int list" \<comment> \<open>descriptors passed to \<open>close\<close>\<close>

text \<open>The next result of a queue, or a default.\<close>

definition pop :: "'a \<Rightarrow> 'a list \<Rightarrow> 'a \<times> 'a list" where
  "pop d q = (case q of [] \<Rightarrow> (d, []) | x # xs \<Rightarrow> (x, xs))"

definition timerfd_settime :: "int \<Rightarrow> itimerspec \<Rightarrow> 'a kern_scheme \<Rightarrow> bool \<times> 'a kern_scheme" where
  "timerfd_settime fd spec k =
     (case pop True (k_settime k) of (ok, q) \<Rightarrow>
        (ok, k\<lparr>k_settime := q, k_timerfds := (if ok then (k_timerfds k)(fd \<mapsto> spec) else k_timerfds k)\<rparr>))"

definition timerfd_create :: "'a kern_scheme \<Rightarrow> int \<times> 'a kern_scheme" where
  "timerfd_create k =
     (case pop (- 1) (k_timerfd_create k) of (fd, q) \<Rightarrow>
        (fd, k\<lparr>k_timerfd_create := q,
               k_timerfds := (if fd \<ge> 0
                              then (k_timerfds k)(fd \<mapsto> \<lparr>it_value_sec = 0, it_value_nsec = 0, it_interval_sec = 0, it_interval_nsec = 0\<rparr>)
                              else k_timerfds k)\<rparr>))"

definition kern_close :: "int \<Rightarrow> 'a kern_scheme \<Rightarrow> 'a kern_scheme" where
  "kern_close fd k = k\<lparr>k_closed := k_closed k @ [fd], k_timerfds := (k_timerfds k)(fd := None),
     k_epoll := (k_epoll k)(fd := None)\<rparr>"

definition kern_time :: "'a kern_scheme \<Rightarrow> int \<times> 'a kern_scheme" where
  "kern_time k = (case k_clock k of [] \<Rightarrow> (0, k) | [t] \<Rightarrow> (t, k) | t # ts \<Rightarrow> (t, k\<lparr>k_clock := ts\<rparr>))"

section \<open>The timer\<close>

text \<open>\<open>notify\<close> with its two data pointers and their destructors is one value, a closure of type \<open>'c\<close>.\<close>

record 'c timer =
  ti_notify :: 'c
  ti_timerD :: int
  ti_isPersistent :: bool
  ti_refcount :: int

definition timer_spec :: "u64 \<Rightarrow> u64 \<Rightarrow> bool \<Rightarrow> itimerspec" where
  "timer_spec seconds nanoseconds isPersistent =
     \<lparr>it_value_sec = seconds, it_value_nsec = nanoseconds,
      it_interval_sec = (if isPersistent then seconds else 0),
      it_interval_nsec = (if isPersistent then nanoseconds else 0)\<rparr>"

definition timer_disarm :: "'c timer \<Rightarrow> 'a kern_scheme \<Rightarrow> 'a kern_scheme" where
  "timer_disarm t k =
     (if ti_timerD t > 0 then snd (timerfd_settime (ti_timerD t) (timer_spec 0 0 False) k) else k)"

definition tgentimer_cancel :: "'c timer \<Rightarrow> 'a kern_scheme \<Rightarrow> 'a kern_scheme" where
  "tgentimer_cancel t k = timer_disarm t k"

definition tgentimer_setExpireTimeMicros :: "'c timer \<Rightarrow> u64 \<Rightarrow> 'a kern_scheme \<Rightarrow> 'a kern_scheme" where
  "tgentimer_setExpireTimeMicros t micros k =
     (let seconds = micros div 1000000; nanoseconds = (micros mod 1000000) * 1000
      in snd (timerfd_settime (ti_timerD t) (timer_spec seconds nanoseconds (ti_isPersistent t)) k))"

text \<open>
  \<open>call\<close> runs the closure; its result says whether the timer should be cancelled. A \<open>read\<close> that fails
  otherwise than by blocking counts as an expiration.
\<close>

definition tgentimer_onEvent :: "('c \<Rightarrow> 'a kern_scheme \<Rightarrow> (bool \<times> 'a kern_scheme) option) \<Rightarrow> 'c timer \<Rightarrow> int \<Rightarrow>
    tgen_event set \<Rightarrow> 'a kern_scheme \<Rightarrow> (io_response \<times> 'a kern_scheme) option" where
  "tgentimer_onEvent call t descriptor events k =
     do {
       g_assert (EV_READ \<in> events \<and> descriptor = ti_timerD t);
       let (e, q) = pop None (k_timer_read k);
       let k1 = k\<lparr>k_timer_read := q\<rparr>;
       (if (case e of Some x \<Rightarrow> would_block x | None \<Rightarrow> False)
        then Some (\<lparr>ir_events = {EV_READ}, ir_deferUntilUSec = 0\<rparr>, k1)
        else do {
          (shouldCancel, k2) \<leftarrow> call (ti_notify t) k1;
          Some (if shouldCancel
                then (\<lparr>ir_events = {EV_DONE}, ir_deferUntilUSec = 0\<rparr>, if ti_isPersistent t then timer_disarm t k2 else k2)
                else (\<lparr>ir_events = {EV_READ}, ir_deferUntilUSec = 0\<rparr>, k2))
        })
     }"

text \<open>A zero delay would disarm the descriptor: one nanosecond is used instead. A failed \<open>timerfd_settime\<close> leaves the descriptor open.\<close>

definition tgentimer_new :: "u64 \<Rightarrow> bool \<Rightarrow> 'c option \<Rightarrow> 'a kern_scheme \<Rightarrow> 'c timer option \<times> 'a kern_scheme" where
  "tgentimer_new microseconds isPersistent notify k =
     (case notify of
        None \<Rightarrow> (None, k)
      | Some c \<Rightarrow>
          (case timerfd_create k of (timerD, k1) \<Rightarrow>
             if timerD < 0 then (None, k1)
             else
               (let seconds = microseconds div 1000000;
                    nanoseconds0 = (microseconds mod 1000000) * 1000;
                    nanoseconds = (if seconds = 0 \<and> nanoseconds0 = 0 then 1 else nanoseconds0)
                in case timerfd_settime timerD (timer_spec seconds nanoseconds isPersistent) k1 of
                     (ok, k2) \<Rightarrow>
                       if \<not> ok then (None, k2)
                       else (Some \<lparr>ti_notify = c, ti_timerD = timerD, ti_isPersistent = isPersistent, ti_refcount = 1\<rparr>, k2))))"

text \<open>Freeing closes the descriptor; the closure's data are then released by whoever knows them.\<close>

definition timer_free :: "'c timer \<Rightarrow> 'a kern_scheme \<Rightarrow> 'a kern_scheme option" where
  "timer_free t k =
     do { g_assert (ti_refcount t = 0); Some (if ti_timerD t > 0 then kern_close (ti_timerD t) k else k) }"

definition tgentimer_ref :: "'c timer \<Rightarrow> 'c timer" where
  "tgentimer_ref t = t\<lparr>ti_refcount := ti_refcount t + 1\<rparr>"

definition tgentimer_unref :: "'c timer \<Rightarrow> 'c timer option" where
  "tgentimer_unref t = (let t' = t\<lparr>ti_refcount := ti_refcount t - 1\<rparr> in if ti_refcount t' \<le> 0 then None else Some t')"

definition tgentimer_getDescriptor :: "'c timer \<Rightarrow> int" where
  "tgentimer_getDescriptor t = ti_timerD t"

interpretation timer_rc: refcounted ti_refcount tgentimer_ref tgentimer_unref
  by unfold_locales (auto simp: tgentimer_ref_def tgentimer_unref_def Let_def)

end
