(* ===== verification/IO.thy ===== *)
theory IO
  imports Timer
begin

text \<open>
  \<open>tgen-io.c\<close>: the event loop. A child is one registered descriptor; children and timers refer to each
  other, so both live in heaps (maps from addresses) and carry the reference counts of the source.
  Reading a freed object is the result \<open>None\<close>, as a failed assertion is. What the registered objects do
  is a parameter: a record of handlers over the state of the whole process, which extends \<open>tgenio\<close>.
\<close>

section \<open>State\<close>

text \<open>Whom a timer calls: the event loop itself for a deferred write (with the child), or its user.\<close>

datatype 'c timer_target = DeferExpired nat | UserTimer 'c

text \<open>The \<open>data\<close> pointer of a child, with the three functions that go with it: a timer (an address) or an object of the owner.\<close>

datatype 'o child_data = DTimer nat | DUser 'o

record 'o io_child =
  ch_descriptor :: int
  ch_currentEvents :: "epoll_flag set"
  ch_deferWriteTimer :: "nat option"
  ch_refcount :: int
  ch_checkTimeout :: bool \<comment> \<open>a timeout function was given\<close>
  ch_data :: "'o child_data"

record ('c, 'o) tgenio = kern +
  io_epollD :: int
  io_children :: "int \<rightharpoonup> nat"
  io_refcount :: int
  heap_child :: "nat \<rightharpoonup> 'o io_child"
  heap_timer :: "nat \<rightharpoonup> 'c timer_target timer"
  heap_next :: nat

text \<open>
  The functions behind the \<open>data\<close> pointers: notify, check for a timeout, destroy; and the closure of a
  user's timer with its destructor. \<open>hd_order\<close> is the order in which GLib walks through the table.
\<close>

record ('c, 'o, 's) io_handlers =
  hd_notify :: "'o \<Rightarrow> int \<Rightarrow> tgen_event set \<Rightarrow> 's \<Rightarrow> (io_response \<times> 's) option"
  hd_timeout :: "'o \<Rightarrow> int \<Rightarrow> 's \<Rightarrow> (bool \<times> 's) option"
  hd_destroy :: "'o \<Rightarrow> 's \<Rightarrow> 's option"
  hd_timer :: "'c \<Rightarrow> 's \<Rightarrow> (bool \<times> 's) option"
  hd_timer_destroy :: "'c \<Rightarrow> 's \<Rightarrow> 's option"
  hd_order :: "(int \<rightharpoonup> nat) \<Rightarrow> int list"

type_synonym ('c, 'o, 'z) handlers = "('c, 'o, ('c, 'o, 'z) tgenio_scheme) io_handlers"

section \<open>The interest list\<close>

text \<open>
  \<open>epoll_ctl\<close>: the kernel refuses to add a descriptor twice and to change or remove one that is not
  there; it may refuse anything else as well.
\<close>

datatype epoll_op = EPOLL_CTL_ADD | EPOLL_CTL_MOD | EPOLL_CTL_DEL

definition epoll_ctl :: "epoll_op \<Rightarrow> int \<Rightarrow> epoll_flag set \<Rightarrow> 'a kern_scheme \<Rightarrow> bool \<times> 'a kern_scheme" where
  "epoll_ctl op fd ev k =
     (case pop True (k_epoll_ctl k) of (r, q) \<Rightarrow>
        let ok = r \<and> (op = EPOLL_CTL_ADD \<longleftrightarrow> k_epoll k fd = None);
            k1 = k\<lparr>k_epoll_ctl := q\<rparr>
        in (ok, if \<not> ok then k1
                else k1\<lparr>k_epoll := (k_epoll k)(fd := (if op = EPOLL_CTL_DEL then None else Some ev))\<rparr>))"

section \<open>Children\<close>

definition tgeniochild_new :: "int \<Rightarrow> epoll_flag set \<Rightarrow> bool \<Rightarrow> 'o child_data \<Rightarrow> 'o io_child" where
  "tgeniochild_new descriptor events checkTimeout data =
     \<lparr>ch_descriptor = descriptor, ch_currentEvents = events, ch_deferWriteTimer = None,
      ch_refcount = 1, ch_checkTimeout = checkTimeout, ch_data = data\<rparr>"

definition set_child :: "nat \<Rightarrow> 'o io_child \<Rightarrow> ('c, 'o, 'z) tgenio_scheme \<Rightarrow> ('c, 'o, 'z) tgenio_scheme" where
  "set_child c ch s = s\<lparr>heap_child := (heap_child s)(c \<mapsto> ch)\<rparr>"

definition tgeniochild_ref :: "nat \<Rightarrow> ('c, 'o, 'z) tgenio_scheme \<Rightarrow> ('c, 'o, 'z) tgenio_scheme option" where
  "tgeniochild_ref c s =
     do { ch \<leftarrow> heap_child s c; Some (set_child c (ch\<lparr>ch_refcount := ch_refcount ch + 1\<rparr>) s) }"

text \<open>
  Dropping a reference: \<open>_tgeniochild_unref\<close> and \<open>_tgeniochild_free\<close> for a child, \<open>tgentimer_unref\<close> and
  \<open>_tgentimer_free\<close> for a timer. They call each other, because a child owns timers and the timer of a
  deferred write owns a reference to its child.
\<close>

datatype io_ref = RChild nat | RTimer nat

partial_function (option) io_unref ::
    "('c, 'o, 'z) handlers \<Rightarrow> io_ref \<Rightarrow> ('c, 'o, 'z) tgenio_scheme \<Rightarrow> ('c, 'o, 'z) tgenio_scheme option" where
  "io_unref H r s =
     (case r of
        RChild c \<Rightarrow>
          do {
            ch \<leftarrow> heap_child s c;
            let ch1 = ch\<lparr>ch_refcount := ch_refcount ch - 1\<rparr>;
            let s1 = set_child c ch1 s;
            (if ch_refcount ch1 > 0 then Some s1
             else do {
               s2 \<leftarrow> (case ch_data ch1 of DTimer t \<Rightarrow> io_unref H (RTimer t) s1 | DUser x \<Rightarrow> hd_destroy H x s1);
               s3 \<leftarrow> (case ch_deferWriteTimer ch1 of None \<Rightarrow> Some s2 | Some t \<Rightarrow> io_unref H (RTimer t) s2);
               Some (s3\<lparr>heap_child := (heap_child s3)(c := None)\<rparr>)
             })
          }
      | RTimer t \<Rightarrow>
          do {
            ti \<leftarrow> heap_timer s t;
            (case tgentimer_unref ti of
               Some ti1 \<Rightarrow> Some (s\<lparr>heap_timer := (heap_timer s)(t \<mapsto> ti1)\<rparr>)
             | None \<Rightarrow>
                 do {
                   s1 \<leftarrow> timer_free (ti\<lparr>ti_refcount := ti_refcount ti - 1\<rparr>) s;
                   s2 \<leftarrow> (case ti_notify ti of
                            DeferExpired c \<Rightarrow> io_unref H (RChild c) s1
                          | UserTimer u \<Rightarrow> hd_timer_destroy H u s1);
                   Some (s2\<lparr>heap_timer := (heap_timer s2)(t := None)\<rparr>)
                 })
          })"

declare io_unref.simps [code]

text \<open>Both places that take the timer of a deferred write away from a child: stop it, drop the reference, forget it.\<close>

definition drop_deferWriteTimer :: "('c, 'o, 'z) handlers \<Rightarrow> nat \<Rightarrow> nat \<Rightarrow> ('c, 'o, 'z) tgenio_scheme \<Rightarrow>
    ('c, 'o, 'z) tgenio_scheme option" where
  "drop_deferWriteTimer H c t s =
     do {
       ti \<leftarrow> heap_timer s t;
       s1 \<leftarrow> io_unref H (RTimer t) (tgentimer_cancel ti s);
       ch \<leftarrow> heap_child s1 c;
       Some (set_child c (ch\<lparr>ch_deferWriteTimer := None\<rparr>) s1)
     }"

definition tgeniochild_hashTableDestroy :: "('c, 'o, 'z) handlers \<Rightarrow> nat \<Rightarrow> ('c, 'o, 'z) tgenio_scheme \<Rightarrow>
    ('c, 'o, 'z) tgenio_scheme option" where
  "tgeniochild_hashTableDestroy H c s =
     do {
       ch \<leftarrow> heap_child s c;
       s1 \<leftarrow> (case ch_deferWriteTimer ch of None \<Rightarrow> Some s | Some t \<Rightarrow> drop_deferWriteTimer H c t s);
       io_unref H (RChild c) s1
     }"

section \<open>The event loop\<close>

text \<open>\<open>epollD\<close> is the result of \<open>epoll_create\<close>.\<close>

definition tgenio_new :: "int \<Rightarrow> ('c, 'o, 'z) tgenio_scheme \<Rightarrow> ('c, 'o, 'z) tgenio_scheme option" where
  "tgenio_new epollD s =
     (if epollD < 0 then None
      else Some (s\<lparr>io_epollD := epollD, io_children := Map.empty, io_refcount := 1\<rparr>))"

fun destroy_all :: "('c, 'o, 'z) handlers \<Rightarrow> nat list \<Rightarrow> ('c, 'o, 'z) tgenio_scheme \<Rightarrow>
    ('c, 'o, 'z) tgenio_scheme option" where
  "destroy_all H [] s = Some s"
| "destroy_all H (c # cs) s = do { s1 \<leftarrow> tgeniochild_hashTableDestroy H c s; destroy_all H cs s1 }"

text \<open>The table is emptied before its values are destroyed; the epoll descriptor is not closed.\<close>

definition table_values :: "('c, 'o, 'z) handlers \<Rightarrow> ('c, 'o, 'z) tgenio_scheme \<Rightarrow> nat list" where
  "table_values H s = List.map_filter (io_children s) (hd_order H (io_children s))"

definition tgenio_free :: "('c, 'o, 'z) handlers \<Rightarrow> ('c, 'o, 'z) tgenio_scheme \<Rightarrow>
    ('c, 'o, 'z) tgenio_scheme option" where
  "tgenio_free H s =
     do { g_assert (io_refcount s = 0);
          destroy_all H (table_values H s) (s\<lparr>io_children := Map.empty\<rparr>) }"

definition tgenio_ref :: "('c, 'o, 'z) tgenio_scheme \<Rightarrow> ('c, 'o, 'z) tgenio_scheme" where
  "tgenio_ref s = s\<lparr>io_refcount := io_refcount s + 1\<rparr>"

definition tgenio_unref :: "('c, 'o, 'z) handlers \<Rightarrow> ('c, 'o, 'z) tgenio_scheme \<Rightarrow>
    ('c, 'o, 'z) tgenio_scheme option" where
  "tgenio_unref H s =
     (let s1 = s\<lparr>io_refcount := io_refcount s - 1\<rparr>
      in if io_refcount s1 \<le> 0 then tgenio_free H s1 else Some s1)"

text \<open>\<open>g_hash_table_remove\<close>: the entry is gone before its value is destroyed.\<close>

definition table_remove :: "('c, 'o, 'z) handlers \<Rightarrow> int \<Rightarrow> ('c, 'o, 'z) tgenio_scheme \<Rightarrow>
    ('c, 'o, 'z) tgenio_scheme option" where
  "table_remove H d s =
     (case io_children s d of
        None \<Rightarrow> Some s
      | Some c \<Rightarrow> tgeniochild_hashTableDestroy H c (s\<lparr>io_children := (io_children s)(d := None)\<rparr>))"

partial_function (option) tgenio_deregister ::
    "('c, 'o, 'z) handlers \<Rightarrow> int \<Rightarrow> ('c, 'o, 'z) tgenio_scheme \<Rightarrow> ('c, 'o, 'z) tgenio_scheme option" where
  "tgenio_deregister H descriptor s =
     do {
       let s1 = snd (epoll_ctl EPOLL_CTL_DEL descriptor {} s);
       s2 \<leftarrow> (case io_children s1 descriptor of
                None \<Rightarrow> Some s1
              | Some c \<Rightarrow>
                  do {
                    ch \<leftarrow> heap_child s1 c;
                    (case ch_deferWriteTimer ch of
                       None \<Rightarrow> Some s1
                     | Some t \<Rightarrow>
                         do {
                           ti \<leftarrow> heap_timer s1 t;
                           s' \<leftarrow> drop_deferWriteTimer H c t s1;
                           tgenio_deregister H (tgentimer_getDescriptor ti) s'
                         })
                  });
       table_remove H descriptor s2
     }"

declare tgenio_deregister.simps [code]

text \<open>Registering; the result says whether the descriptor is watched. A descriptor that is still registered is removed first.\<close>

definition tgenio_register :: "('c, 'o, 'z) handlers \<Rightarrow> int \<Rightarrow> bool \<Rightarrow> 'o child_data \<Rightarrow>
    ('c, 'o, 'z) tgenio_scheme \<Rightarrow> (bool \<times> ('c, 'o, 'z) tgenio_scheme) option" where
  "tgenio_register H descriptor checkTimeout data s =
     do {
       s1 \<leftarrow> (case io_children s descriptor of None \<Rightarrow> Some s | Some _ \<Rightarrow> tgenio_deregister H descriptor s);
       let ev = {EPOLLIN, EPOLLOUT};
       (case epoll_ctl EPOLL_CTL_ADD descriptor ev s1 of (ok, s2) \<Rightarrow>
          if \<not> ok then Some (False, s2)
          else do {
            let c = heap_next s2;
            let s3 = set_child c (tgeniochild_new descriptor ev checkTimeout data) (s2\<lparr>heap_next := c + 1\<rparr>);
            let old = io_children s3 descriptor;
            let s4 = s3\<lparr>io_children := (io_children s3)(descriptor \<mapsto> c)\<rparr>;
            s5 \<leftarrow> (case old of None \<Rightarrow> Some s4 | Some c0 \<Rightarrow> tgeniochild_hashTableDestroy H c0 s4);
            Some (True, s5)
          })
     }"

definition tgenio_syncEpollEvents :: "nat \<Rightarrow> epoll_flag set \<Rightarrow> ('c, 'o, 'z) tgenio_scheme \<Rightarrow>
    ('c, 'o, 'z) tgenio_scheme option" where
  "tgenio_syncEpollEvents c newEvents s =
     do {
       ch \<leftarrow> heap_child s c;
       (if ch_currentEvents ch \<noteq> newEvents
        then (case epoll_ctl EPOLL_CTL_MOD (ch_descriptor ch) newEvents s of (ok, s1) \<Rightarrow>
                if ok then Some (set_child c (ch\<lparr>ch_currentEvents := newEvents\<rparr>) s1) else Some s1)
        else Some s)
     }"

definition tgenio_onDeferTimerExpired :: "nat \<Rightarrow> ('c, 'o, 'z) tgenio_scheme \<Rightarrow>
    (bool \<times> ('c, 'o, 'z) tgenio_scheme) option" where
  "tgenio_onDeferTimerExpired c s =
     do {
       ch \<leftarrow> heap_child s c;
       g_assert (io_children s (ch_descriptor ch) = Some c);
       s1 \<leftarrow> tgenio_syncEpollEvents c (ch_currentEvents ch \<union> {EPOLLOUT}) s;
       Some (False, s1)
     }"

text \<open>\<open>tgentimer_ref\<close> fails an assertion on the NULL that \<open>tgentimer_new\<close> may return; the result of \<open>tgenio_register\<close> is not looked at.\<close>

definition tgenio_setDeferTimer :: "('c, 'o, 'z) handlers \<Rightarrow> nat \<Rightarrow> int \<Rightarrow> ('c, 'o, 'z) tgenio_scheme \<Rightarrow>
    ('c, 'o, 'z) tgenio_scheme option" where
  "tgenio_setDeferTimer H c microsecondsPause s =
     do {
       ch \<leftarrow> heap_child s c;
       g_assert (microsecondsPause > 0);
       (case ch_deferWriteTimer ch of
          Some t \<Rightarrow>
            do {
              ti \<leftarrow> heap_timer s t;
              g_assert (io_children s (tgentimer_getDescriptor ti) \<noteq> None);
              Some (tgentimer_setExpireTimeMicros ti (word_of_int microsecondsPause) s)
            }
        | None \<Rightarrow>
            do {
              s1 \<leftarrow> tgeniochild_ref c s;
              (case tgentimer_new (word_of_int microsecondsPause) False (Some (DeferExpired c)) s1 of
                 (None, _) \<Rightarrow> None
               | (Some ti, s2) \<Rightarrow>
                   do {
                     let t = heap_next s2;
                     ch1 \<leftarrow> heap_child s2 c;
                     let s3 = set_child c (ch1\<lparr>ch_deferWriteTimer := Some t\<rparr>)
                                (s2\<lparr>heap_next := t + 1, heap_timer := (heap_timer s2)(t \<mapsto> tgentimer_ref ti)\<rparr>);
                     (_, s4) \<leftarrow> tgenio_register H (tgentimer_getDescriptor ti) False (DTimer t) s3;
                     Some s4
                   })
            })
     }"

definition timer_call :: "('c, 'o, 'z) handlers \<Rightarrow> 'c timer_target \<Rightarrow> ('c, 'o, 'z) tgenio_scheme \<Rightarrow>
    (bool \<times> ('c, 'o, 'z) tgenio_scheme) option" where
  "timer_call H target s =
     (case target of DeferExpired c \<Rightarrow> tgenio_onDeferTimerExpired c s | UserTimer u \<Rightarrow> hd_timer H u s)"

definition child_notify :: "('c, 'o, 'z) handlers \<Rightarrow> 'o child_data \<Rightarrow> int \<Rightarrow> tgen_event set \<Rightarrow>
    ('c, 'o, 'z) tgenio_scheme \<Rightarrow> (io_response \<times> ('c, 'o, 'z) tgenio_scheme) option" where
  "child_notify H data d events s =
     (case data of
        DTimer t \<Rightarrow> do { ti \<leftarrow> heap_timer s t; tgentimer_onEvent (timer_call H) ti d events s }
      | DUser x \<Rightarrow> hd_notify H x d events s)"

definition tgenio_helper :: "('c, 'o, 'z) handlers \<Rightarrow> nat \<Rightarrow> bool \<Rightarrow> bool \<Rightarrow> bool \<Rightarrow> ('c, 'o, 'z) tgenio_scheme \<Rightarrow>
    ('c, 'o, 'z) tgenio_scheme option" where
  "tgenio_helper H c isin isout isdone s =
     do {
       ch \<leftarrow> heap_child s c;
       let ready = (if isin then {EV_READ} else {}) \<union> (if isout then {EV_WRITE} else {}) \<union> (if isdone then {EV_DONE} else {});
       (response, s1) \<leftarrow> child_notify H (ch_data ch) (ch_descriptor ch) ready s;
       ch1 \<leftarrow> heap_child s1 c;
       (if isdone \<or> EV_DONE \<in> ir_events response then tgenio_deregister H (ch_descriptor ch1) s1
        else do {
          let inEvents = (if EV_READ \<in> ir_events response then {EPOLLIN} else {});
          (newEvents, s2) \<leftarrow>
            (if EV_WRITE_DEFERRED \<in> ir_events response
             then (case kern_time s1 of (nowUSec, s') \<Rightarrow>
                     if ir_deferUntilUSec response > nowUSec
                     then do { s'' \<leftarrow> tgenio_setDeferTimer H c (ir_deferUntilUSec response - nowUSec) s'; Some (inEvents, s'') }
                     else Some (inEvents \<union> {EPOLLOUT}, s'))
             else if EV_WRITE \<in> ir_events response then Some (inEvents \<union> {EPOLLOUT}, s1)
             else Some (inEvents, s1));
          tgenio_syncEpollEvents c newEvents s2
        })
     }"

text \<open>A wait that was interrupted is repeated.\<close>

fun epoll_wait_retry :: "(errno + (int \<times> epoll_flag set) list) list \<Rightarrow>
    (errno + (int \<times> epoll_flag set) list) \<times> (errno + (int \<times> epoll_flag set) list) list" where
  "epoll_wait_retry [] = (Inr [], [])"
| "epoll_wait_retry (r # q) = (if r = Inl EINTR then epoll_wait_retry q else (r, q))"

fun handle_events :: "('c, 'o, 'z) handlers \<Rightarrow> (int \<times> epoll_flag set) list \<Rightarrow> ('c, 'o, 'z) tgenio_scheme \<Rightarrow>
    ('c, 'o, 'z) tgenio_scheme option" where
  "handle_events H [] s = Some s"
| "handle_events H ((d, ev) # evs) s =
     do {
       s1 \<leftarrow> (case io_children s d of
                Some c \<Rightarrow> tgenio_helper H c (EPOLLIN \<in> ev) (EPOLLOUT \<in> ev) (EPOLLERR \<in> ev \<or> EPOLLHUP \<in> ev) s
              | None \<Rightarrow> tgenio_deregister H d s);
       handle_events H evs s1
     }"

text \<open>The kernel reports at most \<open>maxEvents\<close> descriptors at once.\<close>

definition tgenio_loopOnce :: "('c, 'o, 'z) handlers \<Rightarrow> nat \<Rightarrow> ('c, 'o, 'z) tgenio_scheme \<Rightarrow>
    (int \<times> ('c, 'o, 'z) tgenio_scheme) option" where
  "tgenio_loopOnce H maxEvents s =
     (case epoll_wait_retry (k_epoll_wait s) of (r, q) \<Rightarrow>
        let s1 = s\<lparr>k_epoll_wait := q\<rparr>
        in case r of
             Inl e \<Rightarrow> Some (0, s1)
           | Inr evs \<Rightarrow>
               do { s2 \<leftarrow> handle_events H (take maxEvents evs) s1;
                    Some (int (length (take maxEvents evs)), s2) })"

text \<open>The descriptors that timed out are pushed and popped at the head of a queue.\<close>

fun collect_timeouts :: "('c, 'o, 'z) handlers \<Rightarrow> nat list \<Rightarrow> int list \<Rightarrow> ('c, 'o, 'z) tgenio_scheme \<Rightarrow>
    (int list \<times> ('c, 'o, 'z) tgenio_scheme) option" where
  "collect_timeouts H [] queue s = Some (queue, s)"
| "collect_timeouts H (c # cs) queue s =
     do {
       ch \<leftarrow> heap_child s c;
       (case (ch_checkTimeout ch, ch_data ch) of
          (True, DUser x) \<Rightarrow>
            do {
              (hasTimeout, s1) \<leftarrow> hd_timeout H x (ch_descriptor ch) s;
              collect_timeouts H cs (if hasTimeout then ch_descriptor ch # queue else queue) s1
            }
        | _ \<Rightarrow> collect_timeouts H cs queue s)
     }"

fun deregister_all :: "('c, 'o, 'z) handlers \<Rightarrow> int list \<Rightarrow> ('c, 'o, 'z) tgenio_scheme \<Rightarrow>
    ('c, 'o, 'z) tgenio_scheme option" where
  "deregister_all H [] s = Some s"
| "deregister_all H (d # ds) s = do { s1 \<leftarrow> tgenio_deregister H d s; deregister_all H ds s1 }"

definition tgenio_checkTimeouts :: "('c, 'o, 'z) handlers \<Rightarrow> ('c, 'o, 'z) tgenio_scheme \<Rightarrow>
    ('c, 'o, 'z) tgenio_scheme option" where
  "tgenio_checkTimeouts H s =
     do { (queue, s1) \<leftarrow> collect_timeouts H (table_values H s) [] s; deregister_all H queue s1 }"

definition tgenio_getEpollDescriptor :: "('c, 'o, 'z) tgenio_scheme \<Rightarrow> int" where
  "tgenio_getEpollDescriptor s = io_epollD s"

end
