(* ===== verification/IOProps.thy ===== *)
theory IOProps
  imports IO
begin

text \<open>
  Who owns what in the event loop. A registered child is owned by the table; while it defers its writes
  it shares a timer with the loop, and the timer owns a second reference to it. The lemmas compute what
  registering, deferring, expiring and deregistering do to that graph of references.
\<close>

section \<open>The references\<close>

definition owned :: "('c, 'o, 'z) tgenio_scheme \<Rightarrow>
    (int \<rightharpoonup> nat) \<times> (nat \<rightharpoonup> 'o io_child) \<times> (nat \<rightharpoonup> 'c timer_target timer) \<times> nat" where
  "owned s = (io_children s, heap_child s, heap_timer s, heap_next s)"

text \<open>The destructors of the owner's objects return and leave the loop's own data alone.\<close>

definition quiet :: "('c, 'o, 'z) handlers \<Rightarrow> bool" where
  "quiet H \<longleftrightarrow> (\<forall>x s. \<exists>s'. hd_destroy H x s = Some s' \<and> owned s' = owned s) \<and>
               (\<forall>u s. \<exists>s'. hd_timer_destroy H u s = Some s' \<and> owned s' = owned s)"

lemma quiet_destroy:
  assumes "quiet H"
  obtains s' where "hd_destroy H x s = Some s'" "owned s' = owned s"
  using assms unfolding quiet_def by blast

lemma quiet_timer_destroy:
  assumes "quiet H"
  obtains s' where "hd_timer_destroy H u s = Some s'" "owned s' = owned s"
  using assms unfolding quiet_def by blast

lemma ownedD:
  assumes "owned s' = owned s"
  shows "io_children s' = io_children s" "heap_child s' = heap_child s"
    "heap_timer s' = heap_timer s" "heap_next s' = heap_next s"
  using assms by (simp_all add: owned_def)

text \<open>System calls do not touch the references.\<close>

lemma owned_epoll_ctl [simp]: "owned (snd (epoll_ctl op fd ev s)) = owned s"
  by (simp add: epoll_ctl_def owned_def pop_def Let_def split: list.split)

lemma owned_settime [simp]: "owned (snd (timerfd_settime fd sp s)) = owned s"
  by (simp add: timerfd_settime_def owned_def pop_def split: list.split)

lemma owned_cancel [simp]: "owned (tgentimer_cancel ti s) = owned s"
  by (simp add: tgentimer_cancel_def timer_disarm_def)

lemma owned_close [simp]: "owned (kern_close fd s) = owned s"
  by (simp add: kern_close_def owned_def)

lemma owned_setExpire [simp]: "owned (tgentimer_setExpireTimeMicros ti p s) = owned s"
  by (simp add: tgentimer_setExpireTimeMicros_def Let_def)

lemma owned_create [simp]: "owned (snd (timerfd_create s)) = owned s"
  by (simp add: timerfd_create_def owned_def pop_def split: list.split)

lemma timer_new_owned:
  "tgentimer_new p pers nt s = (r, s') \<Longrightarrow> owned s' = owned s"
proof -
  assume "tgentimer_new p pers nt s = (r, s')"
  moreover have "owned (snd (timerfd_settime fd sp (snd (timerfd_create s)))) = owned s" for fd sp
    by simp
  ultimately show ?thesis
    by (auto simp: tgentimer_new_def Let_def split: option.splits if_splits prod.splits)
      (metis owned_create owned_settime snd_conv)+
qed

lemma timer_new_Some:
  assumes "tgentimer_new p pers nt s = (Some ti, s')"
  shows "nt = Some (ti_notify ti)" "ti_isPersistent ti = pers" "ti_refcount ti = 1"
    "ti_timerD ti = fst (timerfd_create s)" "ti_timerD ti \<ge> 0"
  using assms by (auto simp: tgentimer_new_def Let_def split: option.splits if_splits prod.splits)

lemma owned_sel [simp]:
  "io_children (snd (epoll_ctl op fd ev s)) = io_children s"
  "heap_child (snd (epoll_ctl op fd ev s)) = heap_child s"
  "heap_timer (snd (epoll_ctl op fd ev s)) = heap_timer s"
  "heap_next (snd (epoll_ctl op fd ev s)) = heap_next s"
  "io_children (tgentimer_cancel ti s) = io_children s"
  "heap_child (tgentimer_cancel ti s) = heap_child s"
  "heap_timer (tgentimer_cancel ti s) = heap_timer s"
  "heap_next (tgentimer_cancel ti s) = heap_next s"
  using ownedD [OF owned_epoll_ctl [of op fd ev s]] ownedD [OF owned_cancel [of ti s]] by simp_all

section \<open>Dropping references\<close>

lemma unref_timer_shared:
  assumes "heap_timer s t = Some ti" "ti_refcount ti > 1"
  shows "io_unref H (RTimer t) s =
    Some (s\<lparr>heap_timer := (heap_timer s)(t \<mapsto> ti\<lparr>ti_refcount := ti_refcount ti - 1\<rparr>)\<rparr>)"
  using assms by (subst io_unref.simps) (simp add: tgentimer_unref_def Let_def)

lemma unref_child_shared:
  assumes "heap_child s c = Some ch" "ch_refcount ch > 1"
  shows "io_unref H (RChild c) s = Some (set_child c (ch\<lparr>ch_refcount := ch_refcount ch - 1\<rparr>) s)"
  using assms by (subst io_unref.simps) (simp add: Let_def)

text \<open>The last reference to a child without a deferred write: its data are released, then it is gone.\<close>

lemma unref_child_user:
  assumes "quiet H" "heap_child s c = Some ch" "ch_refcount ch = 1" "ch_deferWriteTimer ch = None"
    and "ch_data ch = DUser x"
  obtains s' where "io_unref H (RChild c) s = Some s'"
    "owned s' = (io_children s, (heap_child s)(c := None), heap_timer s, heap_next s)"
proof -
  obtain s2 where s2: "hd_destroy H x (set_child c (ch\<lparr>ch_refcount := 0\<rparr>) s) = Some s2"
    "owned s2 = owned (set_child c (ch\<lparr>ch_refcount := 0\<rparr>) s)"
    using quiet_destroy [OF assms(1)] .
  have "io_unref H (RChild c) s = Some (s2\<lparr>heap_child := (heap_child s2)(c := None)\<rparr>)"
    using assms s2 by (subst io_unref.simps) (simp add: Let_def)
  moreover have "owned (s2\<lparr>heap_child := (heap_child s2)(c := None)\<rparr>) =
      (io_children s, (heap_child s)(c := None), heap_timer s, heap_next s)"
    using ownedD [OF s2(2)] by (simp add: owned_def set_child_def)
  ultimately show ?thesis by (rule that)
qed

text \<open>The last reference to a timer: of a child that has other references, or of a user.\<close>

lemma unref_timer_deferred:
  assumes "heap_timer s t = Some ti" "ti_refcount ti = 1" "ti_notify ti = DeferExpired c"
    and "heap_child s c = Some ch" "ch_refcount ch > 1"
  obtains s' where "io_unref H (RTimer t) s = Some s'"
    "owned s' = (io_children s, (heap_child s)(c \<mapsto> ch\<lparr>ch_refcount := ch_refcount ch - 1\<rparr>),
                 (heap_timer s)(t := None), heap_next s)"
proof -
  let ?s1 = "if ti_timerD ti > 0 then kern_close (ti_timerD ti) s else s"
  have o1: "owned ?s1 = owned s" by simp
  note e1 = ownedD [OF o1]
  have "io_unref H (RChild c) ?s1 = Some (set_child c (ch\<lparr>ch_refcount := ch_refcount ch - 1\<rparr>) ?s1)"
    using assms e1 by (intro unref_child_shared) simp_all
  then have "io_unref H (RTimer t) s =
      Some (set_child c (ch\<lparr>ch_refcount := ch_refcount ch - 1\<rparr>) ?s1
              \<lparr>heap_timer := (heap_timer (set_child c (ch\<lparr>ch_refcount := ch_refcount ch - 1\<rparr>) ?s1))(t := None)\<rparr>)"
    using assms by (subst io_unref.simps) (cases "ti_timerD ti > 0"; simp add: tgentimer_unref_def timer_free_def Let_def)
  then show ?thesis
    by (rule that) (use e1 in \<open>simp add: owned_def set_child_def\<close>)
qed

lemma unref_timer_user:
  assumes "quiet H" "heap_timer s t = Some ti" "ti_refcount ti = 1" "ti_notify ti = UserTimer u"
  obtains s' where "io_unref H (RTimer t) s = Some s'"
    "owned s' = (io_children s, heap_child s, (heap_timer s)(t := None), heap_next s)"
proof -
  let ?s1 = "if ti_timerD ti > 0 then kern_close (ti_timerD ti) s else s"
  obtain s2 where s2: "hd_timer_destroy H u ?s1 = Some s2" "owned s2 = owned ?s1"
    using quiet_timer_destroy [OF assms(1)] .
  have o1: "owned ?s1 = owned s" by simp
  have "io_unref H (RTimer t) s = Some (s2\<lparr>heap_timer := (heap_timer s2)(t := None)\<rparr>)"
    using assms s2(1) by (subst io_unref.simps) (cases "ti_timerD ti > 0"; simp add: tgentimer_unref_def timer_free_def Let_def)
  then show ?thesis
    by (rule that) (use ownedD [OF s2(2)] ownedD [OF o1] in \<open>simp add: owned_def\<close>)
qed

section \<open>Deregistering\<close>

definition owned_but :: "int \<Rightarrow> nat \<Rightarrow> ('c, 'o, 'z) tgenio_scheme \<Rightarrow>
    (int \<rightharpoonup> nat) \<times> (nat \<rightharpoonup> 'o io_child) \<times> (nat \<rightharpoonup> 'c timer_target timer) \<times> nat" where
  "owned_but d c s = ((io_children s)(d := None), (heap_child s)(c := None), heap_timer s, heap_next s)"

lemma remove_absent: "io_children s d = None \<Longrightarrow> table_remove H d s = Some s"
  by (simp add: table_remove_def)

lemma remove_plain:
  assumes "io_children s d = Some c" "heap_child s c = Some ch" "ch_deferWriteTimer ch = None"
  shows "table_remove H d s = io_unref H (RChild c) (s\<lparr>io_children := (io_children s)(d := None)\<rparr>)"
  using assms by (simp add: table_remove_def tgeniochild_hashTableDestroy_def)

lemma deregister_no_defer:
  assumes "\<And>c ch. io_children s d = Some c \<Longrightarrow> heap_child s c = Some ch \<Longrightarrow> ch_deferWriteTimer ch = None"
    and "\<And>c. io_children s d = Some c \<Longrightarrow> heap_child s c \<noteq> None"
  shows "tgenio_deregister H d s = table_remove H d (snd (epoll_ctl EPOLL_CTL_DEL d {} s))"
proof -
  show ?thesis
    using assms by (subst tgenio_deregister.simps) (cases "io_children s d"; auto simp: Let_def)
qed

lemma deregister_absent:
  assumes "io_children s d = None"
  obtains s' where "tgenio_deregister H d s = Some s'" "owned s' = owned s"
proof -
  have "tgenio_deregister H d s = Some (snd (epoll_ctl EPOLL_CTL_DEL d {} s))"
    using assms by (subst deregister_no_defer) (simp_all add: remove_absent)
  then show ?thesis by (rule that) simp
qed

lemma deregister_user:
  assumes "quiet H" "io_children s d = Some c" "heap_child s c = Some ch" "ch_deferWriteTimer ch = None"
    and "ch_refcount ch = 1" "ch_data ch = DUser x"
  obtains s' where "tgenio_deregister H d s = Some s'" "owned s' = owned_but d c s"
proof -
  let ?s1 = "snd (epoll_ctl EPOLL_CTL_DEL d {} s)"
  let ?s2 = "?s1\<lparr>io_children := (io_children ?s1)(d := None)\<rparr>"
  have "tgenio_deregister H d s = table_remove H d ?s1"
    using assms by (intro deregister_no_defer) simp_all
  also have "\<dots> = io_unref H (RChild c) ?s2"
    using assms by (intro remove_plain) simp_all
  finally have e: "tgenio_deregister H d s = io_unref H (RChild c) ?s2" .
  have "heap_child ?s2 c = Some ch" using assms by simp
  from unref_child_user [OF assms(1) this assms(5,4,6)] obtain s' where
    "io_unref H (RChild c) ?s2 = Some s'"
    "owned s' = (io_children ?s2, (heap_child ?s2)(c := None), heap_timer ?s2, heap_next ?s2)" .
  with e show ?thesis by (intro that [of s']) (simp_all add: owned_but_def)
qed

text \<open>Dropping the reference a registered timer's child holds.\<close>

lemma unref_child_timer:
  assumes "heap_child s c = Some ch" "ch_refcount ch = 1" "ch_deferWriteTimer ch = None" "ch_data ch = DTimer t"
    and "io_unref H (RTimer t) (set_child c (ch\<lparr>ch_refcount := 0\<rparr>) s) = Some s2"
  shows "io_unref H (RChild c) s = Some (s2\<lparr>heap_child := (heap_child s2)(c := None)\<rparr>)"
  using assms by (subst io_unref.simps) (simp add: Let_def)

text \<open>
  The timer's own child goes with one of its references; a timer without other references is freed.
\<close>

lemma deregister_timer:
  assumes "quiet H" "io_children s d = Some c" "heap_child s c = Some ch" "ch_deferWriteTimer ch = None"
    and "ch_refcount ch = 1" "ch_data ch = DTimer t" "heap_timer s t = Some ti" "ti_refcount ti \<ge> 1"
    and "ti_notify ti = UserTimer u"
  obtains s' where "tgenio_deregister H d s = Some s'"
    "owned s' = ((io_children s)(d := None), (heap_child s)(c := None),
                 (if ti_refcount ti = 1 then (heap_timer s)(t := None)
                  else (heap_timer s)(t \<mapsto> ti\<lparr>ti_refcount := ti_refcount ti - 1\<rparr>)), heap_next s)"
proof -
  let ?s1 = "snd (epoll_ctl EPOLL_CTL_DEL d {} s)"
  let ?s2 = "?s1\<lparr>io_children := (io_children ?s1)(d := None)\<rparr>"
  let ?s3 = "set_child c (ch\<lparr>ch_refcount := 0\<rparr>) ?s2"
  have e: "tgenio_deregister H d s = io_unref H (RChild c) ?s2"
    using assms by (subst deregister_no_defer) (simp_all add: remove_plain)
  have h3: "heap_timer ?s3 t = Some ti" using assms by (simp add: set_child_def)
  obtain s4 where s4: "io_unref H (RTimer t) ?s3 = Some s4"
    "owned s4 = (io_children ?s3, heap_child ?s3,
        (if ti_refcount ti = 1 then (heap_timer ?s3)(t := None)
         else (heap_timer ?s3)(t \<mapsto> ti\<lparr>ti_refcount := ti_refcount ti - 1\<rparr>)), heap_next ?s3)"
  proof (cases "ti_refcount ti = 1")
    case True
    from unref_timer_user [OF assms(1) h3 True assms(9)] that True show ?thesis by auto
  next
    case False
    with assms(8) have "ti_refcount ti > 1" by simp
    from unref_timer_shared [OF h3 this, of H] that False show ?thesis by (auto simp: owned_def)
  qed
  have "io_unref H (RChild c) ?s2 = Some (s4\<lparr>heap_child := (heap_child s4)(c := None)\<rparr>)"
    using assms s4(1) by (intro unref_child_timer) simp_all
  with e show ?thesis
    by (intro that [of "s4\<lparr>heap_child := (heap_child s4)(c := None)\<rparr>"])
      (use s4(2) in \<open>simp_all add: owned_def set_child_def\<close>)
qed

text \<open>The descriptor of a deferred write: its timer has lost the reference of the deferring child already.\<close>

lemma deregister_deferral:
  assumes "heap_child s c = Some ch" "ch_refcount ch > 1"
    and ti: "heap_timer s t = Some ti" "ti_notify ti = DeferExpired c" "ti_refcount ti = 1"
    and tc: "io_children s d = Some c'" "heap_child s c' = Some ch'" "ch_data ch' = DTimer t"
    "ch_deferWriteTimer ch' = None" "ch_refcount ch' = 1" "c' \<noteq> c"
  obtains s' where "tgenio_deregister H d s = Some s'"
    "owned s' = ((io_children s)(d := None),
                 (heap_child s)(c' := None, c \<mapsto> ch\<lparr>ch_refcount := ch_refcount ch - 1\<rparr>),
                 (heap_timer s)(t := None), heap_next s)"
proof -
  let ?s1 = "snd (epoll_ctl EPOLL_CTL_DEL d {} s)"
  let ?s2 = "?s1\<lparr>io_children := (io_children ?s1)(d := None)\<rparr>"
  let ?s3 = "set_child c' (ch'\<lparr>ch_refcount := 0\<rparr>) ?s2"
  have e: "tgenio_deregister H d s = io_unref H (RChild c') ?s2"
    using tc by (subst deregister_no_defer) (simp_all add: remove_plain)
  have h: "heap_timer ?s3 t = Some ti" "heap_child ?s3 c = Some ch"
    using assms by (simp_all add: set_child_def)
  obtain s4 where s4: "io_unref H (RTimer t) ?s3 = Some s4"
    "owned s4 = (io_children ?s3, (heap_child ?s3)(c \<mapsto> ch\<lparr>ch_refcount := ch_refcount ch - 1\<rparr>),
                 (heap_timer ?s3)(t := None), heap_next ?s3)"
    by (rule unref_timer_deferred [OF h(1) ti(3,2) h(2) assms(2)])
  have "io_unref H (RChild c') ?s2 = Some (s4\<lparr>heap_child := (heap_child s4)(c' := None)\<rparr>)"
    using tc s4(1) by (intro unref_child_timer) simp_all
  with e show ?thesis
    by (intro that [of "s4\<lparr>heap_child := (heap_child s4)(c' := None)\<rparr>"])
      (use s4(2) tc in \<open>auto simp: owned_def set_child_def fun_eq_iff\<close>)
qed

text \<open>Taking away a deferring child takes its timer and the timer's child with it.\<close>

lemma deregister_deferring:
  assumes "quiet H" "io_children s d = Some c" "heap_child s c = Some ch" "ch_deferWriteTimer ch = Some t"
    and "ch_refcount ch = 2" "ch_data ch = DUser x"
    and ti: "heap_timer s t = Some ti" "ti_notify ti = DeferExpired c" "ti_refcount ti = 2"
    and tc: "io_children s (ti_timerD ti) = Some c'" "heap_child s c' = Some ch'" "ch_data ch' = DTimer t"
    "ch_deferWriteTimer ch' = None" "ch_refcount ch' = 1" "c' \<noteq> c" "ti_timerD ti \<noteq> d"
  obtains s' where "tgenio_deregister H d s = Some s'"
    "owned s' = ((io_children s)(d := None, ti_timerD ti := None), (heap_child s)(c := None, c' := None),
                 (heap_timer s)(t := None), heap_next s)"
proof -
  let ?td = "ti_timerD ti"
  let ?s1 = "snd (epoll_ctl EPOLL_CTL_DEL d {} s)"
  let ?sc = "tgentimer_cancel ti ?s1"
  let ?ti1 = "ti\<lparr>ti_refcount := 1\<rparr>" and ?ch1 = "ch\<lparr>ch_deferWriteTimer := None\<rparr>"
  let ?s2 = "set_child c ?ch1 (?sc\<lparr>heap_timer := (heap_timer ?sc)(t \<mapsto> ?ti1)\<rparr>)"
  have drop: "drop_deferWriteTimer H c t ?s1 = Some ?s2"
    using assms by (simp add: drop_deferWriteTimer_def unref_timer_shared)
  have h: "heap_child ?s2 c = Some ?ch1" "heap_timer ?s2 t = Some ?ti1"
    "io_children ?s2 ?td = Some c'" "heap_child ?s2 c' = Some ch'"
    using assms by (auto simp: set_child_def)
  obtain s3 where s3: "tgenio_deregister H ?td ?s2 = Some s3"
    "owned s3 = ((io_children ?s2)(?td := None), (heap_child ?s2)(c' := None, c \<mapsto> ?ch1\<lparr>ch_refcount := ch_refcount ?ch1 - 1\<rparr>),
                 (heap_timer ?s2)(t := None), heap_next ?s2)"
    by (rule deregister_deferral [OF h(1) _ h(2) _ _ h(3,4) tc(3-6)]) (use assms in auto)
  have o3: "io_children s3 = (io_children s)(?td := None)"
    "heap_child s3 = (heap_child s)(c' := None, c \<mapsto> ?ch1\<lparr>ch_refcount := 1\<rparr>)"
    "heap_timer s3 = (heap_timer s)(t := None)" "heap_next s3 = heap_next s"
    using s3(2) assms by (auto simp: owned_def set_child_def fun_eq_iff)
  let ?s4 = "s3\<lparr>io_children := (io_children s3)(d := None)\<rparr>"
  have "tgenio_deregister H d s = table_remove H d s3"
    using assms drop s3(1) by (subst tgenio_deregister.simps) (simp add: tgentimer_getDescriptor_def Let_def)
  also have "\<dots> = io_unref H (RChild c) ?s4"
    by (rule remove_plain [where ch = "?ch1\<lparr>ch_refcount := 1\<rparr>"]) (use assms o3 in simp_all)
  finally have e: "tgenio_deregister H d s = io_unref H (RChild c) ?s4" .
  have h4: "heap_child ?s4 c = Some (?ch1\<lparr>ch_refcount := 1\<rparr>)" by (simp add: o3)
  obtain s5 where "io_unref H (RChild c) ?s4 = Some s5"
    "owned s5 = (io_children ?s4, (heap_child ?s4)(c := None), heap_timer ?s4, heap_next ?s4)"
    by (rule unref_child_user [OF assms(1) h4]) (use assms in auto)
  with e show ?thesis
    by (intro that [of s5]) (auto simp: o3 fun_eq_iff)
qed

section \<open>The invariant\<close>

text \<open>
  The timer of a deferring child: it calls that child, its two references are the child's and its own
  child's, and its own child is registered. A registered timer's descriptor is that of its child.
\<close>

definition defers_ok where
  "defers_ok T HC HT c t \<longleftrightarrow>
     (\<exists>ti c' ch'. HT t = Some ti \<and> ti_notify ti = DeferExpired c \<and> ti_refcount ti = 2 \<and>
        T (ti_timerD ti) = Some c' \<and> HC c' = Some ch' \<and> ch_data ch' = DTimer t)"

definition child_ok where
  "child_ok T HC HT c ch \<longleftrightarrow>
     (case ch_deferWriteTimer ch of
        None \<Rightarrow> ch_refcount ch = 1
      | Some t \<Rightarrow> ch_refcount ch = 2 \<and> (\<exists>x. ch_data ch = DUser x) \<and> defers_ok T HC HT c t) \<and>
     (\<forall>t. ch_data ch = DTimer t \<longrightarrow>
        (\<exists>ti. HT t = Some ti \<and> ti_timerD ti = ch_descriptor ch \<and> ti_refcount ti \<ge> 1))"

definition own_inv where
  "own_inv T HC HT N \<longleftrightarrow>
     (\<forall>d c. T d = Some c \<longrightarrow> (\<exists>ch. HC c = Some ch \<and> ch_descriptor ch = d \<and> child_ok T HC HT c ch)) \<and>
     (\<forall>c ch. HC c = Some ch \<longrightarrow> T (ch_descriptor ch) = Some c) \<and>
     (\<forall>t ti c. HT t = Some ti \<longrightarrow> ti_notify ti = DeferExpired c \<longrightarrow>
        (\<exists>ch. HC c = Some ch \<and> ch_deferWriteTimer ch = Some t)) \<and>
     (\<forall>a \<ge> N. HC a = None \<and> HT a = None)"

definition io_own :: "('c, 'o, 'z) tgenio_scheme \<Rightarrow> bool" where
  "io_own s \<longleftrightarrow> own_inv (io_children s) (heap_child s) (heap_timer s) (heap_next s)"

lemma io_own_owned: "owned s' = owned s \<Longrightarrow> io_own s' = io_own s"
  by (simp add: owned_def io_own_def)

lemma own_inv_table:
  assumes "own_inv T HC HT N" "T d = Some c"
  obtains ch where "HC c = Some ch" "ch_descriptor ch = d" "child_ok T HC HT c ch"
  using assms unfolding own_inv_def by blast

lemma own_inv_heap: "own_inv T HC HT N \<Longrightarrow> HC c = Some ch \<Longrightarrow> T (ch_descriptor ch) = Some c"
  unfolding own_inv_def by blast

lemma own_inv_child: "own_inv T HC HT N \<Longrightarrow> HC c = Some ch \<Longrightarrow> child_ok T HC HT c ch"
  unfolding own_inv_def by (metis option.inject)

lemma own_inv_timer:
  "own_inv T HC HT N \<Longrightarrow> HT t = Some ti \<Longrightarrow> ti_notify ti = DeferExpired c \<Longrightarrow>
     \<exists>ch. HC c = Some ch \<and> ch_deferWriteTimer ch = Some t"
  unfolding own_inv_def by blast

lemma own_inv_fresh: "own_inv T HC HT N \<Longrightarrow> a \<ge> N \<Longrightarrow> HC a = None \<and> HT a = None"
  unfolding own_inv_def by blast

lemma own_invI:
  assumes "\<And>d c. T d = Some c \<Longrightarrow> \<exists>ch. HC c = Some ch \<and> ch_descriptor ch = d"
    and "\<And>c ch. HC c = Some ch \<Longrightarrow> T (ch_descriptor ch) = Some c \<and> child_ok T HC HT c ch"
    and "\<And>t ti c. HT t = Some ti \<Longrightarrow> ti_notify ti = DeferExpired c \<Longrightarrow>
           \<exists>ch. HC c = Some ch \<and> ch_deferWriteTimer ch = Some t"
    and "\<And>a. a \<ge> N \<Longrightarrow> HC a = None \<and> HT a = None"
  shows "own_inv T HC HT N"
  unfolding own_inv_def
proof (intro conjI allI impI)
  show "\<exists>ch. HC c = Some ch \<and> ch_descriptor ch = d \<and> child_ok T HC HT c ch" if "T d = Some c" for d c
    using assms(1) [OF that] assms(2) by blast
qed (use assms(2-4) in auto)

text \<open>What a timer target owns does not depend on entries that are not its own.\<close>

lemma defers_ok_mono:
  assumes "defers_ok T HC HT c t"
    and "HT' t = HT t"
    and "\<And>ti c' ch'. HT t = Some ti \<Longrightarrow> T (ti_timerD ti) = Some c' \<Longrightarrow> HC c' = Some ch' \<Longrightarrow> ch_data ch' = DTimer t \<Longrightarrow>
           T' (ti_timerD ti) = Some c' \<and> (\<exists>ch''. HC' c' = Some ch'' \<and> ch_data ch'' = DTimer t)"
  shows "defers_ok T' HC' HT' c t"
proof -
  from assms(1) obtain ti c' ch' where h: "HT t = Some ti" "ti_notify ti = DeferExpired c" "ti_refcount ti = 2"
    "T (ti_timerD ti) = Some c'" "HC c' = Some ch'" "ch_data ch' = DTimer t"
    unfolding defers_ok_def by blast
  from assms(3) [OF h(1,4,5,6)] h(1-3) assms(2) show ?thesis unfolding defers_ok_def by auto
qed

lemma child_ok_mono:
  assumes "child_ok T HC HT c ch"
    and "\<And>t. ch_deferWriteTimer ch = Some t \<Longrightarrow> defers_ok T HC HT c t \<Longrightarrow> defers_ok T' HC' HT' c t"
    and "\<And>t. ch_data ch = DTimer t \<Longrightarrow> HT' t = HT t"
  shows "child_ok T' HC' HT' c ch"
  using assms unfolding child_ok_def by (auto split: option.splits)

text \<open>Another child comes in: of an owner, or of a timer nobody has registered yet.\<close>

lemma own_inv_add:
  assumes inv: "own_inv T HC HT N" and d: "T d = None" and N': "N \<le> N'"
    and new: "ch_descriptor new = d" "ch_deferWriteTimer new = None" "ch_refcount new = 1"
    "\<And>t. ch_data new = DTimer t \<Longrightarrow> \<exists>ti. HT t = Some ti \<and> ti_timerD ti = d \<and> ti_refcount ti \<ge> 1"
  shows "own_inv (T(d \<mapsto> N')) (HC(N' \<mapsto> new)) HT (N' + 1)"
proof (rule own_invI)
  have fN: "HC N' = None" using own_inv_fresh [OF inv N'] by simp
  show "\<exists>ch. (HC(N' \<mapsto> new)) c = Some ch \<and> ch_descriptor ch = e" if "(T(d \<mapsto> N')) e = Some c" for e c
  proof (cases "e = d")
    case False
    with that have "T e = Some c" by simp
    from own_inv_table [OF inv this] obtain ch where "HC c = Some ch" "ch_descriptor ch = e" .
    with fN show ?thesis by (intro exI [of _ ch]) auto
  qed (use that new in simp)
  show "(T(d \<mapsto> N')) (ch_descriptor ch) = Some c \<and> child_ok (T(d \<mapsto> N')) (HC(N' \<mapsto> new)) HT c ch"
    if c: "(HC(N' \<mapsto> new)) c = Some ch" for c ch
  proof (cases "c = N'")
    case True
    with c new show ?thesis by (auto simp: child_ok_def)
  next
    case False
    with c have c: "HC c = Some ch" by simp
    have "child_ok (T(d \<mapsto> N')) (HC(N' \<mapsto> new)) HT c ch"
      by (rule child_ok_mono [OF own_inv_child [OF inv c]], erule defers_ok_mono)
        (use d fN in auto)
    moreover have "T (ch_descriptor ch) = Some c" by (rule own_inv_heap [OF inv c])
    ultimately show ?thesis using d by auto
  qed
  show "\<exists>ch. (HC(N' \<mapsto> new)) c = Some ch \<and> ch_deferWriteTimer ch = Some t"
    if "HT t = Some ti" "ti_notify ti = DeferExpired c" for t ti c
    using own_inv_timer [OF inv that] fN by auto
  show "(HC(N' \<mapsto> new)) a = None \<and> HT a = None" if "a \<ge> N' + 1" for a
    using that N' own_inv_fresh [OF inv, of a] by simp
qed

text \<open>A child goes: of an owner, or of a user's timer, which loses a reference with it.\<close>

lemma own_inv_remove:
  assumes inv: "own_inv T HC HT N" and c: "T d = Some c" "HC c = Some ch" "ch_deferWriteTimer ch = None"
    and HT': "\<And>t. ch_data ch \<noteq> DTimer t \<Longrightarrow> HT' t = HT t"
    and own: "\<And>t ti. ch_data ch = DTimer t \<Longrightarrow> HT t = Some ti \<Longrightarrow>
      (\<exists>u. ti_notify ti = UserTimer u) \<and> (HT' t = None \<or> (\<exists>n. HT' t = Some (ti\<lparr>ti_refcount := n\<rparr>)))"
  shows "own_inv (T(d := None)) (HC(c := None)) HT' N"
proof (rule own_invI)
  have d: "ch_descriptor ch = d"
    using own_inv_table [OF inv c(1)] c(2) by auto
  have ok: "child_ok T HC HT b bh" if "HC b = Some bh" for b bh
    by (rule own_inv_child [OF inv that])
  have mine: "\<exists>ti. HT t = Some ti \<and> ti_timerD ti = d \<and> (\<exists>u. ti_notify ti = UserTimer u)" if "ch_data ch = DTimer t" for t
    using ok [OF c(2)] that own d by (auto simp: child_ok_def)
  show "\<exists>bh. (HC(c := None)) b = Some bh \<and> ch_descriptor bh = e" if "(T(d := None)) e = Some b" for e b
  proof -
    from that have e: "e \<noteq> d" "T e = Some b" by (auto split: if_splits)
    obtain bh where b: "HC b = Some bh" "ch_descriptor bh = e"
      using own_inv_table [OF inv e(2)] .
    with e d c have "b \<noteq> c" by auto
    with b show ?thesis by auto
  qed
  show "(T(d := None)) (ch_descriptor bh) = Some b \<and> child_ok (T(d := None)) (HC(c := None)) HT' b bh"
    if b: "(HC(c := None)) b = Some bh" for b bh
  proof -
    from b have b: "HC b = Some bh" "b \<noteq> c" by (auto split: if_splits)
    have "child_ok (T(d := None)) (HC(c := None)) HT' b bh"
    proof (rule child_ok_mono [OF ok [OF b(1)]])
      fix r assume r: "defers_ok T HC HT b r"
      then have nr: "ch_data ch \<noteq> DTimer r" using mine [of r] by (auto simp: defers_ok_def)
      with r show "defers_ok (T(d := None)) (HC(c := None)) HT' b r"
        by (elim defers_ok_mono) (use c HT' in auto)
    next
      fix r assume r: "ch_data bh = DTimer r"
      have "ch_data ch \<noteq> DTimer r"
      proof
        assume "ch_data ch = DTimer r"
        with r ok [OF b(1)] mine [of r] have "ch_descriptor bh = d" by (auto simp: child_ok_def)
        with own_inv_heap [OF inv b(1)] c b show False by simp
      qed
      then show "HT' r = HT r" by (rule HT')
    qed
    with own_inv_heap [OF inv b(1)] b c show ?thesis by auto
  qed
  show "\<exists>bh. (HC(c := None)) b = Some bh \<and> ch_deferWriteTimer bh = Some r"
    if r: "HT' r = Some ri" "ti_notify ri = DeferExpired b" for r ri b
  proof -
    have "ch_data ch \<noteq> DTimer r"
    proof
      assume m: "ch_data ch = DTimer r"
      from mine [OF m] obtain ti where "HT r = Some ti" by blast
      from own [OF m this] r show False by auto
    qed
    with r HT' have "HT r = Some ri" by simp
    from own_inv_timer [OF inv this r(2)] c show ?thesis by auto
  qed
  show "(HC(c := None)) a = None \<and> HT' a = None" if "a \<ge> N" for a
    using own_inv_fresh [OF inv that] HT' mine [of a] by (cases "ch_data ch = DTimer a") auto
qed

text \<open>A deferred write begins, and ends.\<close>

lemma own_inv_defer:
  assumes inv: "own_inv T HC HT N" and c: "T d = Some c" "HC c = Some ch"
    and ch: "ch_deferWriteTimer ch = None" "ch_data ch = DUser x"
    and ti: "ti_notify ti = DeferExpired c" "ti_refcount ti = 2" "T (ti_timerD ti) = None"
    and new: "ch_descriptor new = ti_timerD ti" "ch_deferWriteTimer new = None" "ch_refcount new = 1"
    "ch_data new = DTimer N"
  shows "own_inv (T(ti_timerD ti \<mapsto> N + 1)) (HC(c \<mapsto> ch\<lparr>ch_refcount := 2, ch_deferWriteTimer := Some N\<rparr>, N + 1 \<mapsto> new))
           (HT(N \<mapsto> ti)) (N + 2)"
    (is "own_inv ?T ?HC ?HT _")
proof (rule own_invI)
  have f: "HC N = None" "HC (N + 1) = None" "HT N = None" using own_inv_fresh [OF inv] by auto
  with c have cN: "c \<noteq> N + 1" by auto
  have d: "ch_descriptor ch = d"
    using own_inv_table [OF inv c(1)] c(2) by auto
  have ok: "child_ok T HC HT b bh" if "HC b = Some bh" for b bh
    by (rule own_inv_child [OF inv that])
  have c_ok: "defers_ok ?T ?HC ?HT c N"
    using ti new cN by (auto simp: defers_ok_def)
  show "\<exists>bh. ?HC b = Some bh \<and> ch_descriptor bh = e" if "?T e = Some b" for e b
  proof (cases "e = ti_timerD ti")
    case False
    with that have e: "T e = Some b" by simp
    obtain bh where "HC b = Some bh" "ch_descriptor bh = e" using own_inv_table [OF inv e] .
    with f c show ?thesis by (cases "b = c") auto
  qed (use that new in simp)
  show "?T (ch_descriptor bh) = Some b \<and> child_ok ?T ?HC ?HT b bh" if b: "?HC b = Some bh" for b bh
  proof (cases "b = N + 1 \<or> b = c")
    case True
    then show ?thesis
      using b new ti c ch cN c_ok d by (auto simp: child_ok_def)
  next
    case False
    with b have b: "HC b = Some bh" by simp
    have "child_ok ?T ?HC ?HT b bh"
    proof (rule child_ok_mono [OF ok [OF b]])
      fix r assume r: "defers_ok T HC HT b r"
      with f have "r \<noteq> N" by (auto simp: defers_ok_def)
      with r show "defers_ok ?T ?HC ?HT b r"
        by (elim defers_ok_mono) (use f ti c ch in auto)
    next
      fix r assume "ch_data bh = DTimer r"
      with ok [OF b] f have "r \<noteq> N" by (auto simp: child_ok_def)
      then show "?HT r = HT r" by simp
    qed
    with own_inv_heap [OF inv b] ti show ?thesis by auto
  qed
  show "\<exists>bh. ?HC b = Some bh \<and> ch_deferWriteTimer bh = Some r"
    if "?HT r = Some ri" "ti_notify ri = DeferExpired b" for r ri b
  proof (cases "r = N")
    case False
    with that own_inv_timer [OF inv, of r ri b] obtain bh where "HC b = Some bh" "ch_deferWriteTimer bh = Some r" by auto
    with f c ch show ?thesis by (cases "b = c") auto
  qed (use that ti cN in auto)
  show "?HC a = None \<and> ?HT a = None" if "a \<ge> N + 2" for a
    using that own_inv_fresh [OF inv, of a] c by auto
qed

lemma own_inv_undefer:
  assumes inv: "own_inv T HC HT N" and c: "T d = Some c" "HC c = Some ch" "ch_deferWriteTimer ch = Some t"
    and ti: "HT t = Some ti" "T (ti_timerD ti) = Some c'" "HC c' = Some ch'" "ch_data ch' = DTimer t"
  shows "own_inv (T(ti_timerD ti := None)) (HC(c' := None, c \<mapsto> ch\<lparr>ch_deferWriteTimer := None, ch_refcount := 1\<rparr>))
           (HT(t := None)) N"
    (is "own_inv ?T ?HC ?HT _")
proof (rule own_invI)
  have ok: "child_ok T HC HT b bh" if "HC b = Some bh" for b bh
    by (rule own_inv_child [OF inv that])
  have tn: "ti_notify ti = DeferExpired c" and chx: "\<exists>x. ch_data ch = DUser x"
    using ok [OF c(2)] c(3) ti(1) by (auto simp: child_ok_def defers_ok_def)
  then have cc: "c' \<noteq> c" using ti c by auto
  have d: "ch_descriptor ch = d"
    using own_inv_table [OF inv c(1)] c(2) by auto
  have td: "ch_descriptor ch' = ti_timerD ti"
    using own_inv_table [OF inv ti(2)] ti(3) by auto
  have dtd: "d \<noteq> ti_timerD ti" using cc c ti by auto
  show "\<exists>bh. ?HC b = Some bh \<and> ch_descriptor bh = e" if "?T e = Some b" for e b
  proof -
    from that have e: "e \<noteq> ti_timerD ti" "T e = Some b" by (auto split: if_splits)
    obtain bh where b: "HC b = Some bh" "ch_descriptor bh = e" using own_inv_table [OF inv e(2)] .
    with e td ti have "b \<noteq> c'" by auto
    with b c d show ?thesis by (cases "b = c") auto
  qed
  show "?T (ch_descriptor bh) = Some b \<and> child_ok ?T ?HC ?HT b bh" if b: "?HC b = Some bh" for b bh
  proof (cases "b = c")
    case True
    with b chx c d dtd show ?thesis by (auto simp: child_ok_def)
  next
    case False
    with b have b: "HC b = Some bh" "b \<noteq> c'" by (auto split: if_splits)
    note T = own_inv_heap [OF inv b(1)]
    have "child_ok ?T ?HC ?HT b bh"
    proof (rule child_ok_mono [OF ok [OF b(1)]])
      fix r assume r: "defers_ok T HC HT b r"
      with ti tn False have "r \<noteq> t" by (auto simp: defers_ok_def)
      with r show "defers_ok ?T ?HC ?HT b r"
        by (elim defers_ok_mono) (use ti c chx in auto)
    next
      fix r assume r: "ch_data bh = DTimer r"
      have "r \<noteq> t"
      proof
        assume "r = t"
        with r ok [OF b(1)] ti have "ch_descriptor bh = ti_timerD ti" by (auto simp: child_ok_def)
        with T ti b show False by simp
      qed
      then show "?HT r = HT r" by simp
    qed
    with T b ti show ?thesis by auto
  qed
  show "\<exists>bh. ?HC b = Some bh \<and> ch_deferWriteTimer bh = Some r"
    if r: "?HT r = Some ri" "ti_notify ri = DeferExpired b" for r ri b
  proof -
    from r have r': "r \<noteq> t" "HT r = Some ri" by (auto split: if_splits)
    from own_inv_timer [OF inv r'(2) r(2)] obtain bh where b: "HC b = Some bh" "ch_deferWriteTimer bh = Some r" by blast
    from b c r' have "b \<noteq> c" by auto
    moreover have "b \<noteq> c'" using b ok [OF ti(3)] ti by (auto simp: child_ok_def)
    ultimately show ?thesis using b by auto
  qed
  show "?HC a = None \<and> ?HT a = None" if "a \<ge> N" for a
    using own_inv_fresh [OF inv that] c by auto
qed

lemma own_inv_events:
  assumes inv: "own_inv T HC HT N" and c: "HC c = Some ch"
  shows "own_inv T (HC(c \<mapsto> ch\<lparr>ch_currentEvents := ev\<rparr>)) HT N"
proof (rule own_invI)
  let ?HC = "HC(c \<mapsto> ch\<lparr>ch_currentEvents := ev\<rparr>)"
  show "\<exists>bh. ?HC b = Some bh \<and> ch_descriptor bh = e" if Te: "T e = Some b" for e b
  proof -
    obtain bh where "HC b = Some bh" "ch_descriptor bh = e" using own_inv_table [OF inv Te] .
    with c show ?thesis by (cases "b = c") auto
  qed
  show "T (ch_descriptor bh) = Some b \<and> child_ok T ?HC HT b bh" if b: "?HC b = Some bh" for b bh
  proof -
    obtain bh0 where b0: "HC b = Some bh0" "bh0 = bh \<or> bh = bh0\<lparr>ch_currentEvents := ev\<rparr>"
      using b c by (cases "b = c") auto
    have "child_ok T ?HC HT b bh0"
      by (rule child_ok_mono [OF own_inv_child [OF inv b0(1)]], erule defers_ok_mono) (use c in auto)
    with b0(2) have "child_ok T ?HC HT b bh" by (auto simp: child_ok_def split: option.splits)
    with own_inv_heap [OF inv b0(1)] b0(2) show ?thesis by auto
  qed
  show "\<exists>bh. ?HC b = Some bh \<and> ch_deferWriteTimer bh = Some t"
    if "HT t = Some ti" "ti_notify ti = DeferExpired b" for t ti b
    using own_inv_timer [OF inv that] c by (cases "b = c") auto
  show "?HC a = None \<and> HT a = None" if "a \<ge> N" for a
    using own_inv_fresh [OF inv that] c by auto
qed

section \<open>The operations keep it\<close>

text \<open>The descriptor of the timer of a deferred write: only the loop itself may deregister it.\<close>

definition deferral_fd :: "('c, 'o, 'z) tgenio_scheme \<Rightarrow> int \<Rightarrow> bool" where
  "deferral_fd s d \<longleftrightarrow> (\<exists>c ch t ti e. io_children s d = Some c \<and> heap_child s c = Some ch \<and> ch_data ch = DTimer t \<and>
     heap_timer s t = Some ti \<and> ti_notify ti = DeferExpired e)"

lemma io_own_parts:
  "io_own s \<Longrightarrow> owned s' = (T, HC, HT, N) \<Longrightarrow> own_inv T HC HT N \<Longrightarrow> io_own s'"
  by (simp add: owned_def io_own_def)

lemma deregister_own:
  assumes q: "quiet H" and inv: "io_own s" and d: "\<not> deferral_fd s d"
  obtains s' where "tgenio_deregister H d s = Some s'" "io_own s'" "io_children s' d = None"
    "\<And>e. io_children s e = None \<Longrightarrow> io_children s' e = None" "heap_next s' = heap_next s"
proof (cases "io_children s d")
  case None
  obtain s' where s': "tgenio_deregister H d s = Some s'" "owned s' = owned s"
    by (rule deregister_absent [OF None])
  show ?thesis
    by (rule that [OF s'(1)]) (use inv None ownedD [OF s'(2)] io_own_owned [OF s'(2)] in auto)
next
  case (Some c)
  note I = inv [unfolded io_own_def]
  obtain ch where ch: "heap_child s c = Some ch" "ch_descriptor ch = d"
    "child_ok (io_children s) (heap_child s) (heap_timer s) c ch"
    using own_inv_table [OF I Some] .
  note fin = that [OF _ io_own_parts [OF inv]]
  show ?thesis
  proof (cases "ch_deferWriteTimer ch")
    case None
    note rm = own_inv_remove [OF I Some ch(1) None]
    show ?thesis
    proof (cases "ch_data ch")
      case (DUser x)
      have "ch_refcount ch = 1" using ch(3) None by (simp add: child_ok_def)
      from deregister_user [OF q Some ch(1) None this DUser] obtain s' where
        s': "tgenio_deregister H d s = Some s'"
        "owned s' = ((io_children s)(d := None), (heap_child s)(c := None), heap_timer s, heap_next s)"
        unfolding owned_but_def .
      show ?thesis
        by (rule fin [OF s'], rule rm) (use s'(2) DUser in \<open>auto simp: owned_def\<close>)
    next
      case (DTimer t)
      then obtain ti where ti: "heap_timer s t = Some ti" "ti_refcount ti \<ge> 1"
        using ch(3) by (auto simp: child_ok_def)
      with d Some ch(1) DTimer obtain u where u: "ti_notify ti = UserTimer u"
        by (cases "ti_notify ti") (auto simp: deferral_fd_def)
      have "ch_refcount ch = 1" using ch(3) None by (simp add: child_ok_def)
      from deregister_timer [OF q Some ch(1) None this DTimer ti u] obtain s' where
        s': "tgenio_deregister H d s = Some s'"
        "owned s' = ((io_children s)(d := None), (heap_child s)(c := None),
                 (if ti_refcount ti = 1 then (heap_timer s)(t := None)
                  else (heap_timer s)(t \<mapsto> ti\<lparr>ti_refcount := ti_refcount ti - 1\<rparr>)), heap_next s)" .
      show ?thesis
        by (rule fin [OF s'], rule rm) (use s'(2) DTimer ti u in \<open>auto simp: owned_def\<close>)
    qed
  next
    case (Some t)
    note cd = \<open>io_children s d = Some c\<close>
    obtain x ti c' ch' where r: "ch_refcount ch = 2" "ch_data ch = DUser x"
      and ti: "heap_timer s t = Some ti" "ti_notify ti = DeferExpired c" "ti_refcount ti = 2"
      and tc: "io_children s (ti_timerD ti) = Some c'" "heap_child s c' = Some ch'" "ch_data ch' = DTimer t"
      using ch(3) Some by (auto simp: child_ok_def defers_ok_def)
    have tc': "ch_deferWriteTimer ch' = None" "ch_refcount ch' = 1"
      using own_inv_child [OF I tc(2)] tc(3) by (auto simp: child_ok_def split: option.splits)
    have cc: "c' \<noteq> c" "ti_timerD ti \<noteq> d" using tc r ch(1) cd by auto
    obtain s' where s': "tgenio_deregister H d s = Some s'"
      "owned s' = ((io_children s)(d := None, ti_timerD ti := None), (heap_child s)(c := None, c' := None),
                 (heap_timer s)(t := None), heap_next s)"
      by (rule deregister_deferring [OF q cd ch(1) Some r ti tc tc' cc])
    note un = own_inv_undefer [OF I cd ch(1) Some ti(1) tc]
    have "own_inv ((io_children s)(d := None, ti_timerD ti := None)) ((heap_child s)(c := None, c' := None))
                 ((heap_timer s)(t := None)) (heap_next s)"
      using own_inv_remove [OF un, of d c "ch\<lparr>ch_deferWriteTimer := None, ch_refcount := 1\<rparr>" "(heap_timer s)(t := None)"]
        cd cc r by (simp add: fun_upd_twist)
    then show ?thesis
      by (rule fin [OF s']) (use s'(2) in \<open>auto simp: owned_def\<close>)
  qed
qed

lemma register_fresh:
  assumes "io_children s d = None"
  shows "tgenio_register H d chk data s =
    (case epoll_ctl EPOLL_CTL_ADD d {EPOLLIN, EPOLLOUT} s of (ok, s1) \<Rightarrow>
       if ok then Some (True, s1\<lparr>heap_next := heap_next s + 1,
              heap_child := (heap_child s)(heap_next s \<mapsto> tgeniochild_new d {EPOLLIN, EPOLLOUT} chk data),
              io_children := (io_children s)(d \<mapsto> heap_next s)\<rparr>)
       else Some (False, s1))"
proof -
  obtain ok s1 where e: "epoll_ctl EPOLL_CTL_ADD d {EPOLLIN, EPOLLOUT} s = (ok, s1)" by fastforce
  have "owned s1 = owned s" using owned_epoll_ctl [of EPOLL_CTL_ADD d "{EPOLLIN, EPOLLOUT}" s] e by simp
  note o = ownedD [OF this]
  show ?thesis
    using assms e by (simp add: tgenio_register_def set_child_def Let_def o)
qed

lemma register_owned:
  assumes "io_children s d = None"
  obtains s' ok where "tgenio_register H d chk data s = Some (ok, s')"
    "owned s' = (if ok then ((io_children s)(d \<mapsto> heap_next s),
        (heap_child s)(heap_next s \<mapsto> tgeniochild_new d {EPOLLIN, EPOLLOUT} chk data), heap_timer s, heap_next s + 1)
      else owned s)"
    "ok = fst (epoll_ctl EPOLL_CTL_ADD d {EPOLLIN, EPOLLOUT} s)"
proof -
  obtain ok s1 where e: "epoll_ctl EPOLL_CTL_ADD d {EPOLLIN, EPOLLOUT} s = (ok, s1)" by fastforce
  have o: "owned s1 = owned s" using owned_epoll_ctl [of EPOLL_CTL_ADD d "{EPOLLIN, EPOLLOUT}" s] e by simp
  let ?s2 = "if ok then s1\<lparr>heap_next := heap_next s + 1,
        heap_child := (heap_child s)(heap_next s \<mapsto> tgeniochild_new d {EPOLLIN, EPOLLOUT} chk data),
        io_children := (io_children s)(d \<mapsto> heap_next s)\<rparr> else s1"
  have "tgenio_register H d chk data s = Some (ok, ?s2)"
    using register_fresh [OF assms, of H chk data] e by simp
  then show ?thesis
    by (rule that) (use e o ownedD [OF o] in \<open>simp_all add: owned_def split: if_split\<close>)
qed

lemma register_own:
  assumes q: "quiet H" and inv: "io_own s" and d: "\<not> deferral_fd s d"
    and data: "\<And>t. data = DTimer t \<Longrightarrow> io_children s d = None \<and>
                  (\<exists>ti. heap_timer s t = Some ti \<and> ti_timerD ti = d \<and> ti_refcount ti \<ge> 1)"
  obtains ok s' where "tgenio_register H d chk data s = Some (ok, s')" "io_own s'"
    "ok \<longleftrightarrow> io_children s' d \<noteq> None"
proof -
  obtain s1 where s1: "io_own s1" "io_children s1 d = None"
    "tgenio_register H d chk data s = tgenio_register H d chk data s1"
    "\<And>t. data = DTimer t \<Longrightarrow> s1 = s"
  proof (cases "io_children s d")
    case None
    then show ?thesis by (rule that [OF inv _ refl refl])
  next
    case (Some c)
    obtain s1 where s1: "tgenio_deregister H d s = Some s1" "io_own s1" "io_children s1 d = None"
      using deregister_own [OF q inv d] .
    then have "tgenio_register H d chk data s = tgenio_register H d chk data s1"
      using Some by (simp add: tgenio_register_def)
    moreover have "s1 = s" if "data = DTimer t" for t using data [OF that] Some by simp
    ultimately show ?thesis by (intro that [OF s1(2,3)])
  qed
  obtain s' ok where s': "tgenio_register H d chk data s1 = Some (ok, s')"
    "owned s' = (if ok then ((io_children s1)(d \<mapsto> heap_next s1),
        (heap_child s1)(heap_next s1 \<mapsto> tgeniochild_new d {EPOLLIN, EPOLLOUT} chk data), heap_timer s1, heap_next s1 + 1)
      else owned s1)"
    using register_owned [OF s1(2)] .
  have add: "own_inv ((io_children s1)(d \<mapsto> heap_next s1))
      ((heap_child s1)(heap_next s1 \<mapsto> tgeniochild_new d {EPOLLIN, EPOLLOUT} chk data)) (heap_timer s1) (heap_next s1 + 1)"
    by (rule own_inv_add [OF s1(1) [unfolded io_own_def] s1(2) order_refl]) (use data s1(4) in \<open>auto simp: tgeniochild_new_def\<close>)
  show ?thesis
  proof (cases ok)
    case True
    have "io_own s'" "io_children s' d \<noteq> None" using s'(2) True add by (simp_all add: io_own_def owned_def)
    with True s'(1) s1(3) show ?thesis by (intro that [of True s']) simp_all
  next
    case False
    have o: "owned s' = owned s1" using s'(2) False by simp
    have "io_own s'" "io_children s' d = None" using s1(1,2) ownedD [OF o] io_own_owned [OF o] by simp_all
    with False s'(1) s1(3) show ?thesis by (intro that [of False s']) simp_all
  qed
qed

lemma sync_own:
  assumes inv: "io_own s" and c: "heap_child s c = Some ch"
  obtains s' where "tgenio_syncEpollEvents c ev s = Some s'" "io_own s'" "io_children s' = io_children s"
proof (cases "ch_currentEvents ch = ev")
  case True
  with assms show ?thesis by (intro that) (auto simp: tgenio_syncEpollEvents_def)
next
  case False
  obtain ok s1 where e: "epoll_ctl EPOLL_CTL_MOD (ch_descriptor ch) ev s = (ok, s1)" by fastforce
  have o: "owned s1 = owned s" using owned_epoll_ctl [of EPOLL_CTL_MOD "ch_descriptor ch" ev s] e by simp
  have "io_own (set_child c (ch\<lparr>ch_currentEvents := ev\<rparr>) s1)"
    using own_inv_events [OF inv [unfolded io_own_def] c] ownedD [OF o] by (simp add: io_own_def set_child_def)
  with False e c inv io_own_owned [OF o] ownedD [OF o] show ?thesis
    by (intro that [of "if ok then set_child c (ch\<lparr>ch_currentEvents := ev\<rparr>) s1 else s1"])
      (auto simp: tgenio_syncEpollEvents_def set_child_def)
qed

lemma expired_own:
  assumes inv: "io_own s" and c: "heap_child s c = Some ch"
  obtains s' where "tgenio_onDeferTimerExpired c s = Some (False, s')" "io_own s'" "io_children s' = io_children s"
proof -
  have "io_children s (ch_descriptor ch) = Some c"
    by (rule own_inv_heap [OF inv [unfolded io_own_def] c])
  moreover obtain s' where "tgenio_syncEpollEvents c (ch_currentEvents ch \<union> {EPOLLOUT}) s = Some s'"
    "io_own s'" "io_children s' = io_children s"
    using sync_own [OF inv c] .
  ultimately show ?thesis
    using c by (intro that [of s']) (simp_all add: tgenio_onDeferTimerExpired_def)
qed

text \<open>
  Deferring writes: the first time the kernel must give a timer on an unused descriptor and accept it
  in the interest list.
\<close>

definition timer_granted :: "('c, 'o, 'z) tgenio_scheme \<Rightarrow> bool" where
  "timer_granted s \<longleftrightarrow>
     k_settime s = [] \<and> k_epoll_ctl s = [] \<and>
     (case k_timerfd_create s of
        [] \<Rightarrow> False
      | td # _ \<Rightarrow> td \<ge> 0 \<and> io_children s td = None \<and> k_epoll s td = None)"

lemma timer_new_granted:
  assumes "timer_granted s"
  obtains ti s' where "tgentimer_new p pers (Some g) s = (Some ti, s')"
    "ti_notify ti = g" "ti_refcount ti = 1" "io_children s (ti_timerD ti) = None" "owned s' = owned s"
    "k_epoll_ctl s' = []" "k_epoll s' (ti_timerD ti) = None"
proof -
  obtain td q where td: "k_timerfd_create s = td # q" "td \<ge> 0" "io_children s td = None" "k_epoll s td = None"
    and k: "k_settime s = []" "k_epoll_ctl s = []"
    using assms by (auto simp: timer_granted_def split: list.splits)
  let ?ti = "\<lparr>ti_notify = g, ti_timerD = td, ti_isPersistent = pers, ti_refcount = 1\<rparr>"
  obtain s' where s': "tgentimer_new p pers (Some g) s = (Some ?ti, s')"
    "k_epoll_ctl s' = []" "k_epoll s' = k_epoll s"
    using td k by (auto simp: tgentimer_new_def timerfd_create_def timerfd_settime_def pop_def Let_def)
  with timer_new_owned [OF s'(1)] td show ?thesis by (intro that [of ?ti s']) simp_all
qed

text \<open>The first deferral: a timer with two references, its child, and a second reference to the deferring child.\<close>

lemma setDefer_first:
  fixes s :: "('c, 'o, 'z) tgenio_scheme"
  assumes c: "heap_child s c = Some ch" "ch_deferWriteTimer ch = None" "ch_refcount ch = 1"
    and p: "p > 0" and k: "timer_granted s"
  obtains s' ti where "tgenio_setDeferTimer H c p s = Some s'" "io_children s (ti_timerD ti) = None"
    "ti_notify ti = DeferExpired c" "ti_refcount ti = 2"
    "owned s' = ((io_children s)(ti_timerD ti \<mapsto> heap_next s + 1),
       (heap_child s)(c \<mapsto> ch\<lparr>ch_refcount := 2, ch_deferWriteTimer := Some (heap_next s)\<rparr>,
                      heap_next s + 1 \<mapsto> tgeniochild_new (ti_timerD ti) {EPOLLIN, EPOLLOUT} False (DTimer (heap_next s))),
       (heap_timer s)(heap_next s \<mapsto> ti), heap_next s + 2)"
proof -
  let ?s1 = "set_child c (ch\<lparr>ch_refcount := 2\<rparr>) s"
  have "timer_granted ?s1" using k by (simp add: timer_granted_def set_child_def split: list.splits)
  from timer_new_granted [OF this] obtain ti :: "'c timer_target timer" and s2 where
    s2: "tgentimer_new (word_of_int p) False (Some (DeferExpired c)) ?s1 = (Some ti, s2)"
    and ti: "ti_notify ti = DeferExpired c" "ti_refcount ti = 1" "io_children ?s1 (ti_timerD ti) = None"
    and o2: "owned s2 = owned ?s1" and e2: "k_epoll_ctl s2 = []" "k_epoll s2 (ti_timerD ti) = None" .
  let ?N = "heap_next s" and ?td = "ti_timerD ti"
  let ?ch = "ch\<lparr>ch_refcount := 2, ch_deferWriteTimer := Some ?N\<rparr>"
  let ?s3 = "set_child c ?ch (s2\<lparr>heap_next := ?N + 1, heap_timer := (heap_timer s2)(?N \<mapsto> tgentimer_ref ti)\<rparr>)"
  have h2: "heap_next s2 = ?N" "heap_timer s2 = heap_timer s" "io_children s2 = io_children s"
    "heap_child s2 = (heap_child s)(c \<mapsto> ch\<lparr>ch_refcount := 2\<rparr>)"
    using ownedD [OF o2] by (simp_all add: set_child_def)
  have td: "io_children ?s3 ?td = None" using ti(3) h2 by (simp add: set_child_def)
  obtain s4 ok where s4: "tgenio_register H ?td False (DTimer ?N) ?s3 = Some (ok, s4)"
    "owned s4 = (if ok then ((io_children ?s3)(?td \<mapsto> heap_next ?s3),
        (heap_child ?s3)(heap_next ?s3 \<mapsto> tgeniochild_new ?td {EPOLLIN, EPOLLOUT} False (DTimer ?N)),
        heap_timer ?s3, heap_next ?s3 + 1) else owned ?s3)"
    "ok = fst (epoll_ctl EPOLL_CTL_ADD ?td {EPOLLIN, EPOLLOUT} ?s3)"
    using register_owned [OF td] .
  have ok using s4(3) e2 by (simp add: epoll_ctl_def pop_def set_child_def)
  moreover have "tgenio_setDeferTimer H c p s = Some s4"
    using c p s2 s4(1) h2
    by (simp add: tgenio_setDeferTimer_def tgeniochild_ref_def tgentimer_getDescriptor_def Let_def)
  ultimately show ?thesis
    using s4(2) ti h2 by (intro that [of s4 "tgentimer_ref ti"]) (simp_all add: set_child_def tgentimer_ref_def)
qed

lemma setDefer_own:
  assumes inv: "io_own s" and c: "io_children s d = Some c" "heap_child s c = Some ch" "ch_data ch = DUser x"
    and p: "p > 0" and k: "ch_deferWriteTimer ch = None \<Longrightarrow> timer_granted s"
  obtains s' ch' where "tgenio_setDeferTimer H c p s = Some s'" "io_own s'" "io_children s' d = Some c"
    "heap_child s' c = Some ch'" "ch_deferWriteTimer ch' \<noteq> None"
proof (cases "ch_deferWriteTimer ch")
  case (Some t)
  obtain ti where ti: "heap_timer s t = Some ti" "io_children s (ti_timerD ti) \<noteq> None"
    using own_inv_child [OF inv [unfolded io_own_def] c(2)] Some by (auto simp: child_ok_def defers_ok_def)
  let ?s' = "tgentimer_setExpireTimeMicros ti (word_of_int p) s"
  have "tgenio_setDeferTimer H c p s = Some ?s'"
    using c Some ti p by (auto simp: tgenio_setDeferTimer_def tgentimer_getDescriptor_def)
  moreover have "owned ?s' = owned s" by simp
  note ownedD [OF this] io_own_owned [OF this]
  ultimately show ?thesis using inv c Some by (intro that [of ?s' ch]) simp_all
next
  case None
  note I = inv [unfolded io_own_def]
  have r: "ch_refcount ch = 1" using own_inv_child [OF I c(2)] None by (simp add: child_ok_def)
  obtain s' ti where s': "tgenio_setDeferTimer H c p s = Some s'" and ti: "io_children s (ti_timerD ti) = None"
    "ti_notify ti = DeferExpired c" "ti_refcount ti = 2"
    and o: "owned s' = ((io_children s)(ti_timerD ti \<mapsto> heap_next s + 1),
       (heap_child s)(c \<mapsto> ch\<lparr>ch_refcount := 2, ch_deferWriteTimer := Some (heap_next s)\<rparr>,
                      heap_next s + 1 \<mapsto> tgeniochild_new (ti_timerD ti) {EPOLLIN, EPOLLOUT} False (DTimer (heap_next s))),
       (heap_timer s)(heap_next s \<mapsto> ti), heap_next s + 2)"
    using setDefer_first [OF c(2) None r p k [OF None]] .
  have "io_own s'"
    using own_inv_defer [OF I c(1,2) None c(3) ti(2,3,1)] o
    by (simp add: io_own_def owned_def tgeniochild_new_def)
  moreover have "c \<noteq> heap_next s + 1" using c own_inv_fresh [OF I, of "heap_next s + 1"] by auto
  ultimately show ?thesis
    using s' o c ti(1) by (intro that [of s' "ch\<lparr>ch_refcount := 2, ch_deferWriteTimer := Some (heap_next s)\<rparr>"]) (auto simp: owned_def)
qed

lemma own_inv_timer_add:
  assumes inv: "own_inv T HC HT N" and ti: "ti_notify ti = UserTimer u"
  shows "own_inv T HC (HT(N \<mapsto> ti)) (N + 1)"
proof (rule own_invI)
  note f = own_inv_fresh [OF inv, of N]
  show "\<exists>ch. HC c = Some ch \<and> ch_descriptor ch = d" if Td: "T d = Some c" for d c
    using own_inv_table [OF inv Td] by blast
  show "T (ch_descriptor ch) = Some c \<and> child_ok T HC (HT(N \<mapsto> ti)) c ch" if c: "HC c = Some ch" for c ch
  proof -
    have "child_ok T HC HT c ch" by (rule own_inv_child [OF inv c])
    then have "child_ok T HC (HT(N \<mapsto> ti)) c ch"
      by (rule child_ok_mono, elim defers_ok_mono)
        (use f \<open>child_ok T HC HT c ch\<close> in \<open>auto simp: child_ok_def defers_ok_def split: option.splits\<close>)
    then show ?thesis using own_inv_heap [OF inv c] by blast
  qed
  show "\<exists>ch. HC c = Some ch \<and> ch_deferWriteTimer ch = Some t"
    if "(HT(N \<mapsto> ti)) t = Some r" "ti_notify r = DeferExpired c" for t r c
    using that ti own_inv_timer [OF inv, of t r c] by (auto split: if_splits)
  show "HC a = None \<and> (HT(N \<mapsto> ti)) a = None" if "a \<ge> N + 1" for a
    using that own_inv_fresh [OF inv, of a] by simp
qed

text \<open>
  What happens around the table: the owner registers objects and timers, children defer their writes and
  are woken, the interest list follows, descriptors are given up, and anything that leaves the table and
  its objects alone (the owner's own work and system calls).
\<close>

inductive io_step :: "('c, 'o, 'z) handlers \<Rightarrow> ('c, 'o, 'z) tgenio_scheme \<Rightarrow> ('c, 'o, 'z) tgenio_scheme \<Rightarrow> bool"
  for H :: "('c, 'o, 'z) handlers" where
  io_register: "\<not> deferral_fd s d \<Longrightarrow> tgenio_register H d chk (DUser x) s = Some (ok, s') \<Longrightarrow> io_step H s s'"
| io_new_timer: "tgentimer_new p pers (Some (UserTimer u)) s = (Some ti, s1) \<Longrightarrow>
    io_step H s (s1\<lparr>heap_timer := (heap_timer s1)(heap_next s1 \<mapsto> ti), heap_next := heap_next s1 + 1\<rparr>)"
| io_register_timer: "heap_timer s t = Some ti \<Longrightarrow> ti_refcount ti \<ge> 1 \<Longrightarrow> io_children s (ti_timerD ti) = None \<Longrightarrow>
    tgenio_register H (ti_timerD ti) False (DTimer t) s = Some (ok, s') \<Longrightarrow> io_step H s s'"
| io_defer: "io_children s d = Some c \<Longrightarrow> heap_child s c = Some ch \<Longrightarrow> ch_data ch = DUser x \<Longrightarrow>
    (ch_deferWriteTimer ch = None \<Longrightarrow> timer_granted s) \<Longrightarrow> tgenio_setDeferTimer H c p s = Some s' \<Longrightarrow> io_step H s s'"
| io_expire: "tgenio_onDeferTimerExpired c s = Some (b, s') \<Longrightarrow> io_step H s s'"
| io_sync: "tgenio_syncEpollEvents c ev s = Some s' \<Longrightarrow> io_step H s s'"
| io_deregister: "\<not> deferral_fd s d \<Longrightarrow> tgenio_deregister H d s = Some s' \<Longrightarrow> io_step H s s'"
| io_elsewhere: "owned s' = owned s \<Longrightarrow> io_step H s s'"

inductive_cases io_stepE: "io_step H s s'"

lemma io_step_own:
  assumes q: "quiet H" and st: "io_step H s s'" and inv: "io_own s"
  shows "io_own s'"
  using st
proof cases
  case (io_register d chk x ok)
  show ?thesis
    by (rule register_own [OF q inv io_register(1), of "DUser x" chk]) (use io_register(2) in simp_all)
next
  case (io_new_timer p pers u ti s1)
  have o: "owned s1 = owned s" by (rule timer_new_owned [OF io_new_timer(2)])
  have n: "ti_notify ti = UserTimer u" using timer_new_Some(1) [OF io_new_timer(2)] by simp
  show ?thesis
    using own_inv_timer_add [OF inv [unfolded io_own_def] n] ownedD [OF o] io_new_timer(1) by (simp add: io_own_def)
next
  case (io_register_timer t ti ok)
  have "\<not> deferral_fd s (ti_timerD ti)" using io_register_timer(3) by (simp add: deferral_fd_def)
  show ?thesis
    by (rule register_own [OF q inv \<open>\<not> deferral_fd s (ti_timerD ti)\<close>, of "DTimer t" False])
      (use io_register_timer in simp_all)
next
  case (io_defer d c ch x p)
  have p: "p > 0"
    by (rule ccontr) (use io_defer(2,5) in \<open>simp add: tgenio_setDeferTimer_def\<close>)
  show ?thesis
    by (rule setDefer_own [OF inv io_defer(1-3) p io_defer(4), of H]) (use io_defer(5) in simp_all)
next
  case (io_expire c b)
  then obtain ch where "heap_child s c = Some ch"
    by (cases "heap_child s c") (simp_all add: tgenio_onDeferTimerExpired_def)
  from this show ?thesis
    by (rule expired_own [OF inv]) (use io_expire in simp_all)
next
  case (io_sync c ev)
  then obtain ch where "heap_child s c = Some ch"
    by (cases "heap_child s c") (simp_all add: tgenio_syncEpollEvents_def)
  from this show ?thesis
    by (rule sync_own [OF inv, where ev = ev]) (use io_sync in simp_all)
next
  case (io_deregister d)
  show ?thesis
    by (rule deregister_own [OF q inv io_deregister(1)]) (use io_deregister(2) in simp_all)
next
  case io_elsewhere
  from io_own_owned [OF this] inv show ?thesis by simp
qed

abbreviation io_run :: "('c, 'o, 'z) handlers \<Rightarrow> ('c, 'o, 'z) tgenio_scheme \<Rightarrow> ('c, 'o, 'z) tgenio_scheme \<Rightarrow> bool" where
  "io_run H \<equiv> (io_step H)\<^sup>*\<^sup>*"

lemma io_run_own: "io_run H s s' \<Longrightarrow> quiet H \<Longrightarrow> io_own s \<Longrightarrow> io_own s'"
  by (induction rule: rtranclp_induct) (auto intro: io_step_own)

lemma io_new_own:
  assumes "tgenio_new e s0 = Some s" "heap_child s0 = Map.empty" "heap_timer s0 = Map.empty"
  shows "io_own s"
  using assms by (auto simp: tgenio_new_def io_own_def own_inv_def split: if_splits)

lemma io_own_child:
  assumes "io_own s" "heap_child s c = Some ch"
  shows "child_ok (io_children s) (heap_child s) (heap_timer s) c ch" "io_children s (ch_descriptor ch) = Some c"
  using assms own_inv_child own_inv_heap unfolding io_own_def by blast+

lemma io_own_table:
  assumes "io_own s" "io_children s d = Some c"
  shows "\<exists>ch. heap_child s c = Some ch \<and> ch_descriptor ch = d \<and>
           ch_refcount ch = (if ch_deferWriteTimer ch = None then 1 else 2)"
proof -
  obtain ch where ch: "heap_child s c = Some ch" "ch_descriptor ch = d"
    using own_inv_table [OF assms(1) [unfolded io_own_def] assms(2)] .
  with io_own_child(1) [OF assms(1) ch(1)] show ?thesis
    by (auto simp: child_ok_def split: option.splits)
qed

lemma io_own_timer:
  assumes "io_own s" "heap_timer s t = Some ti" "ti_notify ti = DeferExpired c"
  shows "(\<exists>ch. heap_child s c = Some ch \<and> ch_deferWriteTimer ch = Some t) \<and>
           ti_refcount ti = 2 \<and> io_children s (ti_timerD ti) \<noteq> None"
proof -
  obtain ch where ch: "heap_child s c = Some ch" "ch_deferWriteTimer ch = Some t"
    using own_inv_timer [OF assms(1) [unfolded io_own_def] assms(2,3)] by blast
  with io_own_child(1) [OF assms(1) ch(1)] assms(2) show ?thesis
    by (auto simp: child_ok_def defers_ok_def)
qed

lemma io_own_renew:
  assumes "io_own s" "heap_child s c = Some ch" "ch_deferWriteTimer ch \<noteq> None" "p > 0"
  shows "tgenio_setDeferTimer H c p s \<noteq> None"
proof -
  obtain x where x: "ch_data ch = DUser x"
    using io_own_child(1) [OF assms(1,2)] assms(3) by (auto simp: child_ok_def)
  show ?thesis
    by (rule setDefer_own [OF assms(1) io_own_child(2) [OF assms(1,2)] assms(2) x assms(4), of H])
      (use assms(3) in simp_all)
qed

lemma io_own_deregister:
  assumes "quiet H" "io_own s" "\<not> deferral_fd s d"
  shows "\<exists>s'. tgenio_deregister H d s = Some s' \<and> io_children s' d = None"
  by (rule deregister_own [OF assms]) blast

section \<open>Ownership\<close>


text \<open>A loop with one object on descriptor 3, whose writes are deferred on the timerfd 7.\<close>

definition demo_handlers :: "(unit, unit, unit) handlers" where
  "demo_handlers =
     \<lparr>hd_notify = (\<lambda>x d ev s. Some (\<lparr>ir_events = {EV_READ}, ir_deferUntilUSec = 0\<rparr>, s)),
      hd_timeout = (\<lambda>x d s. Some (False, s)), hd_destroy = (\<lambda>x s. Some s),
      hd_timer = (\<lambda>u s. Some (False, s)), hd_timer_destroy = (\<lambda>u s. Some s),
      hd_order = (\<lambda>T. filter (\<lambda>d. T d \<noteq> None) [0, 1, 2, 3, 4, 5, 6, 7])\<rparr>"

definition demo_before :: "(unit, unit) tgenio" where
  "demo_before =
     \<lparr>k_timerfds = Map.empty, k_timerfd_create = [7], k_settime = [], k_timer_read = [], k_epoll = Map.empty,
      k_epoll_ctl = [], k_epoll_wait = [], k_clock = [100], k_closed = [],
      io_epollD = 0, io_children = Map.empty, io_refcount = 0, heap_child = Map.empty, heap_timer = Map.empty, heap_next = 0\<rparr>"

definition demo_loop :: "(unit, unit) tgenio" where
  "demo_loop = demo_before\<lparr>io_epollD := 5, io_refcount := 1\<rparr>"

definition demo_registered :: "(unit, unit) tgenio" where
  "demo_registered = demo_loop
     \<lparr>k_epoll := [3 \<mapsto> {EPOLLIN, EPOLLOUT}], io_children := [3 \<mapsto> 0],
      heap_child := [0 \<mapsto> tgeniochild_new 3 {EPOLLIN, EPOLLOUT} True (DUser ())], heap_next := 1\<rparr>"

lemma demo_quiet: "quiet demo_handlers"
  by (simp add: quiet_def demo_handlers_def)

lemma demo_register: "tgenio_register demo_handlers 3 True (DUser ()) demo_loop = Some (True, demo_registered)"
  by (simp add: register_fresh demo_loop_def demo_before_def demo_registered_def epoll_ctl_def pop_def Let_def)


end
