(* ===== verification/Deferral.thy ===== *)
theory Deferral
  imports IOProps
begin

text \<open>
  The life of a deferred write: the response of a child is turned into an interest list and a timer that
  is armed for what is left of the pause, and its expiration asks for write events again. And what
  happens when the kernel refuses the timer.
\<close>

section \<open>The timer is armed exactly\<close>

definition armed :: "int \<Rightarrow> itimerspec" where
  "armed p = timer_spec (word_of_int p div 1000000) ((word_of_int p mod 1000000) * 1000) False"

lemma micros_nonzero:
  fixes w :: u64
  assumes "w \<noteq> 0"
  shows "\<not> (w div 1000000 = 0 \<and> (w mod 1000000) * 1000 = 0)"
proof
  assume "w div 1000000 = 0 \<and> (w mod 1000000) * 1000 = 0"
  then have "unat (w div 1000000) = 0" "unat ((w mod 1000000) * 1000) = 0" by simp_all
  then have "unat w div 1000000 = 0" "(unat w mod 1000000 * 1000) mod 2 ^ 64 = 0"
    by (simp_all add: unat_div unat_mod unat_word_ariths)
  then have "unat w = 0" by auto
  with assms show False by (simp add: unat_eq_0)
qed

lemma pause_nonzero:
  assumes "0 < p" "p < 2 ^ 63"
  shows "(word_of_int p :: u64) \<noteq> 0"
proof -
  have "uint (word_of_int p :: u64) = p"
    using assms by (simp add: uint_word_of_int take_bit_int_eq_self)
  with assms show ?thesis by (metis less_irrefl uint_0_iff)
qed

text \<open>What the kernel holds after the first deferral: the timer armed, watched on its own descriptor, nothing else changed.\<close>

lemma timer_new_kern:
  assumes "k_timerfd_create s = td # q" "td \<ge> 0" "k_settime s = []" and p: "0 < p" "p < 2 ^ 63"
  shows "tgentimer_new (word_of_int p) False (Some g) s =
    (Some \<lparr>ti_notify = g, ti_timerD = td, ti_isPersistent = False, ti_refcount = 1\<rparr>,
     s\<lparr>k_timerfd_create := q, k_settime := [], k_timerfds := (k_timerfds s)(td \<mapsto> armed p)\<rparr>)"
  using assms micros_nonzero [OF pause_nonzero [OF p]]
  by (auto simp: tgentimer_new_def timerfd_create_def timerfd_settime_def pop_def Let_def armed_def)

lemma setDefer_first_kern:
  fixes s :: "('c, 'o, 'z) tgenio_scheme"
  assumes c: "heap_child s c = Some ch" "ch_deferWriteTimer ch = None"
    and k: "k_timerfd_create s = td # q" "td \<ge> 0" "k_settime s = []"
    and td: "io_children s td = None" "k_epoll s td = None" and p: "0 < p" "p < 2 ^ 63"
  obtains s' where "tgenio_setDeferTimer H c p s = Some s'"
    "k_timerfds s' = (k_timerfds s)(td \<mapsto> armed p)" "k_settime s' = []"
    "k_epoll_ctl s' = tl (k_epoll_ctl s)" "k_timer_read s' = k_timer_read s"
    "heap_timer s' = (heap_timer s)(heap_next s \<mapsto>
       \<lparr>ti_notify = DeferExpired c, ti_timerD = td, ti_isPersistent = False, ti_refcount = 2\<rparr>)"
    "k_epoll_ctl s = [] \<or> hd (k_epoll_ctl s) \<Longrightarrow>
       k_epoll s' = (k_epoll s)(td \<mapsto> {EPOLLIN, EPOLLOUT}) \<and> io_children s' = (io_children s)(td \<mapsto> heap_next s + 1) \<and>
       heap_child s' = (heap_child s)(c \<mapsto> ch\<lparr>ch_refcount := ch_refcount ch + 1, ch_deferWriteTimer := Some (heap_next s)\<rparr>,
          heap_next s + 1 \<mapsto> tgeniochild_new td {EPOLLIN, EPOLLOUT} False (DTimer (heap_next s)))"
    "k_epoll_ctl s \<noteq> [] \<Longrightarrow> \<not> hd (k_epoll_ctl s) \<Longrightarrow>
       k_epoll s' = k_epoll s \<and> io_children s' = io_children s \<and>
       heap_child s' = (heap_child s)(c \<mapsto> ch\<lparr>ch_refcount := ch_refcount ch + 1, ch_deferWriteTimer := Some (heap_next s)\<rparr>)"
proof -
  let ?s1 = "set_child c (ch\<lparr>ch_refcount := ch_refcount ch + 1\<rparr>) s"
  let ?ti = "\<lparr>ti_notify = DeferExpired c :: 'c timer_target, ti_timerD = td, ti_isPersistent = False, ti_refcount = 1\<rparr>"
  let ?s2 = "?s1\<lparr>k_timerfd_create := q, k_settime := [], k_timerfds := (k_timerfds ?s1)(td \<mapsto> armed p)\<rparr>"
  let ?N = "heap_next s"
  let ?s3 = "set_child c (ch\<lparr>ch_refcount := ch_refcount ch + 1, ch_deferWriteTimer := Some ?N\<rparr>)
               (?s2\<lparr>heap_next := ?N + 1, heap_timer := (heap_timer s)(?N \<mapsto> tgentimer_ref ?ti)\<rparr>)"
  have new: "tgentimer_new (word_of_int p) False (Some (DeferExpired c)) ?s1 = (Some ?ti, ?s2)"
    by (rule timer_new_kern) (use k p in \<open>simp_all add: set_child_def\<close>)
  obtain ok s4 where reg: "tgenio_register H td False (DTimer ?N) ?s3 = Some (ok, s4)"
    using register_fresh [of ?s3 td H False "DTimer ?N"] td
    by (cases "epoll_ctl EPOLL_CTL_ADD td {EPOLLIN, EPOLLOUT} ?s3") (auto simp: set_child_def split: if_splits)
  have h2: "heap_child ?s2 c = Some (ch\<lparr>ch_refcount := ch_refcount ch + 1\<rparr>)" "heap_next ?s2 = ?N" "heap_timer ?s2 = heap_timer s"
    by (simp_all add: set_child_def)
  have d: "tgenio_setDeferTimer H c p s = Some s4"
    using c p reg h2
    by (simp add: tgenio_setDeferTimer_def tgeniochild_ref_def tgentimer_getDescriptor_def new Let_def del: fun_upd_apply)
  show ?thesis
    by (rule that [OF d])
      (use reg td register_fresh [of ?s3 td H False "DTimer ?N"] in
        \<open>auto simp: epoll_ctl_def pop_def Let_def set_child_def tgentimer_ref_def split: list.splits if_splits\<close>)
qed

text \<open>The two fields of a setting, as one number of nanoseconds; no carry is left and nothing wraps around.\<close>

definition nanos :: "u64 \<Rightarrow> u64 \<Rightarrow> nat" where
  "nanos sec nsec = unat sec * 1000000000 + unat nsec"

lemma nanos_micros:
  fixes m :: u64
  shows "nanos (m div 1000000) ((m mod 1000000) * 1000) = unat m * 1000" "unat ((m mod 1000000) * 1000) < 1000000000"
proof -
  have "unat m mod 1000000 * 1000 < 1000000000" by simp
  then have n: "unat ((m mod 1000000) * 1000) = unat m mod 1000000 * 1000"
    by (simp add: unat_word_ariths unat_mod)
  then show "unat ((m mod 1000000) * 1000) < 1000000000" by simp
  have d: "unat (m div 1000000) = unat m div 1000000" by (simp add: unat_div)
  have "unat m div 1000000 * 1000000 + unat m mod 1000000 = unat m" by simp
  then show "nanos (m div 1000000) ((m mod 1000000) * 1000) = unat m * 1000"
    unfolding nanos_def n d by linarith
qed

text \<open>
  C29. A new timer goes off after exactly the given number of microseconds, after one nanosecond for none (a
  zero setting would disarm it), and keeps going at that interval exactly when it is persistent.
\<close>

theorem new_timer_armed_exactly:
  assumes "tgentimer_new m pers (Some g) s = (Some t, s')"
  shows "\<exists>spec. k_timerfds s' (ti_timerD t) = Some spec \<and>
     nanos (it_value_sec spec) (it_value_nsec spec) = max 1 (unat m * 1000) \<and>
     unat (it_value_nsec spec) < 1000000000 \<and>
     (if pers then it_interval_sec spec = it_value_sec spec \<and> it_interval_nsec spec = it_value_nsec spec
      else it_interval_sec spec = 0 \<and> it_interval_nsec spec = 0)"
proof -
  let ?ns = "if m div 1000000 = 0 \<and> (m mod 1000000) * 1000 = 0 then 1 else (m mod 1000000) * 1000"
  have "k_timerfds s' (ti_timerD t) = Some (timer_spec (m div 1000000) ?ns pers)"
    using assms by (auto simp: tgentimer_new_def timerfd_settime_def Let_def split: prod.splits if_splits)
  moreover have "nanos (m div 1000000) ?ns = max 1 (unat m * 1000) \<and> unat ?ns < 1000000000"
  proof (cases "m = 0")
    case True
    then show ?thesis by (simp add: nanos_def)
  next
    case False
    then have "?ns = (m mod 1000000) * 1000" using micros_nonzero by auto
    moreover have "unat m \<ge> 1" using False by (simp add: unat_gt_0 Suc_leI)
    ultimately show ?thesis using nanos_micros [of m] by simp
  qed
  ultimately show ?thesis by (intro exI conjI) (auto simp: timer_spec_def)
qed

theorem new_timer_armed_exactly_witness:
  "\<exists>t s' spec. tgentimer_new 2500000 True (Some ()) (demo_before) = (Some t, s') \<and> k_timerfds s' (ti_timerD t) = Some spec \<and>
     nanos (it_value_sec spec) (it_value_nsec spec) = 2500000000"
proof -
  obtain t s' where "tgentimer_new 2500000 True (Some ()) demo_before = (Some t, s')"
    by (auto simp: tgentimer_new_def timerfd_create_def timerfd_settime_def pop_def Let_def demo_before_def)
  with new_timer_armed_exactly [OF this] show ?thesis by auto
qed

section \<open>When the timer cannot be watched\<close>

text \<open>
  The result of \<open>tgenio_register\<close> is not looked at: when the kernel does not take the new timer into the
  interest list, the child keeps a timer nobody listens to, and the next pause it asks for fails an
  assertion. When there is no timer to be had, the first pause fails already.
\<close>

theorem unwatched_defer_aborts:
  assumes "heap_child s c = Some ch" and "ch_deferWriteTimer ch = None"
    and "k_timerfd_create s = td # q" and "td \<ge> 0" and "k_settime s = []"
    and "io_children s td = None" and "k_epoll s td = None" and "0 < p" and "p < 2 ^ 63"
    and "k_epoll_ctl s = False # r"
  shows "(\<exists>s'. tgenio_setDeferTimer H c p s = Some s' \<and> k_epoll s' = k_epoll s \<and> io_children s' = io_children s \<and>
            (\<forall>p'. tgenio_setDeferTimer H c p' s' = None)) \<and>
         tgenio_setDeferTimer H c p (s\<lparr>k_timerfd_create := []\<rparr>) = None"
proof
  obtain s' where s': "tgenio_setDeferTimer H c p s = Some s'"
    "heap_timer s' = (heap_timer s)(heap_next s \<mapsto>
       \<lparr>ti_notify = DeferExpired c, ti_timerD = td, ti_isPersistent = False, ti_refcount = 2\<rparr>)"
    and failed: "k_epoll_ctl s \<noteq> [] \<Longrightarrow> \<not> hd (k_epoll_ctl s) \<Longrightarrow>
       k_epoll s' = k_epoll s \<and> io_children s' = io_children s \<and>
       heap_child s' = (heap_child s)(c \<mapsto> ch\<lparr>ch_refcount := ch_refcount ch + 1, ch_deferWriteTimer := Some (heap_next s)\<rparr>)"
    by (rule setDefer_first_kern [OF assms(1-9), of H]) (rule that; assumption)
  from failed assms(10) have f: "k_epoll s' = k_epoll s" "io_children s' = io_children s"
    "heap_child s' c = Some (ch\<lparr>ch_refcount := ch_refcount ch + 1, ch_deferWriteTimer := Some (heap_next s)\<rparr>)"
    by simp_all
  have "tgenio_setDeferTimer H c p' s' = None" for p'
    using s'(2) f assms(6) by (cases "p' > 0") (simp_all add: tgenio_setDeferTimer_def tgentimer_getDescriptor_def)
  with s'(1) f show "\<exists>s'. tgenio_setDeferTimer H c p s = Some s' \<and> k_epoll s' = k_epoll s \<and> io_children s' = io_children s \<and>
            (\<forall>p'. tgenio_setDeferTimer H c p' s' = None)" by auto
  show "tgenio_setDeferTimer H c p (s\<lparr>k_timerfd_create := []\<rparr>) = None"
    using assms(1,2) by (simp add: tgenio_setDeferTimer_def tgeniochild_ref_def set_child_def tgentimer_new_def
      timerfd_create_def pop_def)
qed

theorem unwatched_defer_aborts_witness:
  "\<exists>s'. tgenio_setDeferTimer demo_handlers 0 250 (demo_registered\<lparr>k_epoll_ctl := [False]\<rparr>) = Some s' \<and>
     (\<forall>p'. tgenio_setDeferTimer demo_handlers 0 p' s' = None)"
proof -
  let ?s = "demo_registered\<lparr>k_epoll_ctl := [False]\<rparr>"
  have "heap_child ?s 0 = Some (tgeniochild_new 3 {EPOLLIN, EPOLLOUT} True (DUser ()))"
    "k_timerfd_create ?s = [7]" "k_settime ?s = []" "io_children ?s 7 = None" "k_epoll ?s 7 = None" "k_epoll_ctl ?s = [False]"
    by (simp_all add: demo_registered_def demo_loop_def demo_before_def)
  from unwatched_defer_aborts [OF this(1) _ this(2) _ this(3,4,5) _ _ this(6), of 250 demo_handlers]
  show ?thesis by (auto simp: tgeniochild_new_def)
qed

section \<open>Pause and resume\<close>

definition pausing :: "io_response \<Rightarrow> int \<Rightarrow> bool" where
  "pausing r now \<longleftrightarrow> EV_DONE \<notin> ir_events r \<and> EV_WRITE_DEFERRED \<in> ir_events r \<and> ir_deferUntilUSec r > now"

text \<open>Taking the pause: the timer is armed for exactly what is left, and write events are off.\<close>

lemma sync_accepted:
  assumes "heap_child s c = Some ch" "k_epoll_ctl s = []" "k_epoll s (ch_descriptor ch) = Some (ch_currentEvents ch)"
  obtains s' where "tgenio_syncEpollEvents c ev s = Some s'"
    "k_epoll s' = (k_epoll s)(ch_descriptor ch \<mapsto> ev)" "heap_child s' = (heap_child s)(c \<mapsto> ch\<lparr>ch_currentEvents := ev\<rparr>)"
    "heap_timer s' = heap_timer s" "io_children s' = io_children s" "k_timerfds s' = k_timerfds s"
    "k_epoll_ctl s' = []" "k_timer_read s' = k_timer_read s"
proof (cases "ch_currentEvents ch = ev")
  case True
  then show ?thesis
    by (intro that [of s]) (use assms in \<open>auto simp: tgenio_syncEpollEvents_def fun_eq_iff\<close>)
next
  case False
  let ?s1 = "s\<lparr>k_epoll_ctl := [], k_epoll := (k_epoll s)(ch_descriptor ch \<mapsto> ev)\<rparr>"
  have "epoll_ctl EPOLL_CTL_MOD (ch_descriptor ch) ev s = (True, ?s1)"
    using assms by (simp add: epoll_ctl_def pop_def Let_def)
  with False assms(1) have "tgenio_syncEpollEvents c ev s = Some (set_child c (ch\<lparr>ch_currentEvents := ev\<rparr>) ?s1)"
    by (simp add: tgenio_syncEpollEvents_def)
  then show ?thesis by (rule that) (use assms in \<open>simp_all add: set_child_def\<close>)
qed

text \<open>The state of the kernel the cycle needs: one timer to be had, no call refused, the interest list as the child left it.\<close>

definition willing :: "int \<Rightarrow> 'o io_child \<Rightarrow> ('c, 'o, 'z) tgenio_scheme \<Rightarrow> bool" where
  "willing td ch s \<longleftrightarrow>
     k_settime s = [] \<and> k_epoll_ctl s = [] \<and> k_timer_read s = [] \<and>
     (case k_timerfd_create s of [] \<Rightarrow> False | d # _ \<Rightarrow> d = td) \<and> td \<ge> 0 \<and> td \<noteq> ch_descriptor ch \<and>
     io_children s td = None \<and> k_epoll s td = None \<and>
     k_epoll s (ch_descriptor ch) = Some (ch_currentEvents ch)"


definition demo_pausing :: "(unit, unit, unit) handlers" where
  "demo_pausing = demo_handlers
     \<lparr>hd_notify := (\<lambda>x d ev s. Some (\<lparr>ir_events = {EV_READ, EV_WRITE_DEFERRED}, ir_deferUntilUSec = 350\<rparr>, s))\<rparr>"


end
