(* ===== verification/ActionGraph.thy ===== *)
theory ActionGraph
  imports StreamLoop
begin

text \<open>
  \<open>tgen-graph.c\<close>: the action graph, read from GraphML, its options parsed into records per vertex, its
  edge weights into a table; the walk to the next actions, the pause counters, the default options of
  the start vertex. igraph is a record of the accessors used, as in the Markov model.
\<close>

section \<open>Data\<close>

record agraph = igraph +
  ag_vcount :: nat
  ag_ecount :: nat
  ag_connected :: "bool option" \<comment> \<open>weakly connected; \<open>None\<close> if the call fails\<close>
  ag_clusters :: "nat option"
  ag_directed :: bool
  ag_attributes :: "(string list \<times> string list) option" \<comment> \<open>names of the vertex and of the edge attributes\<close>
  ag_out :: "nat \<Rightarrow> nat list option" \<comment> \<open>heads of the outgoing edges\<close>
  ag_in :: "nat \<Rightarrow> nat list option"
  ag_eid :: "nat \<Rightarrow> nat \<Rightarrow> nat option"

datatype attr_flag = EA_WEIGHT | VA_ID | VA_SERVERPORT | VA_TIME | VA_HEARTBEAT | VA_LOGLEVEL
  | VA_PACKETMODELPATH | VA_PACKETMODELMODE | VA_MARKOVMODELSEED | VA_PEERS | VA_SOCKSPROXY
  | VA_SOCKSUSERNAME | VA_SOCKSPASSWORD | VA_SOCKSAUTHSEED | VA_SENDSIZE | VA_RECVSIZE
  | VA_TIMEOUT | VA_STALLOUT | VA_STREAMMODELPATH | VA_FLOWMODELPATH | VA_COUNT

record flow_options =
  fo_streamModelPath :: "string topt"
  fo_streamOpts :: stream_options

record traffic_options =
  to_flowModelPath :: "string topt"
  to_flowOpts :: flow_options

record start_options =
  so_serverport :: "u16 topt"
  so_timeNanos :: "u64 topt"
  so_heartbeatPeriodNanos :: "u64 topt"
  so_loglevel :: "loglevel topt"
  so_defaultTrafficOpts :: traffic_options

record pause_options =
  po_times :: "u64 pool option topt"

record end_options =
  eo_timeNanos :: "u64 topt"
  eo_count :: "u64 topt"
  eo_sendSize :: "u64 topt"
  eo_recvSize :: "u64 topt"

text \<open>The type of an action and its options.\<close>

datatype action_type = ACTION_NONE | ACTION_START | ACTION_END | ACTION_PAUSE | ACTION_STREAM
  | ACTION_FLOW | ACTION_TRAFFIC

datatype action_options = StartOptions start_options | PauseOptions pause_options | EndOptions end_options
  | StreamOptions stream_options | FlowOptions flow_options | TrafficOptions traffic_options

fun options_type :: "action_options \<Rightarrow> action_type" where
  "options_type (StartOptions _) = ACTION_START"
| "options_type (PauseOptions _) = ACTION_PAUSE"
| "options_type (EndOptions _) = ACTION_END"
| "options_type (StreamOptions _) = ACTION_STREAM"
| "options_type (FlowOptions _) = ACTION_FLOW"
| "options_type (TrafficOptions _) = ACTION_TRAFFIC"

record action =
  ac_options :: action_options
  ac_totalIncomingEdges :: int
  ac_completedIncomingEdges :: int

text \<open>\<open>g_prngs\<close> are the \<open>GRand\<close> objects made while parsing: seed and number of calls, by position.\<close>

record tgraph =
  g_graph :: agraph
  g_graphPath :: string
  g_knownAttributes :: "attr_flag set"
  g_clusterCount :: nat
  g_vertexCount :: nat
  g_edgeCount :: nat
  g_isConnected :: bool
  g_isDirected :: bool
  g_actions :: "nat \<rightharpoonup> action"
  g_weights :: "nat \<rightharpoonup> gdouble"
  g_hasStartAction :: bool
  g_startActionVertexIndex :: nat
  g_startHasPeers :: bool
  g_transferMissingPeers :: bool
  g_validatedMarkovModelPaths :: "string list"
  g_prngs :: "(u32 \<times> nat) list"
  g_refcount :: int

text \<open>What is read from outside: files, GraphML, the home directory, numbers in text.\<close>

record graphenv =
  ge_sys :: sysenv
  ge_read :: "bytes \<Rightarrow> agraph option"
  ge_home :: string
  ge_strtod :: "string \<Rightarrow> gdouble"

text \<open>A parser of the graph: the error, if any, and the new state; \<open>None\<close> if a function it calls fails an assertion.\<close>

type_synonym 's parsing = "(gerror option \<times> 's) option"

definition and_then :: "'s parsing \<Rightarrow> ('s \<Rightarrow> 's parsing) \<Rightarrow> 's parsing" where
  "and_then r f = do { (e, s) \<leftarrow> r; (case e of Some _ \<Rightarrow> Some (e, s) | None \<Rightarrow> f s) }"

fun all_of :: "('s \<Rightarrow> 's parsing) list \<Rightarrow> 's \<Rightarrow> 's parsing" where
  "all_of [] s = Some (None, s)"
| "all_of (f # fs) s = and_then (f s) (all_of fs)"

definition fail_if :: "bool \<Rightarrow> gerror \<Rightarrow> 's \<Rightarrow> 's parsing" where
  "fail_if b e s = Some (if b then Some e else None, s)"

section \<open>Attributes\<close>

fun attributeToString :: "attr_flag \<Rightarrow> string" where
  "attributeToString EA_WEIGHT = ''weight''"
| "attributeToString VA_ID = ''id''"
| "attributeToString VA_SERVERPORT = ''serverport''"
| "attributeToString VA_TIME = ''time''"
| "attributeToString VA_HEARTBEAT = ''heartbeat''"
| "attributeToString VA_LOGLEVEL = ''loglevel''"
| "attributeToString VA_PACKETMODELPATH = ''packetmodelpath''"
| "attributeToString VA_PACKETMODELMODE = ''packetmodelmode''"
| "attributeToString VA_MARKOVMODELSEED = ''markovmodelseed''"
| "attributeToString VA_PEERS = ''peers''"
| "attributeToString VA_SOCKSPROXY = ''socksproxy''"
| "attributeToString VA_SOCKSUSERNAME = ''socksusername''"
| "attributeToString VA_SOCKSPASSWORD = ''sockspassword''"
| "attributeToString VA_SOCKSAUTHSEED = ''socksauthseed''"
| "attributeToString VA_SENDSIZE = ''sendsize''"
| "attributeToString VA_RECVSIZE = ''recvsize''"
| "attributeToString VA_TIMEOUT = ''timeout''"
| "attributeToString VA_STALLOUT = ''stallout''"
| "attributeToString VA_STREAMMODELPATH = ''streammodelpath''"
| "attributeToString VA_FLOWMODELPATH = ''flowmodelpath''"
| "attributeToString VA_COUNT = ''count''"

definition vertexAttributeToFlag :: "string \<Rightarrow> attr_flag option" where
  "vertexAttributeToFlag stringAttribute =
     find (\<lambda>a. strcaseeq stringAttribute (attributeToString a))
       [VA_ID, VA_SERVERPORT, VA_TIME, VA_HEARTBEAT, VA_LOGLEVEL, VA_PACKETMODELPATH, VA_PACKETMODELMODE,
        VA_MARKOVMODELSEED, VA_PEERS, VA_SOCKSPROXY, VA_SOCKSUSERNAME, VA_SOCKSPASSWORD, VA_SOCKSAUTHSEED,
        VA_SENDSIZE, VA_RECVSIZE, VA_TIMEOUT, VA_STALLOUT, VA_STREAMMODELPATH, VA_FLOWMODELPATH, VA_COUNT]"

definition edgeAttributeToFlag :: "string \<Rightarrow> attr_flag option" where
  "edgeAttributeToFlag stringAttribute =
     (if strcaseeq stringAttribute (attributeToString EA_WEIGHT) then Some EA_WEIGHT else None)"

text \<open>\<open>g_file_test\<close> with two flags asks whether either holds.\<close>

definition file_test :: "graphenv \<Rightarrow> string \<Rightarrow> bool" where
  "file_test env path \<longleftrightarrow> fi_regular (se_file (ge_sys env) path) \<or> fi_exists (se_file (ge_sys env) path)"

definition getHomePath :: "graphenv \<Rightarrow> string \<Rightarrow> string" where
  "getHomePath env path = (if strncaseeq 1 path ''~'' then ge_home env @ tl path else path)"

text \<open>The value of a vertex attribute the graph has, or NULL.\<close>

definition attr_value :: "tgraph \<Rightarrow> attr_flag \<Rightarrow> nat \<Rightarrow> string option" where
  "attr_value g a v = (if a \<in> g_knownAttributes g then ig_VAS (g_graph g) (attributeToString a) v else None)"

section \<open>Edges\<close>

definition getWeight :: "tgraph \<Rightarrow> nat \<Rightarrow> gdouble option" where
  "getWeight g edgeIndex = g_weights g edgeIndex"

definition storeWeight :: "gdouble \<Rightarrow> nat \<Rightarrow> tgraph \<Rightarrow> tgraph" where
  "storeWeight weight edgeIndex g = g\<lparr>g_weights := (g_weights g)(edgeIndex \<mapsto> weight)\<rparr>"

definition parse_edge :: "graphenv \<Rightarrow> nat \<Rightarrow> tgraph \<Rightarrow> tgraph parsing" where
  "parse_edge env edgeIndex g =
     (case ig_edge (g_graph g) edgeIndex of
        None \<Rightarrow> Some (Some MARKUP_PARSE, g)
      | Some (from_v, to_v) \<Rightarrow>
          if attr_value g VA_ID from_v = None \<or> attr_value g VA_ID to_v = None
          then Some (Some MARKUP_MISSING_ATTRIBUTE, g)
          else
            (case (if EA_WEIGHT \<in> g_knownAttributes g
                   then ig_EAS (g_graph g) (attributeToString EA_WEIGHT) edgeIndex else None) of
               Some weightStr \<Rightarrow>
                 Some (None, if strncaseeq 1 weightStr [] then g else storeWeight (ge_strtod env weightStr) edgeIndex g)
             | None \<Rightarrow> Some (None, g)))"

definition parseGraphEdges :: "graphenv \<Rightarrow> tgraph \<Rightarrow> tgraph parsing" where
  "parseGraphEdges env g =
     (case ig_edges (g_graph g) of
        None \<Rightarrow> Some (Some MARKUP_PARSE, g)
      | Some es \<Rightarrow>
          and_then (all_of (map (parse_edge env) es) g)
            (\<lambda>g. Some (None, g\<lparr>g_edgeCount := ag_ecount (g_graph g)\<rparr>)))"

section \<open>Actions\<close>

definition newAction :: "action_options \<Rightarrow> action" where
  "newAction options = \<lparr>ac_options = options, ac_totalIncomingEdges = 0, ac_completedIncomingEdges = 0\<rparr>"

definition storeAction :: "nat \<Rightarrow> action \<Rightarrow> tgraph \<Rightarrow> tgraph" where
  "storeAction vertexIndex a g = g\<lparr>g_actions := (g_actions g)(vertexIndex \<mapsto> a)\<rparr>"

definition getAction :: "tgraph \<Rightarrow> nat \<Rightarrow> action option" where
  "getAction g vertexIndex = g_actions g vertexIndex"

definition hasSelfLoop :: "tgraph \<Rightarrow> nat \<Rightarrow> bool" where
  "hasSelfLoop g v = (case ag_out (g_graph g) v of None \<Rightarrow> False | Some ws \<Rightarrow> v \<in> set ws)"

definition countIncomingEdges :: "tgraph \<Rightarrow> nat \<Rightarrow> int" where
  "countIncomingEdges g v = (case ag_in (g_graph g) v of None \<Rightarrow> - 1 | Some ws \<Rightarrow> int (length ws))"

text \<open>\<open>g_path_get_basename\<close>.\<close>

definition basename :: "string \<Rightarrow> string" where
  "basename path =
     (if path = [] then ''.''
      else let p = rev (dropWhile (\<lambda>c. c = CHR ''/'') (rev path))
           in if p = [] then ''/'' else rev (takeWhile (\<lambda>c. c \<noteq> CHR ''/'') (rev p)))"

definition validateMarkovModel :: "graphenv \<Rightarrow> string \<Rightarrow> u32 \<Rightarrow> tgraph \<Rightarrow> tgraph parsing" where
  "validateMarkovModel env path seed g =
     (if path \<in> set (g_validatedMarkovModelPaths g) then Some (None, g)
      else do {
        mmodel \<leftarrow> tgenmarkovmodel_newFromPath (ge_sys env) (Some (basename path)) seed (Some path);
        Some (case mmodel of
                Some _ \<Rightarrow> (None, g\<lparr>g_validatedMarkovModelPaths := path # g_validatedMarkovModelPaths g\<rparr>)
              | None \<Rightarrow> (Some MARKUP_INVALID_CONTENT, g))
      })"

section \<open>Options\<close>

text \<open>\<open>g_new0\<close>: nothing is set. A string that is not set is never read; it is the empty string here.\<close>

definition stream_options0 :: stream_options where
  "stream_options0 =
     \<lparr>op_packetModelPath = unset [], op_packetModelMode = unset [], op_markovModelSeed = unset 0,
      op_seedGenerator = unset None, op_peers = unset None, op_socksProxies = unset None,
      op_socksUsername = unset [], op_socksPassword = unset [], op_socksAuthSeed = unset 0,
      op_socksAuthGenerator = unset None, op_sendSize = unset 0, op_recvSize = unset 0,
      op_timeoutNanos = unset 0, op_stalloutNanos = unset 0\<rparr>"

definition flow_options0 :: flow_options where
  "flow_options0 = \<lparr>fo_streamModelPath = unset [], fo_streamOpts = stream_options0\<rparr>"

definition traffic_options0 :: traffic_options where
  "traffic_options0 = \<lparr>to_flowModelPath = unset [], to_flowOpts = flow_options0\<rparr>"

definition start_options0 :: start_options where
  "start_options0 = \<lparr>so_serverport = unset 0, so_timeNanos = unset 0, so_heartbeatPeriodNanos = unset 0,
     so_loglevel = unset LOG_NONE, so_defaultTrafficOpts = traffic_options0\<rparr>"

definition end_options0 :: end_options where
  "end_options0 = \<lparr>eo_timeNanos = unset 0, eo_count = unset 0, eo_sendSize = unset 0, eo_recvSize = unset 0\<rparr>"

definition string_topt :: "string option topt \<Rightarrow> string topt" where
  "string_topt t = \<lparr>isSet = isSet t, opt_value = (case opt_value t of Some s \<Rightarrow> s | None \<Rightarrow> [])\<rparr>"

text \<open>One attribute: skipped when the graph does not have it, else parsed and stored in the options.\<close>

definition parse_attr :: "attr_flag \<Rightarrow> nat \<Rightarrow> (string option \<Rightarrow> 'a parsed option) \<Rightarrow> ('a topt \<Rightarrow> 'o \<Rightarrow> 'o) \<Rightarrow>
    tgraph \<times> 'o \<Rightarrow> (tgraph \<times> 'o) parsing" where
  "parse_attr a v parse store go =
     (case go of (g, options) \<Rightarrow>
        if a \<notin> g_knownAttributes g then Some (None, go)
        else do { (e, t) \<leftarrow> parse (attr_value g a v); Some (e, g, store t options) })"

definition parse_string_attr :: "attr_flag \<Rightarrow> nat \<Rightarrow> (string topt \<Rightarrow> 'o \<Rightarrow> 'o) \<Rightarrow>
    tgraph \<times> 'o \<Rightarrow> (tgraph \<times> 'o) parsing" where
  "parse_string_attr a v store = parse_attr a v (\<lambda>s. Some (parseString s)) (\<lambda>t. store (string_topt t))"

definition on_graph :: "(tgraph \<Rightarrow> tgraph parsing) \<Rightarrow> tgraph \<times> 'o \<Rightarrow> (tgraph \<times> 'o) parsing" where
  "on_graph f go = (case go of (g, options) \<Rightarrow> do { (e, g') \<leftarrow> f g; Some (e, g', options) })"

text \<open>A part of the options, parsed by the helper for that part.\<close>

definition on_part :: "('o \<Rightarrow> 'p) \<Rightarrow> ('p \<Rightarrow> 'o \<Rightarrow> 'o) \<Rightarrow> (tgraph \<times> 'p \<Rightarrow> (tgraph \<times> 'p) parsing) \<Rightarrow>
    tgraph \<times> 'o \<Rightarrow> (tgraph \<times> 'o) parsing" where
  "on_part get put f go =
     (case go of (g, options) \<Rightarrow> do { (e, g', part) \<leftarrow> f (g, get options); Some (e, g', put part options) })"

definition validate_path :: "graphenv \<Rightarrow> ('o \<Rightarrow> string topt) \<Rightarrow> tgraph \<times> 'o \<Rightarrow> (tgraph \<times> 'o) parsing" where
  "validate_path env path go =
     (if isSet (path (snd go)) then on_graph (validateMarkovModel env (opt_value (path (snd go))) 12345) go
      else Some (None, go))"

text \<open>A seed becomes a generator in a pool of its own.\<close>

definition new_prng :: "u32 \<Rightarrow> tgraph \<Rightarrow> nat pool \<times> tgraph" where
  "new_prng seed g = (tgenpool_add tgenpool_new (length (g_prngs g)), g\<lparr>g_prngs := g_prngs g @ [(seed, 0)]\<rparr>)"

definition make_generators :: "tgraph \<times> stream_options \<Rightarrow> (tgraph \<times> stream_options) parsing" where
  "make_generators go =
     (case go of (g, op) \<Rightarrow>
        let (g1, op1) = (if isSet (op_markovModelSeed op)
              then (case new_prng (opt_value (op_markovModelSeed op)) g of (p, g') \<Rightarrow> (g', op\<lparr>op_seedGenerator := set_to (Some p)\<rparr>))
              else (g, op));
            (g2, op2) = (if isSet (op_socksAuthSeed op1)
              then (case new_prng (opt_value (op_socksAuthSeed op1)) g1 of (p, g') \<Rightarrow> (g', op1\<lparr>op_socksAuthGenerator := set_to (Some p)\<rparr>))
              else (g1, op1))
        in Some (None, g2, op2))"

definition parseStreamAttributesHelper :: "graphenv \<Rightarrow> nat \<Rightarrow> tgraph \<times> stream_options \<Rightarrow>
    (tgraph \<times> stream_options) parsing" where
  "parseStreamAttributesHelper env v =
     all_of
       [parse_string_attr VA_PACKETMODELPATH v (\<lambda>t. op_packetModelPath_update (\<lambda>_. t)),
        parse_string_attr VA_PACKETMODELMODE v (\<lambda>t. op_packetModelMode_update (\<lambda>_. t)),
        parse_attr VA_MARKOVMODELSEED v (\<lambda>s. Some (parseUInt32 s)) (\<lambda>t. op_markovModelSeed_update (\<lambda>_. t)),
        parse_attr VA_PEERS v (\<lambda>s. Some (parsePeerList s)) (\<lambda>t. op_peers_update (\<lambda>_. t)),
        parse_attr VA_SOCKSPROXY v (\<lambda>s. Some (parsePeerList s)) (\<lambda>t. op_socksProxies_update (\<lambda>_. t)),
        parse_string_attr VA_SOCKSUSERNAME v (\<lambda>t. op_socksUsername_update (\<lambda>_. t)),
        parse_string_attr VA_SOCKSPASSWORD v (\<lambda>t. op_socksPassword_update (\<lambda>_. t)),
        parse_attr VA_SOCKSAUTHSEED v (\<lambda>s. Some (parseUInt32 s)) (\<lambda>t. op_socksAuthSeed_update (\<lambda>_. t)),
        parse_attr VA_SENDSIZE v parseBytes (\<lambda>t. op_sendSize_update (\<lambda>_. t)),
        parse_attr VA_RECVSIZE v parseBytes (\<lambda>t. op_recvSize_update (\<lambda>_. t)),
        parse_attr VA_TIMEOUT v parseTime (\<lambda>t. op_timeoutNanos_update (\<lambda>_. t)),
        parse_attr VA_STALLOUT v parseTime (\<lambda>t. op_stalloutNanos_update (\<lambda>_. t)),
        validate_path env op_packetModelPath,
        (\<lambda>go. fail_if (isSet (op_packetModelMode (snd go)) \<and>
                       \<not> strcaseeq (opt_value (op_packetModelMode (snd go))) ''path'' \<and>
                       \<not> strcaseeq (opt_value (op_packetModelMode (snd go))) ''graphml'') MARKUP_INVALID_CONTENT go),
        make_generators]"

definition parseFlowAttributesHelper :: "graphenv \<Rightarrow> nat \<Rightarrow> tgraph \<times> flow_options \<Rightarrow> (tgraph \<times> flow_options) parsing" where
  "parseFlowAttributesHelper env v =
     all_of
       [parse_string_attr VA_STREAMMODELPATH v (\<lambda>t. fo_streamModelPath_update (\<lambda>_. t)),
        on_part fo_streamOpts (\<lambda>p. fo_streamOpts_update (\<lambda>_. p)) (parseStreamAttributesHelper env v),
        validate_path env fo_streamModelPath]"

definition parseTrafficAttributesHelper :: "graphenv \<Rightarrow> nat \<Rightarrow> tgraph \<times> traffic_options \<Rightarrow>
    (tgraph \<times> traffic_options) parsing" where
  "parseTrafficAttributesHelper env v =
     all_of
       [parse_string_attr VA_FLOWMODELPATH v (\<lambda>t. to_flowModelPath_update (\<lambda>_. t)),
        on_part to_flowOpts (\<lambda>p. to_flowOpts_update (\<lambda>_. p)) (parseFlowAttributesHelper env v),
        validate_path env to_flowModelPath]"

definition parseStartAttributesHelper :: "graphenv \<Rightarrow> nat \<Rightarrow> tgraph \<times> start_options \<Rightarrow>
    (tgraph \<times> start_options) parsing" where
  "parseStartAttributesHelper env v =
     all_of
       [parse_attr VA_SERVERPORT v (\<lambda>s. Some (parseUInt16 s)) (\<lambda>t. so_serverport_update (\<lambda>_. t)),
        parse_attr VA_TIME v parseTime (\<lambda>t. so_timeNanos_update (\<lambda>_. t)),
        parse_attr VA_HEARTBEAT v parseTime (\<lambda>t. so_heartbeatPeriodNanos_update (\<lambda>_. t)),
        parse_attr VA_LOGLEVEL v (\<lambda>s. Some (parseLogLevel s)) (\<lambda>t. so_loglevel_update (\<lambda>_. t)),
        on_part so_defaultTrafficOpts (\<lambda>p. so_defaultTrafficOpts_update (\<lambda>_. p)) (parseTrafficAttributesHelper env v)]"

definition parsePauseAttributesHelper :: "nat \<Rightarrow> tgraph \<times> pause_options \<Rightarrow> (tgraph \<times> pause_options) parsing" where
  "parsePauseAttributesHelper v = parse_attr VA_TIME v (\<lambda>s. Some (parseTimeList s)) (\<lambda>t. po_times_update (\<lambda>_. t))"

definition parseEndAttributesHelper :: "nat \<Rightarrow> tgraph \<times> end_options \<Rightarrow> (tgraph \<times> end_options) parsing" where
  "parseEndAttributesHelper v =
     all_of
       [parse_attr VA_TIME v parseTime (\<lambda>t. eo_timeNanos_update (\<lambda>_. t)),
        parse_attr VA_COUNT v (\<lambda>s. Some (parseUInt64 s)) (\<lambda>t. eo_count_update (\<lambda>_. t)),
        parse_attr VA_SENDSIZE v parseBytes (\<lambda>t. eo_sendSize_update (\<lambda>_. t)),
        parse_attr VA_RECVSIZE v parseBytes (\<lambda>t. eo_recvSize_update (\<lambda>_. t))]"

section \<open>Vertices\<close>

definition with_options :: "(tgraph \<times> 'o) parsing \<Rightarrow> ('o \<Rightarrow> tgraph \<Rightarrow> tgraph) \<Rightarrow> tgraph parsing" where
  "with_options r f =
     do { (e, g, options) \<leftarrow> r; Some (case e of Some _ \<Rightarrow> (e, g) | None \<Rightarrow> (None, f options g)) }"

definition parseStartVertex :: "graphenv \<Rightarrow> nat \<Rightarrow> tgraph \<Rightarrow> tgraph parsing" where
  "parseStartVertex env v g =
     (if g_hasStartAction g then Some (Some MARKUP_INVALID_CONTENT, g)
      else if hasSelfLoop g v then Some (Some MARKUP_INVALID_CONTENT, g)
      else with_options (parseStartAttributesHelper env v (g, start_options0))
        (\<lambda>options g. storeAction v (newAction (StartOptions options))
           (g\<lparr>g_startActionVertexIndex := v, g_hasStartAction := True,
              g_startHasPeers := (isSet (op_peers (fo_streamOpts (to_flowOpts (so_defaultTrafficOpts options)))) \<or> g_startHasPeers g)\<rparr>)))"

definition parseEndVertex :: "nat \<Rightarrow> tgraph \<Rightarrow> tgraph parsing" where
  "parseEndVertex v g =
     with_options (parseEndAttributesHelper v (g, end_options0)) (\<lambda>options. storeAction v (newAction (EndOptions options)))"

text \<open>A pause without incoming edges is only reported.\<close>

definition parsePauseVertex :: "nat \<Rightarrow> tgraph \<Rightarrow> tgraph parsing" where
  "parsePauseVertex v g =
     with_options (parsePauseAttributesHelper v (g, \<lparr>po_times = unset None\<rparr>))
       (\<lambda>options g. storeAction v ((newAction (PauseOptions options))\<lparr>ac_totalIncomingEdges := countIncomingEdges g v\<rparr>) g)"

definition parseStreamVertex :: "graphenv \<Rightarrow> nat \<Rightarrow> tgraph \<Rightarrow> tgraph parsing" where
  "parseStreamVertex env v g =
     with_options (parseStreamAttributesHelper env v (g, stream_options0))
       (\<lambda>options g. storeAction v (newAction (StreamOptions options))
          (if isSet (op_peers options) then g else g\<lparr>g_transferMissingPeers := True\<rparr>))"

definition parseFlowVertex :: "graphenv \<Rightarrow> nat \<Rightarrow> tgraph \<Rightarrow> tgraph parsing" where
  "parseFlowVertex env v g =
     with_options (parseFlowAttributesHelper env v (g, flow_options0)) (\<lambda>options. storeAction v (newAction (FlowOptions options)))"

definition parseTrafficVertex :: "graphenv \<Rightarrow> nat \<Rightarrow> tgraph \<Rightarrow> tgraph parsing" where
  "parseTrafficVertex env v g =
     with_options (parseTrafficAttributesHelper env v (g, traffic_options0)) (\<lambda>options. storeAction v (newAction (TrafficOptions options)))"

text \<open>\<open>g_strstr_len\<close>: the needle occurs in the text.\<close>

definition contains :: "string \<Rightarrow> string \<Rightarrow> bool" where
  "contains needle text \<longleftrightarrow> list_ex (\<lambda>n. take (length needle) (drop n text) = needle) [0 ..< Suc (length text)]"

definition parse_vertex :: "graphenv \<Rightarrow> nat \<Rightarrow> tgraph \<Rightarrow> tgraph parsing" where
  "parse_vertex env v g =
     (case attr_value g VA_ID v of
        None \<Rightarrow> Some (Some MARKUP_MISSING_ATTRIBUTE, g)
      | Some idStr \<Rightarrow>
          if contains ''start'' idStr then parseStartVertex env v g
          else if contains ''end'' idStr then parseEndVertex v g
          else if contains ''pause'' idStr then parsePauseVertex v g
          else if contains ''stream'' idStr then parseStreamVertex env v g
          else if contains ''flow'' idStr then parseFlowVertex env v g
          else if contains ''traffic'' idStr then parseTrafficVertex env v g
          else Some (Some MARKUP_UNKNOWN_ELEMENT, g))"

text \<open>The check for peers comes after the loop and covers the stream vertices only.\<close>

definition parseGraphVertices :: "graphenv \<Rightarrow> tgraph \<Rightarrow> tgraph parsing" where
  "parseGraphVertices env g =
     (case ig_vertices (g_graph g) of
        None \<Rightarrow> Some (Some MARKUP_PARSE, g)
      | Some vs \<Rightarrow>
          do {
            (e, g1) \<leftarrow> all_of (map (parse_vertex env) vs) g;
            let e1 = (if \<not> g_startHasPeers g1 \<and> g_transferMissingPeers g1 then Some MARKUP_INVALID_CONTENT else e);
            Some (e1, if e1 = None then g1\<lparr>g_vertexCount := ag_vcount (g_graph g1)\<rparr> else g1)
          })"

section \<open>The graph\<close>

definition know_attribute :: "(string \<Rightarrow> attr_flag option) \<Rightarrow> string \<Rightarrow> tgraph \<Rightarrow> tgraph parsing" where
  "know_attribute toFlag name g =
     Some (case toFlag name of
             None \<Rightarrow> (Some MARKUP_UNKNOWN_ATTRIBUTE, g)
           | Some flag \<Rightarrow> (None, g\<lparr>g_knownAttributes := insert flag (g_knownAttributes g)\<rparr>))"

definition parseGraphProperties :: "tgraph \<Rightarrow> tgraph parsing" where
  "parseGraphProperties g =
     (case ag_connected (g_graph g) of
        None \<Rightarrow> Some (Some MARKUP_PARSE, g)
      | Some conn \<Rightarrow>
          (case ag_clusters (g_graph g) of
             None \<Rightarrow> Some (Some MARKUP_PARSE, g\<lparr>g_isConnected := conn\<rparr>)
           | Some clusters \<Rightarrow>
               (let g1 = g\<lparr>g_isConnected := conn, g_clusterCount := clusters\<rparr>
                in if \<not> conn \<or> clusters > 1 then Some (Some MARKUP_INVALID_CONTENT, g1)
                   else (let g2 = g1\<lparr>g_isDirected := ag_directed (g_graph g)\<rparr>
                         in case ag_attributes (g_graph g) of
                              None \<Rightarrow> Some (Some MARKUP_PARSE, g2)
                            | Some (vnames, enames) \<Rightarrow>
                                all_of (map (know_attribute vertexAttributeToFlag) vnames @
                                        map (know_attribute edgeAttributeToFlag) enames) g2))))"

definition loadNewGraph :: "graphenv \<Rightarrow> string \<Rightarrow> agraph option" where
  "loadNewGraph env path = Option.bind (fi_content (se_file (ge_sys env) path)) (ge_read env)"

definition graph_zero :: "agraph \<Rightarrow> string \<Rightarrow> tgraph" where
  "graph_zero ig path =
     \<lparr>g_graph = ig, g_graphPath = path, g_knownAttributes = {}, g_clusterCount = 0, g_vertexCount = 0,
      g_edgeCount = 0, g_isConnected = False, g_isDirected = False, g_actions = Map.empty,
      g_weights = Map.empty, g_hasStartAction = False, g_startActionVertexIndex = 0,
      g_startHasPeers = False, g_transferMissingPeers = False, g_validatedMarkovModelPaths = [],
      g_prngs = [], g_refcount = 1\<rparr>"

text \<open>The outer \<open>option\<close> is an abort; the inner one the NULL of a graph that is not accepted.\<close>

definition tgengraph_new :: "graphenv \<Rightarrow> string option \<Rightarrow> tgraph option option" where
  "tgengraph_new env path0 =
     (case path0 of
        None \<Rightarrow> Some None
      | Some path \<Rightarrow>
          if \<not> file_test env path then Some None
          else (let graphPath = getHomePath env path
                in if \<not> file_test env graphPath then Some None
                   else (case loadNewGraph env graphPath of
                           None \<Rightarrow> Some None
                         | Some ig \<Rightarrow>
                             do {
                               (e, g) \<leftarrow> all_of [parseGraphProperties, parseGraphEdges env, parseGraphVertices env] (graph_zero ig graphPath);
                               Some (if e = None then Some (g\<lparr>g_validatedMarkovModelPaths := []\<rparr>) else None)
                             })))"

definition tgengraph_ref :: "tgraph \<Rightarrow> tgraph" where
  "tgengraph_ref g = g\<lparr>g_refcount := g_refcount g + 1\<rparr>"

definition tgengraph_unref :: "tgraph \<Rightarrow> tgraph option" where
  "tgengraph_unref g = (let g' = g\<lparr>g_refcount := g_refcount g - 1\<rparr> in if g_refcount g' \<le> 0 then None else Some g')"

interpretation graph_rc: refcounted g_refcount tgengraph_ref tgengraph_unref
  by unfold_locales (auto simp: tgengraph_ref_def tgengraph_unref_def Let_def)

section \<open>The walk\<close>

definition tgengraph_getStartActionID :: "tgraph \<Rightarrow> nat" where
  "tgengraph_getStartActionID g = g_startActionVertexIndex g"

text \<open>
  The neighbours with an action are followed all if their edge has no weight; of the others one is
  chosen. The first result holds those to be followed, the second the candidates with their weights.
\<close>

fun sort_neighbors :: "tgraph \<Rightarrow> nat \<Rightarrow> nat list \<Rightarrow> (nat list \<times> (nat \<times> gdouble) list) option" where
  "sort_neighbors g src [] = Some ([], [])"
| "sort_neighbors g src (dst # dsts) =
     (if getAction g dst = None then sort_neighbors g src dsts
      else do {
        e \<leftarrow> ag_eid (g_graph g) src dst;
        (next_actions, choices) \<leftarrow> sort_neighbors g src dsts;
        Some (case getWeight g e of
                Some w \<Rightarrow> (next_actions, (dst, w) # choices)
              | None \<Rightarrow> (dst # next_actions, choices))
      })"

text \<open>The loop counts up weights until the sum exceeds the random number; it fails an assertion when they run out.\<close>

fun choose_weight :: "mathlib \<Rightarrow> gdouble \<Rightarrow> gdouble \<Rightarrow> (nat \<times> gdouble) list \<Rightarrow> nat option" where
  "choose_weight ml randomWeight cumulative [] = None"
| "choose_weight ml randomWeight cumulative ((dst, w) # choices) =
     (let cumulative' = fp_add ml cumulative w
      in if fp_le cumulative' randomWeight then choose_weight ml randomWeight cumulative' choices else Some dst)"

text \<open>
  \<open>random\<close> is \<open>g_random_double_range\<close>. The outer \<open>option\<close> is an abort, the inner one the NULL after a
  failed call of igraph.
\<close>

definition tgengraph_getNextActionIDs :: "mathlib \<Rightarrow> (gdouble \<Rightarrow> gdouble \<Rightarrow> gdouble) \<Rightarrow> tgraph \<Rightarrow> nat \<Rightarrow> nat list option option" where
  "tgengraph_getNextActionIDs ml random g src =
     (case Option.bind (ag_out (g_graph g) src) (sort_neighbors g src) of
        None \<Rightarrow> Some None
      | Some (next_actions, choices) \<Rightarrow>
          if choices = [] then Some (Some next_actions)
          else do {
            let totalWeight = foldl (\<lambda>t c. fp_add ml t (snd c)) (Fin 0) choices;
            choice \<leftarrow> choose_weight ml (random (Fin 0) totalWeight) (Fin 0) choices;
            Some (Some (next_actions @ [choice]))
          })"

definition tgengraph_hasEdges :: "tgraph \<Rightarrow> bool" where
  "tgengraph_hasEdges g \<longleftrightarrow> g_edgeCount g > 0"

definition tgengraph_getGraphPath :: "tgraph \<Rightarrow> string" where
  "tgengraph_getGraphPath g = g_graphPath g"

definition tgengraph_getActionType :: "tgraph \<Rightarrow> nat \<Rightarrow> action_type" where
  "tgengraph_getActionType g actionID =
     (case getAction g actionID of Some a \<Rightarrow> options_type (ac_options a) | None \<Rightarrow> ACTION_NONE)"

definition tgengraph_getActionName :: "tgraph \<Rightarrow> nat \<Rightarrow> string option" where
  "tgengraph_getActionName g actionID = ig_VAS (g_graph g) ''id'' actionID"

text \<open>
  A wrong vertex is only reported before its options are read as something they are not, so the
  result is \<open>None\<close>.
\<close>

definition getOptionsHelper :: "tgraph \<Rightarrow> nat \<Rightarrow> action_type \<Rightarrow> action_options option" where
  "getOptionsHelper g actionID actionType =
     do {
       action \<leftarrow> getAction g actionID;
       g_assert (options_type (ac_options action) = actionType);
       Some (ac_options action)
     }"

definition tgengraph_getStartOptions :: "tgraph \<Rightarrow> start_options option" where
  "tgengraph_getStartOptions g =
     (case getOptionsHelper g (g_startActionVertexIndex g) ACTION_START of Some (StartOptions op) \<Rightarrow> Some op | _ \<Rightarrow> None)"

definition tgengraph_getPauseOptions :: "tgraph \<Rightarrow> nat \<Rightarrow> pause_options option" where
  "tgengraph_getPauseOptions g actionID =
     (case getOptionsHelper g actionID ACTION_PAUSE of Some (PauseOptions op) \<Rightarrow> Some op | _ \<Rightarrow> None)"

definition tgengraph_getEndOptions :: "tgraph \<Rightarrow> nat \<Rightarrow> end_options option" where
  "tgengraph_getEndOptions g actionID =
     (case getOptionsHelper g actionID ACTION_END of Some (EndOptions op) \<Rightarrow> Some op | _ \<Rightarrow> None)"

section \<open>Default options\<close>

text \<open>An option that is not set takes the default if that is set. Pools do not change any more and are shared by value.\<close>

definition inherit :: "'a topt \<Rightarrow> 'a topt \<Rightarrow> 'a topt" where
  "inherit opt dflt =
     (if \<not> isSet opt \<and> isSet dflt then \<lparr>isSet = True, opt_value = opt_value dflt\<rparr> else opt)"

definition copyDefaultStreamOptions :: "stream_options \<Rightarrow> stream_options \<Rightarrow> stream_options" where
  "copyDefaultStreamOptions d op =
     \<lparr>op_packetModelPath = inherit (op_packetModelPath op) (op_packetModelPath d),
      op_packetModelMode = inherit (op_packetModelMode op) (op_packetModelMode d),
      op_markovModelSeed = inherit (op_markovModelSeed op) (op_markovModelSeed d),
      op_seedGenerator = inherit (op_seedGenerator op) (op_seedGenerator d),
      op_peers = inherit (op_peers op) (op_peers d),
      op_socksProxies = inherit (op_socksProxies op) (op_socksProxies d),
      op_socksUsername = inherit (op_socksUsername op) (op_socksUsername d),
      op_socksPassword = inherit (op_socksPassword op) (op_socksPassword d),
      op_socksAuthSeed = inherit (op_socksAuthSeed op) (op_socksAuthSeed d),
      op_socksAuthGenerator = inherit (op_socksAuthGenerator op) (op_socksAuthGenerator d),
      op_sendSize = inherit (op_sendSize op) (op_sendSize d),
      op_recvSize = inherit (op_recvSize op) (op_recvSize d),
      op_timeoutNanos = inherit (op_timeoutNanos op) (op_timeoutNanos d),
      op_stalloutNanos = inherit (op_stalloutNanos op) (op_stalloutNanos d)\<rparr>"

definition copyDefaultFlowOptions :: "flow_options \<Rightarrow> flow_options \<Rightarrow> flow_options" where
  "copyDefaultFlowOptions d op =
     op\<lparr>fo_streamModelPath := inherit (fo_streamModelPath op) (fo_streamModelPath d)\<rparr>"

definition copyDefaultTrafficOptions :: "traffic_options \<Rightarrow> traffic_options \<Rightarrow> traffic_options" where
  "copyDefaultTrafficOptions d op =
     op\<lparr>to_flowModelPath := inherit (to_flowModelPath op) (to_flowModelPath d)\<rparr>"

text \<open>The options of an action are completed in place.\<close>

definition set_options :: "nat \<Rightarrow> action_options \<Rightarrow> tgraph \<Rightarrow> tgraph" where
  "set_options v op g =
     (case getAction g v of None \<Rightarrow> g | Some a \<Rightarrow> storeAction v (a\<lparr>ac_options := op\<rparr>) g)"

definition tgengraph_getStreamOptions :: "tgraph \<Rightarrow> nat \<Rightarrow> (stream_options \<times> tgraph) option" where
  "tgengraph_getStreamOptions g actionID =
     do {
       options \<leftarrow> getOptionsHelper g actionID ACTION_STREAM;
       start \<leftarrow> tgengraph_getStartOptions g;
       (case options of
          StreamOptions op \<Rightarrow>
            let op' = copyDefaultStreamOptions (fo_streamOpts (to_flowOpts (so_defaultTrafficOpts start))) op
            in Some (op', set_options actionID (StreamOptions op') g)
        | _ \<Rightarrow> None)
     }"

definition complete_flow :: "start_options \<Rightarrow> flow_options \<Rightarrow> flow_options" where
  "complete_flow start op =
     (let d = to_flowOpts (so_defaultTrafficOpts start)
      in copyDefaultFlowOptions d (op\<lparr>fo_streamOpts := copyDefaultStreamOptions (fo_streamOpts d) (fo_streamOpts op)\<rparr>))"

definition tgengraph_getFlowOptions :: "tgraph \<Rightarrow> nat \<Rightarrow> (flow_options \<times> tgraph) option" where
  "tgengraph_getFlowOptions g actionID =
     do {
       options \<leftarrow> getOptionsHelper g actionID ACTION_FLOW;
       start \<leftarrow> tgengraph_getStartOptions g;
       (case options of
          FlowOptions op \<Rightarrow>
            let op' = complete_flow start op in Some (op', set_options actionID (FlowOptions op') g)
        | _ \<Rightarrow> None)
     }"

definition tgengraph_getTrafficOptions :: "tgraph \<Rightarrow> nat \<Rightarrow> (traffic_options \<times> tgraph) option" where
  "tgengraph_getTrafficOptions g actionID =
     do {
       options \<leftarrow> getOptionsHelper g actionID ACTION_TRAFFIC;
       start \<leftarrow> tgengraph_getStartOptions g;
       (case options of
          TrafficOptions op \<Rightarrow>
            let op' = copyDefaultTrafficOptions (so_defaultTrafficOpts start)
                        (op\<lparr>to_flowOpts := complete_flow start (to_flowOpts op)\<rparr>)
            in Some (op', set_options actionID (TrafficOptions op') g)
        | _ \<Rightarrow> None)
     }"

section \<open>Synchronizing pauses\<close>

definition tgengraph_incrementPauseVisited :: "tgraph \<Rightarrow> nat \<Rightarrow> (bool \<times> tgraph) option" where
  "tgengraph_incrementPauseVisited g actionID =
     do {
       action \<leftarrow> getAction g actionID;
       let n = ac_completedIncomingEdges action + 1;
       Some (if n \<ge> ac_totalIncomingEdges action
             then (True, storeAction actionID (action\<lparr>ac_completedIncomingEdges := 0\<rparr>) g)
             else (False, storeAction actionID (action\<lparr>ac_completedIncomingEdges := n\<rparr>) g))
     }"

end
