(* ===== verification/GraphProps.thy ===== *)
theory GraphProps
  imports ActionGraph
begin

text \<open>
  What an accepted action graph guarantees to the walk, the choice among weighted edges, synchronizing
  pauses and default options, and where the checks of the parser fall short.
\<close>

section \<open>Parsers in sequence\<close>

lemma and_then_Some:
  "and_then r f = Some (e, s') \<longleftrightarrow>
     (\<exists>e0 s. r = Some (e0, s) \<and> (case e0 of Some _ \<Rightarrow> e = e0 \<and> s' = s | None \<Rightarrow> f s = Some (e, s')))"
  by (auto simp: and_then_def bind_eq_Some_conv split: option.splits)

lemma all_of_inv:
  assumes "all_of fs s = Some (e, s')" and "P s"
    and "\<And>f s e s'. f \<in> set fs \<Longrightarrow> P s \<Longrightarrow> f s = Some (e, s') \<Longrightarrow> P s'"
  shows "P s'"
  using assms
proof (induction fs arbitrary: s)
  case (Cons f fs)
  from Cons.prems(1) obtain e0 s1 where f: "f s = Some (e0, s1)"
    and r: "case e0 of Some _ \<Rightarrow> e = e0 \<and> s' = s1 | None \<Rightarrow> all_of fs s1 = Some (e, s')"
    by (auto simp: and_then_Some)
  have P1: "P s1" by (rule Cons.prems(3) [of f, OF _ Cons.prems(2) f]) simp
  show ?case
  proof (cases e0)
    case None
    with r have "all_of fs s1 = Some (e, s')" by simp
    then show ?thesis by (rule Cons.IH [OF _ P1]) (use Cons.prems(3) in auto)
  qed (use r P1 in simp)
qed simp

text \<open>A relation that every parser of the list respects, seen from the start.\<close>

lemma all_of_rel:
  assumes "all_of fs s = Some (e, s')" and "\<And>s. R s s" and "\<And>a b c. R a b \<Longrightarrow> R b c \<Longrightarrow> R a c"
    and "\<And>f s e s'. f \<in> set fs \<Longrightarrow> f s = Some (e, s') \<Longrightarrow> R s s'"
  shows "R s s'"
  using all_of_inv [OF assms(1), of "R s"] assms(2-4) by blast

section \<open>The attribute parsers leave the graph alone\<close>

definition same_core :: "tgraph \<Rightarrow> tgraph \<Rightarrow> bool" where
  "same_core g g' \<longleftrightarrow> (\<exists>ps qs. g' = g\<lparr>g_validatedMarkovModelPaths := ps, g_prngs := qs\<rparr>)"

lemma same_core_refl [simp]: "same_core g g"
  unfolding same_core_def
  by (rule exI [of _ "g_validatedMarkovModelPaths g"], rule exI [of _ "g_prngs g"]) simp

lemma same_core_trans: "same_core a b \<Longrightarrow> same_core b c \<Longrightarrow> same_core a c"
  unfolding same_core_def by force

lemma same_core_fields:
  assumes "same_core g g'"
  shows "g_graph g' = g_graph g" "g_knownAttributes g' = g_knownAttributes g" "g_actions g' = g_actions g"
    "g_hasStartAction g' = g_hasStartAction g" "g_startActionVertexIndex g' = g_startActionVertexIndex g"
    "g_startHasPeers g' = g_startHasPeers g" "g_transferMissingPeers g' = g_transferMissingPeers g"
    "g_weights g' = g_weights g" "g_refcount g' = g_refcount g"
  using assms by (auto simp: same_core_def)

named_theorems core_parsers

lemma core_attr [core_parsers]: "parse_attr a v p st s = Some (e, s') \<Longrightarrow> same_core (fst s) (fst s')"
  by (auto simp: parse_attr_def bind_eq_Some_conv split: prod.splits if_splits)

lemma core_string [core_parsers]: "parse_string_attr a v st s = Some (e, s') \<Longrightarrow> same_core (fst s) (fst s')"
  unfolding parse_string_attr_def by (rule core_attr)

lemma core_validate: "validateMarkovModel env p sd g = Some (e, g') \<Longrightarrow> same_core g g'"
  unfolding validateMarkovModel_def same_core_def
  by (auto simp: bind_eq_Some_conv split: if_splits option.splits)
    (metis tgraph.surjective tgraph.update_convs(15,16))+

lemma core_path [core_parsers]: "validate_path env p s = Some (e, s') \<Longrightarrow> same_core (fst s) (fst s')"
  by (auto simp: validate_path_def on_graph_def bind_eq_Some_conv split: if_splits prod.splits dest: core_validate)

lemma core_fail [core_parsers]: "fail_if b e0 s = Some (e, s') \<Longrightarrow> same_core (fst s) (fst s')"
  by (simp add: fail_if_def)

lemma new_prng_core: "new_prng sd g = (p, g') \<Longrightarrow> same_core g g'"
  unfolding new_prng_def same_core_def
  by (auto intro!: exI [of _ "g_validatedMarkovModelPaths g"])

lemma core_generators [core_parsers]: "make_generators s = Some (e, s') \<Longrightarrow> same_core (fst s) (fst s')"
  by (auto simp: make_generators_def Let_def split: prod.splits if_splits intro: same_core_trans dest!: new_prng_core)

lemma core_part [core_parsers]:
  assumes "on_part get_part put_part f s = Some (e, s')"
    and "\<And>s e s'. f s = Some (e, s') \<Longrightarrow> same_core (fst s) (fst s')"
  shows "same_core (fst s) (fst s')"
  using assms by (auto simp: on_part_def bind_eq_Some_conv split: prod.splits)

lemma core_all_of:
  assumes "all_of fs s = Some (e, s')"
    and "\<And>f s e s'. f \<in> set fs \<Longrightarrow> f s = Some (e, s') \<Longrightarrow> same_core (fst s) (fst s')"
  shows "same_core (fst s) (fst s')"
  by (rule all_of_rel [OF assms(1), where R = "\<lambda>s s'. same_core (fst s) (fst s')"])
    (use assms(2) same_core_trans in auto)

lemma core_stream: "parseStreamAttributesHelper env v s = Some (e, s') \<Longrightarrow> same_core (fst s) (fst s')"
  unfolding parseStreamAttributesHelper_def by (erule core_all_of) (auto dest: core_parsers)

lemma core_flow: "parseFlowAttributesHelper env v s = Some (e, s') \<Longrightarrow> same_core (fst s) (fst s')"
  unfolding parseFlowAttributesHelper_def by (erule core_all_of) (auto dest: core_parsers core_part [OF _ core_stream])

lemma core_traffic: "parseTrafficAttributesHelper env v s = Some (e, s') \<Longrightarrow> same_core (fst s) (fst s')"
  unfolding parseTrafficAttributesHelper_def by (erule core_all_of) (auto dest: core_parsers core_part [OF _ core_flow])

lemma core_start: "parseStartAttributesHelper env v s = Some (e, s') \<Longrightarrow> same_core (fst s) (fst s')"
  unfolding parseStartAttributesHelper_def by (erule core_all_of) (auto dest: core_parsers core_part [OF _ core_traffic])

lemma core_pause: "parsePauseAttributesHelper v s = Some (e, s') \<Longrightarrow> same_core (fst s) (fst s')"
  unfolding parsePauseAttributesHelper_def by (rule core_attr)

lemma core_end: "parseEndAttributesHelper v s = Some (e, s') \<Longrightarrow> same_core (fst s) (fst s')"
  unfolding parseEndAttributesHelper_def by (erule core_all_of) (auto dest: core_parsers)

section \<open>Accepted graphs\<close>

text \<open>The type of action a vertex name stands for.\<close>

definition id_type :: "string \<Rightarrow> action_type" where
  "id_type idStr =
     (if contains ''start'' idStr then ACTION_START
      else if contains ''end'' idStr then ACTION_END
      else if contains ''pause'' idStr then ACTION_PAUSE
      else if contains ''stream'' idStr then ACTION_STREAM
      else if contains ''flow'' idStr then ACTION_FLOW
      else if contains ''traffic'' idStr then ACTION_TRAFFIC
      else ACTION_NONE)"

text \<open>What parsing one vertex does to the graph.\<close>

definition vertex_parsed :: "nat \<Rightarrow> action \<Rightarrow> tgraph \<Rightarrow> tgraph \<Rightarrow> bool" where
  "vertex_parsed v a g g' \<longleftrightarrow>
     g_actions g' = (g_actions g)(v \<mapsto> a) \<and> g_graph g' = g_graph g \<and> g_knownAttributes g' = g_knownAttributes g \<and>
     (case ac_options a of
        StartOptions op \<Rightarrow>
          \<not> g_hasStartAction g \<and> g_hasStartAction g' \<and> g_startActionVertexIndex g' = v \<and>
          g_startHasPeers g' = (isSet (op_peers (fo_streamOpts (to_flowOpts (so_defaultTrafficOpts op)))) \<or> g_startHasPeers g) \<and>
          g_transferMissingPeers g' = g_transferMissingPeers g
      | other \<Rightarrow>
          g_hasStartAction g' = g_hasStartAction g \<and> g_startActionVertexIndex g' = g_startActionVertexIndex g \<and>
          g_startHasPeers g' = g_startHasPeers g \<and>
          g_transferMissingPeers g' = (g_transferMissingPeers g \<or>
            (case other of StreamOptions op \<Rightarrow> \<not> isSet (op_peers op) | _ \<Rightarrow> False)))"

lemma with_options_None:
  assumes "with_options r f = Some (None, g')"
  obtains g options where "r = Some (None, g, options)" "g' = f options g"
  using assms by (auto simp: with_options_def bind_eq_Some_conv split: option.splits)

lemma parsed_plain:
  assumes "same_core g g1" and "\<not> (\<exists>op. ac_options a = StartOptions op)" and "\<not> (\<exists>op. ac_options a = StreamOptions op)"
  shows "vertex_parsed v a g (storeAction v a g1)"
  using assms(2,3) same_core_fields [OF assms(1)]
  by (cases "ac_options a") (auto simp: vertex_parsed_def storeAction_def)

lemma plain_vertex:
  assumes "with_options r (\<lambda>op g1. storeAction v (mk op g1) g1) = Some (None, g')"
    and "\<And>g1 op. r = Some (None, g1, op) \<Longrightarrow> same_core g g1"
    and "\<And>op g1. options_type (ac_options (mk op g1)) = T" and "T \<noteq> ACTION_START" and "T \<noteq> ACTION_STREAM"
  obtains a where "options_type (ac_options a) = T" "vertex_parsed v a g g'"
proof -
  obtain g1 op where r: "r = Some (None, g1, op)" "g' = storeAction v (mk op g1) g1"
    using assms(1) by (rule with_options_None)
  have "\<not> (\<exists>x. ac_options (mk op g1) = StartOptions x)" "\<not> (\<exists>x. ac_options (mk op g1) = StreamOptions x)"
    using assms(3-5) by (metis options_type.simps(1), metis options_type.simps(4))
  from parsed_plain [OF assms(2) [OF r(1)] this] r(2) assms(3) that show ?thesis by blast
qed

lemma start_vertex:
  assumes "parseStartVertex env v g = Some (None, g')"
  obtains a where "options_type (ac_options a) = ACTION_START" "vertex_parsed v a g g'"
proof -
  have h: "\<not> g_hasStartAction g" using assms by (auto simp: parseStartVertex_def split: if_splits)
  from assms obtain g1 op where r: "parseStartAttributesHelper env v (g, start_options0) = Some (None, g1, op)"
    "g' = storeAction v (newAction (StartOptions op))
         (g1\<lparr>g_startActionVertexIndex := v, g_hasStartAction := True,
            g_startHasPeers := (isSet (op_peers (fo_streamOpts (to_flowOpts (so_defaultTrafficOpts op)))) \<or> g_startHasPeers g1)\<rparr>)"
    by (auto simp: parseStartVertex_def split: if_splits elim: with_options_None)
  have "same_core g g1" using core_start [OF r(1)] by simp
  note f = same_core_fields [OF this]
  show ?thesis
    by (rule that [of "newAction (StartOptions op)"])
      (use r(2) f h in \<open>auto simp: vertex_parsed_def storeAction_def newAction_def\<close>)
qed

lemma stream_vertex:
  assumes "parseStreamVertex env v g = Some (None, g')"
  obtains a where "options_type (ac_options a) = ACTION_STREAM" "vertex_parsed v a g g'"
proof -
  from assms obtain g1 op where r: "parseStreamAttributesHelper env v (g, stream_options0) = Some (None, g1, op)"
    "g' = storeAction v (newAction (StreamOptions op)) (if isSet (op_peers op) then g1 else g1\<lparr>g_transferMissingPeers := True\<rparr>)"
    by (auto simp: parseStreamVertex_def elim: with_options_None)
  have "same_core g g1" using core_stream [OF r(1)] by simp
  note f = same_core_fields [OF this]
  show ?thesis
    by (rule that [of "newAction (StreamOptions op)"])
      (use r(2) f in \<open>auto simp: vertex_parsed_def storeAction_def newAction_def\<close>)
qed

lemma vertex_step:
  assumes "parse_vertex env v g = Some (None, g')"
  obtains idStr a where "attr_value g VA_ID v = Some idStr" "options_type (ac_options a) = id_type idStr"
    "vertex_parsed v a g g'"
proof -
  obtain idStr where i: "attr_value g VA_ID v = Some idStr"
    using assms by (auto simp: parse_vertex_def split: option.splits)
  note p = assms [unfolded parse_vertex_def i option.case]
  consider (start) "id_type idStr = ACTION_START" "parseStartVertex env v g = Some (None, g')"
    | (end_) "id_type idStr = ACTION_END" "parseEndVertex v g = Some (None, g')"
    | (pause) "id_type idStr = ACTION_PAUSE" "parsePauseVertex v g = Some (None, g')"
    | (stream) "id_type idStr = ACTION_STREAM" "parseStreamVertex env v g = Some (None, g')"
    | (flow) "id_type idStr = ACTION_FLOW" "parseFlowVertex env v g = Some (None, g')"
    | (traffic) "id_type idStr = ACTION_TRAFFIC" "parseTrafficVertex env v g = Some (None, g')"
    using p by (auto simp: id_type_def split: if_splits)
  then obtain a where "options_type (ac_options a) = id_type idStr" "vertex_parsed v a g g'"
  proof cases
    case start then show ?thesis using that by (auto elim: start_vertex)
  next
    case end_ then show ?thesis
      using that by (auto simp: parseEndVertex_def newAction_def elim!: plain_vertex dest: core_end)
  next
    case pause then show ?thesis
      using that by (auto simp: parsePauseVertex_def newAction_def elim!: plain_vertex dest: core_pause)
  next
    case stream then show ?thesis using that by (auto elim: stream_vertex)
  next
    case flow then show ?thesis
      using that by (auto simp: parseFlowVertex_def newAction_def elim!: plain_vertex dest: core_flow)
  next
    case traffic then show ?thesis
      using that by (auto simp: parseTrafficVertex_def newAction_def elim!: plain_vertex dest: core_traffic)
  qed
  with that i show ?thesis by blast
qed

text \<open>After the vertices of a list have been parsed.\<close>

definition graph_inv :: "agraph \<Rightarrow> nat list \<Rightarrow> tgraph \<Rightarrow> bool" where
  "graph_inv ig vs g \<longleftrightarrow> g_graph g = ig \<and>
     dom (g_actions g) = set vs \<and>
     (\<forall>v a. g_actions g v = Some a \<longrightarrow> (\<exists>idStr. attr_value g VA_ID v = Some idStr \<and> options_type (ac_options a) = id_type idStr)) \<and>
     (g_hasStartAction g \<longrightarrow>
        (\<exists>a op. g_actions g (g_startActionVertexIndex g) = Some a \<and> ac_options a = StartOptions op \<and>
           g_startHasPeers g = isSet (op_peers (fo_streamOpts (to_flowOpts (so_defaultTrafficOpts op)))))) \<and>
     (\<not> g_hasStartAction g \<longrightarrow> \<not> g_startHasPeers g) \<and>
     (\<forall>v a. g_actions g v = Some a \<longrightarrow> options_type (ac_options a) = ACTION_START \<longrightarrow>
        g_hasStartAction g \<and> v = g_startActionVertexIndex g) \<and>
     (\<forall>v a op. g_actions g v = Some a \<longrightarrow> ac_options a = StreamOptions op \<longrightarrow> \<not> isSet (op_peers op) \<longrightarrow> g_transferMissingPeers g)"

lemma graph_inv_step:
  assumes inv: "graph_inv ig vs g" and p: "parse_vertex env v g = Some (None, g')" and new: "v \<notin> set vs"
  shows "graph_inv ig (vs @ [v]) g'"
proof -
  obtain idStr a where a: "attr_value g VA_ID v = Some idStr" "options_type (ac_options a) = id_type idStr"
    and vp: "vertex_parsed v a g g'"
    using vertex_step [OF p] .
  have same: "attr_value g' VA_ID w = attr_value g VA_ID w" for w
    using vp by (simp add: vertex_parsed_def attr_value_def)
  have "g_actions g v = None" using inv new by (auto simp: graph_inv_def)
  have acts: "g_actions g' = (g_actions g)(v \<mapsto> a)" using vp by (simp add: vertex_parsed_def)
  show ?thesis
    unfolding graph_inv_def same acts
    using inv a vp \<open>g_actions g v = None\<close>
    by (cases "ac_options a") (auto simp: graph_inv_def vertex_parsed_def)
qed

lemma graph_inv_vertices:
  assumes "all_of (map (parse_vertex env) ws) g = Some (None, g')" and "graph_inv ig vs g" and "distinct (vs @ ws)"
  shows "graph_inv ig (vs @ ws) g'"
  using assms
proof (induction ws arbitrary: vs g)
  case (Cons v ws)
  from Cons.prems(1) obtain g1 where v: "parse_vertex env v g = Some (None, g1)"
    and r: "all_of (map (parse_vertex env) ws) g1 = Some (None, g')"
    by (auto simp: and_then_Some split: option.splits)
  have "graph_inv ig (vs @ [v]) g1" by (rule graph_inv_step [OF Cons.prems(2) v]) (use Cons.prems(3) in simp)
  from Cons.IH [OF r this] Cons.prems(3) show ?case by simp
qed simp

text \<open>Properties and edges come first and touch no action.\<close>

definition no_actions :: "agraph \<Rightarrow> tgraph \<Rightarrow> bool" where
  "no_actions ig g \<longleftrightarrow> g_graph g = ig \<and> g_actions g = Map.empty \<and> \<not> g_hasStartAction g \<and> \<not> g_startHasPeers g \<and>
     \<not> g_transferMissingPeers g"

lemma know_no_actions: "know_attribute f name g = Some (e, g') \<Longrightarrow> no_actions ig g \<Longrightarrow> no_actions ig g'"
  by (auto simp: know_attribute_def no_actions_def split: option.splits)

lemma properties_no_actions:
  assumes "parseGraphProperties g = Some (e, g')" and "no_actions ig g"
  shows "no_actions ig g'"
proof -
  let ?g2 = "\<lambda>conn n. g\<lparr>g_isConnected := conn, g_clusterCount := n, g_isDirected := ag_directed (g_graph g)\<rparr>"
  consider (same) conn n where "g' = g \<or> g' = g\<lparr>g_isConnected := conn\<rparr> \<or> g' = g\<lparr>g_isConnected := conn, g_clusterCount := n\<rparr> \<or> g' = ?g2 conn n"
    | (names) conn n vn en where "all_of (map (know_attribute vertexAttributeToFlag) vn @
          map (know_attribute edgeAttributeToFlag) en) (?g2 conn n) = Some (e, g')"
    using assms(1) by (auto simp: parseGraphProperties_def Let_def split: option.splits if_splits)
  then show ?thesis
  proof cases
    case same
    with assms(2) show ?thesis by (auto simp: no_actions_def)
  next
    case names
    then show ?thesis
      by (rule all_of_inv) (use assms(2) know_no_actions in \<open>auto simp: no_actions_def\<close>)
  qed
qed

lemma edges_no_actions: "parseGraphEdges env g = Some (e, g') \<Longrightarrow> no_actions ig g \<Longrightarrow> no_actions ig g'"
proof -
  assume e: "parseGraphEdges env g = Some (e, g')" and g: "no_actions ig g"
  have step: "no_actions ig g'" if "parse_edge env i g = Some (e, g')" "no_actions ig g" for i g e g'
    using that by (auto simp: parse_edge_def no_actions_def storeWeight_def split: option.splits if_splits)
  have all: "no_actions ig g1" if "all_of (map (parse_edge env) es) g = Some (e1, g1)" for es e1 g1
    by (rule all_of_inv [where P = "no_actions ig", OF that g]) (use step in auto)
  show ?thesis
  proof (cases "ig_edges (g_graph g)")
    case (Some es)
    with e obtain e1 g1 where "all_of (map (parse_edge env) es) g = Some (e1, g1)"
      "g' = g1 \<or> g' = g1\<lparr>g_edgeCount := ag_ecount (g_graph g1)\<rparr>"
      by (auto simp: parseGraphEdges_def and_then_Some split: option.splits)
    with all [OF this(1)] show ?thesis by (auto simp: no_actions_def)
  qed (use e g in \<open>simp add: parseGraphEdges_def\<close>)
qed

lemma vertices_graph:
  "all_of (map (parse_vertex env) ws) g = Some (None, g') \<Longrightarrow> g_graph g' = g_graph g"
proof (induction ws arbitrary: g)
  case (Cons v ws)
  then obtain g1 where "parse_vertex env v g = Some (None, g1)" "all_of (map (parse_vertex env) ws) g1 = Some (None, g')"
    by (auto simp: and_then_Some split: option.splits)
  with Cons.IH show ?case by (metis vertex_parsed_def vertex_step)
qed simp

lemma graph_inv_counts:
  "graph_inv ig vs (g\<lparr>g_vertexCount := n, g_validatedMarkovModelPaths := ps\<rparr>) = graph_inv ig vs g"
  by (simp add: graph_inv_def attr_value_def)

lemma new_graph_inv:
  assumes "tgengraph_new env (Some path) = Some (Some g)" and "ig_vertices (g_graph g) = Some vs" and "distinct vs"
  shows "graph_inv (g_graph g) vs g" "\<not> g_startHasPeers g \<longrightarrow> \<not> g_transferMissingPeers g"
proof -
  obtain ig p g4 where g4: "g = g4\<lparr>g_validatedMarkovModelPaths := []\<rparr>"
    and all: "all_of [parseGraphProperties, parseGraphEdges env, parseGraphVertices env] (graph_zero ig p) = Some (None, g4)"
    using assms(1) by (auto simp: tgengraph_new_def Let_def bind_eq_Some_conv split: if_splits option.splits)
  from all obtain g1 g2 where p: "parseGraphProperties (graph_zero ig p) = Some (None, g1)"
    "parseGraphEdges env g1 = Some (None, g2)" "parseGraphVertices env g2 = Some (None, g4)"
    by (auto simp: and_then_Some split: option.splits)
  have "no_actions ig (graph_zero ig p)" by (simp add: no_actions_def graph_zero_def)
  with p have n2: "no_actions ig g2" by (blast intro: properties_no_actions edges_no_actions)
  then have i2: "graph_inv (g_graph g2) [] g2" by (simp add: graph_inv_def no_actions_def)
  from p(3) obtain ws g3 where ws: "ig_vertices (g_graph g2) = Some ws"
    "all_of (map (parse_vertex env) ws) g2 = Some (None, g3)"
    "g_startHasPeers g3 \<or> \<not> g_transferMissingPeers g3" "g4 = g3\<lparr>g_vertexCount := ag_vcount (g_graph g3)\<rparr>"
    by (auto simp: parseGraphVertices_def bind_eq_Some_conv Let_def split: option.splits if_splits)
  have same: "g_graph g3 = g_graph g2"
    by (rule vertices_graph [OF ws(2)])
  then have "ws = vs" using ws g4 assms(2) by simp
  then have "graph_inv (g_graph g2) vs g3" using graph_inv_vertices [OF ws(2) i2] assms(3) by simp
  then show "graph_inv (g_graph g) vs g" using g4 ws(4) same by (simp add: graph_inv_counts)
  show "\<not> g_startHasPeers g \<longrightarrow> \<not> g_transferMissingPeers g" using ws(3,4) g4 by auto
qed

lemma getActionType_iff:
  "tgengraph_getActionType g v = T \<longleftrightarrow>
     (case g_actions g v of None \<Rightarrow> T = ACTION_NONE | Some a \<Rightarrow> options_type (ac_options a) = T)"
  by (auto simp: tgengraph_getActionType_def getAction_def split: option.splits)

lemma options_type_cases:
  "options_type op = ACTION_START \<longleftrightarrow> (\<exists>x. op = StartOptions x)"
  "options_type op = ACTION_STREAM \<longleftrightarrow> (\<exists>x. op = StreamOptions x)"
  "options_type op \<noteq> ACTION_NONE"
  by (cases op; simp)+

lemma inv_types:
  assumes "graph_inv ig vs g"
  shows "v \<in> set vs \<Longrightarrow> \<exists>idStr. attr_value g VA_ID v = Some idStr \<and> tgengraph_getActionType g v = id_type idStr"
    and "v \<notin> set vs \<Longrightarrow> tgengraph_getActionType g v = ACTION_NONE"
    and "tgengraph_getActionType g v = ACTION_START \<Longrightarrow> g_hasStartAction g \<and> v = g_startActionVertexIndex g"
proof -
  note inv = assms [unfolded graph_inv_def]
  show "\<exists>idStr. attr_value g VA_ID v = Some idStr \<and> tgengraph_getActionType g v = id_type idStr" if v: "v \<in> set vs"
  proof -
    from v inv obtain a where a: "g_actions g v = Some a" by blast
    with inv obtain i where "attr_value g VA_ID v = Some i" "options_type (ac_options a) = id_type i" by blast
    with a show ?thesis by (simp add: getActionType_iff)
  qed
  show "tgengraph_getActionType g v = ACTION_NONE" if "v \<notin> set vs"
  proof -
    from that inv have "g_actions g v = None" by blast
    then show ?thesis by (simp add: getActionType_iff)
  qed
  show "g_hasStartAction g \<and> v = g_startActionVertexIndex g" if t: "tgengraph_getActionType g v = ACTION_START"
  proof (cases "g_actions g v")
    case (Some a)
    with t have "options_type (ac_options a) = ACTION_START" by (simp add: getActionType_iff)
    with inv Some show ?thesis by blast
  qed (use t in \<open>simp add: getActionType_iff\<close>)
qed

lemma inv_start:
  assumes "graph_inv ig vs g" and "g_hasStartAction g"
  obtains op where "tgengraph_getStartOptions g = Some op"
    "g_startHasPeers g = isSet (op_peers (fo_streamOpts (to_flowOpts (so_defaultTrafficOpts op))))"
proof -
  obtain a op where "g_actions g (g_startActionVertexIndex g) = Some a" "ac_options a = StartOptions op"
    "g_startHasPeers g = isSet (op_peers (fo_streamOpts (to_flowOpts (so_defaultTrafficOpts op))))"
    using assms by (auto simp: graph_inv_def)
  then show ?thesis
    by (intro that [of op]) (simp_all add: tgengraph_getStartOptions_def getOptionsHelper_def getAction_def)
qed

lemma inv_no_start:
  assumes "graph_inv ig vs g" and "\<not> g_hasStartAction g"
  shows "tgengraph_getStartOptions g = None"
proof (cases "g_actions g (g_startActionVertexIndex g)")
  case (Some a)
  then have "options_type (ac_options a) \<noteq> ACTION_START"
    using inv_types(3) [OF assms(1), of "g_startActionVertexIndex g"] assms(2) by (auto simp: getActionType_iff)
  with Some show ?thesis by (simp add: tgengraph_getStartOptions_def getOptionsHelper_def getAction_def)
qed (simp add: tgengraph_getStartOptions_def getOptionsHelper_def getAction_def)

lemma inv_peers:
  assumes inv: "graph_inv ig vs g" and "g_hasStartAction g" and missing: "\<not> g_startHasPeers g \<longrightarrow> \<not> g_transferMissingPeers g"
    and "tgengraph_getActionType g v = ACTION_STREAM"
  shows "\<exists>op g'. tgengraph_getStreamOptions g v = Some (op, g') \<and> isSet (op_peers op)"
proof -
  obtain start where s: "tgengraph_getStartOptions g = Some start"
    "g_startHasPeers g = isSet (op_peers (fo_streamOpts (to_flowOpts (so_defaultTrafficOpts start))))"
    using inv_start [OF assms(1,2)] .
  obtain a op where a: "g_actions g v = Some a" "ac_options a = StreamOptions op"
    using assms(4) by (auto simp: getActionType_iff options_type_cases split: option.splits)
  let ?op = "copyDefaultStreamOptions (fo_streamOpts (to_flowOpts (so_defaultTrafficOpts start))) op"
  have "isSet (op_peers op) \<or> g_startHasPeers g"
    using inv [unfolded graph_inv_def] missing a by blast
  with s(2) have "isSet (op_peers ?op)" by (auto simp: copyDefaultStreamOptions_def inherit_def)
  moreover have "tgengraph_getStreamOptions g v = Some (?op, set_options v (StreamOptions ?op) g)"
    using s(1) a by (simp add: tgengraph_getStreamOptions_def getOptionsHelper_def getAction_def Let_def)
  ultimately show ?thesis by blast
qed

text \<open>
  C18. Every vertex of an accepted graph has the action its name stands for, at most one is a start; if one is,
  its options can be read and every stream action has peers to connect to, its own or the defaults.
\<close>

theorem accepted_graph_ready:
  assumes "tgengraph_new env (Some path) = Some (Some g)" and "ig_vertices (g_graph g) = Some vs" and "distinct vs"
  shows "(\<forall>v. v \<in> set vs \<longrightarrow> (\<exists>idStr. attr_value g VA_ID v = Some idStr \<and> tgengraph_getActionType g v = id_type idStr)) \<and>
     (\<forall>v. v \<notin> set vs \<longrightarrow> tgengraph_getActionType g v = ACTION_NONE) \<and>
     (\<forall>v. tgengraph_getActionType g v = ACTION_START \<longrightarrow> v = tgengraph_getStartActionID g) \<and>
     ((\<exists>v. tgengraph_getActionType g v = ACTION_START) \<longrightarrow>
        tgengraph_getStartOptions g \<noteq> None \<and>
        (\<forall>v. tgengraph_getActionType g v = ACTION_STREAM \<longrightarrow>
           (\<exists>op g'. tgengraph_getStreamOptions g v = Some (op, g') \<and> isSet (op_peers op)))) \<and>
     ((\<nexists>v. tgengraph_getActionType g v = ACTION_START) \<longrightarrow> tgengraph_getStartOptions g = None)"
proof -
  note inv = new_graph_inv(1) [OF assms] and missing = new_graph_inv(2) [OF assms]
  have start: "(\<exists>v. tgengraph_getActionType g v = ACTION_START) \<longleftrightarrow> g_hasStartAction g"
  proof
    assume "g_hasStartAction g"
    with inv [unfolded graph_inv_def] obtain a op where "g_actions g (g_startActionVertexIndex g) = Some a"
      "ac_options a = StartOptions op" by blast
    then have "tgengraph_getActionType g (g_startActionVertexIndex g) = ACTION_START" by (simp add: getActionType_iff)
    then show "\<exists>v. tgengraph_getActionType g v = ACTION_START" by blast
  qed (use inv_types(3) [OF inv] in blast)
  have "tgengraph_getStartOptions g \<noteq> None" if "g_hasStartAction g"
    by (rule inv_start [OF inv that]) simp
  then show ?thesis
    unfolding start tgengraph_getStartActionID_def
    using inv_types [OF inv] inv_no_start [OF inv] inv_peers [OF inv _ missing] by blast
qed

text \<open>A file system with one file, and two graphs it may hold.\<close>

definition demo_files :: sysenv where
  "demo_files = \<lparr>se_file = (\<lambda>_. \<lparr>fi_exists = True, fi_regular = True, fi_content = Some ''g''\<rparr>),
     se_fmemopen = (\<lambda>_. True), se_seek = (\<lambda>_. True), se_read_graphml = (\<lambda>_. None), se_write_graphml = (\<lambda>_. None)\<rparr>"

definition demo_genv :: "agraph \<Rightarrow> graphenv" where
  "demo_genv ig = \<lparr>ge_sys = demo_files, ge_read = (\<lambda>_. Some ig), ge_home = ''/root'', ge_strtod = (\<lambda>_. Fin 1)\<rparr>"

text \<open>Vertices by their names, edges by their ends; the start vertex has peers.\<close>

definition demo_ag :: "string list \<Rightarrow> (nat \<times> nat) list \<Rightarrow> agraph" where
  "demo_ag names ends =
     \<lparr>ig_gettype = True, ig_vtype = (\<lambda>_. Some ATTRIBUTE_STRING), ig_etype = (\<lambda>_. Some ATTRIBUTE_STRING),
      ig_has_vattr = (\<lambda>_. True), ig_has_eattr = (\<lambda>_. True),
      ig_VAS = (\<lambda>a v. if a = ''id'' then Some (names ! v) else if names ! v = ''start'' then Some ''a:80'' else Some []),
      ig_EAS = (\<lambda>_ _. None), ig_EAN = (\<lambda>_ _. NaN),
      ig_vertices = Some [0 ..< length names], ig_edges = Some [0 ..< length ends],
      ig_edge = (\<lambda>e. Some (ends ! e)), ig_incident = (\<lambda>v. Some (filter (\<lambda>e. fst (ends ! e) = v) [0 ..< length ends])),
      ag_vcount = length names, ag_ecount = length ends, ag_connected = Some True, ag_clusters = Some 1,
      ag_directed = True, ag_attributes = Some ([''id'', ''peers''], []),
      ag_out = (\<lambda>v. Some (map snd (filter (\<lambda>e. fst e = v) ends))),
      ag_in = (\<lambda>v. Some (map fst (filter (\<lambda>e. snd e = v) ends))),
      ag_eid = (\<lambda>v w. if (v, w) \<in> set ends then Some (length (takeWhile (\<lambda>e. e \<noteq> (v, w)) ends)) else None)\<rparr>"

definition demo_walk :: agraph where
  "demo_walk = demo_ag [''start'', ''stream1'', ''pause''] [(0, 1), (1, 2), (2, 1)]"

definition demo_startless :: agraph where
  "demo_startless = demo_ag [''pause''] [(0, 0)]"

lemma demo_walk_accepted:
  "case tgengraph_new (demo_genv demo_walk) (Some ''x'') of
     Some (Some g) \<Rightarrow> tgengraph_getActionType g 0 = ACTION_START \<and> tgengraph_getActionType g 1 = ACTION_STREAM \<and>
        ig_vertices (g_graph g) = Some [0, 1, 2]
   | _ \<Rightarrow> False"
  by code_simp

lemma demo_startless_accepted:
  "case tgengraph_new (demo_genv demo_startless) (Some ''x'') of
     Some (Some g) \<Rightarrow> tgengraph_getActionType g 0 = ACTION_PAUSE \<and> ig_vertices (g_graph g) = Some [0]
   | _ \<Rightarrow> False"
  by code_simp

text \<open>The walk graph of the demonstration is ready: its stream has the peers of the start vertex.\<close>

theorem accepted_graph_ready_witness:
  "\<exists>g op g'. tgengraph_new (demo_genv demo_walk) (Some ''x'') = Some (Some g) \<and> tgengraph_getStartActionID g = 0 \<and>
     tgengraph_getStartOptions g \<noteq> None \<and> tgengraph_getStreamOptions g 1 = Some (op, g') \<and> isSet (op_peers op)"
proof -
  obtain g where g: "tgengraph_new (demo_genv demo_walk) (Some ''x'') = Some (Some g)"
    "tgengraph_getActionType g 0 = ACTION_START" "tgengraph_getActionType g 1 = ACTION_STREAM"
    "ig_vertices (g_graph g) = Some [0, 1, 2]"
    using demo_walk_accepted by (auto split: option.splits)
  from accepted_graph_ready [OF g(1,4)] g(2,3) show ?thesis
    using g(1) by auto
qed

end
