(* ===== verification/GraphWalk.thy ===== *)
theory GraphWalk
  imports GraphProps MarkovProps
begin

text \<open>
  The walk over an accepted action graph: which actions follow an action, and how often a pause that
  waits for all its incoming edges lets the walk go on.
\<close>

section \<open>The next actions\<close>

definition edge_weight :: "tgraph \<Rightarrow> nat \<Rightarrow> nat \<Rightarrow> gdouble option" where
  "edge_weight g src dst = Option.bind (ag_eid (g_graph g) src dst) (getWeight g)"

definition followed :: "tgraph \<Rightarrow> nat \<Rightarrow> nat list \<Rightarrow> nat list" where
  "followed g src dsts = filter (\<lambda>d. getAction g d \<noteq> None \<and> edge_weight g src d = None) dsts"

definition weighted :: "tgraph \<Rightarrow> nat \<Rightarrow> nat list \<Rightarrow> nat list" where
  "weighted g src dsts = filter (\<lambda>d. getAction g d \<noteq> None \<and> edge_weight g src d \<noteq> None) dsts"

definition sum_weights :: "mathlib \<Rightarrow> gdouble \<Rightarrow> gdouble list \<Rightarrow> gdouble" where
  "sum_weights ml c ws = foldl (fp_add ml) c ws"

text \<open>The reference: the first candidate with which the sum of the weights exceeds the random number.\<close>

definition first_exceeding :: "mathlib \<Rightarrow> gdouble \<Rightarrow> gdouble \<Rightarrow> gdouble list \<Rightarrow> nat option" where
  "first_exceeding ml r c ws = find (\<lambda>n. \<not> fp_le (sum_weights ml c (take (Suc n) ws)) r) [0 ..< length ws]"

lemma sort_neighbors_eq:
  assumes "list_all (\<lambda>d. getAction g d = None \<or> ag_eid (g_graph g) src d \<noteq> None) dsts"
  shows "sort_neighbors g src dsts =
    Some (followed g src dsts, map (\<lambda>d. (d, the (edge_weight g src d))) (weighted g src dsts))"
  using assms
  by (induction dsts) (auto simp: followed_def weighted_def edge_weight_def split: option.splits)

lemma bind_map_Some: "Option.bind (map_option f x) (\<lambda>c. Some (h c)) = map_option (\<lambda>n. h (f n)) x"
  by (cases x) simp_all

lemma find_Suc: "find P (map Suc xs) = map_option Suc (find (\<lambda>n. P (Suc n)) xs)"
  by (induction xs) auto

lemma first_exceeding_Cons:
  "first_exceeding ml r c (w # ws) =
    (if fp_le (fp_add ml c w) r then map_option Suc (first_exceeding ml r (fp_add ml c w) ws) else Some 0)"
proof -
  have "[0 ..< length (w # ws)] = 0 # map Suc [0 ..< length ws]"
    using upt_conv_Cons [of 0 "Suc (length ws)"] by (simp add: map_Suc_upt del: upt_Suc)
  then show ?thesis
    by (simp only: first_exceeding_def find.simps find_Suc) (simp add: sum_weights_def)
qed

lemma choose_weight_eq:
  "choose_weight ml r c (map (\<lambda>d. (d, f d)) ds) = map_option (\<lambda>n. ds ! n) (first_exceeding ml r c (map f ds))"
proof (induction ds arbitrary: c)
  case Nil
  then show ?case by (simp add: first_exceeding_def)
next
  case (Cons d ds)
  then show ?case by (simp add: first_exceeding_Cons option.map_comp comp_def)
qed

lemma first_exceeding_total:
  assumes "ws \<noteq> []" and "\<not> fp_le (sum_weights ml c ws) r"
  shows "first_exceeding ml r c ws \<noteq> None"
proof
  assume "first_exceeding ml r c ws = None"
  then have "\<forall>n < length ws. fp_le (sum_weights ml c (take (Suc n) ws)) r"
    by (simp add: first_exceeding_def find_None_iff)
  from this [rule_format, of "length ws - 1"] assms show False by simp
qed

text \<open>
  C21. All neighbours without a weight follow, and exactly one of those with a weight: the first with which
  the sum of the weights exceeds the random number. If the number is below the total there is one.
\<close>

theorem next_actions_spec:
  assumes "ag_out (g_graph g) src = Some dsts"
    and "list_all (\<lambda>d. getAction g d = None \<or> ag_eid (g_graph g) src d \<noteq> None) dsts"
    and "ws = map (\<lambda>d. the (edge_weight g src d)) (weighted g src dsts)"
    and "tot = sum_weights ml (Fin 0) ws"
  shows "tgengraph_getNextActionIDs ml random g src =
      (if ws = [] then Some (Some (followed g src dsts))
       else map_option (\<lambda>n. Some (followed g src dsts @ [weighted g src dsts ! n]))
              (first_exceeding ml (random (Fin 0) tot) (Fin 0) ws)) \<and>
    (ws \<noteq> [] \<and> \<not> fp_le tot (random (Fin 0) tot) \<longrightarrow>
       (\<exists>d \<in> set (weighted g src dsts). tgengraph_getNextActionIDs ml random g src = Some (Some (followed g src dsts @ [d]))))"
proof -
  have fold: "foldl (\<lambda>t c. fp_add ml t (snd c)) c (map (\<lambda>d. (d, f d)) ds) = sum_weights ml c (map f ds)" for c f ds
    by (induction ds arbitrary: c) (auto simp: sum_weights_def)
  have eq: "tgengraph_getNextActionIDs ml random g src =
      (if ws = [] then Some (Some (followed g src dsts))
       else map_option (\<lambda>n. Some (followed g src dsts @ [weighted g src dsts ! n]))
              (first_exceeding ml (random (Fin 0) tot) (Fin 0) ws))"
    using assms by (simp add: tgengraph_getNextActionIDs_def sort_neighbors_eq fold choose_weight_eq bind_map_Some)
  moreover have "\<exists>d \<in> set (weighted g src dsts). tgengraph_getNextActionIDs ml random g src = Some (Some (followed g src dsts @ [d]))"
    if "ws \<noteq> []" and "\<not> fp_le tot (random (Fin 0) tot)"
  proof -
    from first_exceeding_total [OF that(1), of ml "Fin 0" "random (Fin 0) tot"] that(2) assms(4)
    obtain n where n: "first_exceeding ml (random (Fin 0) tot) (Fin 0) ws = Some n" by blast
    then have "n < length ws" by (auto simp: first_exceeding_def find_Some_iff)
    with assms(3) have "weighted g src dsts ! n \<in> set (weighted g src dsts)" by simp
    with eq n that(1) show ?thesis by auto
  qed
  ultimately show ?thesis by blast
qed

text \<open>A walk with two weighted edges of one half, and no other.\<close>

definition demo_fork :: tgraph where
  "demo_fork = (graph_zero (demo_ag [''start'', ''pause'', ''end''] [(0, 1), (0, 2)]) ''x'')
     \<lparr>g_weights := [0 \<mapsto> Fin (1/2), 1 \<mapsto> Fin (1/2)],
      g_actions := [1 \<mapsto> (newAction (PauseOptions \<lparr>po_times = unset None\<rparr>))\<lparr>ac_totalIncomingEdges := 2\<rparr>,
                    2 \<mapsto> newAction (PauseOptions \<lparr>po_times = unset None\<rparr>)]\<rparr>"

section \<open>Synchronizing pauses\<close>

fun visits :: "nat \<Rightarrow> nat \<Rightarrow> tgraph \<Rightarrow> (bool list \<times> tgraph) option" where
  "visits 0 v g = Some ([], g)"
| "visits (Suc k) v g =
     do { (b, g1) \<leftarrow> tgengraph_incrementPauseVisited g v; (bs, g2) \<leftarrow> visits k v g1; Some (b # bs, g2) }"

lemma visit_once:
  assumes "getAction g v = Some a"
  shows "tgengraph_incrementPauseVisited g v =
    Some (ac_completedIncomingEdges a + 1 \<ge> ac_totalIncomingEdges a,
          storeAction v (a\<lparr>ac_completedIncomingEdges :=
             (if ac_completedIncomingEdges a + 1 \<ge> ac_totalIncomingEdges a then 0 else ac_completedIncomingEdges a + 1)\<rparr>) g)"
  using assms by (simp add: tgengraph_incrementPauseVisited_def Let_def)

lemma getAction_storeAction [simp]: "getAction (storeAction v a g) v = Some a"
  by (simp add: getAction_def storeAction_def)

lemma visits_from:
  assumes "getAction g v = Some a" and "ac_completedIncomingEdges a = int c" and "c < n"
    and "n = nat (max 1 (ac_totalIncomingEdges a))"
  shows "\<exists>g'. visits k v g = Some (map (\<lambda>i. (c + Suc i) mod n = 0) [0 ..< k], g') \<and>
    getAction g' v = Some (a\<lparr>ac_completedIncomingEdges := int ((c + k) mod n)\<rparr>)"
  using assms
proof (induction k arbitrary: g a c)
  case 0
  then show ?case by simp
next
  case (Suc k)
  let ?c = "(c + 1) mod n"
  have full: "ac_completedIncomingEdges a + 1 \<ge> ac_totalIncomingEdges a \<longleftrightarrow> c + 1 = n"
    using Suc.prems by (auto simp: max_def split: if_splits)
  let ?a = "a\<lparr>ac_completedIncomingEdges := int ?c\<rparr>"
  have step: "tgengraph_incrementPauseVisited g v = Some (c + 1 = n, storeAction v ?a g)"
    using Suc.prems full by (auto simp: visit_once ac_simps)
  have lt: "?c < n" using Suc.prems(3) by simp
  have total: "n = nat (max 1 (ac_totalIncomingEdges ?a))" using Suc.prems(4) by simp
  have completed: "ac_completedIncomingEdges ?a = int ?c" by simp
  from Suc.IH [OF getAction_storeAction completed lt total]
  obtain g' where g': "visits k v (storeAction v ?a g) = Some (map (\<lambda>i. (?c + Suc i) mod n = 0) [0 ..< k], g')"
    and last: "getAction g' v = Some (?a\<lparr>ac_completedIncomingEdges := int ((?c + k) mod n)\<rparr>)" by blast
  have shift: "(?c + Suc i) mod n = (c + Suc (Suc i)) mod n" for i
    by (metis add.assoc mod_add_left_eq plus_1_eq_Suc)
  have list: "map (\<lambda>i. (c + Suc i) mod n = 0) [0 ..< Suc k] =
      (c + 1 = n) # map (\<lambda>i. (?c + Suc i) mod n = 0) [0 ..< k]"
  proof -
    have "[0 ..< Suc k] = 0 # map Suc [0 ..< k]" by (simp add: upt_conv_Cons map_Suc_upt del: upt_Suc)
    moreover have "(c + 1) mod n = 0 \<longleftrightarrow> c + 1 = n" using Suc.prems(3) by (cases "c + 1 = n") auto
    ultimately show ?thesis using shift by (simp del: upt_Suc)
  qed
  have "(?c + k) mod n = (c + Suc k) mod n" by (simp add: mod_add_left_eq)
  then have "getAction g' v = Some (a\<lparr>ac_completedIncomingEdges := int ((c + Suc k) mod n)\<rparr>)" using last by simp
  moreover have "visits (Suc k) v g = Some (map (\<lambda>i. (c + Suc i) mod n = 0) [0 ..< Suc k], g')"
    unfolding list using step g' by simp
  ultimately show ?case by blast
qed


theorem next_actions_spec_witness:
  "tgengraph_getNextActionIDs demo_math (\<lambda>_ _. Fin (3/4)) demo_fork 0 = Some (Some [2])"
proof -
  have "list_all (\<lambda>d. getAction demo_fork d = None \<or> ag_eid (g_graph demo_fork) 0 d \<noteq> None) [1, 2]"
    and "ag_out (g_graph demo_fork) 0 = Some [1, 2]" by code_simp+
  from next_actions_spec [OF this(2,1) refl refl, of demo_math "\<lambda>_ _. Fin (3/4)"]
  have "tgengraph_getNextActionIDs demo_math (\<lambda>_ _. Fin (3/4)) demo_fork 0 =
      (let ws = map (\<lambda>d. the (edge_weight demo_fork 0 d)) (weighted demo_fork 0 [1, 2])
       in if ws = [] then Some (Some (followed demo_fork 0 [1, 2]))
          else map_option (\<lambda>n. Some (followed demo_fork 0 [1, 2] @ [weighted demo_fork 0 [1, 2] ! n]))
                 (first_exceeding demo_math (Fin (3/4)) (Fin 0) ws))"
    by (simp add: Let_def)
  also have "weighted demo_fork 0 [1, 2] = [1, 2]" by code_simp
  also have "followed demo_fork 0 [1, 2] = []" by code_simp
  also have "map (\<lambda>d. the (edge_weight demo_fork 0 d)) [1, 2] = [Fin (1/2), Fin (1/2)]" by code_simp
  also have "(let ws = [Fin (1/2), Fin (1/2)]
       in if ws = [] then Some (Some [])
          else map_option (\<lambda>n. Some ([] @ [[1, 2] ! n])) (first_exceeding demo_math (Fin (3/4)) (Fin 0) ws)) = Some (Some [2])"
    by (simp add: first_exceeding_def sum_weights_def demo_math_def)
  finally show ?thesis .
qed


end
