(* ===== verification/Process.thy ===== *)
theory Process
  imports Deferral ActionGraph
begin

text \<open>
  The state of the whole process: the event loop of \<open>tgen-io.c\<close> extended by the objects of
  \<open>tgen-driver.c\<close>, \<open>tgen-generator.c\<close>, \<open>tgen-server.c\<close> and the connections, each in a heap (a map from
  addresses) and with the reference counts of the source. The functions of these files call each other
  through function pointers and in cycles; a cycle is cut by \<open>run\<close>, which performs a \<open>call\<close>. Using an
  object after it was freed, a failed assertion and running out of \<open>run\<close>'s fuel are all \<open>None\<close>.
\<close>

section \<open>Objects\<close>

datatype user_timer = HeartbeatTimer | StartClientTimer | PauseTimer int | GeneratorTimer nat

datatype io_object = StreamObj nat | ServerObj nat

text \<open>\<open>NotifyCallback\<close>: the driver or a generator; the function pointer is never NULL here.\<close>

datatype notify_target = ToDriver | ToGenerator nat

text \<open>A stream with its callback, and what its connection meets outside.\<close>

record conn =
  cn_stream :: stream
  cn_target :: notify_target
  cn_world :: world

text \<open>The server's callback is always the driver's.\<close>

record server =
  sv_socketD :: int
  sv_refcount :: int

record generator =
  gn_actionID :: int
  gn_actionIDStr :: "string option"
  gn_mmodel :: "mmodel option"
  gn_flowOptions :: "flow_options option"
  gn_streamOptions :: "stream_options option"
  gn_numGenerated :: u32
  gn_numCompleted :: u32
  gn_reachedEndState :: bool
  gn_hasError :: bool
  gn_target :: notify_target
  gn_notifyActionID :: int
  gn_socksProxy :: "peer option"
  gn_socksUsername :: "string option"
  gn_socksPassword :: "string option"
  gn_refcount :: int

text \<open>The traffic statistics of the driver; it has them twice, since the last heartbeat and in total.\<close>

record stats =
  stat_BytesRead :: u64
  stat_BytesWritten :: u64
  stat_StreamCreated :: u64
  stat_StreamSuccess :: u64
  stat_StreamError :: u64
  stat_FlowCreated :: u64
  stat_FlowSuccess :: u64
  stat_FlowError :: u64
  stat_TrafficCreated :: u64
  stat_TrafficSuccess :: u64
  stat_TrafficError :: u64

record driver =
  dr_startActionID :: int
  dr_startOptions :: start_options
  dr_startTimeMicros :: int
  dr_clientHasEnded :: bool
  dr_serverHasEnded :: bool
  dr_io :: bool \<comment> \<open>the pointer is not NULL\<close>
  dr_heartbeat :: stats
  dr_total :: stats
  dr_refcount :: int

section \<open>Outside\<close>

text \<open>What \<open>tgentransport_newActive\<close> meets: its socket calls, then what the connection reads and writes.\<close>

record dial =
  dl_sockets :: sockets
  dl_rd :: "rd list"
  dl_wr :: "wr list"

text \<open>A connection \<open>accept\<close> returns.\<close>

record accepted =
  ac_socketD :: int
  ac_ip :: u32
  ac_port :: u16
  ac_getsockname :: "(u32 \<times> u16) option"
  ac_rd :: "rd list"
  ac_wr :: "wr list"

text \<open>The calls of \<open>tgenserver_new\<close>: \<open>socket\<close>, then the success of each of the four after it.\<close>

record listening =
  li_socket :: int
  li_reuseaddr :: bool
  li_reuseport :: bool
  li_bind :: bool
  li_listen :: bool

record process = "(user_timer, io_object) tgenio" +
  p_driver :: "driver option"
  p_graph :: "tgraph option"
  p_generators :: "nat \<rightharpoonup> generator"
  p_conns :: "nat \<rightharpoonup> conn"
  p_servers :: "nat \<rightharpoonup> server"
  p_next :: nat \<comment> \<open>the next fresh address\<close>
  p_random :: "u32 list" \<comment> \<open>as \<open>a_random\<close>\<close>
  p_draws :: nat \<comment> \<open>calls of \<open>g_random_double_range\<close> so far\<close>
  p_streamCounter :: u64
  p_dials :: "dial list"
  p_accepts :: "(errno + accepted) list" \<comment> \<open>would block when used up\<close>
  p_log :: "string list" \<comment> \<open>the report lines and the heartbeats\<close>

text \<open>
  Parameters of the program: \<open>g_rand_int\<close> of a generator with a seed after a number of calls,
  \<open>g_random_double_range\<close> at its n-th call, the order of a hash table walk, and what streams use.
\<close>

record progenv =
  ev_stream :: streamenv
  ev_rand_int :: "u32 \<Rightarrow> nat \<Rightarrow> u32"
  ev_range :: "nat \<Rightarrow> gdouble \<Rightarrow> gdouble \<Rightarrow> gdouble"
  ev_order :: "(int \<rightharpoonup> nat) \<Rightarrow> int list"

section \<open>Calls\<close>

text \<open>The functions that are called through a pointer or in a cycle, and what they return.\<close>

datatype call =
    ObjNotify io_object int "tgen_event set"
  | ObjTimeout io_object int
  | ObjDestroy io_object
  | TimerExpired user_timer
  | TimerDestroy user_timer
  | NotifyCB notify_target int "notify_flag set"
  | ContinueNext int
  | ReleaseTarget notify_target
  | StartGenerator nat

datatype reply = Done | Flag bool | Response io_response

type_synonym runner = "call \<Rightarrow> process \<Rightarrow> (reply \<times> process) option"

definition run_unit :: "runner \<Rightarrow> call \<Rightarrow> process \<Rightarrow> process option" where
  "run_unit run c p = map_option snd (run c p)"

definition run_bool :: "runner \<Rightarrow> call \<Rightarrow> process \<Rightarrow> (bool \<times> process) option" where
  "run_bool run c p = do { (r, p') \<leftarrow> run c p; (case r of Flag b \<Rightarrow> Some (b, p') | _ \<Rightarrow> None) }"

definition run_response :: "runner \<Rightarrow> call \<Rightarrow> process \<Rightarrow> (io_response \<times> process) option" where
  "run_response run c p = do { (r, p') \<leftarrow> run c p; (case r of Response x \<Rightarrow> Some (x, p') | _ \<Rightarrow> None) }"

text \<open>The event loop's function pointers.\<close>

definition proc_handlers :: "progenv \<Rightarrow> runner \<Rightarrow> (user_timer, io_object, process) io_handlers" where
  "proc_handlers env run =
     \<lparr>hd_notify = (\<lambda>x d ev. run_response run (ObjNotify x d ev)),
      hd_timeout = (\<lambda>x d. run_bool run (ObjTimeout x d)),
      hd_destroy = (\<lambda>x. run_unit run (ObjDestroy x)),
      hd_timer = (\<lambda>u. run_bool run (TimerExpired u)),
      hd_timer_destroy = (\<lambda>u. run_unit run (TimerDestroy u)),
      hd_order = ev_order env\<rparr>"

section \<open>Access\<close>

definition upd_driver :: "(driver \<Rightarrow> driver) \<Rightarrow> process \<Rightarrow> process option" where
  "upd_driver f p = do { d \<leftarrow> p_driver p; Some (p\<lparr>p_driver := Some (f d)\<rparr>) }"

definition set_generator :: "nat \<Rightarrow> generator \<Rightarrow> process \<Rightarrow> process" where
  "set_generator a g p = p\<lparr>p_generators := (p_generators p)(a \<mapsto> g)\<rparr>"

definition upd_generator :: "nat \<Rightarrow> (generator \<Rightarrow> generator) \<Rightarrow> process \<Rightarrow> process option" where
  "upd_generator a f p = do { g \<leftarrow> p_generators p a; Some (set_generator a (f g) p) }"

definition set_conn :: "nat \<Rightarrow> conn \<Rightarrow> process \<Rightarrow> process" where
  "set_conn a c p = p\<lparr>p_conns := (p_conns p)(a \<mapsto> c)\<rparr>"

text \<open>\<open>g_random_int\<close>, and a random member of a pool, which draws only when there is a choice.\<close>

definition proc_random :: "process \<Rightarrow> u32 \<times> process" where
  "proc_random p = (case pop 0 (p_random p) of (r, q) \<Rightarrow> (r, p\<lparr>p_random := q\<rparr>))"

definition draw_from :: "'a pool \<Rightarrow> process \<Rightarrow> u32 \<times> process" where
  "draw_from pool p = (if pool_nnodes pool > 1 then proc_random p else (0, p))"

text \<open>\<open>g_rand_int\<close> on the generator at a position.\<close>

definition prng_next :: "progenv \<Rightarrow> nat \<Rightarrow> process \<Rightarrow> (u32 \<times> process) option" where
  "prng_next env i p =
     do {
       g \<leftarrow> p_graph p;
       g_assert (i < length (g_prngs g));
       let (seed, n) = g_prngs g ! i;
       Some (ev_rand_int env seed n, p\<lparr>p_graph := Some (g\<lparr>g_prngs := (g_prngs g)[i := (seed, n + 1)]\<rparr>)\<rparr>)
     }"

section \<open>Connections\<close>

text \<open>The clock, the random numbers and the stream counter belong to the process; a connection's world has them while it runs.\<close>

definition enter :: "process \<Rightarrow> world \<Rightarrow> world" where
  "enter p w = w\<lparr>w_clock := k_clock p, w_bytesCB := [],
     w_app := \<lparr>a_notes = [], a_log = [], a_random = p_random p, a_streamCounter = p_streamCounter p\<rparr>\<rparr>"

definition leave :: "world \<Rightarrow> process \<Rightarrow> process" where
  "leave w p = p\<lparr>k_clock := w_clock w, p_random := a_random (w_app w),
     p_streamCounter := a_streamCounter (w_app w), p_log := p_log p @ a_log (w_app w)\<rparr>"

definition fresh_world :: "rd list \<Rightarrow> wr list \<Rightarrow> process \<Rightarrow> world" where
  "fresh_world rd wr p = enter p
     \<lparr>w_rd = rd, w_wr = wr, w_in = [], w_out = [], w_clock = [], w_bytesCB = [],
      w_app = \<lparr>a_notes = [], a_log = [], a_random = [], a_streamCounter = 0\<rparr>\<rparr>"

end
