(* ===== verification/Connection.thy ===== *)
theory Connection
  imports Process
begin

text \<open>
  Streams inside the process: their creation over a transport, the event and timeout handlers with the
  callbacks into the driver or the generator, and their release. The bytes and notify callbacks a
  handler makes are delivered when it returns: the bytes callback only adds to the driver's counters,
  and a notification is the last thing a handler does to what the callback can see.
\<close>

section \<open>References\<close>

definition tgendriver_ref :: "process \<Rightarrow> process option" where
  "tgendriver_ref = upd_driver (\<lambda>d. d\<lparr>dr_refcount := dr_refcount d + 1\<rparr>)"

definition generator_ref :: "nat \<Rightarrow> process \<Rightarrow> process option" where
  "generator_ref a = upd_generator a (\<lambda>g. g\<lparr>gn_refcount := gn_refcount g + 1\<rparr>)"

definition ref_target :: "notify_target \<Rightarrow> process \<Rightarrow> process option" where
  "ref_target target = (case target of ToDriver \<Rightarrow> tgendriver_ref | ToGenerator a \<Rightarrow> generator_ref a)"

section \<open>Callbacks\<close>

definition add_bytes :: "u64 \<Rightarrow> u64 \<Rightarrow> stats \<Rightarrow> stats" where
  "add_bytes bytesRead bytesWritten st =
     st\<lparr>stat_BytesRead := stat_BytesRead st + bytesRead, stat_BytesWritten := stat_BytesWritten st + bytesWritten\<rparr>"

definition driver_onBytesTransferred :: "u64 \<Rightarrow> u64 \<Rightarrow> process \<Rightarrow> process option" where
  "driver_onBytesTransferred bytesRead bytesWritten =
     upd_driver (\<lambda>d. d\<lparr>dr_total := add_bytes bytesRead bytesWritten (dr_total d),
                       dr_heartbeat := add_bytes bytesRead bytesWritten (dr_heartbeat d)\<rparr>)"

fun deliver_bytes :: "(nat \<times> nat) list \<Rightarrow> process \<Rightarrow> process option" where
  "deliver_bytes [] p = Some p"
| "deliver_bytes ((r, w) # bs) p =
     do { p1 \<leftarrow> driver_onBytesTransferred (of_nat r) (of_nat w) p; deliver_bytes bs p1 }"

fun deliver_notes :: "runner \<Rightarrow> notify_target \<Rightarrow> (int \<times> notify_flag set) list \<Rightarrow> process \<Rightarrow> process option" where
  "deliver_notes run target [] p = Some p"
| "deliver_notes run target ((actionID, flags) # ns) p =
     do { p1 \<leftarrow> run_unit run (NotifyCB target actionID flags) p; deliver_notes run target ns p1 }"

section \<open>Handlers\<close>

text \<open>What a handler of the stream at \<open>a\<close> did: its new state and world, then its callbacks.\<close>

definition settle :: "runner \<Rightarrow> nat \<Rightarrow> stream \<Rightarrow> world \<Rightarrow> process \<Rightarrow> process option" where
  "settle run a s w p =
     do {
       c \<leftarrow> p_conns p a;
       p1 \<leftarrow> deliver_bytes (w_bytesCB w) (leave w (set_conn a (c\<lparr>cn_stream := s, cn_world := w\<rparr>) p));
       deliver_notes run (cn_target c) (a_notes (w_app w)) p1
     }"

definition conn_onEvent :: "progenv \<Rightarrow> runner \<Rightarrow> nat \<Rightarrow> tgen_event set \<Rightarrow> process \<Rightarrow> (io_response \<times> process) option" where
  "conn_onEvent env run a events p =
     do {
       c \<leftarrow> p_conns p a;
       (response, s, w) \<leftarrow> tgenstream_onEvent (ev_stream env) events (cn_stream c) (enter p (cn_world c));
       p1 \<leftarrow> settle run a s w p;
       Some (response, p1)
     }"

definition conn_onCheckTimeout :: "progenv \<Rightarrow> runner \<Rightarrow> nat \<Rightarrow> process \<Rightarrow> (bool \<times> process) option" where
  "conn_onCheckTimeout env run a p =
     do {
       c \<leftarrow> p_conns p a;
       (hasTimeout, s, w) \<leftarrow> tgenstream_onCheckTimeout (se_ml (ev_stream env)) (cn_stream c) (enter p (cn_world c));
       p1 \<leftarrow> settle run a s w p;
       Some (hasTimeout, p1)
     }"

section \<open>Release\<close>

text \<open>Dropping a reference to a transport; the last one closes the socket and releases the driver.\<close>

definition transport_release :: "runner \<Rightarrow> transport \<Rightarrow> process \<Rightarrow> process option" where
  "transport_release run t p =
     (case tgentransport_unref t of
        Some _ \<Rightarrow> Some p
      | None \<Rightarrow>
          (let p1 = (if Close \<in> set (tgentransport_free t) then kern_close (xp_socketD t) p else p)
           in if xp_bytesCB t then run_unit run (ReleaseTarget ToDriver) p1 else Some p1))"

definition conn_unref :: "runner \<Rightarrow> nat \<Rightarrow> process \<Rightarrow> process option" where
  "conn_unref run a p =
     do {
       c \<leftarrow> p_conns p a;
       (case tgenstream_unref (cn_stream c) of
          Some s \<Rightarrow> Some (set_conn a (c\<lparr>cn_stream := s\<rparr>) p)
        | None \<Rightarrow>
            do {
              p1 \<leftarrow> run_unit run (ReleaseTarget (cn_target c)) p;
              p2 \<leftarrow> (case st_transport (cn_stream c) of None \<Rightarrow> Some p1 | Some t \<Rightarrow> transport_release run t p1);
              Some (p2\<lparr>p_conns := (p_conns p2)(a := None)\<rparr>)
            })
     }"

section \<open>Creation\<close>

text \<open>
  \<open>tgenstream_new\<close> over a transport: the new stream's address, after it took its reference to the
  target and told it of its creation. \<open>w\<close> is the world in which the transport was made.
\<close>

definition conn_new :: "progenv \<Rightarrow> runner \<Rightarrow> string option \<Rightarrow> stream_options \<Rightarrow> mmodel option \<Rightarrow> transport \<Rightarrow>
    notify_target \<Rightarrow> world \<Rightarrow> process \<Rightarrow> (nat \<times> process) option" where
  "conn_new env run idStr options mmodel transport target w p =
     do {
       (s, w1) \<leftarrow> tgenstream_new (ev_stream env) idStr (Some options) mmodel (Some transport)
                   \<lparr>nc_func = True, nc_actionID = - 1\<rparr> w;
       let a = p_next p;
       let p1 = set_conn a \<lparr>cn_stream = s, cn_target = target, cn_world = w1\<rparr> ((leave w1 p)\<lparr>p_next := a + 1\<rparr>);
       p2 \<leftarrow> ref_target target p1;
       p3 \<leftarrow> deliver_notes run target (a_notes (w_app w1)) p2;
       Some (a, p3)
     }"

text \<open>The event loop takes the stream; the result of the registration is not looked at.\<close>

definition register_conn :: "progenv \<Rightarrow> runner \<Rightarrow> int \<Rightarrow> nat \<Rightarrow> process \<Rightarrow> process option" where
  "register_conn env run descriptor a p =
     map_option snd (tgenio_register (proc_handlers env run) descriptor True (DUser (StreamObj a)) p)"

text \<open>The creator's own references to the transport and to the model, which the stream holds as well.\<close>

definition creator_unref_transport :: "nat \<Rightarrow> process \<Rightarrow> process option" where
  "creator_unref_transport a p =
     do {
       c \<leftarrow> p_conns p a;
       t \<leftarrow> st_transport (cn_stream c);
       t' \<leftarrow> tgentransport_unref t;
       Some (set_conn a (c\<lparr>cn_stream := (cn_stream c)\<lparr>st_transport := Some t'\<rparr>\<rparr>) p)
     }"

definition creator_unref_model :: "nat \<Rightarrow> process \<Rightarrow> process option" where
  "creator_unref_model a p =
     do {
       c \<leftarrow> p_conns p a;
       mm \<leftarrow> st_mmodel (cn_stream c);
       mm' \<leftarrow> tgenmarkovmodel_unref mm;
       Some (set_conn a (c\<lparr>cn_stream := (cn_stream c)\<lparr>st_mmodel := Some mm'\<rparr>\<rparr>) p)
     }"

section \<open>Timers\<close>

text \<open>A timer of the process, registered with the event loop, which takes the reference to it.\<close>

definition new_user_timer :: "u64 \<Rightarrow> bool \<Rightarrow> user_timer \<Rightarrow> process \<Rightarrow> nat option \<times> process" where
  "new_user_timer micros isPersistent u p =
     (case tgentimer_new micros isPersistent (Some (UserTimer u)) p of
        (None, p1) \<Rightarrow> (None, p1)
      | (Some ti, p1) \<Rightarrow>
          (let t = heap_next p1 in (Some t, p1\<lparr>heap_next := t + 1, heap_timer := (heap_timer p1)(t \<mapsto> ti)\<rparr>)))"

definition register_timer :: "progenv \<Rightarrow> runner \<Rightarrow> nat \<Rightarrow> process \<Rightarrow> process option" where
  "register_timer env run t p =
     do {
       ti \<leftarrow> heap_timer p t;
       (_, p1) \<leftarrow> tgenio_register (proc_handlers env run) (tgentimer_getDescriptor ti) False (DTimer t) p;
       Some p1
     }"

end
