(* ===== verification/Server.thy ===== *)
theory Server
  imports Connection
begin

text \<open>
  \<open>tgen-server.c\<close>: the listening socket. \<open>notify\<close> is the owner's callback for an accepted connection:
  the connection, the times before and after, the peer. The kernel's answers to \<open>accept\<close> are the queue
  \<open>p_accepts\<close>; \<open>fcntl\<close> failures are only logged and leave no trace in the state.
\<close>

type_synonym new_peer_func = "accepted \<Rightarrow> int \<Rightarrow> int \<Rightarrow> peer \<Rightarrow> process \<Rightarrow> process option"

text \<open>Accepting one answer \<open>r\<close> of the kernel; the result is the descriptor or -1.\<close>

definition acceptPeer :: "resolver \<Rightarrow> new_peer_func \<Rightarrow> errno + accepted \<Rightarrow> process \<Rightarrow> (int \<times> process) option" where
  "acceptPeer db notify r p =
     (case kern_time p of (started, p1) \<Rightarrow>
        (case r of
           Inl e \<Rightarrow> Some (- 1, p1)
         | Inr ac \<Rightarrow>
             (if ac_socketD ac < 0 then Some (ac_socketD ac, p1)
              else case kern_time p1 of (created, p2) \<Rightarrow>
                do {
                  let peer = tgenpeer_performLookups db (tgenpeer_newFromIP (ac_ip ac) (ac_port ac));
                  p3 \<leftarrow> notify ac started created peer p2;
                  Some (ac_socketD ac, p3)
                })))"

text \<open>The loop ends at the first error of any kind; when the answers are used up \<open>accept\<close> would block.\<close>

fun accept_loop :: "resolver \<Rightarrow> new_peer_func \<Rightarrow> (errno + accepted) list \<Rightarrow> process \<Rightarrow> process option" where
  "accept_loop db notify [] p =
     do { (result, p1) \<leftarrow> acceptPeer db notify (Inl EWOULDBLOCK) (p\<lparr>p_accepts := []\<rparr>); Some p1 }"
| "accept_loop db notify (r # rs) p =
     do {
       (result, p1) \<leftarrow> acceptPeer db notify r (p\<lparr>p_accepts := rs\<rparr>);
       (if result < 0 then Some p1 else accept_loop db notify rs p1)
     }"

definition tgenserver_onEvent :: "resolver \<Rightarrow> new_peer_func \<Rightarrow> nat \<Rightarrow> int \<Rightarrow> tgen_event set \<Rightarrow> process \<Rightarrow>
    (io_response \<times> process) option" where
  "tgenserver_onEvent db notify a descriptor events p =
     do {
       sv \<leftarrow> p_servers p a;
       g_assert (EV_READ \<in> events \<and> descriptor = sv_socketD sv);
       p1 \<leftarrow> accept_loop db notify (p_accepts p) p;
       Some (\<lparr>ir_events = {EV_READ}, ir_deferUntilUSec = 0\<rparr>, p1)
     }"

text \<open>
  The result is the server or NULL; a failed call closes the socket. The address given to \<open>bind\<close>
  (\<open>TGENIP\<close> or any, and the port) only decides what the kernel answers.
\<close>

definition tgenserver_new :: "listening \<Rightarrow> process \<Rightarrow> server option \<times> process" where
  "tgenserver_new li p =
     (if li_socket li \<le> 0 then (None, p)
      else if \<not> li_reuseaddr li \<or> \<not> li_reuseport li \<or> \<not> li_bind li \<or> \<not> li_listen li
      then (None, kern_close (li_socket li) p)
      else (Some \<lparr>sv_socketD = li_socket li, sv_refcount = 1\<rparr>, p))"

definition tgenserver_ref :: "server \<Rightarrow> server" where
  "tgenserver_ref sv = sv\<lparr>sv_refcount := sv_refcount sv + 1\<rparr>"

text \<open>Freeing closes the socket and releases the driver.\<close>

definition server_free :: "runner \<Rightarrow> server \<Rightarrow> process \<Rightarrow> process option" where
  "server_free run sv p =
     do {
       g_assert (sv_refcount sv = 0);
       run_unit run (ReleaseTarget ToDriver) (if sv_socketD sv > 0 then kern_close (sv_socketD sv) p else p)
     }"

definition tgenserver_unref :: "runner \<Rightarrow> nat \<Rightarrow> process \<Rightarrow> process option" where
  "tgenserver_unref run a p =
     do {
       sv \<leftarrow> p_servers p a;
       let sv1 = sv\<lparr>sv_refcount := sv_refcount sv - 1\<rparr>;
       (if sv_refcount sv1 \<le> 0
        then do { p1 \<leftarrow> server_free run sv1 p; Some (p1\<lparr>p_servers := (p_servers p1)(a := None)\<rparr>) }
        else Some (p\<lparr>p_servers := (p_servers p)(a \<mapsto> sv1)\<rparr>))
     }"

definition tgenserver_getDescriptor :: "server \<Rightarrow> int" where
  "tgenserver_getDescriptor sv = sv_socketD sv"

end
