(* ===== verification/Generator.thy ===== *)
theory Generator
  imports Connection
begin

text \<open>
  \<open>tgen-generator.c\<close>: a generator creates streams (a flow), or flows (a traffic action), one after the
  other with the delays of a Markov model, or a single stream; it counts what it made and what has
  completed, tells its target, and drops its own reference when all is done.
\<close>

section \<open>Release\<close>

definition generator_free :: "progenv \<Rightarrow> runner \<Rightarrow> generator \<Rightarrow> process \<Rightarrow> process option" where
  "generator_free env run g p =
     do {
       g_assert (gn_refcount g = 0);
       p1 \<leftarrow> tgenio_unref (proc_handlers env run) p;
       p2 \<leftarrow> run_unit run (ReleaseTarget ToDriver) p1;
       run_unit run (ReleaseTarget (gn_target g)) p2
     }"

definition generator_unref :: "progenv \<Rightarrow> runner \<Rightarrow> nat \<Rightarrow> process \<Rightarrow> process option" where
  "generator_unref env run a p =
     do {
       g \<leftarrow> p_generators p a;
       let g1 = g\<lparr>gn_refcount := gn_refcount g - 1\<rparr>;
       (if gn_refcount g1 = 0
        then do { p1 \<leftarrow> generator_free env run g1 (set_generator a g1 p);
                  Some (p1\<lparr>p_generators := (p_generators p1)(a := None)\<rparr>) }
        else Some (set_generator a g1 p))
     }"

section \<open>Models and credentials\<close>

text \<open>A member of a pool of random generators gives the next number.\<close>

definition pool_seed :: "progenv \<Rightarrow> nat pool option topt \<Rightarrow> process \<Rightarrow> (nat \<times> process) option" where
  "pool_seed env opt p =
     do {
       pool \<leftarrow> opt_value opt;
       let (r, p1) = draw_from pool p;
       i \<leftarrow> tgenpool_getRandom r pool;
       Some (i, p1)
     }"

definition createMarkovModel :: "progenv \<Rightarrow> nat pool option topt \<Rightarrow> string topt \<Rightarrow> string \<Rightarrow> string \<Rightarrow> process \<Rightarrow>
    (mmodel option \<times> process) option" where
  "createMarkovModel env seedGeneratorOpt modelPathOpt internalGraphml internalName p =
     do {
       (seed, p1) \<leftarrow>
         (if isSet seedGeneratorOpt
          then do { (i, p') \<leftarrow> pool_seed env seedGeneratorOpt p; prng_next env i p' }
          else Some (proc_random p));
       let sys = se_sys (ev_stream env);
       mm \<leftarrow> (if isSet modelPathOpt
               then tgenmarkovmodel_newFromPath sys (Some (basename (opt_value modelPathOpt))) seed (Some (opt_value modelPathOpt))
               else tgenmarkovmodel_newFromString sys (Some internalName) seed (Some internalGraphml));
       Some (mm, p1)
     }"

definition auth_charset :: string where
  "auth_charset = ''abcdefghijklmnopqrstuvwxyzABCDEFGHIJKLMNOPQRSTUVWXYZ0123456789@#&?!''"

fun random_chars :: "progenv \<Rightarrow> nat \<Rightarrow> nat \<Rightarrow> process \<Rightarrow> (string \<times> process) option" where
  "random_chars env i 0 p = Some ([], p)"
| "random_chars env i (Suc n) p =
     do {
       (r, p1) \<leftarrow> prng_next env i p;
       (s, p2) \<leftarrow> random_chars env i n p1;
       Some (auth_charset ! (unat r mod length auth_charset) # s, p2)
     }"

text \<open>Random credentials are the same string twice; without a random generator the options are taken.\<close>

definition initSocksAuthStrings :: "progenv \<Rightarrow> generator \<Rightarrow> process \<Rightarrow> (generator \<times> process) option" where
  "initSocksAuthStrings env g p =
     (case gn_streamOptions g of
        None \<Rightarrow> Some (g, p)
      | Some op \<Rightarrow>
          do {
            (g1, p1) \<leftarrow>
              (if isSet (op_socksAuthGenerator op)
               then do {
                 (i, p') \<leftarrow> pool_seed env (op_socksAuthGenerator op) p;
                 (randomStr, p'') \<leftarrow> random_chars env i 7 p';
                 Some (g\<lparr>gn_socksUsername := Some randomStr, gn_socksPassword := Some randomStr\<rparr>, p'')
               }
               else Some (g\<lparr>gn_socksUsername := (if isSet (op_socksUsername op) then Some (opt_value (op_socksUsername op)) else None),
                            gn_socksPassword := (if isSet (op_socksPassword op) then Some (opt_value (op_socksPassword op)) else None)\<rparr>, p));
            (if isSet (op_socksProxies op)
             then do {
               pool \<leftarrow> opt_value (op_socksProxies op);
               let (r, p2) = draw_from pool p1;
               Some (g1\<lparr>gn_socksProxy := map_option tgenpeer_ref (tgenpool_getRandom r pool)\<rparr>, p2)
             }
             else Some (g1, p1))
          })"

section \<open>Creation\<close>

definition generator_zero :: generator where
  "generator_zero =
     \<lparr>gn_actionID = 0, gn_actionIDStr = None, gn_mmodel = None, gn_flowOptions = None, gn_streamOptions = None,
      gn_numGenerated = 0, gn_numCompleted = 0, gn_reachedEndState = False, gn_hasError = False,
      gn_target = ToDriver, gn_notifyActionID = 0, gn_socksProxy = None, gn_socksUsername = None,
      gn_socksPassword = None, gn_refcount = 0\<rparr>"

text \<open>The mode: traffic options make a generator of flows, flow options one of streams, otherwise it makes one stream.\<close>

definition choose_mode :: "progenv \<Rightarrow> traffic_options option \<Rightarrow> flow_options option \<Rightarrow> stream_options option \<Rightarrow>
    generator \<Rightarrow> process \<Rightarrow> (generator \<times> process) option" where
  "choose_mode env trafficOptions flowOptions streamOptions g p =
     (case trafficOptions of
        Some tr \<Rightarrow>
          do {
            (mm, p1) \<leftarrow> createMarkovModel env (op_seedGenerator (fo_streamOpts (to_flowOpts tr))) (to_flowModelPath tr)
              tgenconfig_getDefaultFlowMarkovModelString tgenconfig_getDefaultFlowMarkovModelName p;
            Some (g\<lparr>gn_mmodel := mm, gn_flowOptions := flowOptions, gn_streamOptions := None\<rparr>, p1)
          }
      | None \<Rightarrow>
          (case flowOptions of
             Some fl \<Rightarrow>
               do {
                 (mm, p1) \<leftarrow> createMarkovModel env (op_seedGenerator (fo_streamOpts fl)) (fo_streamModelPath fl)
                   tgenconfig_getDefaultStreamMarkovModelString tgenconfig_getDefaultStreamMarkovModelName p;
                 Some (g\<lparr>gn_mmodel := mm, gn_streamOptions := streamOptions\<rparr>, p1)
               }
           | None \<Rightarrow>
               (case streamOptions of
                  Some op \<Rightarrow> Some (g\<lparr>gn_mmodel := None, gn_streamOptions := Some op\<rparr>, p)
                | None \<Rightarrow> None)))"

text \<open>The new generator's address; it holds references to the event loop, to the driver (for bytes) and to its target.\<close>

definition tgengenerator_new :: "progenv \<Rightarrow> runner \<Rightarrow> traffic_options option \<Rightarrow> flow_options option \<Rightarrow>
    stream_options option \<Rightarrow> int \<Rightarrow> string option \<Rightarrow> notify_target \<Rightarrow> int \<Rightarrow> process \<Rightarrow> (nat \<times> process) option" where
  "tgengenerator_new env run trafficOptions flowOptions streamOptions actionID actionIDStr target notifyActionID p =
     do {
       let g0 = generator_zero\<lparr>gn_refcount := 1, gn_actionID := actionID, gn_actionIDStr := actionIDStr\<rparr>;
       (g1, p1) \<leftarrow> choose_mode env trafficOptions flowOptions streamOptions g0 p;
       p2 \<leftarrow> tgendriver_ref (tgenio_ref p1);
       p3 \<leftarrow> ref_target target p2;
       (g2, p4) \<leftarrow> initSocksAuthStrings env (g1\<lparr>gn_target := target, gn_notifyActionID := notifyActionID\<rparr>) p3;
       let a = p_next p4;
       let p5 = set_generator a g2 (p4\<lparr>p_next := a + 1\<rparr>);
       p6 \<leftarrow> run_unit run (NotifyCB target (- 1) (if gn_flowOptions g2 \<noteq> None then {TRAFFIC_CREATED} else {FLOW_CREATED})) p5;
       Some (a, p6)
     }"

section \<open>Notifications\<close>

definition generator_done :: "generator \<Rightarrow> bool" where
  "generator_done g \<longleftrightarrow> (gn_hasError g \<or> gn_reachedEndState g) \<and> gn_numCompleted g \<ge> gn_numGenerated g"

definition complete_flags :: "generator \<Rightarrow> notify_flag set" where
  "complete_flags g =
     (if gn_flowOptions g \<noteq> None
      then (if gn_hasError g then {TRAFFIC_COMPLETE} else {TRAFFIC_COMPLETE, TRAFFIC_SUCCESS})
      else (if gn_hasError g then {FLOW_COMPLETE} else {FLOW_COMPLETE, FLOW_SUCCESS}))"

definition onCompleteHelper :: "progenv \<Rightarrow> runner \<Rightarrow> nat \<Rightarrow> notify_flag set \<Rightarrow> process \<Rightarrow> process option" where
  "onCompleteHelper env run a flags p =
     do {
       g \<leftarrow> p_generators p a;
       (if generator_done g
        then do {
          p1 \<leftarrow> run_unit run (NotifyCB (gn_target g) (gn_notifyActionID g) (flags \<union> complete_flags g)) p;
          generator_unref env run a p1
        }
        else if flags \<noteq> {} then run_unit run (NotifyCB (gn_target g) (- 1) flags) p
        else Some p)
     }"

text \<open>A generator of flows counts completed flows, a generator of streams completed streams.\<close>

definition counts_completion :: "generator \<Rightarrow> notify_flag set \<Rightarrow> bool" where
  "counts_completion g flags \<longleftrightarrow>
     (gn_flowOptions g \<noteq> None \<and> FLOW_COMPLETE \<in> flags) \<or> (gn_streamOptions g \<noteq> None \<and> STREAM_COMPLETE \<in> flags)"

definition generator_onNotify :: "progenv \<Rightarrow> runner \<Rightarrow> nat \<Rightarrow> notify_flag set \<Rightarrow> process \<Rightarrow> process option" where
  "generator_onNotify env run a flags p =
     do {
       g \<leftarrow> p_generators p a;
       (if flags \<inter> {STREAM_CREATED, FLOW_CREATED, TRAFFIC_CREATED} \<noteq> {}
        then run_unit run (NotifyCB (gn_target g) (- 1) flags) p
        else
          (let p1 = (if counts_completion g flags
                     then set_generator a (g\<lparr>gn_numCompleted := gn_numCompleted g + 1\<rparr>) p else p)
           in onCompleteHelper env run a flags p1))
     }"

section \<open>Generating\<close>

definition count_generated :: "nat \<Rightarrow> process \<Rightarrow> process option" where
  "count_generated a = upd_generator a (\<lambda>g. g\<lparr>gn_numGenerated := gn_numGenerated g + 1\<rparr>)"

text \<open>The child flow reports to this generator; it frees itself when it is done.\<close>

definition createFlow :: "progenv \<Rightarrow> runner \<Rightarrow> nat \<Rightarrow> process \<Rightarrow> (bool \<times> process) option" where
  "createFlow env run a p =
     do {
       g \<leftarrow> p_generators p a;
       fl \<leftarrow> gn_flowOptions g;
       g_assert (gn_streamOptions g = None);
       (flow, p1) \<leftarrow> tgengenerator_new env run None (Some fl) (Some (fo_streamOpts fl)) (- 1) (gn_actionIDStr g) (ToGenerator a) (- 1) p;
       p2 \<leftarrow> count_generated a p1;
       p3 \<leftarrow> run_unit run (StartGenerator flow) p2;
       Some (True, p3)
     }"

text \<open>When no transport can be made the packet model is not released.\<close>

definition createStream :: "progenv \<Rightarrow> runner \<Rightarrow> nat \<Rightarrow> process \<Rightarrow> (bool \<times> process) option" where
  "createStream env run a p =
     do {
       g \<leftarrow> p_generators p a;
       op \<leftarrow> gn_streamOptions g;
       g_assert (gn_flowOptions g = None);
       (packetModel, p1) \<leftarrow> createMarkovModel env (op_seedGenerator op) (op_packetModelPath op)
          tgenconfig_getDefaultPacketMarkovModelString tgenconfig_getDefaultPacketMarkovModelName p;
       let (dl, dials) = pop \<lparr>dl_sockets = \<lparr>so_socket = - 1, so_bind_ok = False, so_connect = None, so_getsockname = None,
             so_TGENIP = None, so_TGENSOCKS = None\<rparr>, dl_rd = [], dl_wr = []\<rparr> (p_dials p1);
       let (rand, p2) = (case if isSet (op_peers op) then opt_value (op_peers op) else None of
             Some pool \<Rightarrow> draw_from pool p1 | None \<Rightarrow> (0, p1));
       (case tgentransport_newActive (se_db (ev_stream env)) (dl_sockets dl) rand (op_peers op) True (gn_socksProxy g)
               (gn_socksUsername g) (gn_socksPassword g) (fresh_world (dl_rd dl) (dl_wr dl) p2) of
          (transport, calls, w) \<Rightarrow>
            let p3 = (leave w p2)\<lparr>p_dials := dials\<rparr>;
                p4 = (if Close \<in> set calls then kern_close (so_socket (dl_sockets dl)) p3 else p3)
            in case transport of
                 None \<Rightarrow> Some (False, p4)
               | Some t \<Rightarrow>
                   do {
                     p5 \<leftarrow> tgendriver_ref p4;
                     (c, p6) \<leftarrow> conn_new env run (gn_actionIDStr g) op packetModel t (ToGenerator a) w p5;
                     p7 \<leftarrow> creator_unref_model c p6;
                     p8 \<leftarrow> register_conn env run (tgentransport_getDescriptor t) c p7;
                     p9 \<leftarrow> creator_unref_transport c p8;
                     p10 \<leftarrow> count_generated a p9;
                     Some (True, p10)
                   })
     }"

definition generator_setTimer :: "progenv \<Rightarrow> runner \<Rightarrow> nat \<Rightarrow> u64 \<Rightarrow> process \<Rightarrow> (bool \<times> process) option" where
  "generator_setTimer env run a delayTimeUSec p =
     (case new_user_timer delayTimeUSec False (GeneratorTimer a) p of
        (None, p1) \<Rightarrow> Some (False, p1)
      | (Some t, p1) \<Rightarrow>
          do { p2 \<leftarrow> generator_ref a p1; p3 \<leftarrow> register_timer env run t p2; Some (True, p3) })"

text \<open>One observation: a child and a timer for the next, or the end.\<close>

definition generateNext :: "progenv \<Rightarrow> runner \<Rightarrow> nat \<Rightarrow> process \<Rightarrow> process option" where
  "generateNext env run a p =
     do {
       g \<leftarrow> p_generators p a;
       g_assert (\<not> gn_reachedEndState g);
       mm \<leftarrow> gn_mmodel g;
       (obs, delayOpt, mm1) \<leftarrow> tgenmarkovmodel_getNextObservation (se_ml (ev_stream env)) mm;
       let delay = (case delayOpt of Some d \<Rightarrow> d | None \<Rightarrow> 0);
       let p1 = set_generator a (g\<lparr>gn_mmodel := Some mm1\<rparr>) p;
       (if obs = OBSERVATION_TO_ORIGIN \<or> obs = OBSERVATION_TO_SERVER
        then do {
          (success, p2) \<leftarrow> (if gn_flowOptions g \<noteq> None then createFlow env run a p1 else createStream env run a p1);
          (timer_set, p3) \<leftarrow> generator_setTimer env run a delay p2;
          (if timer_set then Some p3
           else do {
             p4 \<leftarrow> upd_generator a (\<lambda>g. g\<lparr>gn_hasError := True\<rparr>) p3;
             onCompleteHelper env run a {} p4
           })
        }
        else do {
          p2 \<leftarrow> upd_generator a (\<lambda>g. g\<lparr>gn_reachedEndState := True\<rparr>) p1;
          onCompleteHelper env run a {} p2
        })
     }"

definition generator_onTimerExpired :: "progenv \<Rightarrow> runner \<Rightarrow> nat \<Rightarrow> process \<Rightarrow> (bool \<times> process) option" where
  "generator_onTimerExpired env run a p = do { p1 \<leftarrow> generateNext env run a p; Some (True, p1) }"

definition tgengenerator_start :: "progenv \<Rightarrow> runner \<Rightarrow> nat \<Rightarrow> process \<Rightarrow> process option" where
  "tgengenerator_start env run a p =
     do {
       g \<leftarrow> p_generators p a;
       (if gn_mmodel g \<noteq> None then generateNext env run a p
        else do {
          (success, p1) \<leftarrow> createStream env run a p;
          (if success then upd_generator a (\<lambda>g. g\<lparr>gn_reachedEndState := True\<rparr>) p1
           else do {
             p2 \<leftarrow> upd_generator a (\<lambda>g. g\<lparr>gn_hasError := True\<rparr>) p1;
             onCompleteHelper env run a {} p2
           })
        })
     }"

end
