(* ===== verification/Driver.thy ===== *)
theory Driver
  imports Server Generator
begin

text \<open>
  \<open>tgen-driver.c\<close>: the walk over the action graph, the traffic statistics, the end conditions, the
  timers and the server of the process; and \<open>exec\<close>, which closes the cycle of calls.
\<close>

section \<open>Statistics\<close>

definition stats_zero :: stats where
  "stats_zero = \<lparr>stat_BytesRead = 0, stat_BytesWritten = 0, stat_StreamCreated = 0, stat_StreamSuccess = 0,
     stat_StreamError = 0, stat_FlowCreated = 0, stat_FlowSuccess = 0, stat_FlowError = 0,
     stat_TrafficCreated = 0, stat_TrafficSuccess = 0, stat_TrafficError = 0\<rparr>"

definition incr :: "bool \<Rightarrow> u64 \<Rightarrow> u64" where
  "incr b n = (if b then n + 1 else n)"

definition count_flags :: "notify_flag set \<Rightarrow> stats \<Rightarrow> stats" where
  "count_flags fl st =
     st\<lparr>stat_StreamCreated := incr (STREAM_CREATED \<in> fl) (stat_StreamCreated st),
        stat_FlowCreated := incr (FLOW_CREATED \<in> fl) (stat_FlowCreated st),
        stat_TrafficCreated := incr (TRAFFIC_CREATED \<in> fl) (stat_TrafficCreated st),
        stat_StreamSuccess := incr (STREAM_COMPLETE \<in> fl \<and> STREAM_SUCCESS \<in> fl) (stat_StreamSuccess st),
        stat_StreamError := incr (STREAM_COMPLETE \<in> fl \<and> STREAM_SUCCESS \<notin> fl) (stat_StreamError st),
        stat_FlowSuccess := incr (FLOW_COMPLETE \<in> fl \<and> FLOW_SUCCESS \<in> fl) (stat_FlowSuccess st),
        stat_FlowError := incr (FLOW_COMPLETE \<in> fl \<and> FLOW_SUCCESS \<notin> fl) (stat_FlowError st),
        stat_TrafficSuccess := incr (TRAFFIC_COMPLETE \<in> fl \<and> TRAFFIC_SUCCESS \<in> fl) (stat_TrafficSuccess st),
        stat_TrafficError := incr (TRAFFIC_COMPLETE \<in> fl \<and> TRAFFIC_SUCCESS \<notin> fl) (stat_TrafficError st)\<rparr>"

text \<open>An action that was started by the walk has a vertex as its id, anything else -1.\<close>

definition driver_onNotify :: "runner \<Rightarrow> int \<Rightarrow> notify_flag set \<Rightarrow> process \<Rightarrow> process option" where
  "driver_onNotify run actionID flags p =
     do {
       p1 \<leftarrow> upd_driver (\<lambda>d. d\<lparr>dr_heartbeat := count_flags flags (dr_heartbeat d), dr_total := count_flags flags (dr_total d)\<rparr>) p;
       (if flags \<inter> {STREAM_COMPLETE, FLOW_COMPLETE, TRAFFIC_COMPLETE} \<noteq> {} \<and> actionID \<ge> 0
        then run_unit run (ContinueNext actionID) p1 else Some p1)
     }"

text \<open>A counter is printed only when it is positive.\<close>

definition show_count :: "string \<Rightarrow> u64 \<Rightarrow> string" where
  "show_count name n = (if n > 0 then '','' @ name @ ''='' @ show_u64 n else [])"

definition heartbeat_message :: "driver \<Rightarrow> string" where
  "heartbeat_message d =
     (let h = dr_heartbeat d; t = dr_total d
      in ''[driver-heartbeat] [bytes-read='' @ show_u64 (stat_BytesRead h) @ '',bytes-written='' @ show_u64 (stat_BytesWritten h) @
         show_count ''streams-created'' (stat_StreamCreated h) @
         show_count ''streams-succeeded'' (stat_StreamSuccess h) @
         show_count ''streams-failed'' (stat_StreamError h) @
         show_count ''flows-created'' (stat_FlowCreated h) @
         show_count ''flows-succeeded'' (stat_FlowSuccess h) @
         show_count ''flows-failed'' (stat_FlowError h) @
         show_count ''traffics-created'' (stat_TrafficCreated h) @
         show_count ''traffics-succeeded'' (stat_TrafficSuccess h) @
         show_count ''traffics-failed'' (stat_TrafficError h) @
         show_count ''total-streams-created'' (stat_StreamCreated t) @
         show_count ''total-streams-succeeded'' (stat_StreamSuccess t) @
         show_count ''total-streams-failed'' (stat_StreamError t) @
         show_count ''total-streams-pending'' (stat_StreamCreated t - stat_StreamSuccess t - stat_StreamError t) @
         show_count ''total-flows-created'' (stat_FlowCreated t) @
         show_count ''total-flows-succeeded'' (stat_FlowSuccess t) @
         show_count ''total-flows-failed'' (stat_FlowError t) @
         show_count ''total-flows-pending'' (stat_FlowCreated t - stat_FlowSuccess t - stat_FlowError t) @
         show_count ''total-traffics-created'' (stat_TrafficCreated t) @
         show_count ''total-traffics-succeeded'' (stat_TrafficSuccess t) @
         show_count ''total-traffics-failed'' (stat_TrafficError t) @
         show_count ''total-traffics-pending'' (stat_TrafficCreated t - stat_TrafficSuccess t - stat_TrafficError t) @
         '']'')"

text \<open>The timeouts of the streams are checked first; the timer is never cancelled.\<close>

definition driver_onHeartbeat :: "progenv \<Rightarrow> runner \<Rightarrow> process \<Rightarrow> (bool \<times> process) option" where
  "driver_onHeartbeat env run p =
     do {
       d0 \<leftarrow> p_driver p;
       g_assert (dr_io d0);
       p1 \<leftarrow> tgenio_checkTimeouts (proc_handlers env run) p;
       d \<leftarrow> p_driver p1;
       let p2 = p1\<lparr>p_log := p_log p1 @ [heartbeat_message d]\<rparr>;
       p3 \<leftarrow> upd_driver (\<lambda>d. d\<lparr>dr_heartbeat := stats_zero\<rparr>) p2;
       Some (False, p3)
     }"

section \<open>References\<close>

definition driver_free :: "progenv \<Rightarrow> runner \<Rightarrow> process \<Rightarrow> process option" where
  "driver_free env run p =
     do {
       d \<leftarrow> p_driver p;
       g_assert (dr_refcount d \<le> 0);
       p1 \<leftarrow> (if dr_io d then tgenio_unref (proc_handlers env run) p else Some p);
       g \<leftarrow> p_graph p1;
       Some (p1\<lparr>p_graph := tgengraph_unref g, p_driver := None\<rparr>)
     }"

definition tgendriver_unref :: "progenv \<Rightarrow> runner \<Rightarrow> process \<Rightarrow> process option" where
  "tgendriver_unref env run p =
     do {
       p1 \<leftarrow> upd_driver (\<lambda>d. d\<lparr>dr_refcount := dr_refcount d - 1\<rparr>) p;
       d \<leftarrow> p_driver p1;
       (if dr_refcount d \<le> 0 then driver_free env run p1 else Some p1)
     }"

section \<open>Incoming connections\<close>

text \<open>A passive stream has the default options of the start action and no model.\<close>

definition driver_onNewPeer :: "progenv \<Rightarrow> runner \<Rightarrow> accepted \<Rightarrow> int \<Rightarrow> int \<Rightarrow> peer \<Rightarrow> process \<Rightarrow> process option" where
  "driver_onNewPeer env run ac started created peer p =
     do {
       d \<leftarrow> p_driver p;
       (if dr_serverHasEnded d then Some (kern_close (ac_socketD ac) p)
        else do {
          let so = \<lparr>so_socket = ac_socketD ac, so_bind_ok = True, so_connect = None, so_getsockname = ac_getsockname ac,
                    so_TGENIP = None, so_TGENSOCKS = None\<rparr>;
          let transport = tgentransport_newPassive so (ac_socketD ac) started created (Some peer) True;
          let options = fo_streamOpts (to_flowOpts (so_defaultTrafficOpts (dr_startOptions d)));
          p1 \<leftarrow> tgendriver_ref p;
          (c, p2) \<leftarrow> conn_new env run (Some ''passive-stream'') options None transport ToDriver (fresh_world (ac_rd ac) (ac_wr ac) p1) p1;
          g_assert (dr_io d);
          p3 \<leftarrow> register_conn env run (tgentransport_getDescriptor transport) c p2;
          creator_unref_transport c p3
        })
     }"

section \<open>Actions\<close>

text \<open>\<open>tgengenerator_new\<close> never returns NULL, so a generator is always started.\<close>

definition startGenerator :: "progenv \<Rightarrow> runner \<Rightarrow> nat \<Rightarrow> traffic_options option \<Rightarrow> flow_options option \<Rightarrow>
    stream_options option \<Rightarrow> process \<Rightarrow> process option" where
  "startGenerator env run actionID trafficOpts flowOpts streamOpts p =
     do {
       d \<leftarrow> p_driver p;
       g_assert (dr_io d);
       g \<leftarrow> p_graph p;
       (gen, p1) \<leftarrow> tgengenerator_new env run trafficOpts flowOpts streamOpts (int actionID) (tgengraph_getActionName g actionID)
                     ToDriver (int actionID) p;
       run_unit run (StartGenerator gen) p1
     }"

definition initiateStream :: "progenv \<Rightarrow> runner \<Rightarrow> nat \<Rightarrow> process \<Rightarrow> process option" where
  "initiateStream env run actionID p =
     do {
       g \<leftarrow> p_graph p;
       (op, g1) \<leftarrow> tgengraph_getStreamOptions g actionID;
       startGenerator env run actionID None None (Some op) (p\<lparr>p_graph := Some g1\<rparr>)
     }"

definition initiateFlow :: "progenv \<Rightarrow> runner \<Rightarrow> nat \<Rightarrow> process \<Rightarrow> process option" where
  "initiateFlow env run actionID p =
     do {
       g \<leftarrow> p_graph p;
       (fl, g1) \<leftarrow> tgengraph_getFlowOptions g actionID;
       startGenerator env run actionID None (Some fl) (Some (fo_streamOpts fl)) (p\<lparr>p_graph := Some g1\<rparr>)
     }"

definition initiateTraffic :: "progenv \<Rightarrow> runner \<Rightarrow> nat \<Rightarrow> process \<Rightarrow> process option" where
  "initiateTraffic env run actionID p =
     do {
       g \<leftarrow> p_graph p;
       (tr, g1) \<leftarrow> tgengraph_getTrafficOptions g actionID;
       startGenerator env run actionID (Some tr) (Some (to_flowOpts tr)) (Some (fo_streamOpts (to_flowOpts tr)))
         (p\<lparr>p_graph := Some g1\<rparr>)
     }"

text \<open>A timed pause; the result says whether a timer was set.\<close>

definition initiatePause :: "progenv \<Rightarrow> runner \<Rightarrow> nat \<Rightarrow> pause_options \<Rightarrow> process \<Rightarrow> (bool \<times> process) option" where
  "initiatePause env run actionID options p =
     do {
       (pauseMicros, p1) \<leftarrow>
         (if isSet (po_times options)
          then do {
            pool \<leftarrow> opt_value (po_times options);
            let (r, p') = draw_from pool p;
            timeNanos \<leftarrow> tgenpool_getRandom r pool;
            Some (timeNanos div 1000, p')
          }
          else Some (0, p));
       (if pauseMicros = 0 then Some (False, p1)
        else (case new_user_timer pauseMicros False (PauseTimer (int actionID)) p1 of
                (None, p2) \<Rightarrow> Some (False, p2)
              | (Some t, p2) \<Rightarrow>
                  do { p3 \<leftarrow> tgendriver_ref p2; p4 \<leftarrow> register_timer env run t p3; Some (True, p4) }))
     }"

definition handlePause :: "progenv \<Rightarrow> runner \<Rightarrow> nat \<Rightarrow> process \<Rightarrow> process option" where
  "handlePause env run actionID p =
     do {
       g \<leftarrow> p_graph p;
       options \<leftarrow> tgengraph_getPauseOptions g actionID;
       (if isSet (po_times options)
        then do {
          (success, p1) \<leftarrow> initiatePause env run actionID options p;
          (if success then Some p1 else run_unit run (ContinueNext (int actionID)) p1)
        }
        else do {
          (allVisited, g1) \<leftarrow> tgengraph_incrementPauseVisited g actionID;
          (if allVisited then run_unit run (ContinueNext (int actionID)) (p\<lparr>p_graph := Some g1\<rparr>)
           else Some (p\<lparr>p_graph := Some g1\<rparr>))
        })
     }"

text \<open>The limits of an end action that are set; \<open>now\<close> is read only if there is a time limit.\<close>

definition elapsed_nanos :: "int \<Rightarrow> driver \<Rightarrow> u64" where
  "elapsed_nanos nowMicros d = of_int (max 0 (nowMicros - dr_startTimeMicros d)) * 1000"

definition end_reached :: "end_options \<Rightarrow> driver \<Rightarrow> int \<Rightarrow> bool" where
  "end_reached options d now \<longleftrightarrow>
     (isSet (eo_sendSize options) \<and> stat_BytesWritten (dr_total d) \<ge> opt_value (eo_sendSize options)) \<or>
     (isSet (eo_recvSize options) \<and> stat_BytesRead (dr_total d) \<ge> opt_value (eo_recvSize options)) \<or>
     (isSet (eo_count options) \<and> stat_StreamSuccess (dr_total d) + stat_StreamError (dr_total d) \<ge> opt_value (eo_count options)) \<or>
     (isSet (eo_timeNanos options) \<and> elapsed_nanos now d \<ge> opt_value (eo_timeNanos options))"

definition checkEndConditions :: "runner \<Rightarrow> nat \<Rightarrow> process \<Rightarrow> process option" where
  "checkEndConditions run actionID p =
     do {
       d \<leftarrow> p_driver p;
       g \<leftarrow> p_graph p;
       options \<leftarrow> tgengraph_getEndOptions g actionID;
       let (now, p1) = (if isSet (eo_timeNanos options) then kern_time p else (0, p));
       p2 \<leftarrow> (if end_reached options d now
              then upd_driver (\<lambda>d. d\<lparr>dr_clientHasEnded := True, dr_serverHasEnded := True\<rparr>) p1 else Some p1);
       d2 \<leftarrow> p_driver p2;
       (if \<not> dr_clientHasEnded d2 then run_unit run (ContinueNext (int actionID)) p2 else Some p2)
     }"

definition processAction :: "progenv \<Rightarrow> runner \<Rightarrow> nat \<Rightarrow> process \<Rightarrow> process option" where
  "processAction env run actionID p =
     do {
       g \<leftarrow> p_graph p;
       (case tgengraph_getActionType g actionID of
          ACTION_START \<Rightarrow> run_unit run (ContinueNext (int actionID)) p
        | ACTION_STREAM \<Rightarrow> initiateStream env run actionID p
        | ACTION_FLOW \<Rightarrow> initiateFlow env run actionID p
        | ACTION_TRAFFIC \<Rightarrow> initiateTraffic env run actionID p
        | ACTION_END \<Rightarrow> checkEndConditions run actionID p
        | ACTION_PAUSE \<Rightarrow> handlePause env run actionID p
        | ACTION_NONE \<Rightarrow> Some p)
     }"

fun process_all :: "progenv \<Rightarrow> runner \<Rightarrow> nat list \<Rightarrow> process \<Rightarrow> process option" where
  "process_all env run [] p = Some p"
| "process_all env run (v # vs) p = do { p1 \<leftarrow> processAction env run v p; process_all env run vs p1 }"

definition continueNextActions :: "progenv \<Rightarrow> runner \<Rightarrow> int \<Rightarrow> process \<Rightarrow> process option" where
  "continueNextActions env run actionID p =
     do {
       d \<leftarrow> p_driver p;
       (if dr_clientHasEnded d then Some p
        else do {
          g \<leftarrow> p_graph p;
          r \<leftarrow> tgengraph_getNextActionIDs (se_ml (ev_stream env)) (ev_range env (p_draws p)) g (nat actionID);
          nextActions \<leftarrow> r;
          process_all env run nextActions (p\<lparr>p_draws := p_draws p + 1\<rparr>)
        })
     }"

section \<open>Timers\<close>

definition driver_onStartClientTimerExpired :: "runner \<Rightarrow> process \<Rightarrow> (bool \<times> process) option" where
  "driver_onStartClientTimerExpired run p =
     (case kern_time p of (now, p1) \<Rightarrow>
        do {
          p2 \<leftarrow> upd_driver (\<lambda>d. d\<lparr>dr_startTimeMicros := now\<rparr>) p1;
          d \<leftarrow> p_driver p2;
          p3 \<leftarrow> run_unit run (ContinueNext (dr_startActionID d)) p2;
          Some (True, p3)
        })"

definition driver_onPauseTimerExpired :: "runner \<Rightarrow> int \<Rightarrow> process \<Rightarrow> (bool \<times> process) option" where
  "driver_onPauseTimerExpired run actionID p =
     do { p1 \<leftarrow> run_unit run (ContinueNext actionID) p; Some (True, p1) }"

text \<open>A timer of the driver: it holds a reference to the driver.\<close>

definition driver_timer :: "progenv \<Rightarrow> runner \<Rightarrow> u64 \<Rightarrow> bool \<Rightarrow> user_timer \<Rightarrow> process \<Rightarrow> (bool \<times> process) option" where
  "driver_timer env run micros isPersistent u p =
     (case new_user_timer micros isPersistent u p of
        (None, p1) \<Rightarrow> Some (False, p1)
      | (Some t, p1) \<Rightarrow>
          do {
            p2 \<leftarrow> tgendriver_ref p1;
            d \<leftarrow> p_driver p2;
            g_assert (dr_io d);
            p3 \<leftarrow> register_timer env run t p2;
            Some (True, p3)
          })"

definition setStartClientTimerHelper :: "progenv \<Rightarrow> runner \<Rightarrow> process \<Rightarrow> (bool \<times> process) option" where
  "setStartClientTimerHelper env run p =
     do {
       d \<leftarrow> p_driver p;
       let time = so_timeNanos (dr_startOptions d);
       driver_timer env run (if isSet time then opt_value time div 1000 else 0) False StartClientTimer p
     }"

text \<open>The period in microseconds, or nothing if it was set to zero.\<close>

definition heartbeat_period :: "start_options \<Rightarrow> u64 option" where
  "heartbeat_period op =
     (if isSet (so_heartbeatPeriodNanos op)
      then (if opt_value (so_heartbeatPeriodNanos op) = 0 then None
            else Some (opt_value (so_heartbeatPeriodNanos op) div 1000))
      else Some (1000 * 1000))"

definition setHeartbeatTimerHelper :: "progenv \<Rightarrow> runner \<Rightarrow> process \<Rightarrow> (bool \<times> process) option" where
  "setHeartbeatTimerHelper env run p =
     do {
       d \<leftarrow> p_driver p;
       (case heartbeat_period (dr_startOptions d) of
          None \<Rightarrow> Some (True, p)
        | Some micros \<Rightarrow> driver_timer env run micros True HeartbeatTimer p)
     }"

section \<open>Creation\<close>

definition startServerHelper :: "progenv \<Rightarrow> runner \<Rightarrow> listening \<Rightarrow> process \<Rightarrow> (bool \<times> process) option" where
  "startServerHelper env run li p =
     (case tgenserver_new li p of
        (None, p1) \<Rightarrow> Some (False, p1)
      | (Some sv, p1) \<Rightarrow>
          do {
            let a = p_next p1;
            p2 \<leftarrow> tgendriver_ref (p1\<lparr>p_next := a + 1, p_servers := (p_servers p1)(a \<mapsto> sv)\<rparr>);
            d \<leftarrow> p_driver p2;
            g_assert (dr_io d);
            (_, p3) \<leftarrow> tgenio_register (proc_handlers env run) (tgenserver_getDescriptor sv) False (DUser (ServerObj a)) p2;
            Some (True, p3)
          })"

definition driver_zero :: "int \<Rightarrow> start_options \<Rightarrow> driver" where
  "driver_zero start op =
     \<lparr>dr_startActionID = start, dr_startOptions = op, dr_startTimeMicros = 0, dr_clientHasEnded = False,
      dr_serverHasEnded = False, dr_io = False, dr_heartbeat = stats_zero, dr_total = stats_zero, dr_refcount = 1\<rparr>"

text \<open>After a step: go on, or release the driver and return NULL.\<close>

definition or_release :: "progenv \<Rightarrow> runner \<Rightarrow> (bool \<times> process) option \<Rightarrow> (process \<Rightarrow> (bool \<times> process) option) \<Rightarrow>
    (bool \<times> process) option" where
  "or_release env run r f =
     do {
       (ok, p) \<leftarrow> r;
       (if ok then f p else do { p1 \<leftarrow> tgendriver_unref env run p; Some (False, p1) })
     }"

definition run_server :: "progenv \<Rightarrow> runner \<Rightarrow> listening \<Rightarrow> process \<Rightarrow> (bool \<times> process) option" where
  "run_server env run li p =
     do {
       d \<leftarrow> p_driver p;
       (if isSet (so_serverport (dr_startOptions d)) then startServerHelper env run li p
        else do { p1 \<leftarrow> upd_driver (\<lambda>d. d\<lparr>dr_serverHasEnded := True\<rparr>) p; Some (True, p1) })
     }"

definition run_client :: "progenv \<Rightarrow> runner \<Rightarrow> process \<Rightarrow> (bool \<times> process) option" where
  "run_client env run p =
     do {
       g \<leftarrow> p_graph p;
       (if tgengraph_hasEdges g then setStartClientTimerHelper env run p
        else do { p1 \<leftarrow> upd_driver (\<lambda>d. d\<lparr>dr_clientHasEnded := True\<rparr>) p; Some (True, p1) })
     }"

text \<open>\<open>epollD\<close> and \<open>li\<close> are what the kernel answers; the result says whether there is a driver.\<close>

definition tgendriver_new :: "progenv \<Rightarrow> runner \<Rightarrow> int \<Rightarrow> listening \<Rightarrow> process \<Rightarrow> (bool \<times> process) option" where
  "tgendriver_new env run epollD li p =
     do {
       g0 \<leftarrow> p_graph p;
       let g = tgengraph_ref g0;
       op \<leftarrow> tgengraph_getStartOptions g;
       let d = driver_zero (int (tgengraph_getStartActionID g)) op;
       let p1 = (case tgenio_new epollD p of
           Some p' \<Rightarrow> p'\<lparr>p_graph := Some g, p_driver := Some (d\<lparr>dr_io := True\<rparr>)\<rparr>
         | None \<Rightarrow> p\<lparr>p_graph := Some g, p_driver := Some d\<rparr>);
       or_release env run (setHeartbeatTimerHelper env run p1)
         (\<lambda>p2. or_release env run (run_server env run li p2)
           (\<lambda>p3. or_release env run (run_client env run p3) (\<lambda>p4. Some (True, p4))))
     }"

section \<open>Running\<close>

definition MAX_EVENTS_PER_IO_LOOP :: nat where "MAX_EVENTS_PER_IO_LOOP = 100"

partial_function (option) activateIO :: "(user_timer, io_object, process) io_handlers \<Rightarrow> process \<Rightarrow> process option" where
  "activateIO H p =
     do {
       (numEventsProcessed, p1) \<leftarrow> tgenio_loopOnce H MAX_EVENTS_PER_IO_LOOP p;
       (if numEventsProcessed \<ge> int MAX_EVENTS_PER_IO_LOOP then activateIO H p1 else Some p1)
     }"

declare activateIO.simps [code]

definition tgendriver_activateIO :: "progenv \<Rightarrow> runner \<Rightarrow> process \<Rightarrow> process option" where
  "tgendriver_activateIO env run p =
     do { d \<leftarrow> p_driver p; g_assert (dr_io d); activateIO (proc_handlers env run) p }"

definition tgendriver_getEpollDescriptor :: "process \<Rightarrow> int option" where
  "tgendriver_getEpollDescriptor p =
     do { d \<leftarrow> p_driver p; g_assert (dr_io d); Some (tgenio_getEpollDescriptor p) }"

definition tgendriver_hasEnded :: "process \<Rightarrow> bool option" where
  "tgendriver_hasEnded p = do { d \<leftarrow> p_driver p; Some (dr_clientHasEnded d \<and> dr_serverHasEnded d) }"

definition tgendriver_shutdownIO :: "progenv \<Rightarrow> runner \<Rightarrow> process \<Rightarrow> process option" where
  "tgendriver_shutdownIO env run p =
     do {
       d \<leftarrow> p_driver p;
       (if dr_io d
        then do { p1 \<leftarrow> tgenio_unref (proc_handlers env run) p; upd_driver (\<lambda>d. d\<lparr>dr_io := False\<rparr>) p1 }
        else Some p)
     }"

section \<open>The cycle of calls\<close>

definition reply_unit :: "process option \<Rightarrow> (reply \<times> process) option" where
  "reply_unit r = map_option (Pair Done) r"

definition reply_bool :: "(bool \<times> process) option \<Rightarrow> (reply \<times> process) option" where
  "reply_bool r = map_option (map_prod Flag id) r"

definition reply_response :: "(io_response \<times> process) option \<Rightarrow> (reply \<times> process) option" where
  "reply_response r = map_option (map_prod Response id) r"

text \<open>Which function a pointer stands for.\<close>

definition step_call :: "progenv \<Rightarrow> runner \<Rightarrow> runner" where
  "step_call env run c p =
     (case c of
        ObjNotify (StreamObj a) d ev \<Rightarrow> reply_response (conn_onEvent env run a ev p)
      | ObjNotify (ServerObj a) d ev \<Rightarrow>
          reply_response (tgenserver_onEvent (se_db (ev_stream env)) (driver_onNewPeer env run) a d ev p)
      | ObjTimeout (StreamObj a) d \<Rightarrow> reply_bool (conn_onCheckTimeout env run a p)
      | ObjTimeout (ServerObj a) d \<Rightarrow> None
      | ObjDestroy (StreamObj a) \<Rightarrow> reply_unit (conn_unref run a p)
      | ObjDestroy (ServerObj a) \<Rightarrow> reply_unit (tgenserver_unref run a p)
      | TimerExpired HeartbeatTimer \<Rightarrow> reply_bool (driver_onHeartbeat env run p)
      | TimerExpired StartClientTimer \<Rightarrow> reply_bool (driver_onStartClientTimerExpired run p)
      | TimerExpired (PauseTimer actionID) \<Rightarrow> reply_bool (driver_onPauseTimerExpired run actionID p)
      | TimerExpired (GeneratorTimer a) \<Rightarrow> reply_bool (generator_onTimerExpired env run a p)
      | TimerDestroy (GeneratorTimer a) \<Rightarrow> reply_unit (generator_unref env run a p)
      | TimerDestroy _ \<Rightarrow> reply_unit (tgendriver_unref env run p)
      | NotifyCB ToDriver actionID flags \<Rightarrow> reply_unit (driver_onNotify run actionID flags p)
      | NotifyCB (ToGenerator a) actionID flags \<Rightarrow> reply_unit (generator_onNotify env run a flags p)
      | ContinueNext actionID \<Rightarrow> reply_unit (continueNextActions env run actionID p)
      | ReleaseTarget ToDriver \<Rightarrow> reply_unit (tgendriver_unref env run p)
      | ReleaseTarget (ToGenerator a) \<Rightarrow> reply_unit (generator_unref env run a p)
      | StartGenerator a \<Rightarrow> reply_unit (tgengenerator_start env run a p))"

text \<open>Calls nested at most \<open>n\<close> deep.\<close>

primrec exec :: "nat \<Rightarrow> progenv \<Rightarrow> runner" where
  "exec 0 env = (\<lambda>c p. None)"
| "exec (Suc n) env = step_call env (exec n env)"

end
