(* ===== verification/Log.thy ===== *)
theory Log
  imports OptionParser
begin

text \<open>
  \<open>tgen-log.c\<close>: messages are cached until a level is set, then printed or dropped by it. The state are
  the file's two global variables and the lines given to \<open>g_print\<close>.
\<close>

record logger =
  lg_filter :: loglevel
  lg_cache :: "(loglevel \<times> string) list option"
  lg_out :: "string list"

text \<open>The values of \<open>GLogLevelFlags\<close>; 0 is no level.\<close>

fun level_value :: "loglevel \<Rightarrow> nat" where
  "level_value LOG_NONE = 0"
| "level_value LEVEL_ERROR = 4"
| "level_value LEVEL_CRITICAL = 8"
| "level_value LEVEL_WARNING = 16"
| "level_value LEVEL_MESSAGE = 32"
| "level_value LEVEL_INFO = 64"
| "level_value LEVEL_DEBUG = 128"

fun logLevelToString :: "loglevel \<Rightarrow> string" where
  "logLevelToString LEVEL_ERROR = ''error''"
| "logLevelToString LEVEL_CRITICAL = ''critical''"
| "logLevelToString LEVEL_WARNING = ''warning''"
| "logLevelToString LEVEL_MESSAGE = ''message''"
| "logLevelToString LEVEL_INFO = ''info''"
| "logLevelToString LEVEL_DEBUG = ''debug''"
| "logLevelToString LOG_NONE = ''default''"

definition passes :: "loglevel \<Rightarrow> loglevel \<Rightarrow> bool" where
  "passes level current \<longleftrightarrow> level_value level \<le> level_value current \<or> level_value current = 0"

definition flushMessageCache :: "logger \<Rightarrow> logger option" where
  "flushMessageCache s =
     (case lg_cache s of
        None \<Rightarrow> None
      | Some cache \<Rightarrow> Some (s\<lparr>lg_cache := None,
          lg_out := lg_out s @ map snd (filter (\<lambda>m. passes (fst m) (lg_filter s)) cache)\<rparr>))"

definition cacheMessage :: "string \<Rightarrow> loglevel \<Rightarrow> logger \<Rightarrow> logger" where
  "cacheMessage messageStr level s =
     s\<lparr>lg_cache := Some ((case lg_cache s of None \<Rightarrow> [] | Some cache \<Rightarrow> cache) @ [(level, messageStr)])\<rparr>"

section \<open>Messages\<close>

text \<open>Local time, the seconds of the epoch and the microseconds of the second.\<close>

record datetime =
  dt_year :: nat
  dt_month :: nat
  dt_day :: nat
  dt_hour :: nat
  dt_minute :: nat
  dt_second :: nat
  dt_unix :: int
  dt_micros :: nat

definition show_pad :: "nat \<Rightarrow> nat \<Rightarrow> string" where
  "show_pad width n = (let s = show_nat n in replicate (width - length s) (CHR ''0'') @ s)"

text \<open>Where a message comes from, and its text after its own arguments were filled in.\<close>

record message =
  ms_level :: loglevel
  ms_file :: string
  ms_line :: int
  ms_function :: string
  ms_text :: string
  ms_time :: datetime

definition message_line :: "message \<Rightarrow> string" where
  "message_line m =
     (let dt = ms_time m in
      show_pad 4 (dt_year dt) @ ''-'' @ show_pad 2 (dt_month dt) @ ''-'' @ show_pad 2 (dt_day dt) @ '' '' @
      show_pad 2 (dt_hour dt) @ '':'' @ show_pad 2 (dt_minute dt) @ '':'' @ show_pad 2 (dt_second dt) @ '' '' @
      show_int (dt_unix dt) @ ''.'' @ show_pad 6 (dt_micros dt) @
      '' ['' @ logLevelToString (ms_level m) @ ''] ['' @ ms_file m @ '':'' @ show_int (ms_line m) @ ''] ['' @
      ms_function m @ ''] '' @ ms_text m)"

definition tgenlog_printMessage :: "message \<Rightarrow> logger \<Rightarrow> logger option" where
  "tgenlog_printMessage m s =
     (if \<not> passes (ms_level m) (lg_filter s) then Some s
      else if level_value (lg_filter s) > 0
      then do {
        s1 \<leftarrow> (if lg_cache s \<noteq> None then flushMessageCache s else Some s);
        Some (s1\<lparr>lg_out := lg_out s1 @ [message_line m]\<rparr>)
      }
      else Some (cacheMessage (message_line m) (ms_level m) s))"

definition level_changed :: "loglevel \<Rightarrow> loglevel \<Rightarrow> datetime \<Rightarrow> message" where
  "level_changed oldLevel level dt =
     \<lparr>ms_level = LEVEL_MESSAGE, ms_file = ''tgen-log.c'', ms_line = 76, ms_function = ''tgenlog_setLogFilterLevel'',
      ms_text = ''Changed log level filter from '' @ [CHR 0x27] @ logLevelToString oldLevel @ [CHR 0x27] @
        '' to '' @ [CHR 0x27] @ logLevelToString level @ [CHR 0x27], ms_time = dt\<rparr>"

definition tgenlog_setLogFilterLevel :: "datetime \<Rightarrow> loglevel \<Rightarrow> logger \<Rightarrow> logger option" where
  "tgenlog_setLogFilterLevel dt level s =
     do {
       s1 \<leftarrow> (if lg_filter s \<noteq> level
              then tgenlog_printMessage (level_changed (lg_filter s) level dt) (s\<lparr>lg_filter := level\<rparr>)
              else Some s);
       (if lg_cache s1 \<noteq> None then flushMessageCache s1 else Some s1)
     }"

definition logger_zero :: logger where
  "logger_zero = \<lparr>lg_filter = LOG_NONE, lg_cache = None, lg_out = []\<rparr>"

section \<open>What is printed\<close>

fun print_all :: "message list \<Rightarrow> logger \<Rightarrow> logger option" where
  "print_all [] s = Some s"
| "print_all (m # ms) s = do { s1 \<leftarrow> tgenlog_printMessage m s; print_all ms s1 }"

definition lines_upto :: "loglevel \<Rightarrow> message list \<Rightarrow> string list" where
  "lines_upto level ms = map message_line (filter (\<lambda>m. passes (ms_level m) level) ms)"

lemma passes_none [simp]: "passes l LOG_NONE"
  by (simp add: passes_def)

lemma level_value_pos: "level_value l > 0 \<longleftrightarrow> l \<noteq> LOG_NONE"
  by (cases l) simp_all

text \<open>Before a level is set everything is kept; afterwards there is no cache and messages are printed as they come.\<close>

lemma print_all_cached:
  "print_all ms (logger_zero\<lparr>lg_cache := Some c\<rparr>) =
     Some (logger_zero\<lparr>lg_cache := Some (c @ map (\<lambda>m. (ms_level m, message_line m)) ms)\<rparr>)"
proof (induction ms arbitrary: c)
  case (Cons m ms)
  then show ?case by (simp add: tgenlog_printMessage_def cacheMessage_def logger_zero_def)
qed simp

lemma print_all_fresh:
  "print_all ms logger_zero =
     Some (logger_zero\<lparr>lg_cache := (if ms = [] then None else Some (map (\<lambda>m. (ms_level m, message_line m)) ms))\<rparr>)"
proof (cases ms)
  case (Cons m ms')
  with print_all_cached [of ms' "[(ms_level m, message_line m)]"] show ?thesis
    by (simp add: tgenlog_printMessage_def cacheMessage_def logger_zero_def)
qed (simp add: logger_zero_def)

lemma print_all_open:
  "lg_cache s = None \<Longrightarrow> lg_filter s \<noteq> LOG_NONE \<Longrightarrow>
     print_all ms s = Some (s\<lparr>lg_out := lg_out s @ lines_upto (lg_filter s) ms\<rparr>)"
proof (induction ms arbitrary: s)
  case (Cons m ms)
  then show ?case
    by (simp add: tgenlog_printMessage_def lines_upto_def level_value_pos)
qed (simp add: lines_upto_def)

lemma flushed_lines:
  "map snd (filter (\<lambda>m. passes (fst m) l) (map (\<lambda>m. (ms_level m, message_line m)) ms)) = lines_upto l ms"
  by (induction ms) (simp_all add: lines_upto_def)

text \<open>
  C36. However many messages come before the level is set and after it, those up to the level are printed,
  each once and in the order they came, with the change of the level between them; the others are not.
\<close>

theorem log_filters_in_order:
  assumes "level \<noteq> LOG_NONE"
  shows "\<exists>s. do { s1 \<leftarrow> print_all before logger_zero; s2 \<leftarrow> tgenlog_setLogFilterLevel dt level s1; print_all later s2 } = Some s \<and>
    lg_out s = lines_upto level (before @ level_changed LOG_NONE level dt # later)"
proof -
  let ?c = "map (\<lambda>m. (ms_level m, message_line m)) before"
  let ?ch = "level_changed LOG_NONE level dt"
  have set_level: "tgenlog_setLogFilterLevel dt level (logger_zero\<lparr>lg_cache := (if before = [] then None else Some ?c)\<rparr>) =
      Some \<lparr>lg_filter = level, lg_cache = None, lg_out = lines_upto level (before @ [?ch])\<rparr>"
    using assms
    by (auto simp: tgenlog_setLogFilterLevel_def tgenlog_printMessage_def flushMessageCache_def logger_zero_def
        level_value_pos flushed_lines lines_upto_def)
  show ?thesis
    using assms by (simp add: print_all_fresh set_level print_all_open) (simp add: lines_upto_def)
qed

definition demo_time :: datetime where
  "demo_time = \<lparr>dt_year = 2020, dt_month = 1, dt_day = 2, dt_hour = 3, dt_minute = 4, dt_second = 5, dt_unix = 1577934245, dt_micros = 6\<rparr>"

definition demo_message :: "loglevel \<Rightarrow> message" where
  "demo_message level = \<lparr>ms_level = level, ms_file = ''f.c'', ms_line = 1, ms_function = ''f'', ms_text = ''text'', ms_time = demo_time\<rparr>"

text \<open>Of a debug message and a warning that came early, only the warning is printed.\<close>

theorem log_filters_in_order_witness:
  "\<exists>s. do { s1 \<leftarrow> print_all [demo_message LEVEL_DEBUG, demo_message LEVEL_WARNING] logger_zero;
           s2 \<leftarrow> tgenlog_setLogFilterLevel demo_time LEVEL_WARNING s1; print_all [] s2 } = Some s \<and>
    lg_out s = [message_line (demo_message LEVEL_WARNING)]"
proof -
  have "lines_upto LEVEL_WARNING ([demo_message LEVEL_DEBUG, demo_message LEVEL_WARNING] @ level_changed LOG_NONE LEVEL_WARNING demo_time # []) =
      [message_line (demo_message LEVEL_WARNING)]"
    by (simp add: lines_upto_def passes_def demo_message_def level_changed_def)
  then show ?thesis
    using log_filters_in_order [of LEVEL_WARNING "[demo_message LEVEL_DEBUG, demo_message LEVEL_WARNING]" demo_time "[]"] by simp
qed

text \<open>An exit before the configuration was read sets no level and prints everything that was cached.\<close>

theorem no_level_prints_all:
  "\<exists>s. do { s1 \<leftarrow> print_all ms logger_zero; tgenlog_setLogFilterLevel dt LOG_NONE s1 } = Some s \<and>
     lg_out s = map message_line ms"
proof -
  have "lg_filter logger_zero = LOG_NONE" "lg_out logger_zero = []" by (simp_all add: logger_zero_def)
  moreover have "lines_upto LOG_NONE ms = map message_line ms" by (simp add: lines_upto_def)
  ultimately show ?thesis
    by (simp add: print_all_fresh tgenlog_setLogFilterLevel_def flushMessageCache_def flushed_lines)
qed

end
