(* ===== verification/Main_Loop.thy ===== *)
theory Main_Loop
  imports Driver Log
begin

text \<open>
  \<open>tgen-main.c\<close>: reading the configuration, starting the driver, and the loop that waits on the event
  loop's epoll descriptor. What the kernel answers is a record; the logger is the component of \<open>Log\<close>,
  here only the level it is given.
\<close>

datatype outcome = EXIT_SUCCESS | EXIT_FAILURE | Blocked \<comment> \<open>the last wait never returns\<close>

record boot =
  bt_epollD :: int \<comment> \<open>\<open>epoll_create\<close> of the event loop\<close>
  bt_listening :: listening
  bt_mainEpollD :: int \<comment> \<open>\<open>epoll_create\<close> of the main loop\<close>
  bt_waits :: "(errno + nat) list" \<comment> \<open>\<open>epoll_wait\<close> without a timeout: an error or the number of ready descriptors\<close>

fun main_loop :: "progenv \<Rightarrow> runner \<Rightarrow> (errno + nat) list \<Rightarrow> process \<Rightarrow> (outcome \<times> process) option" where
  "main_loop env run [] p = Some (Blocked, p)"
| "main_loop env run (Inl e # ws) p = (if e = EINTR then main_loop env run ws p else Some (EXIT_FAILURE, p))"
| "main_loop env run (Inr nReadyFDs # ws) p =
     do {
       p1 \<leftarrow> (if nReadyFDs > 0 then tgendriver_activateIO env run p else Some p);
       ended \<leftarrow> tgendriver_hasEnded p1;
       (if ended then Some (EXIT_SUCCESS, p1) else main_loop env run ws p1)
     }"

text \<open>The driver is released when the process exits, after its event loop was shut down.\<close>

definition main_cleanup :: "progenv \<Rightarrow> runner \<Rightarrow> process \<Rightarrow> process option" where
  "main_cleanup env run p = tgendriver_unref env run p"

definition main_watch :: "progenv \<Rightarrow> runner \<Rightarrow> boot \<Rightarrow> process \<Rightarrow> (outcome \<times> process) option" where
  "main_watch env run bt p =
     do {
       tgenepolld \<leftarrow> tgendriver_getEpollDescriptor p;
       (if tgenepolld < 0 \<or> bt_mainEpollD bt < 0
        then do { p1 \<leftarrow> main_cleanup env run p; Some (EXIT_FAILURE, p1) }
        else do {
          (out, p1) \<leftarrow> main_loop env run (bt_waits bt) p;
          (case out of
             Blocked \<Rightarrow> Some (Blocked, p1)
           | EXIT_FAILURE \<Rightarrow> do { p2 \<leftarrow> main_cleanup env run p1; Some (EXIT_FAILURE, p2) }
           | EXIT_SUCCESS \<Rightarrow>
               do { p2 \<leftarrow> tgendriver_shutdownIO env run p1; p3 \<leftarrow> main_cleanup env run p2; Some (EXIT_SUCCESS, p3) })
        })
     }"

definition filter_level :: "start_options \<Rightarrow> loglevel" where
  "filter_level op = (if isSet (so_loglevel op) then opt_value (so_loglevel op) else LEVEL_MESSAGE)"

text \<open>The outcome, the level the logger was set to (none means that everything is printed) and the last state.\<close>

definition main_run :: "graphenv \<Rightarrow> progenv \<Rightarrow> runner \<Rightarrow> string list \<Rightarrow> boot \<Rightarrow> process \<Rightarrow>
    (outcome \<times> loglevel \<times> process) option" where
  "main_run genv env run argv bt p =
     (if length argv \<noteq> 2 then Some (EXIT_FAILURE, LOG_NONE, p)
      else do {
        r \<leftarrow> tgengraph_new genv (Some (argv ! 1));
        (case r of
           None \<Rightarrow> Some (EXIT_FAILURE, LOG_NONE, p)
         | Some g \<Rightarrow>
             do {
               op \<leftarrow> tgengraph_getStartOptions g;
               (ok, p1) \<leftarrow> tgendriver_new env run (bt_epollD bt) (bt_listening bt) (p\<lparr>p_graph := Some g\<rparr>);
               g1 \<leftarrow> p_graph p1;
               let p2 = p1\<lparr>p_graph := tgengraph_unref g1\<rparr>;
               (if \<not> ok then Some (EXIT_FAILURE, filter_level op, p2)
                else do { (out, p3) \<leftarrow> main_watch env run bt p2; Some (out, filter_level op, p3) })
             })
      })"

end
