(* ===== verification/Fuel.thy ===== *)
theory Fuel
  imports Main_Loop
begin

text \<open>
  The depth of nested calls is no part of a result: what a runner answers, a runner that nests deeper
  answers as well. \<open>below\<close> is the order on answers, with a rule for each way the model composes them;
  \<open>wider\<close> is the contract between the handlers of two event loops, \<open>deeper\<close> the one between two runners.
\<close>

section \<open>The order on answers\<close>

definition below :: "'a option \<Rightarrow> 'a option \<Rightarrow> bool" where
  "below x y \<longleftrightarrow> (\<forall>r. x = Some r \<longrightarrow> y = Some r)"

named_theorems mono_answer

lemma belowD: "below x y \<Longrightarrow> x = Some r \<Longrightarrow> y = Some r"
  by (simp add: below_def)

lemma below_refl [mono_answer]: "below x x"
  by (simp add: below_def)

lemma below_none [mono_answer]: "below None x"
  by (simp add: below_def)

lemma below_bind [mono_answer]: "below m m' \<Longrightarrow> (\<And>x. below (f x) (f' x)) \<Longrightarrow> below (m \<bind> f) (m' \<bind> f')"
  by (auto simp: below_def bind_Some_conv)

lemma below_map [mono_answer]: "below m m' \<Longrightarrow> below (map_option f m) (map_option f m')"
  by (auto simp: below_def)

lemma below_if [mono_answer]: "below x x' \<Longrightarrow> below y y' \<Longrightarrow> below (if b then x else y) (if b then x' else y')"
  by simp

lemma below_option [mono_answer]:
  "below x x' \<Longrightarrow> (\<And>a. below (f a) (f' a)) \<Longrightarrow> below (case z of None \<Rightarrow> x | Some a \<Rightarrow> f a) (case z of None \<Rightarrow> x' | Some a \<Rightarrow> f' a)"
  by (simp split: option.split)

lemma below_prod [mono_answer]:
  "(\<And>a b. below (f a b) (f' a b)) \<Longrightarrow> below (case z of (a, b) \<Rightarrow> f a b) (case z of (a, b) \<Rightarrow> f' a b)"
  by (simp split: prod.split)

lemma below_sum [mono_answer]:
  "(\<And>a. below (f a) (f' a)) \<Longrightarrow> (\<And>b. below (g b) (g' b)) \<Longrightarrow> below (case z of Inl a \<Rightarrow> f a | Inr b \<Rightarrow> g b) (case z of Inl a \<Rightarrow> f' a | Inr b \<Rightarrow> g' b)"
  by (simp split: sum.split)

lemma below_let [mono_answer]: "(\<And>x. below (f x) (f' x)) \<Longrightarrow> below (Let t f) (Let t f')"
  by simp

lemma below_bool [mono_answer]:
  "below x x' \<Longrightarrow> below y y' \<Longrightarrow> below (case b of True \<Rightarrow> x | False \<Rightarrow> y) (case b of True \<Rightarrow> x' | False \<Rightarrow> y')"
  by (simp split: bool.split)

lemma below_child [mono_answer]:
  "(\<And>t. below (f t) (f' t)) \<Longrightarrow> (\<And>x. below (g x) (g' x)) \<Longrightarrow>
   below (case z of DTimer t \<Rightarrow> f t | DUser x \<Rightarrow> g x) (case z of DTimer t \<Rightarrow> f' t | DUser x \<Rightarrow> g' x)"
  by (simp split: child_data.split)

lemma below_timer [mono_answer]:
  "(\<And>t. below (f t) (f' t)) \<Longrightarrow> (\<And>x. below (g x) (g' x)) \<Longrightarrow>
   below (case z of DeferExpired t \<Rightarrow> f t | UserTimer x \<Rightarrow> g x) (case z of DeferExpired t \<Rightarrow> f' t | UserTimer x \<Rightarrow> g' x)"
  by (simp split: timer_target.split)

lemma below_ref [mono_answer]:
  "(\<And>t. below (f t) (f' t)) \<Longrightarrow> (\<And>x. below (g x) (g' x)) \<Longrightarrow>
   below (case z of RChild t \<Rightarrow> f t | RTimer x \<Rightarrow> g x) (case z of RChild t \<Rightarrow> f' t | RTimer x \<Rightarrow> g' x)"
  by (simp split: io_ref.split)

section \<open>The event loop\<close>

locale wider =
  fixes H H' :: "('c, 'o, 'z) handlers"
  assumes notify: "below (hd_notify H x d ev s) (hd_notify H' x d ev s)"
    and timeout: "below (hd_timeout H x d s) (hd_timeout H' x d s)"
    and destroy: "below (hd_destroy H x s) (hd_destroy H' x s)"
    and user_timer: "below (hd_timer H u s) (hd_timer H' u s)"
    and timer_destroy: "below (hd_timer_destroy H u s) (hd_timer_destroy H' u s)"
    and order: "hd_order H' = hd_order H"
begin

lemma table_order: "table_values H' s = table_values H s"
  by (simp add: table_values_def order)

lemma unref: "below (io_unref H r s) (io_unref H' r s)"
proof -
  have "K = H \<longrightarrow> io_unref H' r s = Some s'" if "io_unref K r s = Some s'" for K r s s'
  proof (rule io_unref.raw_induct [where P = "\<lambda>K r s s'. K = H \<longrightarrow> io_unref H' r s = Some s'", OF _ that], goal_cases)
    case (1 unreff K r s s')
    show ?case
    proof
      assume K: "K = H"
      have IH: "below (unreff H r s) (io_unref H' r s)" for r s using 1(1) by (simp add: below_def)
      show "io_unref H' r s = Some s'"
        by (rule belowD [OF _ 1(2)], unfold K, subst io_unref.simps) (intro mono_answer IH destroy timer_destroy)
    qed
  qed
  then show ?thesis by (simp add: below_def)
qed

lemma drop_timer: "below (drop_deferWriteTimer H c t s) (drop_deferWriteTimer H' c t s)"
  unfolding drop_deferWriteTimer_def by (intro mono_answer unref)

lemma hashTableDestroy: "below (tgeniochild_hashTableDestroy H c s) (tgeniochild_hashTableDestroy H' c s)"
  unfolding tgeniochild_hashTableDestroy_def by (intro mono_answer unref drop_timer)

lemma destroys: "below (destroy_all H cs s) (destroy_all H' cs s)"
  by (induction cs arbitrary: s) (simp_all add: mono_answer hashTableDestroy)

lemma release: "below (tgenio_unref H s) (tgenio_unref H' s)"
  unfolding tgenio_unref_def tgenio_free_def table_order by (intro mono_answer destroys)

lemma table_remove: "below (table_remove H d s) (table_remove H' d s)"
  unfolding table_remove_def by (intro mono_answer hashTableDestroy)

lemma deregister: "below (tgenio_deregister H d s) (tgenio_deregister H' d s)"
proof -
  have "K = H \<longrightarrow> tgenio_deregister H' d s = Some s'" if "tgenio_deregister K d s = Some s'" for K d s s'
  proof (rule tgenio_deregister.raw_induct [where P = "\<lambda>K d s s'. K = H \<longrightarrow> tgenio_deregister H' d s = Some s'", OF _ that], goal_cases)
    case (1 dereg K d s s')
    show ?case
    proof
      assume K: "K = H"
      have IH: "below (dereg H d s) (tgenio_deregister H' d s)" for d s using 1(1) by (simp add: below_def)
      show "tgenio_deregister H' d s = Some s'"
        by (rule belowD [OF _ 1(2)], unfold K, subst tgenio_deregister.simps) (intro mono_answer IH drop_timer table_remove)
    qed
  qed
  then show ?thesis by (simp add: below_def)
qed

lemma register: "below (tgenio_register H d b x s) (tgenio_register H' d b x s)"
  unfolding tgenio_register_def by (intro mono_answer deregister hashTableDestroy)

lemma setDeferTimer: "below (tgenio_setDeferTimer H c m s) (tgenio_setDeferTimer H' c m s)"
  unfolding tgenio_setDeferTimer_def by (intro mono_answer register)

lemma timer_called: "below (timer_call H target s) (timer_call H' target s)"
  unfolding timer_call_def by (intro mono_answer user_timer)

lemma timer_event: "below (tgentimer_onEvent (timer_call H) t d ev s) (tgentimer_onEvent (timer_call H') t d ev s)"
  unfolding tgentimer_onEvent_def by (intro mono_answer timer_called)

lemma notified: "below (child_notify H data d ev s) (child_notify H' data d ev s)"
  unfolding child_notify_def by (intro mono_answer timer_event notify)

lemma helper: "below (tgenio_helper H c i out dn s) (tgenio_helper H' c i out dn s)"
  unfolding tgenio_helper_def by (intro mono_answer notified deregister setDeferTimer)

lemma handled: "below (handle_events H evs s) (handle_events H' evs s)"
  by (induction evs arbitrary: s) (auto intro!: mono_answer helper deregister)

lemma loopOnce: "below (tgenio_loopOnce H n s) (tgenio_loopOnce H' n s)"
  unfolding tgenio_loopOnce_def by (intro mono_answer handled)

lemma collect: "below (collect_timeouts H cs q s) (collect_timeouts H' cs q s)"
  by (induction cs arbitrary: q s) (auto intro!: mono_answer timeout)

lemma deregisters: "below (deregister_all H ds s) (deregister_all H' ds s)"
  by (induction ds arbitrary: s) (auto intro!: mono_answer deregister)

lemma checkTimeouts: "below (tgenio_checkTimeouts H s) (tgenio_checkTimeouts H' s)"
  unfolding tgenio_checkTimeouts_def table_order by (intro mono_answer collect deregisters)

end

section \<open>The process\<close>

locale deeper =
  fixes env :: progenv and run run' :: runner
  assumes call: "below (run c p) (run' c p)"
begin

lemma unit: "below (run_unit run c p) (run_unit run' c p)"
  unfolding run_unit_def by (intro mono_answer call)

lemma flag: "below (run_bool run c p) (run_bool run' c p)"
  unfolding run_bool_def by (intro mono_answer call)

lemma response: "below (run_response run c p) (run_response run' c p)"
  unfolding run_response_def by (intro mono_answer call)

end

sublocale deeper \<subseteq> loop: wider "proc_handlers env run" "proc_handlers env run'"
  by unfold_locales (simp_all add: proc_handlers_def unit flag response)

context deeper
begin

subsection \<open>Connections and the server\<close>

lemma deliver: "below (deliver_notes run target ns p) (deliver_notes run' target ns p)"
  by (induction ns arbitrary: p) (auto intro!: mono_answer unit)

lemma settles: "below (settle run a s w p) (settle run' a s w p)"
  unfolding settle_def by (intro mono_answer deliver)

lemma onEvent: "below (conn_onEvent env run a ev p) (conn_onEvent env run' a ev p)"
  unfolding conn_onEvent_def by (intro mono_answer settles)

lemma onCheckTimeout: "below (conn_onCheckTimeout env run a p) (conn_onCheckTimeout env run' a p)"
  unfolding conn_onCheckTimeout_def by (intro mono_answer settles)

lemma release_transport: "below (transport_release run t p) (transport_release run' t p)"
  unfolding transport_release_def by (intro mono_answer unit)

lemma conn_release: "below (conn_unref run a p) (conn_unref run' a p)"
  unfolding conn_unref_def by (intro mono_answer unit release_transport)

lemma new_conn: "below (conn_new env run i op mm t target w p) (conn_new env run' i op mm t target w p)"
  unfolding conn_new_def by (intro mono_answer deliver)

lemma watch_conn: "below (register_conn env run d a p) (register_conn env run' d a p)"
  unfolding register_conn_def by (intro mono_answer loop.register)

lemma watch_timer: "below (register_timer env run t p) (register_timer env run' t p)"
  unfolding register_timer_def by (intro mono_answer loop.register)

lemma accepts:
  assumes "\<And>ac st cr peer p. below (f ac st cr peer p) (g ac st cr peer p)"
  shows "below (accept_loop db f rs p) (accept_loop db g rs p)"
  by (induction rs arbitrary: p) (auto simp: acceptPeer_def intro!: mono_answer assms)

lemma server_event:
  assumes "\<And>ac st cr peer p. below (f ac st cr peer p) (g ac st cr peer p)"
  shows "below (tgenserver_onEvent db f a d ev p) (tgenserver_onEvent db g a d ev p)"
  unfolding tgenserver_onEvent_def by (intro mono_answer accepts assms)

lemma server_release: "below (tgenserver_unref run a p) (tgenserver_unref run' a p)"
  unfolding tgenserver_unref_def server_free_def by (intro mono_answer unit)

subsection \<open>Generators\<close>

lemma generator_release: "below (generator_unref env run a p) (generator_unref env run' a p)"
  unfolding generator_unref_def generator_free_def by (intro mono_answer unit loop.release)

lemma generator_new: "below (tgengenerator_new env run tr fl op i nm target k p) (tgengenerator_new env run' tr fl op i nm target k p)"
  unfolding tgengenerator_new_def by (intro mono_answer unit)

lemma onComplete: "below (onCompleteHelper env run a fl p) (onCompleteHelper env run' a fl p)"
  unfolding onCompleteHelper_def by (intro mono_answer unit generator_release)

lemma generator_notified: "below (generator_onNotify env run a fl p) (generator_onNotify env run' a fl p)"
  unfolding generator_onNotify_def by (intro mono_answer unit onComplete)

lemma flow: "below (createFlow env run a p) (createFlow env run' a p)"
  unfolding createFlow_def by (intro mono_answer unit generator_new)

lemma stream: "below (createStream env run a p) (createStream env run' a p)"
  unfolding createStream_def by (intro mono_answer new_conn watch_conn)

lemma generator_timer: "below (generator_setTimer env run a d p) (generator_setTimer env run' a d p)"
  unfolding generator_setTimer_def by (intro mono_answer watch_timer)

lemma generate: "below (generateNext env run a p) (generateNext env run' a p)"
  unfolding generateNext_def by (intro mono_answer flow stream generator_timer onComplete)

lemma generator_start: "below (tgengenerator_start env run a p) (tgengenerator_start env run' a p)"
  unfolding tgengenerator_start_def by (intro mono_answer generate stream onComplete)

lemma generator_expired: "below (generator_onTimerExpired env run a p) (generator_onTimerExpired env run' a p)"
  unfolding generator_onTimerExpired_def by (intro mono_answer generate)

subsection \<open>The driver\<close>

lemma driver_notified: "below (driver_onNotify run i fl p) (driver_onNotify run' i fl p)"
  unfolding driver_onNotify_def by (intro mono_answer unit)

lemma heartbeat: "below (driver_onHeartbeat env run p) (driver_onHeartbeat env run' p)"
  unfolding driver_onHeartbeat_def by (intro mono_answer loop.checkTimeouts)

lemma driver_release: "below (tgendriver_unref env run p) (tgendriver_unref env run' p)"
  unfolding tgendriver_unref_def driver_free_def by (intro mono_answer loop.release)

lemma new_peer: "below (driver_onNewPeer env run ac st cr peer p) (driver_onNewPeer env run' ac st cr peer p)"
  unfolding driver_onNewPeer_def by (intro mono_answer new_conn watch_conn)

lemma start_generator: "below (startGenerator env run i tr fl op p) (startGenerator env run' i tr fl op p)"
  unfolding startGenerator_def by (intro mono_answer generator_new unit)

lemma pause: "below (handlePause env run i p) (handlePause env run' i p)"
  unfolding handlePause_def initiatePause_def by (intro mono_answer unit watch_timer)

lemma end_conditions: "below (checkEndConditions run i p) (checkEndConditions run' i p)"
  unfolding checkEndConditions_def by (intro mono_answer unit)

lemma action: "below (processAction env run i p) (processAction env run' i p)"
  unfolding processAction_def initiateStream_def initiateFlow_def initiateTraffic_def
  by (intro mono_answer) (auto split: action_type.split intro!: mono_answer unit start_generator end_conditions pause)

lemma actions: "below (process_all env run vs p) (process_all env run' vs p)"
  by (induction vs arbitrary: p) (auto intro!: mono_answer action)

lemma continue: "below (continueNextActions env run i p) (continueNextActions env run' i p)"
  unfolding continueNextActions_def by (intro mono_answer actions)

lemma start_expired: "below (driver_onStartClientTimerExpired run p) (driver_onStartClientTimerExpired run' p)"
  unfolding driver_onStartClientTimerExpired_def by (intro mono_answer unit)

lemma pause_expired: "below (driver_onPauseTimerExpired run i p) (driver_onPauseTimerExpired run' i p)"
  unfolding driver_onPauseTimerExpired_def by (intro mono_answer unit)

lemma timer_driver: "below (driver_timer env run m b u p) (driver_timer env run' m b u p)"
  unfolding driver_timer_def by (intro mono_answer watch_timer)

lemma dispatch: "below (step_call env run c p) (step_call env run' c p)"
proof -
  note rules = onEvent onCheckTimeout conn_release server_event new_peer server_release generator_release heartbeat start_expired
    pause_expired generator_expired driver_release driver_notified generator_notified continue generator_start
  show ?thesis
    unfolding step_call_def reply_unit_def reply_bool_def reply_response_def
    by (auto split: call.split io_object.split user_timer.split notify_target.split intro!: mono_answer rules)
qed

subsection \<open>Running\<close>

lemma server_start: "below (startServerHelper env run li p) (startServerHelper env run' li p)"
  unfolding startServerHelper_def by (intro mono_answer loop.register)

lemma orelse:
  "below r r' \<Longrightarrow> (\<And>p. below (f p) (f' p)) \<Longrightarrow> below (or_release env run r f) (or_release env run' r' f')"
  unfolding or_release_def by (intro mono_answer driver_release)

lemma driver_new: "below (tgendriver_new env run fd li p) (tgendriver_new env run' fd li p)"
  unfolding tgendriver_new_def setHeartbeatTimerHelper_def run_server_def run_client_def setStartClientTimerHelper_def
  by (intro mono_answer orelse timer_driver server_start)

lemma activate: "below (tgendriver_activateIO env run p) (tgendriver_activateIO env run' p)"
proof -
  let ?H = "proc_handlers env run" and ?H' = "proc_handlers env run'"
  have "K = ?H \<longrightarrow> activateIO ?H' p = Some p'" if "activateIO K p = Some p'" for K p p'
  proof (rule activateIO.raw_induct [where P = "\<lambda>K p p'. K = ?H \<longrightarrow> activateIO ?H' p = Some p'", OF _ that], goal_cases)
    case (1 again K p p')
    show ?case
    proof
      assume K: "K = ?H"
      have IH: "below (again ?H p) (activateIO ?H' p)" for p using 1(1) by (simp add: below_def)
      show "activateIO ?H' p = Some p'"
        by (rule belowD [OF _ 1(2)], unfold K, subst activateIO.simps) (intro mono_answer IH loop.loopOnce)
    qed
  qed
  then have "below (activateIO ?H p) (activateIO ?H' p)" for p by (simp add: below_def)
  then show ?thesis unfolding tgendriver_activateIO_def by (intro mono_answer)
qed

lemma shutdown: "below (tgendriver_shutdownIO env run p) (tgendriver_shutdownIO env run' p)"
  unfolding tgendriver_shutdownIO_def by (intro mono_answer loop.release)

lemma main_waits: "below (main_loop env run ws p) (main_loop env run' ws p)"
proof (induction ws arbitrary: p)
  case (Cons x ws)
  then show ?case by (cases x) (auto intro!: mono_answer activate)
qed (simp add: mono_answer)

lemma watched: "below (main_watch env run bt p) (main_watch env run' bt p)"
  unfolding main_watch_def main_cleanup_def
  by (intro mono_answer main_waits) (auto split: outcome.split intro!: mono_answer driver_release shutdown)

lemma main: "below (main_run genv env run argv bt p) (main_run genv env run' argv bt p)"
  unfolding main_run_def by (intro mono_answer driver_new watched)

end

section \<open>The cycle of calls\<close>

lemma exec_below: "n \<le> m \<Longrightarrow> below (exec n env c p) (exec m env c p)"
proof (induction n arbitrary: m c p)
  case (Suc n)
  then obtain k where m: "m = Suc k" and "n \<le> k" by (cases m) auto
  then have "deeper (exec n env) (exec k env)" by unfold_locales (rule Suc.IH)
  then show ?case by (simp add: m deeper.dispatch)
qed (simp add: mono_answer)

interpretation depth: deeper env "exec n env" "exec (n + k) env" for env n k
  by unfold_locales (simp add: exec_below)

end
