(* ===== verification/IOFrame.thy ===== *)
theory IOFrame
  imports IO
begin

text \<open>
  What the event loop does to the rest of the process: nothing but calling its handlers. A relation
  between states that only looks at the rest (\<open>tgenio.more\<close>) and that the handlers respect is respected
  by every operation of the loop. Two locales: releasing objects needs the destructors only, handling
  events needs all handlers.
\<close>

section \<open>The kernel and the loop's own data\<close>

named_theorems keeps_more

lemma more_epoll_ctl [keeps_more]: "tgenio.more (snd (epoll_ctl op fd ev s)) = tgenio.more s"
  by (simp add: epoll_ctl_def pop_def Let_def split: list.split)

lemma more_settime [keeps_more]: "tgenio.more (snd (timerfd_settime fd sp s)) = tgenio.more s"
  by (simp add: timerfd_settime_def pop_def split: list.split)

lemma more_create [keeps_more]: "tgenio.more (snd (timerfd_create s)) = tgenio.more s"
  by (simp add: timerfd_create_def pop_def split: list.split)

lemma more_close [keeps_more]: "tgenio.more (kern_close fd s) = tgenio.more s"
  by (simp add: kern_close_def)

lemma more_time [keeps_more]: "tgenio.more (snd (kern_time s)) = tgenio.more s"
  by (simp add: kern_time_def split: list.split)

lemma more_disarm [keeps_more]: "tgenio.more (timer_disarm t s) = tgenio.more s"
  by (simp add: timer_disarm_def keeps_more)

lemma more_cancel [keeps_more]: "tgenio.more (tgentimer_cancel t s) = tgenio.more s"
  by (simp add: tgentimer_cancel_def keeps_more)

lemma more_setExpire [keeps_more]: "tgenio.more (tgentimer_setExpireTimeMicros t m s) = tgenio.more s"
  by (simp add: tgentimer_setExpireTimeMicros_def Let_def keeps_more)

lemma more_set_child [keeps_more]: "tgenio.more (set_child c ch s) = tgenio.more s"
  by (simp add: set_child_def)

lemma more_ref [keeps_more]: "tgenio.more (tgenio_ref s) = tgenio.more s"
  by (simp add: tgenio_ref_def)

lemma more_timer_new: "tgentimer_new p pers nt s = (r, s') \<Longrightarrow> tgenio.more s' = tgenio.more s"
  using more_create [of s]
  by (auto simp: tgentimer_new_def Let_def split: option.splits if_splits prod.splits dest!: arg_cong [of _ _ snd]
      intro: trans [OF more_settime [unfolded prod.sel]])

lemma more_timer_free: "timer_free t s = Some s' \<Longrightarrow> tgenio.more s' = tgenio.more s"
  by (auto simp: timer_free_def keeps_more bind_Some_conv)

lemma more_child_ref: "tgeniochild_ref c s = Some s' \<Longrightarrow> tgenio.more s' = tgenio.more s"
  by (auto simp: tgeniochild_ref_def keeps_more bind_Some_conv)

lemma more_sync: "tgenio_syncEpollEvents c ev s = Some s' \<Longrightarrow> tgenio.more s' = tgenio.more s"
  using more_epoll_ctl
  by (fastforce simp: tgenio_syncEpollEvents_def keeps_more bind_Some_conv split: if_splits prod.splits dest!: arg_cong [of _ _ snd])

lemma more_expired: "tgenio_onDeferTimerExpired c s = Some (b, s') \<Longrightarrow> tgenio.more s' = tgenio.more s"
  by (auto simp: tgenio_onDeferTimerExpired_def bind_Some_conv dest: more_sync)

lemma more_new: "tgenio_new fd s = Some s' \<Longrightarrow> tgenio.more s' = tgenio.more s"
  by (auto simp: tgenio_new_def split: if_splits)

section \<open>Releasing\<close>

locale io_release =
  fixes H :: "('c, 'o, 'z) handlers"
    and R :: "('c, 'o, 'z) tgenio_scheme \<Rightarrow> ('c, 'o, 'z) tgenio_scheme \<Rightarrow> bool"
  assumes same: "tgenio.more s = tgenio.more s' \<Longrightarrow> R s s'"
    and trans: "R s1 s2 \<Longrightarrow> R s2 s3 \<Longrightarrow> R s1 s3"
    and destroy: "hd_destroy H x s = Some s' \<Longrightarrow> R s s'"
    and timer_destroy: "hd_timer_destroy H u s = Some s' \<Longrightarrow> R s s'"
begin

lemma refl: "R s s"
  by (rule same) simp

lemma left: "R s s' \<Longrightarrow> tgenio.more s0 = tgenio.more s \<Longrightarrow> R s0 s'"
  using same trans by blast

lemma right: "R s s' \<Longrightarrow> tgenio.more s' = tgenio.more s'' \<Longrightarrow> R s s''"
  using same trans by blast

lemma around: "R s s' \<Longrightarrow> tgenio.more s0 = tgenio.more s \<Longrightarrow> tgenio.more s'' = tgenio.more s' \<Longrightarrow> R s0 s''"
  by (rule left, rule right) simp_all

lemma unref_step:
  assumes "\<And>r s s'. unreff H r s = Some s' \<Longrightarrow> R s s'"
    and "(case r of
        RChild c \<Rightarrow>
          do {
            ch \<leftarrow> heap_child s c;
            let ch1 = ch\<lparr>ch_refcount := ch_refcount ch - 1\<rparr>;
            let s1 = set_child c ch1 s;
            (if ch_refcount ch1 > 0 then Some s1
             else do {
               s2 \<leftarrow> (case ch_data ch1 of DTimer t \<Rightarrow> unreff H (RTimer t) s1 | DUser x \<Rightarrow> hd_destroy H x s1);
               s3 \<leftarrow> (case ch_deferWriteTimer ch1 of None \<Rightarrow> Some s2 | Some t \<Rightarrow> unreff H (RTimer t) s2);
               Some (s3\<lparr>heap_child := (heap_child s3)(c := None)\<rparr>)
             })
          }
      | RTimer t \<Rightarrow>
          do {
            ti \<leftarrow> heap_timer s t;
            (case tgentimer_unref ti of
               Some ti1 \<Rightarrow> Some (s\<lparr>heap_timer := (heap_timer s)(t \<mapsto> ti1)\<rparr>)
             | None \<Rightarrow>
                 do {
                   s1 \<leftarrow> timer_free (ti\<lparr>ti_refcount := ti_refcount ti - 1\<rparr>) s;
                   s2 \<leftarrow> (case ti_notify ti of
                            DeferExpired c \<Rightarrow> unreff H (RChild c) s1
                          | UserTimer u \<Rightarrow> hd_timer_destroy H u s1);
                   Some (s2\<lparr>heap_timer := (heap_timer s2)(t := None)\<rparr>)
                 })
          }) = Some s'"
  shows "R s s'"
proof -
  note IH = assms(1)
  show ?thesis
  proof (cases r)
    case (RChild c)
    from assms(2) RChild obtain ch where ch: "heap_child s c = Some ch" by (auto simp: bind_Some_conv)
    let ?ch1 = "ch\<lparr>ch_refcount := ch_refcount ch - 1\<rparr>"
    let ?s1 = "set_child c ?ch1 s"
    show ?thesis
    proof (cases "ch_refcount ?ch1 > 0")
      case True
      with assms(2) RChild ch show ?thesis by (auto simp: Let_def keeps_more intro!: same)
    next
      case False
      with assms(2) RChild ch obtain s2 s3 where
        s2: "(case ch_data ?ch1 of DTimer t \<Rightarrow> unreff H (RTimer t) ?s1 | DUser x \<Rightarrow> hd_destroy H x ?s1) = Some s2"
        and s3: "(case ch_deferWriteTimer ?ch1 of None \<Rightarrow> Some s2 | Some t \<Rightarrow> unreff H (RTimer t) s2) = Some s3"
        and s': "s' = s3\<lparr>heap_child := (heap_child s3)(c := None)\<rparr>"
        by (auto simp: Let_def bind_Some_conv)
      have "R ?s1 s2" using s2 destroy by (cases "ch_data ?ch1") (auto dest: IH)
      moreover have "R s2 s3" using s3 refl by (cases "ch_deferWriteTimer ?ch1") (auto dest: IH)
      ultimately have "R ?s1 s3" by (rule trans)
      then show ?thesis by (rule right [OF left]) (simp_all add: s' keeps_more)
    qed
  next
    case (RTimer t)
    from assms(2) RTimer obtain ti where ti: "heap_timer s t = Some ti" by (auto simp: bind_Some_conv)
    show ?thesis
    proof (cases "tgentimer_unref ti")
      case (Some ti1)
      with assms(2) RTimer ti show ?thesis by (auto intro!: same)
    next
      case None
      with assms(2) RTimer ti obtain s1 s2 where
        s1: "timer_free (ti\<lparr>ti_refcount := ti_refcount ti - 1\<rparr>) s = Some s1"
        and s2: "(case ti_notify ti of DeferExpired c \<Rightarrow> unreff H (RChild c) s1 | UserTimer u \<Rightarrow> hd_timer_destroy H u s1) = Some s2"
        and s': "s' = s2\<lparr>heap_timer := (heap_timer s2)(t := None)\<rparr>"
        by (auto simp: bind_Some_conv)
      have "R s1 s2" using s2 timer_destroy by (cases "ti_notify ti") (auto dest: IH)
      then show ?thesis by (rule right [OF left]) (simp_all add: s' more_timer_free [OF s1])
    qed
  qed
qed

lemma unref: "io_unref H r s = Some s' \<Longrightarrow> R s s'"
proof -
  have "H' = H \<longrightarrow> R s s'" if "io_unref H' r s = Some s'" for H' r s s'
  proof (rule io_unref.raw_induct [where P = "\<lambda>H' r s s'. H' = H \<longrightarrow> R s s'", OF _ that], goal_cases)
    case (1 unreff H' r s s')
    show ?case
    proof
      assume eq: "H' = H"
      have "R s s'" if "unreff H r s = Some s'" for r s s'
        using 1(1) [OF that] by simp
      then show "R s s'" by (rule unref_step [where unreff = unreff and r = r, OF _ 1(2) [unfolded eq]])
    qed
  qed
  then show "io_unref H r s = Some s' \<Longrightarrow> R s s'" by blast
qed

lemma drop_timer: "drop_deferWriteTimer H c t s = Some s' \<Longrightarrow> R s s'"
  unfolding drop_deferWriteTimer_def bind_Some_conv
  by (auto dest!: unref elim!: right [OF left] simp: keeps_more)

lemma hashTableDestroy: "tgeniochild_hashTableDestroy H c s = Some s' \<Longrightarrow> R s s'"
  unfolding tgeniochild_hashTableDestroy_def bind_Some_conv
  by (auto split: option.splits dest!: unref drop_timer intro: trans)

lemma destroys: "destroy_all H cs s = Some s' \<Longrightarrow> R s s'"
  by (induction cs arbitrary: s) (auto simp: bind_Some_conv refl dest!: hashTableDestroy intro: trans)

lemma free: "tgenio_free H s = Some s' \<Longrightarrow> R s s'"
  unfolding tgenio_free_def g_assert_bind_eq_Some by (auto dest!: destroys elim!: left)

lemma io_release: "tgenio_unref H s = Some s' \<Longrightarrow> R s s'"
  unfolding tgenio_unref_def Let_def by (auto split: if_splits dest!: free elim!: left intro: same)

lemma table_remove: "table_remove H d s = Some s' \<Longrightarrow> R s s'"
  unfolding table_remove_def by (auto split: option.splits dest!: hashTableDestroy elim!: left intro: refl)

lemma deregister: "tgenio_deregister H d s = Some s' \<Longrightarrow> R s s'"
proof -
  have step: "R s s'"
    if IH: "\<And>d s s'. dereg H d s = Some s' \<Longrightarrow> R s s'"
      and eq: "(let s1 = snd (epoll_ctl EPOLL_CTL_DEL d {} s)
        in do { s2 \<leftarrow> (case io_children s1 d of None \<Rightarrow> Some s1
              | Some c \<Rightarrow> heap_child s1 c \<bind> (\<lambda>ch. case ch_deferWriteTimer ch of None \<Rightarrow> Some s1
                  | Some t \<Rightarrow> heap_timer s1 t \<bind> (\<lambda>ti. drop_deferWriteTimer H c t s1 \<bind>
                      dereg H (tgentimer_getDescriptor ti))));
             table_remove H d s2 }) = Some s'"
    for dereg d s s'
  proof -
  let ?s1 = "snd (epoll_ctl EPOLL_CTL_DEL d {} s)"
  from eq obtain s2 where
    s2: "(case io_children ?s1 d of None \<Rightarrow> Some ?s1
          | Some c \<Rightarrow> heap_child ?s1 c \<bind> (\<lambda>ch. case ch_deferWriteTimer ch of None \<Rightarrow> Some ?s1
              | Some t \<Rightarrow> heap_timer ?s1 t \<bind> (\<lambda>ti. drop_deferWriteTimer H c t ?s1 \<bind>
                  (\<lambda>s'. dereg H (tgentimer_getDescriptor ti) s')))) = Some s2"
    and rest: "table_remove H d s2 = Some s'"
    by (auto simp: Let_def bind_Some_conv)
  have "R ?s1 s2"
    using s2 by (auto simp: bind_Some_conv split: option.splits dest!: drop_timer IH intro: trans refl)
  then have "R ?s1 s'" using table_remove [OF rest] by (rule trans)
  then show ?thesis by (rule left) (simp add: keeps_more)
  qed
  have "H' = H \<longrightarrow> R s s'" if "tgenio_deregister H' d s = Some s'" for H' d s s'
  proof (rule tgenio_deregister.raw_induct [where P = "\<lambda>H' d s s'. H' = H \<longrightarrow> R s s'", OF _ that], goal_cases)
    case (1 dereg H' d s s')
    then show ?case using step [of dereg d s s'] by blast
  qed
  then show "tgenio_deregister H d s = Some s' \<Longrightarrow> R s s'" by blast
qed

lemma register:
  assumes "tgenio_register H d b x s = Some (ok, s')"
  shows "R s s'"
proof -
  from assms obtain s1 where
    s1: "(case io_children s d of None \<Rightarrow> Some s | Some _ \<Rightarrow> tgenio_deregister H d s) = Some s1"
    and add: "(case epoll_ctl EPOLL_CTL_ADD d {EPOLLIN, EPOLLOUT} s1 of (ok, s2) \<Rightarrow>
          if \<not> ok then Some (False, s2)
          else do {
            let c = heap_next s2;
            let s3 = set_child c (tgeniochild_new d {EPOLLIN, EPOLLOUT} b x) (s2\<lparr>heap_next := c + 1\<rparr>);
            let old = io_children s3 d;
            let s4 = s3\<lparr>io_children := (io_children s3)(d \<mapsto> c)\<rparr>;
            s5 \<leftarrow> (case old of None \<Rightarrow> Some s4 | Some c0 \<Rightarrow> tgeniochild_hashTableDestroy H c0 s4);
            Some (True, s5)
          }) = Some (ok, s')"
    by (auto simp: tgenio_register_def bind_Some_conv Let_def)
  have "R s s1" using s1 refl by (cases "io_children s d") (auto dest: deregister)
  moreover have "R s1 s'"
  proof -
    obtain ok' s2 where s2: "epoll_ctl EPOLL_CTL_ADD d {EPOLLIN, EPOLLOUT} s1 = (ok', s2)" by fastforce
    then have m2: "tgenio.more s1 = tgenio.more s2" using more_epoll_ctl [of EPOLL_CTL_ADD d _ s1] by (metis snd_conv)
    show ?thesis
      using add unfolding s2
      by (auto simp: Let_def bind_Some_conv m2 keeps_more split: if_splits option.splits dest!: hashTableDestroy
          intro: same elim!: left)
  qed
  ultimately show ?thesis by (rule trans)
qed

lemma setDeferTimer:
  assumes "tgenio_setDeferTimer H c m s = Some s'"
  shows "R s s'"
proof -
  from assms obtain ch where ch: "heap_child s c = Some ch" by (auto simp: tgenio_setDeferTimer_def bind_Some_conv)
  show ?thesis
  proof (cases "ch_deferWriteTimer ch")
    case (Some t)
    with assms ch show ?thesis
      by (auto simp: tgenio_setDeferTimer_def bind_Some_conv keeps_more intro!: same)
  next
    case None
    with assms ch obtain s1 where s1: "tgeniochild_ref c s = Some s1"
      by (auto simp: tgenio_setDeferTimer_def bind_Some_conv)
    obtain r s2 where "tgentimer_new (word_of_int m) False (Some (DeferExpired c :: 'c timer_target)) s1 = (r, s2)" by fastforce
    with assms ch s1 None obtain ti ch1 ok where s2: "tgentimer_new (word_of_int m) False (Some (DeferExpired c)) s1 = (Some ti, s2)"
      and ch1: "heap_child s2 c = Some ch1"
      and reg: "tgenio_register H (tgentimer_getDescriptor ti) False (DTimer (heap_next s2))
          (set_child c (ch1\<lparr>ch_deferWriteTimer := Some (heap_next s2)\<rparr>)
             (s2\<lparr>heap_next := heap_next s2 + 1, heap_timer := (heap_timer s2)(heap_next s2 \<mapsto> tgentimer_ref ti)\<rparr>)) = Some (ok, s')"
      by (cases r) (auto simp: tgenio_setDeferTimer_def bind_Some_conv Let_def)
    show ?thesis
      by (rule left [OF register [OF reg]]) (simp add: keeps_more more_child_ref [OF s1] more_timer_new [OF s2])
  qed
qed

end

section \<open>Handling events\<close>

locale io_events = io_release H R
  for H :: "('c, 'o, 'z) handlers"
    and R :: "('c, 'o, 'z) tgenio_scheme \<Rightarrow> ('c, 'o, 'z) tgenio_scheme \<Rightarrow> bool" +
  assumes notify: "hd_notify H x d ev s = Some (r, s') \<Longrightarrow> R s s'"
    and timeout: "hd_timeout H x d s = Some (b, s') \<Longrightarrow> R s s'"
    and user_timer: "hd_timer H u s = Some (b, s') \<Longrightarrow> R s s'"
begin

lemma timer_called: "timer_call H target s = Some (b, s') \<Longrightarrow> R s s'"
  by (cases target) (auto simp: timer_call_def dest: more_expired intro: same [OF sym] user_timer)

lemma timer_event:
  assumes "tgentimer_onEvent (timer_call H) t d ev s = Some (r, s')"
  shows "R s s'"
proof -
  obtain e q where q: "pop None (k_timer_read s) = (e, q)" by fastforce
  show ?thesis
    using assms unfolding tgentimer_onEvent_def q
    by (auto simp: Let_def bind_Some_conv keeps_more split: if_splits prod.splits dest!: timer_called
        intro: same elim!: right [OF left] left)
qed

lemma notified: "child_notify H data d ev s = Some (r, s') \<Longrightarrow> R s s'"
  by (cases data) (auto simp: child_notify_def bind_Some_conv dest: timer_event notify)

lemma helper:
  assumes "tgenio_helper H c i out dn s = Some s'"
  shows "R s s'"
proof -
  from assms obtain ch where ch: "heap_child s c = Some ch" by (auto simp: tgenio_helper_def bind_Some_conv)
  let ?ready = "(if i then {EV_READ} else {}) \<union> (if out then {EV_WRITE} else {}) \<union> (if dn then {EV_DONE} else {})"
  from assms ch obtain r s1 where s1: "child_notify H (ch_data ch) (ch_descriptor ch) ?ready s = Some (r, s1)"
    by (auto simp: tgenio_helper_def bind_Some_conv Let_def)
  from assms ch s1 obtain ch1 where ch1: "heap_child s1 c = Some ch1"
    by (auto simp: tgenio_helper_def bind_Some_conv Let_def)
  have "R s1 s'"
  proof (cases "dn \<or> EV_DONE \<in> ir_events r")
    case True
    with assms ch s1 ch1 have "tgenio_deregister H (ch_descriptor ch1) s1 = Some s'"
      by (auto simp: tgenio_helper_def Let_def)
    then show ?thesis by (rule deregister)
  next
    case False
    obtain now s'' where t: "kern_time s1 = (now, s'')" by fastforce
    then have m: "tgenio.more s1 = tgenio.more s''" using more_time [of s1] by (metis snd_conv)
    show ?thesis
      using assms ch s1 ch1 False t
      by (auto simp: tgenio_helper_def Let_def bind_Some_conv m split: if_splits
          dest!: more_sync setDeferTimer intro: same elim!: around)
  qed
  with notified [OF s1] show ?thesis by (rule trans)
qed

lemma handled: "handle_events H evs s = Some s' \<Longrightarrow> R s s'"
proof (induction evs arbitrary: s)
  case (Cons e evs)
  then show ?case
    by (cases e) (auto simp: bind_Some_conv split: option.splits dest: helper deregister intro: trans)
qed (simp add: refl)

lemma loopOnce: "tgenio_loopOnce H n s = Some (k, s') \<Longrightarrow> R s s'"
  unfolding tgenio_loopOnce_def
  by (auto simp: Let_def bind_Some_conv split: prod.splits sum.splits dest!: handled intro: same elim!: left)

lemma collect: "collect_timeouts H cs q s = Some (q', s') \<Longrightarrow> R s s'"
proof (induction cs arbitrary: q s)
  case (Cons c cs)
  then show ?case
    by (auto simp: bind_Some_conv split: bool.splits child_data.splits if_splits dest: timeout intro: trans)
qed (simp add: refl)

lemma deregisters: "deregister_all H ds s = Some s' \<Longrightarrow> R s s'"
  by (induction ds arbitrary: s) (auto simp: bind_Some_conv refl dest!: deregister intro: trans)

lemma checkTimeouts: "tgenio_checkTimeouts H s = Some s' \<Longrightarrow> R s s'"
  unfolding tgenio_checkTimeouts_def by (auto simp: bind_Some_conv dest!: collect deregisters intro: trans)

end

end
