(* ===== verification/Accounting.thy ===== *)
theory Accounting
  imports Driver IOFrame StreamRun
begin

text \<open>
  What the statistics count: the streams that are open, and for each generator the streams it made. The
  invariant \<open>balanced\<close> relates the counters of the driver and of the generators to the connections in the
  heap; \<open>rel\<close> says what a piece of the program may do to the state. Here are the steps that a function
  takes on the state itself; the functions follow in \<open>AccountingRun\<close>.
\<close>

section \<open>Counting in a heap\<close>

definition count_in :: "(nat \<rightharpoonup> 'v) \<Rightarrow> ('v \<Rightarrow> bool) \<Rightarrow> nat" where
  "count_in m P = card {a. \<exists>v. m a = Some v \<and> P v}"

lemma count_finite: "finite (dom m) \<Longrightarrow> finite {a. \<exists>v. m a = Some v \<and> P v}"
  by (rule finite_subset [of _ "dom m"]) auto

lemma count_delete:
  assumes "finite (dom m)" "m a = Some u"
  shows "count_in m P = count_in (m(a := None)) P + of_bool (P u)"
proof -
  let ?A = "{b. \<exists>v. m b = Some v \<and> P v}" and ?B = "{b. \<exists>v. (m(a := None)) b = Some v \<and> P v}"
  have fin: "finite ?B" by (rule finite_subset [OF _ assms(1)]) (auto split: if_splits)
  have "?A = (if P u then insert a ?B else ?B)" using assms(2) by (auto split: if_splits)
  moreover have "a \<notin> ?B" by simp
  ultimately show ?thesis unfolding count_in_def using fin by simp
qed

lemma count_insert:
  assumes "finite (dom m)" "m a = None"
  shows "count_in (m(a \<mapsto> v)) P = count_in m P + of_bool (P v)"
proof -
  have "(m(a \<mapsto> v))(a := None) = m" using assms(2) by (simp add: fun_eq_iff)
  with count_delete [of "m(a \<mapsto> v)" a v P] assms(1) show ?thesis by simp
qed

lemma count_update:
  assumes "finite (dom m)" "m a = Some u"
  shows "count_in (m(a \<mapsto> v)) P + of_bool (P u) = count_in m P + of_bool (P v)"
  using count_delete [of "m(a \<mapsto> v)" a v P] count_delete [OF assms, of P] assms(1) by simp

section \<open>The invariant\<close>

definition is_open :: "conn \<Rightarrow> bool" where
  "is_open c \<longleftrightarrow> st_notifyFunc (cn_stream c)"

text \<open>The open streams, and those of one generator.\<close>

definition open_streams :: "process \<Rightarrow> nat" where
  "open_streams p = count_in (p_conns p) is_open"

definition kids :: "process \<Rightarrow> nat \<Rightarrow> nat" where
  "kids p b = count_in (p_conns p) (\<lambda>c. is_open c \<and> cn_target c = ToGenerator b)"

text \<open>
  What is on its way: the flags of a notification that the driver has not counted, the streams each
  generator has made and not counted, and the generator that has not counted a completion.
\<close>

type_synonym pending = "notify_flag set \<times> (nat \<Rightarrow> nat) \<times> nat option"

definition bounded :: "(nat \<Rightarrow> nat) \<Rightarrow> process \<Rightarrow> bool" where
  "bounded \<delta> p \<longleftrightarrow> finite (dom (p_conns p)) \<and>
     (\<forall>a. p_next p \<le> a \<longrightarrow> p_conns p a = None \<and> p_generators p a = None \<and> \<delta> a = 0)"

definition stats_ok :: "notify_flag set \<Rightarrow> nat \<Rightarrow> nat \<Rightarrow> stats \<Rightarrow> bool" where
  "stats_ok k open_now limit t \<longleftrightarrow>
     (let created = unat (stat_StreamCreated t) + of_bool (STREAM_CREATED \<in> k)
      in unat (stat_StreamSuccess t) + unat (stat_StreamError t) + open_now + of_bool (STREAM_COMPLETE \<in> k) \<le> created \<and>
         created \<le> limit)"

definition driver_ok :: "notify_flag set \<Rightarrow> process \<Rightarrow> bool" where
  "driver_ok k p \<longleftrightarrow> (\<forall>d. p_driver p = Some d \<longrightarrow> stats_ok k (open_streams p) (p_next p) (dr_total d))"

definition stream_mode :: "generator \<Rightarrow> bool" where
  "stream_mode g \<longleftrightarrow> gn_streamOptions g \<noteq> None"

definition counts_ok :: "nat \<Rightarrow> nat \<Rightarrow> nat \<Rightarrow> nat \<Rightarrow> generator \<Rightarrow> bool" where
  "counts_ok made completing kids_now limit g \<longleftrightarrow>
     (stream_mode g \<longrightarrow> gn_flowOptions g = None \<and>
        kids_now + unat (gn_numCompleted g) + completing \<le> unat (gn_numGenerated g) + made \<and>
        unat (gn_numGenerated g) + made \<le> limit)"

definition generator_ok :: "(nat \<Rightarrow> nat) \<Rightarrow> nat option \<Rightarrow> process \<Rightarrow> nat \<Rightarrow> generator \<Rightarrow> bool" where
  "generator_ok \<delta> e p a g \<longleftrightarrow> counts_ok (\<delta> a) (of_bool (e = Some a)) (kids p a) (p_next p) g \<and>
     (\<forall>b. gn_target g = ToGenerator b \<longrightarrow> b < p_next p \<and> (\<forall>h. p_generators p b = Some h \<longrightarrow> \<not> stream_mode h))"

definition conn_ok :: "process \<Rightarrow> conn \<Rightarrow> bool" where
  "conn_ok p c \<longleftrightarrow> (\<forall>b. cn_target c = ToGenerator b \<longrightarrow> b < p_next p)"

fun balanced :: "pending \<Rightarrow> process \<Rightarrow> bool" where
  "balanced (k, \<delta>, e) p \<longleftrightarrow> bounded \<delta> p \<and> driver_ok k p \<and>
     (\<forall>a g. p_generators p a = Some g \<longrightarrow> generator_ok \<delta> e p a g) \<and>
     (\<forall>a c. p_conns p a = Some c \<longrightarrow> conn_ok p c)"

declare balanced.simps [simp del]

definition idle :: "(nat \<Rightarrow> nat) \<Rightarrow> pending" where
  "idle \<delta> = ({}, \<delta>, None)"

text \<open>The client has ended; the generators the walk over the graph started; those that were there before.\<close>

definition client_ended :: "process \<Rightarrow> bool" where
  "client_ended p \<longleftrightarrow> (case p_driver p of None \<Rightarrow> True | Some d \<Rightarrow> dr_clientHasEnded d)"

definition walk_generators :: "process \<Rightarrow> nat set" where
  "walk_generators p = {a. \<exists>g. p_generators p a = Some g \<and> gn_target g = ToDriver}"

definition inherits :: "process \<Rightarrow> process \<Rightarrow> bool" where
  "inherits p p' \<longleftrightarrow> p_next p \<le> p_next p' \<and>
     (\<forall>a g'. a < p_next p \<longrightarrow> p_generators p' a = Some g' \<longrightarrow>
        (\<exists>g. p_generators p a = Some g \<and> stream_mode g = stream_mode g' \<and> gn_target g = gn_target g'))"

definition phased :: "process \<Rightarrow> bool" where
  "phased p \<longleftrightarrow> (\<forall>a c. p_conns p a = Some c \<longrightarrow> phase_ok (cn_stream c))"

text \<open>
  From \<open>p\<close> with \<open>x\<close> on its way to \<open>p'\<close> with \<open>y\<close>. Only the walk (\<open>w\<close>) may start generators for the
  driver. The counters have 32 bits, so the invariant needs that fewer objects than that were made.
\<close>

definition rel :: "bool \<Rightarrow> pending \<Rightarrow> process \<Rightarrow> pending \<Rightarrow> process \<Rightarrow> bool" where
  "rel w x p y p' \<longleftrightarrow>
     (phased p \<longrightarrow> phased p' \<and> inherits p p' \<and>
        (client_ended p \<longrightarrow> client_ended p' \<and> (w \<or> walk_generators p' \<subseteq> walk_generators p)) \<and>
        (p_driver p = None \<longrightarrow> p_driver p' = None) \<and>
        (p_next p' < 2 ^ 32 \<longrightarrow> balanced x p \<longrightarrow> balanced y p'))"

lemma rel_phased: "(phased p \<Longrightarrow> rel w x p y p') \<Longrightarrow> rel w x p y p'"
  by (simp add: rel_def)

lemma inherits_trans: "inherits p p1 \<Longrightarrow> inherits p1 p2 \<Longrightarrow> inherits p p2"
  unfolding inherits_def
  by (metis (no_types, lifting) le_trans less_le_trans)

lemma inherits_next: "inherits p p' \<Longrightarrow> p_next p' < n \<Longrightarrow> p_next p < n"
  by (simp add: inherits_def)

lemma rel_trans [trans]:
  assumes "rel w x p y p1" "rel w y p1 z p2"
  shows "rel w x p z p2"
proof (rule rel_phased)
  assume "phased p"
  with assms have i: "inherits p p1" "inherits p1 p2" "phased p1" "phased p2" by (simp_all add: rel_def)
  have "client_ended p \<longrightarrow> client_ended p2 \<and> (w \<or> walk_generators p2 \<subseteq> walk_generators p)"
    using assms i \<open>phased p\<close> unfolding rel_def by blast
  moreover have "p_next p2 < 2 ^ 32 \<longrightarrow> balanced x p \<longrightarrow> balanced z p2"
    using assms i \<open>phased p\<close> inherits_next [OF i(2)] by (simp add: rel_def)
  moreover have "p_driver p = None \<longrightarrow> p_driver p2 = None" using assms i \<open>phased p\<close> by (simp add: rel_def)
  ultimately show ?thesis using inherits_trans [OF i(1,2)] i by (simp add: rel_def)
qed

lemma rel_walk: "rel w x p y p' \<Longrightarrow> rel True x p y p'"
  by (auto simp: rel_def)

lemma rel_not_ended: "rel True x p y p' \<Longrightarrow> \<not> client_ended p \<Longrightarrow> rel w x p y p'"
  by (auto simp: rel_def)

section \<open>Steps\<close>

text \<open>Nothing else of the state matters.\<close>

definition core :: "process \<Rightarrow> driver option \<times> (nat \<rightharpoonup> generator) \<times> (nat \<rightharpoonup> conn) \<times> nat" where
  "core p = (p_driver p, p_generators p, p_conns p, p_next p)"

lemma core_eq:
  "core p = core p' \<longleftrightarrow> p_driver p = p_driver p' \<and> p_generators p = p_generators p' \<and> p_conns p = p_conns p' \<and> p_next p = p_next p'"
  by (simp add: core_def)

lemma same_counts:
  assumes "p_conns p = p_conns p'"
  shows "open_streams p = open_streams p'" "kids p = kids p'"
  using assms by (auto simp: open_streams_def kids_def)

lemma balanced_core:
  assumes "core p = core p'"
  shows "balanced x p = balanced x p'"
proof (cases x)
  case (fields k \<delta> e)
  from assms have eq: "p_driver p = p_driver p'" "p_generators p = p_generators p'" "p_conns p = p_conns p'" "p_next p = p_next p'"
    by (simp_all add: core_eq)
  have "bounded \<delta> p = bounded \<delta> p'" "driver_ok k p = driver_ok k p'" "generator_ok \<delta> e p = generator_ok \<delta> e p'"
    "conn_ok p = conn_ok p'"
    using eq same_counts [OF eq(3)] by (auto intro!: ext simp: bounded_def driver_ok_def generator_ok_def conn_ok_def)
  then show ?thesis by (simp add: fields balanced.simps eq)
qed

lemma rel_core: "core p = core p' \<Longrightarrow> rel w x p x p'"
  using balanced_core [of p p' x] by (simp add: core_eq rel_def client_ended_def walk_generators_def inherits_def phased_def)

lemma rel_refl [simp]: "rel w x p x p"
  by (rule rel_core) simp

lemma core_more: "tgenio.more p = tgenio.more p' \<Longrightarrow> core p = core p'"
  by (cases p; cases p') (simp add: core_def)

lemma rel_more: "tgenio.more p = tgenio.more p' \<Longrightarrow> rel w x p x p'"
  by (intro rel_core core_more)

text \<open>The driver: its counters move with what was on its way, and its client does not come back.\<close>

lemma rel_driver:
  assumes d: "p_driver p = Some d"
    and ended: "dr_clientHasEnded d \<longrightarrow> dr_clientHasEnded d'"
    and stats: "\<And>n l. l < 2 ^ 32 \<Longrightarrow> stats_ok k n l (dr_total d) \<Longrightarrow> stats_ok k' n l (dr_total d')"
  shows "rel w (k, \<delta>, e) p (k', \<delta>, e) (p\<lparr>p_driver := Some d'\<rparr>)"
proof -
  let ?p = "p\<lparr>p_driver := Some d'\<rparr>"
  have "open_streams ?p = open_streams p" "kids ?p = kids p" by (rule same_counts; simp)+
  then have "p_next p < 2 ^ 32 \<Longrightarrow> balanced (k, \<delta>, e) p \<Longrightarrow> balanced (k', \<delta>, e) ?p"
    using d stats [of "p_next p" "open_streams p"]
    by (simp add: balanced.simps bounded_def driver_ok_def generator_ok_def conn_ok_def)
  then show ?thesis using d ended by (auto simp: rel_def inherits_def client_ended_def walk_generators_def phased_def)
qed

lemma upd_driver_Some: "upd_driver f p = Some p' \<longleftrightarrow> (\<exists>d. p_driver p = Some d \<and> p' = p\<lparr>p_driver := Some (f d)\<rparr>)"
  by (auto simp: upd_driver_def bind_Some_conv)

lemma upd_driver_rel:
  assumes "upd_driver f p = Some p'"
    and "\<And>d. dr_total (f d) = dr_total d \<or> (\<exists>r s. dr_total (f d) = add_bytes r s (dr_total d))"
    and "\<And>d. dr_clientHasEnded d \<longrightarrow> dr_clientHasEnded (f d)"
  shows "rel w x p x p'"
proof -
  from assms(1) obtain d where d: "p_driver p = Some d" "p' = p\<lparr>p_driver := Some (f d)\<rparr>" by (auto simp: upd_driver_Some)
  have "stats_ok k n l (dr_total (f d)) = stats_ok k n l (dr_total d)" for k n l
    using assms(2) [of d] by (auto simp: stats_ok_def add_bytes_def)
  then show ?thesis using rel_driver [OF d(1)] assms(3) d(2) by (cases x) auto
qed

lemma u64_incr: "unat n < 2 ^ 32 \<Longrightarrow> unat (n + 1 :: u64) = unat n + 1"
  by (subst unat_add_lem [THEN iffD1]) auto

lemma u32_incr: "unat n < 2 ^ 32 - 1 \<Longrightarrow> unat (n + 1 :: u32) = unat n + 1"
  by (subst unat_add_lem [THEN iffD1]) auto

lemma count_flags_ok:
  assumes "l < 2 ^ 32" "stats_ok k n l t" "STREAM_CREATED \<notin> k \<or> STREAM_COMPLETE \<notin> k"
  shows "stats_ok {} n l (count_flags k t)"
  using assms u64_incr [of "stat_StreamCreated t"] u64_incr [of "stat_StreamSuccess t"] u64_incr [of "stat_StreamError t"]
  by (auto simp: stats_ok_def count_flags_def incr_def Let_def split: if_splits)

text \<open>A generator.\<close>

lemma rel_generator:
  assumes g: "p_generators p a = Some g" and same: "stream_mode g' = stream_mode g" "gn_target g' = gn_target g"
    and other: "\<And>b. b \<noteq> a \<Longrightarrow> \<delta>' b = \<delta> b \<and> (e' = Some b \<longrightarrow> e = Some b)" and less: "\<delta>' a \<le> \<delta> a"
    and counts: "\<And>n l. l < 2 ^ 32 \<Longrightarrow> counts_ok (\<delta> a) (of_bool (e = Some a)) n l g \<Longrightarrow>
      counts_ok (\<delta>' a) (of_bool (e' = Some a)) n l g'"
  shows "rel w (k, \<delta>, e) p (k, \<delta>', e') (set_generator a g' p)"
proof -
  let ?p = "set_generator a g' p"
  have p: "p_driver ?p = p_driver p" "p_conns ?p = p_conns p" "p_next ?p = p_next p" "p_generators ?p = (p_generators p)(a \<mapsto> g')"
    by (simp_all add: set_generator_def)
  have c: "open_streams ?p = open_streams p" "kids ?p = kids p" using same_counts [OF p(2)] by simp_all
  have "balanced (k, \<delta>', e') ?p" if l: "p_next p < 2 ^ 32" and b: "balanced (k, \<delta>, e) p"
  proof -
    have "bounded \<delta>' ?p"
      using b g less other unfolding balanced.simps bounded_def p
      by (metis fun_upd_apply le_zero_eq option.distinct(1))
    moreover have "generator_ok \<delta>' e' ?p c h" if "p_generators ?p c = Some h" for c h
    proof -
      from that consider "c = a" "h = g'" | "c \<noteq> a" "p_generators p c = Some h" by (auto simp: p split: if_splits)
      then have "counts_ok (\<delta>' c) (of_bool (e' = Some c)) (kids p c) (p_next p) h"
      proof cases
        case 1
        with b g have "counts_ok (\<delta> a) (of_bool (e = Some a)) (kids p a) (p_next p) g" by (auto simp: balanced.simps generator_ok_def)
        with counts [OF l] 1 show ?thesis by simp
      next
        case 2
        with b have "counts_ok (\<delta> c) (of_bool (e = Some c)) (kids p c) (p_next p) h" by (auto simp: balanced.simps generator_ok_def)
        with other [OF 2(1)] show ?thesis by (auto simp: counts_ok_def)
      qed
      moreover have "gn_target h = ToGenerator b \<longrightarrow> b < p_next p \<and> (\<forall>h. p_generators ?p b = Some h \<longrightarrow> \<not> stream_mode h)" for b
        using b g same that by (auto simp: balanced.simps generator_ok_def p split: if_splits)
      ultimately show ?thesis by (simp add: generator_ok_def c p)
    qed
    ultimately show ?thesis using b by (simp add: balanced.simps driver_ok_def conn_ok_def c p)
  qed
  moreover have "inherits p ?p" using g same by (auto simp: inherits_def p)
  moreover have "walk_generators ?p = walk_generators p" using g same by (auto simp: walk_generators_def p)
  ultimately show ?thesis by (simp add: rel_def client_ended_def phased_def p)
qed

lemma rel_delete_generator: "rel w x p x (p\<lparr>p_generators := (p_generators p)(a := None)\<rparr>)"
proof -
  let ?p = "p\<lparr>p_generators := (p_generators p)(a := None)\<rparr>"
  have c: "open_streams ?p = open_streams p" "kids ?p = kids p" by (rule same_counts; simp)+
  have "balanced (k, \<delta>, e) p \<Longrightarrow> balanced (k, \<delta>, e) ?p" for k \<delta> e
    unfolding balanced.simps bounded_def driver_ok_def generator_ok_def conn_ok_def c by (simp split: if_splits)
  then show ?thesis by (cases x) (auto simp: rel_def client_ended_def walk_generators_def inherits_def phased_def)
qed

lemma rel_new_generator:
  assumes counts: "gn_numGenerated g = 0" "gn_numCompleted g = 0" "stream_mode g \<longrightarrow> gn_flowOptions g = None"
    and target: "\<And>b. gn_target g = ToGenerator b \<Longrightarrow> \<exists>h. p_generators p b = Some h \<and> \<not> stream_mode h"
    and walk: "gn_target g = ToDriver \<longrightarrow> w"
  shows "rel w (idle \<delta>) p (idle \<delta>) (set_generator (p_next p) g (p\<lparr>p_next := Suc (p_next p)\<rparr>))"
proof -
  let ?a = "p_next p" and ?p = "set_generator (p_next p) g (p\<lparr>p_next := Suc (p_next p)\<rparr>)"
  have p: "p_driver ?p = p_driver p" "p_conns ?p = p_conns p" "p_next ?p = p_next p + 1"
    "p_generators ?p = (p_generators p)(?a \<mapsto> g)"
    by (simp_all add: set_generator_def)
  have c: "open_streams ?p = open_streams p" "kids ?p = kids p" using same_counts [OF p(2)] by simp_all
  have "balanced (idle \<delta>) ?p" if b: "balanced (idle \<delta>) p"
  proof -
    note bs = b [unfolded idle_def balanced.simps bounded_def]
    have new: "\<delta> ?a = 0" "p_generators p ?a = None" using bs by auto
    have alive: "b < ?a" if "p_generators p b \<noteq> None" for b
      using bs that by (meson not_le)
    have "{c. \<exists>v. p_conns p c = Some v \<and> is_open v \<and> cn_target v = ToGenerator ?a} = {}"
      using bs by (fastforce simp: conn_ok_def)
    then have kids: "kids p ?a = 0" by (simp only: kids_def count_in_def card.empty)
    have "bounded \<delta> ?p" using bs by (simp add: bounded_def p)
    moreover have "driver_ok {} ?p" using bs by (auto simp: driver_ok_def c p stats_ok_def Let_def)
    moreover have "generator_ok \<delta> None ?p c h" if "p_generators ?p c = Some h" for c h
    proof (cases "c = ?a")
      case True
      with that have h: "h = g" by (simp add: p)
      have "counts_ok (\<delta> c) 0 (kids p c) (?a + 1) h" using True h kids new counts by (simp add: counts_ok_def)
      moreover have "b < ?a + 1 \<and> (\<forall>h. p_generators ?p b = Some h \<longrightarrow> \<not> stream_mode h)" if "gn_target h = ToGenerator b" for b
        using target [of b] that h new alive [of b] by (auto simp: p split: if_splits)
      ultimately show ?thesis by (simp add: generator_ok_def c p)
    next
      case False
      with that bs have old: "generator_ok \<delta> None p c h" by (simp add: p)
      then have "counts_ok (\<delta> c) 0 (kids p c) (?a + 1) h" by (auto simp: generator_ok_def counts_ok_def)
      with old show ?thesis by (auto simp: generator_ok_def c p)
    qed
    moreover have "\<forall>a c. p_conns ?p a = Some c \<longrightarrow> conn_ok ?p c" using bs by (auto simp: conn_ok_def p less_SucI)
    ultimately show ?thesis by (simp add: idle_def balanced.simps)
  qed
  moreover have "inherits p ?p" by (auto simp: inherits_def p)
  moreover have "w \<or> walk_generators ?p \<subseteq> walk_generators p" using walk by (auto simp: walk_generators_def p)
  ultimately show ?thesis by (simp add: rel_def client_ended_def phased_def p)
qed

text \<open>A connection: its state may change, it may complete, appear and go.\<close>

definition completing :: "notify_target \<Rightarrow> notify_flag set \<Rightarrow> nat option" where
  "completing target fl = (case target of ToDriver \<Rightarrow> None | ToGenerator a \<Rightarrow> if STREAM_COMPLETE \<in> fl then Some a else None)"

lemma rel_conns:
  assumes p': "p_driver p' = p_driver p" "p_generators p' = p_generators p" "p_next p \<le> p_next p'"
    and phases: "phased p \<Longrightarrow> phased p'"
    and bounded: "p_next p' < 2 ^ 32 \<Longrightarrow> balanced (k, \<delta>, e) p \<Longrightarrow> bounded \<delta>' p'"
    and open_now: "balanced (k, \<delta>, e) p \<Longrightarrow>
      open_streams p' + of_bool (STREAM_COMPLETE \<in> k') + of_bool (STREAM_CREATED \<in> k) \<le>
      open_streams p + of_bool (STREAM_COMPLETE \<in> k) + of_bool (STREAM_CREATED \<in> k')"
    and created: "of_bool (STREAM_CREATED \<in> k') + p_next p \<le> of_bool (STREAM_CREATED \<in> k) + p_next p'"
    and kids_now: "\<And>a. balanced (k, \<delta>, e) p \<Longrightarrow> kids p' a + of_bool (e' = Some a) + \<delta> a \<le> kids p a + of_bool (e = Some a) + \<delta>' a"
    and made: "\<And>a. \<delta>' a + p_next p \<le> \<delta> a + p_next p'"
    and conns: "\<And>a c. balanced (k, \<delta>, e) p \<Longrightarrow> p_conns p' a = Some c \<Longrightarrow> conn_ok p' c"
  shows "rel w (k, \<delta>, e) p (k', \<delta>', e') p'"
proof -
  have "balanced (k', \<delta>', e') p'" if l: "p_next p' < 2 ^ 32" and b: "balanced (k, \<delta>, e) p"
  proof -
    note bs = b [unfolded balanced.simps]
    have "stats_ok k' (open_streams p') (p_next p') (dr_total d)" if "p_driver p = Some d" for d
      using bs that open_now [OF b] created by (auto simp: driver_ok_def stats_ok_def Let_def)
    then have "driver_ok k' p'" by (simp add: driver_ok_def p')
    moreover have "generator_ok \<delta>' e' p' a g" if "p_generators p' a = Some g" for a g
    proof -
      from that bs have "generator_ok \<delta> e p a g" by (simp add: p')
      then show ?thesis using kids_now [OF b, of a] made [of a] p' by (auto simp: generator_ok_def counts_ok_def)
    qed
    ultimately show ?thesis using bounded [OF l b] conns [OF b] by (simp add: balanced.simps)
  qed
  with phases show ?thesis by (auto simp: rel_def inherits_def client_ended_def walk_generators_def p')
qed

lemma rel_conn_same:
  assumes c: "p_conns p a = Some c" and same: "cn_target c' = cn_target c" "is_open c' = is_open c"
    and phase: "phase_ok (cn_stream c) \<Longrightarrow> phase_ok (cn_stream c')"
  shows "rel w x p x (set_conn a c' p)"
proof (cases x)
  case (fields k \<delta> e)
  have "count_in (p_conns (set_conn a c' p)) P = count_in (p_conns p) P" if "finite (dom (p_conns p))" "P c' = P c" for P
    using count_update [OF that(1) c, of c' P] that(2) by (simp add: set_conn_def)
  then have n: "finite (dom (p_conns p)) \<Longrightarrow> open_streams (set_conn a c' p) = open_streams p"
    "finite (dom (p_conns p)) \<Longrightarrow> kids (set_conn a c' p) b = kids p b" for b
    using same by (simp_all add: open_streams_def kids_def)
  have "rel w (k, \<delta>, e) p (k, \<delta>, e) (set_conn a c' p)"
  proof (rule rel_conns)
    show "balanced (k, \<delta>, e) p \<Longrightarrow> bounded \<delta> (set_conn a c' p)"
      using c by (auto simp: balanced.simps bounded_def set_conn_def)
    show "conn_ok (set_conn a c' p) d" if "balanced (k, \<delta>, e) p" "p_conns (set_conn a c' p) b = Some d" for b d
      using that c same by (auto simp: balanced.simps conn_ok_def set_conn_def split: if_splits)
    show "phased p \<Longrightarrow> phased (set_conn a c' p)" using c phase by (auto simp: phased_def set_conn_def)
    show "p_next p \<le> p_next (set_conn a c' p)" "p_driver (set_conn a c' p) = p_driver p"
      "p_generators (set_conn a c' p) = p_generators p"
      "\<And>b. \<delta> b + p_next p \<le> \<delta> b + p_next (set_conn a c' p)"
      "of_bool (STREAM_CREATED \<in> k) + p_next p \<le> of_bool (STREAM_CREATED \<in> k) + p_next (set_conn a c' p)"
      by (simp_all add: set_conn_def)
  qed (simp_all add: n balanced.simps bounded_def)
  then show ?thesis by (simp add: fields)
qed

lemma rel_conn_done:
  assumes c: "p_conns p a = Some c" and now: "cn_target c' = cn_target c" "is_open c" "\<not> is_open c'"
    and phase: "phase_ok (cn_stream c) \<Longrightarrow> phase_ok (cn_stream c')" and k: "STREAM_COMPLETE \<in> k" "STREAM_CREATED \<notin> k"
  shows "rel w (idle \<delta>) p (k, \<delta>, completing (cn_target c) k) (set_conn a c' p)"
proof -
  have n: "count_in (p_conns (set_conn a c' p)) P + of_bool (P c) = count_in (p_conns p) P + of_bool (P c')"
    if "balanced (idle \<delta>) p" for P
    using count_update [of "p_conns p" a c c' P] c that by (simp add: set_conn_def idle_def balanced.simps bounded_def)
  show ?thesis unfolding idle_def
  proof (rule rel_conns)
    show "balanced ({}, \<delta>, None) p \<Longrightarrow> bounded \<delta> (set_conn a c' p)"
      using c by (auto simp: balanced.simps bounded_def set_conn_def)
    show "conn_ok (set_conn a c' p) d" if "balanced ({}, \<delta>, None) p" "p_conns (set_conn a c' p) b = Some d" for b d
      using that c now by (auto simp: balanced.simps conn_ok_def set_conn_def split: if_splits)
    show "phased p \<Longrightarrow> phased (set_conn a c' p)" using c phase by (auto simp: phased_def set_conn_def)
    show "open_streams (set_conn a c' p) + of_bool (STREAM_COMPLETE \<in> k) + of_bool (STREAM_CREATED \<in> {}) \<le>
      open_streams p + of_bool (STREAM_COMPLETE \<in> {}) + of_bool (STREAM_CREATED \<in> k)" if "balanced ({}, \<delta>, None) p"
      using n [of is_open, unfolded idle_def, OF that] now k by (simp add: open_streams_def)
    show "kids (set_conn a c' p) b + of_bool (completing (cn_target c) k = Some b) + \<delta> b \<le> kids p b + of_bool (None = Some b) + \<delta> b"
      if "balanced ({}, \<delta>, None) p" for b
      using n [of "\<lambda>d. is_open d \<and> cn_target d = ToGenerator b", unfolded idle_def, OF that] now k
      by (auto simp: kids_def completing_def split: notify_target.splits)
  qed (simp_all add: set_conn_def k)
qed

definition bump :: "notify_target \<Rightarrow> (nat \<Rightarrow> nat) \<Rightarrow> nat \<Rightarrow> nat" where
  "bump target \<delta> = (case target of ToDriver \<Rightarrow> \<delta> | ToGenerator a \<Rightarrow> \<delta>(a := \<delta> a + 1))"

lemma rel_conn_new:
  assumes phase: "phase_ok (cn_stream c)" and alive: "\<And>b. cn_target c = ToGenerator b \<Longrightarrow> p_generators p b \<noteq> None"
  shows "rel w (idle \<delta>) p ({STREAM_CREATED}, bump (cn_target c) \<delta>, None) (set_conn (p_next p) c (p\<lparr>p_next := Suc (p_next p)\<rparr>))"
proof -
  let ?p = "set_conn (p_next p) c (p\<lparr>p_next := Suc (p_next p)\<rparr>)"
  have p: "p_conns ?p = (p_conns p)(p_next p \<mapsto> c)" "p_next ?p = p_next p + 1" "p_generators ?p = p_generators p"
    by (simp_all add: set_conn_def)
  have n: "count_in (p_conns ?p) P = count_in (p_conns p) P + of_bool (P c)" if "balanced (idle \<delta>) p" for P
    unfolding p using that by (intro count_insert) (simp_all add: idle_def balanced.simps bounded_def)
  have small: "b < p_next p" if "balanced (idle \<delta>) p" "cn_target c = ToGenerator b" for b
    using that(1) alive [OF that(2)] by (auto simp: balanced.simps bounded_def idle_def not_le [symmetric])
  show ?thesis unfolding idle_def
  proof (rule rel_conns)
    show "bounded (bump (cn_target c) \<delta>) ?p" if "balanced ({}, \<delta>, None) p"
    proof (cases "cn_target c")
      case ToDriver
      with that show ?thesis by (simp add: balanced.simps bounded_def p bump_def)
    next
      case (ToGenerator b)
      with small [unfolded idle_def, OF that] have "b < p_next p" .
      with that ToGenerator show ?thesis by (simp add: balanced.simps bounded_def p bump_def)
    qed
    show "conn_ok ?p d" if "balanced ({}, \<delta>, None) p" "p_conns ?p b = Some d" for b d
    proof (cases "b = p_next p")
      case True
      with that(2) have "d = c" by (simp add: p)
      with small [unfolded idle_def, OF that(1)] show ?thesis by (simp add: conn_ok_def p less_SucI)
    next
      case False
      with that(2) have "p_conns p b = Some d" by (simp add: p)
      with that(1) have "conn_ok p d" by (simp add: balanced.simps)
      then show ?thesis by (simp add: conn_ok_def p less_SucI)
    qed
    show "open_streams ?p + of_bool (STREAM_COMPLETE \<in> {STREAM_CREATED}) + of_bool (STREAM_CREATED \<in> {}) \<le>
      open_streams p + of_bool (STREAM_COMPLETE \<in> {}) + of_bool (STREAM_CREATED \<in> {STREAM_CREATED})" if "balanced ({}, \<delta>, None) p"
      using n [of is_open, unfolded idle_def, OF that] by (simp add: open_streams_def)
    show "kids ?p b + of_bool (None = Some b) + \<delta> b \<le> kids p b + of_bool (None = Some b) + bump (cn_target c) \<delta> b"
      if "balanced ({}, \<delta>, None) p" for b
      using n [of "\<lambda>d. is_open d \<and> cn_target d = ToGenerator b", unfolded idle_def, OF that]
      by (auto simp: kids_def bump_def split: notify_target.splits)
    show "bump (cn_target c) \<delta> b + p_next p \<le> \<delta> b + p_next ?p" for b
      by (simp add: bump_def p split: notify_target.splits)
    show "phased p \<Longrightarrow> phased ?p" using phase by (auto simp: phased_def p)
    show "p_driver ?p = p_driver p" "p_generators ?p = p_generators p" "p_next p \<le> p_next ?p"
      "of_bool (STREAM_CREATED \<in> {STREAM_CREATED}) + p_next p \<le> of_bool (STREAM_CREATED \<in> {}) + p_next ?p"
      by (simp_all add: set_conn_def)
  qed
qed

lemma rel_conn_delete: "rel w (idle \<delta>) p (idle \<delta>) (p\<lparr>p_conns := (p_conns p)(a := None)\<rparr>)"
proof (cases "p_conns p a")
  case None
  then have "(p_conns p)(a := None) = p_conns p" by (simp add: fun_eq_iff)
  then show ?thesis by simp
next
  case (Some c)
  let ?p = "p\<lparr>p_conns := (p_conns p)(a := None)\<rparr>"
  have n: "count_in (p_conns ?p) P \<le> count_in (p_conns p) P" if "balanced (idle \<delta>) p" for P
    using count_delete [of "p_conns p" a c P] Some that by (simp add: idle_def balanced.simps bounded_def)
  show ?thesis unfolding idle_def
  proof (rule rel_conns)
    show "bounded \<delta> ?p" if "balanced ({}, \<delta>, None) p"
      using that by (simp add: balanced.simps bounded_def dom_fun_upd)
    show "conn_ok ?p d" if "balanced ({}, \<delta>, None) p" "p_conns ?p b = Some d" for b d
      using that by (auto simp: balanced.simps conn_ok_def split: if_splits)
    show "phased p \<Longrightarrow> phased ?p" by (auto simp: phased_def split: if_splits)
  qed (use n [unfolded idle_def] in \<open>auto simp: open_streams_def kids_def\<close>)
qed

text \<open>Only the flags of streams count.\<close>

lemma rel_pending:
  assumes "STREAM_CREATED \<in> k' \<longleftrightarrow> STREAM_CREATED \<in> k" "STREAM_COMPLETE \<in> k' \<longleftrightarrow> STREAM_COMPLETE \<in> k"
    and "\<And>a g. balanced (k, \<delta>, e) p \<Longrightarrow> e' = Some a \<Longrightarrow> p_generators p a = Some g \<Longrightarrow> e = Some a \<or> \<not> stream_mode g"
  shows "rel w (k, \<delta>, e) p (k', \<delta>, e') p"
proof -
  have "balanced (k', \<delta>, e') p" if b: "balanced (k, \<delta>, e) p"
  proof -
    have "counts_ok (\<delta> a) (of_bool (e' = Some a)) n l g"
      if "counts_ok (\<delta> a) (of_bool (e = Some a)) n l g" "p_generators p a = Some g" for a n l g
      using that assms(3) [OF b, of a] by (auto simp: counts_ok_def)
    with b assms(1,2) show ?thesis by (simp add: balanced.simps driver_ok_def stats_ok_def generator_ok_def)
  qed
  then show ?thesis by (simp add: rel_def inherits_def)
qed

text \<open>The second step may need what the first state was.\<close>

lemma rel_trans_if:
  assumes "rel w x p y p1" "rel w x' p1 y' p2" "phased p \<Longrightarrow> balanced x p \<Longrightarrow> rel w y p1 z p2"
  shows "rel w x p z p2"
proof (rule rel_phased)
  assume p: "phased p"
  show ?thesis
  proof (cases "balanced x p")
    case True
    then show ?thesis by (rule rel_trans [OF assms(1) assms(3) [OF p]])
  next
    case False
    from assms(1,2) p have i: "inherits p p1" "inherits p1 p2" "phased p1" "phased p2" by (simp_all add: rel_def)
    have "client_ended p \<longrightarrow> client_ended p2 \<and> (w \<or> walk_generators p2 \<subseteq> walk_generators p)"
      using assms(1,2) i p unfolding rel_def by blast
    moreover have "p_driver p = None \<longrightarrow> p_driver p2 = None" using assms(1,2) i p by (simp add: rel_def)
    ultimately show ?thesis using inherits_trans [OF i(1,2)] i False by (simp add: rel_def)
  qed
qed

lemma rel_no_driver: "rel w x p x (p\<lparr>p_graph := g, p_driver := None\<rparr>)"
proof -
  let ?p = "p\<lparr>p_graph := g, p_driver := None\<rparr>"
  have "open_streams ?p = open_streams p" "kids ?p = kids p" by (rule same_counts; simp)+
  then have "balanced (k, \<delta>, e) p \<Longrightarrow> balanced (k, \<delta>, e) ?p" for k \<delta> e
    by (simp add: balanced.simps bounded_def driver_ok_def generator_ok_def conn_ok_def)
  then show ?thesis by (cases x) (auto simp: rel_def inherits_def client_ended_def walk_generators_def phased_def)
qed

text \<open>An object of another kind.\<close>

lemma rel_next:
  assumes "p_driver p' = p_driver p" "p_generators p' = p_generators p" "p_conns p' = p_conns p" "p_next p \<le> p_next p'"
  shows "rel w x p x p'"
proof -
  have c: "open_streams p' = open_streams p" "kids p' = kids p" using same_counts [OF assms(3)] by simp_all
  have b: "bounded \<delta> p \<Longrightarrow> bounded \<delta> p'" for \<delta> using assms by (auto simp: bounded_def)
  have d: "driver_ok k p \<Longrightarrow> driver_ok k p'" for k
    using assms(1,4) by (auto simp: driver_ok_def stats_ok_def Let_def c intro: le_trans)
  have g: "generator_ok \<delta> e p a g \<Longrightarrow> generator_ok \<delta> e p' a g" for \<delta> e a g
    using assms(2,4) by (auto simp: generator_ok_def counts_ok_def c intro: le_trans)
  have "conn_ok p v \<Longrightarrow> conn_ok p' v" for v using assms(4) by (auto simp: conn_ok_def)
  with b d g have "balanced (k, \<delta>, e) p \<Longrightarrow> balanced (k, \<delta>, e) p'" for k \<delta> e
    using assms(2,3) by (simp add: balanced.simps)
  then show ?thesis
    using assms by (cases x) (auto simp: rel_def inherits_def client_ended_def walk_generators_def phased_def)
qed

end
