(* ===== verification/AccountingRun.thy ===== *)
theory AccountingRun
  imports Main_Loop Accounting
begin

text \<open>
  Every function of the process keeps its accounts. \<open>sound_runner\<close> is what a runner promises of each
  call; a runner that promises it for nested calls gives one that promises it for all calls, so the runners
  \<open>exec n\<close> do. The theorems are about whole runs of the process.
\<close>

section \<open>Functions that do not touch the accounts\<close>

named_theorems core_kept

lemma core_kernel [simp]:
  "core (kern_close fd p) = core p" "core (snd (kern_time p)) = core p" "core (tgenio_ref p) = core p"
  by (rule core_more; simp add: keeps_more)+

lemma core_update [simp]:
  "core (leave w p) = core p" "core (p\<lparr>p_graph := g\<rparr>) = core p" "core (p\<lparr>p_log := l\<rparr>) = core p"
  "core (p\<lparr>p_draws := n\<rparr>) = core p" "core (p\<lparr>p_accepts := acc\<rparr>) = core p" "core (p\<lparr>p_dials := dls\<rparr>) = core p"
  "core (p\<lparr>p_servers := svs\<rparr>) = core p" "core (p\<lparr>heap_timer := h\<rparr>) = core p" "core (p\<lparr>heap_next := hn\<rparr>) = core p"
  by (simp_all add: core_def leave_def)

lemma core_time: "kern_time p = (now, p') \<Longrightarrow> core p' = core p"
  using core_kernel(2) [of p] by simp

lemma core_random: "proc_random p = (r, p') \<Longrightarrow> core p' = core p"
  by (auto simp: proc_random_def core_eq split: prod.splits)

lemma core_draw: "draw_from pool p = (r, p') \<Longrightarrow> core p' = core p"
  by (auto simp: draw_from_def core_random split: if_splits)

lemma core_prng: "prng_next env i p = Some (r, p') \<Longrightarrow> core p' = core p"
  by (auto simp: prng_next_def bind_Some_conv core_eq Let_def prod.case_eq_if)

lemma core_seed: "pool_seed env opt p = Some (i, p') \<Longrightarrow> core p' = core p"
  by (auto simp: pool_seed_def bind_Some_conv Let_def prod.case_eq_if intro: core_draw [OF surjective_pairing])

lemma core_chars: "random_chars env i n p = Some (s, p') \<Longrightarrow> core p' = core p"
  by (induction n arbitrary: p s) (auto simp: bind_Some_conv dest!: core_prng)

lemma core_model: "createMarkovModel env a b c d p = Some (mm, p') \<Longrightarrow> core p' = core p"
  by (auto simp: createMarkovModel_def bind_Some_conv Let_def split: if_splits dest!: core_random core_seed core_prng)

lemma core_timer:
  assumes "new_user_timer micros pers u p = (t, p')"
  shows "core p' = core p"
proof -
  obtain r p1 where r: "tgentimer_new micros pers (Some (UserTimer u)) p = (r, p1)" by fastforce
  have "core p1 = core p" by (rule core_more [OF more_timer_new [OF r]])
  then show ?thesis using assms r by (cases r) (auto simp: new_user_timer_def Let_def core_def)
qed

text \<open>A new generator has counted nothing and makes either streams or flows.\<close>

definition fresh_counts :: "generator \<Rightarrow> bool" where
  "fresh_counts g \<longleftrightarrow> gn_numGenerated g = 0 \<and> gn_numCompleted g = 0 \<and> (stream_mode g \<longrightarrow> gn_flowOptions g = None)"

lemma choose_mode_core:
  assumes "choose_mode env tr fl op g p = Some (g', p')" "gn_numGenerated g = 0" "gn_numCompleted g = 0" "gn_flowOptions g = None"
  shows "core p' = core p" "fresh_counts g'"
  using assms by (auto simp: choose_mode_def bind_Some_conv fresh_counts_def stream_mode_def split: option.splits dest: core_model)

lemma auth_core:
  assumes "initSocksAuthStrings env g p = Some (g', p')"
  shows "core p' = core p" "fresh_counts g' = fresh_counts g" "gn_target g' = gn_target g"
proof -
  have "core p' = core p \<and> fresh_counts g' = fresh_counts g \<and> gn_target g' = gn_target g"
  proof (cases "gn_streamOptions g")
    case None
    with assms show ?thesis by (simp add: initSocksAuthStrings_def)
  next
    case (Some op)
    let ?first = "if isSet (op_socksAuthGenerator op)
               then do {
                 (i, p') \<leftarrow> pool_seed env (op_socksAuthGenerator op) p;
                 (randomStr, p'') \<leftarrow> random_chars env i 7 p';
                 Some (g\<lparr>gn_socksUsername := Some randomStr, gn_socksPassword := Some randomStr\<rparr>, p'')
               }
               else Some (g\<lparr>gn_socksUsername := (if isSet (op_socksUsername op) then Some (opt_value (op_socksUsername op)) else None),
                            gn_socksPassword := (if isSet (op_socksPassword op) then Some (opt_value (op_socksPassword op)) else None)\<rparr>, p)"
    from assms Some obtain g1 p1 where 1: "?first = Some (g1, p1)" by (auto simp: initSocksAuthStrings_def bind_Some_conv)
    have a: "core p1 = core p" "fresh_counts g1 = fresh_counts g" "gn_target g1 = gn_target g"
      using 1 by (auto simp: bind_Some_conv fresh_counts_def stream_mode_def split: if_splits dest!: core_seed core_chars)
    moreover have "core p' = core p1 \<and> fresh_counts g' = fresh_counts g1 \<and> gn_target g' = gn_target g1"
      using assms Some 1
      by (auto simp: initSocksAuthStrings_def bind_Some_conv fresh_counts_def stream_mode_def split: if_splits prod.splits dest!: core_draw)
    ultimately show ?thesis by simp
  qed
  then show "core p' = core p" "fresh_counts g' = fresh_counts g" "gn_target g' = gn_target g" by simp_all
qed

lemma tgendriver_ref_rel: "tgendriver_ref p = Some p' \<Longrightarrow> rel w x p x p'"
  unfolding tgendriver_ref_def by (rule upd_driver_rel) auto

lemma upd_generator_rel:
  assumes "upd_generator a f p = Some p'"
    and "\<And>g. gn_streamOptions (f g) = gn_streamOptions g \<and> gn_flowOptions (f g) = gn_flowOptions g \<and> gn_target (f g) = gn_target g \<and>
      gn_numGenerated (f g) = gn_numGenerated g \<and> gn_numCompleted (f g) = gn_numCompleted g"
  shows "rel w x p x p'"
proof -
  from assms(1) obtain g where g: "p_generators p a = Some g" "p' = set_generator a (f g) p"
    by (auto simp: upd_generator_def bind_Some_conv)
  show ?thesis unfolding g(2)
    using assms(2) [of g] by (cases x) (auto intro!: rel_generator [OF g(1)] simp: stream_mode_def counts_ok_def)
qed

lemma ref_target_rel: "ref_target target p = Some p' \<Longrightarrow> rel w x p x p'"
  by (cases target) (auto simp: ref_target_def generator_ref_def tgendriver_ref_rel intro: upd_generator_rel)

lemma deliver_bytes_rel: "deliver_bytes bs p = Some p' \<Longrightarrow> rel w x p x p'"
proof (induction bs p rule: deliver_bytes.induct)
  case (2 r s bs p)
  then obtain p1 where p1: "driver_onBytesTransferred (of_nat r) (of_nat s) p = Some p1" "deliver_bytes bs p1 = Some p'"
    by (auto simp: bind_Some_conv)
  have "rel w x p x p1"
    using p1(1) unfolding driver_onBytesTransferred_def by (rule upd_driver_rel) auto
  with 2(1) [OF p1] show ?case by (blast intro: rel_trans)
qed simp

lemma newActive_notes:
  "tgentransport_newActive db so rand peers b x u v w = (t, calls, w') \<Longrightarrow> w_app w' = w_app w"
  unfolding tgentransport_newActive_def Let_def
  by (auto split: option.splits if_splits prod.splits dest!: time_frame)

section \<open>What a call may do\<close>

definition valid_call :: "call \<Rightarrow> bool" where
  "valid_call c \<longleftrightarrow> (\<forall>target i fl. c = NotifyCB target i fl \<longrightarrow>
     STREAM_COMPLETE \<in> fl \<longrightarrow> fl \<inter> {STREAM_CREATED, FLOW_CREATED, TRAFFIC_CREATED} = {})"

text \<open>What is on its way when the call is made.\<close>

fun before :: "(nat \<Rightarrow> nat) \<Rightarrow> call \<Rightarrow> pending" where
  "before \<delta> (NotifyCB target i fl) = (fl, \<delta>, completing target fl)"
| "before \<delta> c = idle \<delta>"

lemma run_replies:
  "run_bool run c p = Some (b, p') \<longleftrightarrow> run c p = Some (Flag b, p')"
  "run_response run c p = Some (x, p') \<longleftrightarrow> run c p = Some (Response x, p')"
  by (cases "run c p"; auto simp: run_bool_def run_response_def split: reply.splits)+

abbreviation keeps :: "(nat \<Rightarrow> nat) \<Rightarrow> process \<Rightarrow> process \<Rightarrow> bool" where
  "keeps \<delta> p p' \<equiv> rel False (idle \<delta>) p (idle \<delta>) p'"

locale sound_runner =
  fixes env :: progenv and run :: runner
  assumes sound: "run c p = Some (r, p') \<Longrightarrow> valid_call c \<Longrightarrow> rel False (before \<delta> c) p (idle \<delta>) p'"
begin

lemma unit: "run_unit run c p = Some p' \<Longrightarrow> valid_call c \<Longrightarrow> rel False (before \<delta> c) p (idle \<delta>) p'"
  by (auto simp: run_unit_def dest: sound)

lemma called: "run_unit run c p = Some p' \<Longrightarrow> (\<And>target i fl. c \<noteq> NotifyCB target i fl) \<Longrightarrow> keeps \<delta> p p'"
  using unit [of c p p' \<delta>] by (cases c) (auto simp: valid_call_def)

lemma replied:
  "run_bool run c p = Some (b, p') \<Longrightarrow> (\<And>target i fl. c \<noteq> NotifyCB target i fl) \<Longrightarrow> keeps \<delta> p p'"
  "run_response run c p = Some (x, p') \<Longrightarrow> (\<And>target i fl. c \<noteq> NotifyCB target i fl) \<Longrightarrow> keeps \<delta> p p'"
  using called [of c p p' \<delta>] by (auto simp: run_replies run_unit_def)

sublocale loop: io_events "proc_handlers env run" "keeps \<delta>" for \<delta>
proof
  show "keeps \<delta> s s'" if "tgenio.more s = tgenio.more s'" for s s' by (rule rel_more [OF that])
  show "keeps \<delta> s1 s3" if "keeps \<delta> s1 s2" "keeps \<delta> s2 s3" for s1 s2 s3 using that by (rule rel_trans)
qed (auto simp: proc_handlers_def dest: called replied)

section \<open>Connections\<close>

lemma release_transport: "transport_release run t p = Some p' \<Longrightarrow> keeps \<delta> p p'"
  unfolding transport_release_def Let_def
  by (auto split: option.splits if_splits dest!: called [where \<delta> = \<delta>] intro: rel_core elim!: rel_trans [OF rel_core, rotated])

lemma destroy_conn:
  assumes "conn_unref run a p = Some p'"
  shows "keeps \<delta> p p'"
proof -
  from assms obtain c where c: "p_conns p a = Some c" by (auto simp: conn_unref_def bind_Some_conv)
  show ?thesis
  proof (cases "tgenstream_unref (cn_stream c)")
    case (Some s)
    then have "is_open (c\<lparr>cn_stream := s\<rparr>) = is_open c" "phase_ok s = phase_ok (cn_stream c)"
      by (auto simp: tgenstream_unref_def Let_def is_open_def phase_ok_def split: if_splits)
    then show ?thesis using assms c Some by (auto simp: conn_unref_def intro!: rel_conn_same [OF c])
  next
    case None
    with assms c obtain p1 p2 where p1: "run_unit run (ReleaseTarget (cn_target c)) p = Some p1"
      and p2: "(case st_transport (cn_stream c) of None \<Rightarrow> Some p1 | Some t \<Rightarrow> transport_release run t p1) = Some p2"
      and p': "p' = p2\<lparr>p_conns := (p_conns p2)(a := None)\<rparr>"
      by (auto simp: conn_unref_def bind_Some_conv)
    have "keeps \<delta> p p1" using called [OF p1] by simp
    also have "keeps \<delta> p1 p2" using p2 by (auto split: option.splits dest: release_transport)
    finally show ?thesis unfolding p' using rel_conn_delete by (rule rel_trans)
  qed
qed

lemma settled:
  assumes "settle run a s w p = Some p'" "p_conns p a = Some c"
    and handled: "phase_ok (cn_stream c) \<Longrightarrow> handled (cn_stream c) (enter p (cn_world c)) s w"
  shows "keeps \<delta> p p'"
proof (rule rel_phased)
  assume "phased p"
  then have "phase_ok (cn_stream c)" using assms(2) by (simp add: phased_def)
  note effect = handled_effect [OF handled [OF this] this]
  let ?c = "c\<lparr>cn_stream := s, cn_world := w\<rparr>" and ?k = "\<lambda>b. if b then {STREAM_COMPLETE, STREAM_SUCCESS} else {STREAM_COMPLETE}"
  from assms obtain p1 where p1: "deliver_bytes (w_bytesCB w) (leave w (set_conn a ?c p)) = Some p1"
    and p': "deliver_notes run (cn_target c) (a_notes (w_app w)) p1 = Some p'"
    by (auto simp: settle_def bind_Some_conv)
  have rest: "rel v x (set_conn a ?c p) x p1" for v x
    by (rule rel_trans [OF rel_core deliver_bytes_rel [OF p1]]) simp
  from effect(2) consider (same) "st_notifyFunc s = st_notifyFunc (cn_stream c)" "a_notes (w_app w) = []"
    | (finished) b where "st_notifyFunc (cn_stream c)" "\<not> st_notifyFunc s" "a_notes (w_app w) = [(st_actionID (cn_stream c), ?k b)]"
    by (auto simp: reports_step_def enter_def split: if_splits)
  then show "keeps \<delta> p p'"
  proof cases
    case same
    have "keeps \<delta> p (set_conn a ?c p)"
      using same effect(1) by (intro rel_conn_same [OF assms(2)]) (simp_all add: is_open_def)
    also have "keeps \<delta> (set_conn a ?c p) p'" using rest [of False "idle \<delta>"] p' same(2) by simp
    finally show ?thesis .
  next
    case (finished b)
    have "rel False (idle \<delta>) p (?k b, \<delta>, completing (cn_target c) (?k b)) (set_conn a ?c p)"
      using finished effect(1) by (intro rel_conn_done [OF assms(2)]) (simp_all add: is_open_def)
    also have "rel False (?k b, \<delta>, completing (cn_target c) (?k b)) (set_conn a ?c p) (?k b, \<delta>, completing (cn_target c) (?k b)) p1"
      by (rule rest)
    also have "rel False (?k b, \<delta>, completing (cn_target c) (?k b)) p1 (idle \<delta>) p'"
      using p' finished(3) unit [of "NotifyCB (cn_target c) (st_actionID (cn_stream c)) (?k b)" p1 p' \<delta>]
      by (simp add: bind_Some_conv valid_call_def split: if_splits)
    finally show ?thesis .
  qed
qed

lemma conn_event: "conn_onEvent env run a ev p = Some (r, p') \<Longrightarrow> keeps \<delta> p p'"
  by (auto simp: conn_onEvent_def bind_Some_conv intro!: settled intro: stream_onEvent_handled)

lemma conn_timeout: "conn_onCheckTimeout env run a p = Some (r, p') \<Longrightarrow> keeps \<delta> p p'"
  by (auto simp: conn_onCheckTimeout_def bind_Some_conv intro!: settled intro: onCheckTimeout_handled)

text \<open>A new stream for a generator is one the generator has not counted yet.\<close>

lemma new_conn:
  assumes "conn_new env run i op mm t target w p = Some (a, p')" "a_notes (w_app w) = []"
  shows "rel False (idle \<delta>) p (idle (bump target \<delta>)) p'"
proof -
  let ?cb = "\<lparr>nc_func = True, nc_actionID = - 1\<rparr>"
  from assms(1) obtain s w1 p2 where s: "tgenstream_new (ev_stream env) i (Some op) mm (Some t) ?cb w = Some (s, w1)"
    and p2: "ref_target target (set_conn (p_next p) \<lparr>cn_stream = s, cn_target = target, cn_world = w1\<rparr> ((leave w1 p)\<lparr>p_next := Suc (p_next p)\<rparr>)) = Some p2"
    and p': "deliver_notes run target (a_notes (w_app w1)) p2 = Some p'"
    by (auto simp: conn_new_def bind_Some_conv Let_def)
  let ?c = "\<lparr>cn_stream = s, cn_target = target, cn_world = w1\<rparr>" and ?new = "({STREAM_CREATED}, bump target \<delta>, None :: nat option)"
  have created: "a_notes (w_app w1) = [(- 1, {STREAM_CREATED})]"
    using s assms(2) by (auto simp: tgenstream_new_def Let_def bind_Some_conv notify_created_def)
  let ?p1 = "set_conn (p_next (leave w1 p)) ?c ((leave w1 p)\<lparr>p_next := Suc (p_next (leave w1 p))\<rparr>)"
  have p1: "?p1 = set_conn (p_next p) ?c ((leave w1 p)\<lparr>p_next := Suc (p_next p)\<rparr>)" by (simp add: leave_def)
  have alive: "p_generators (leave w1 p) b \<noteq> None" if "target = ToGenerator b" for b
    using p2 that by (auto simp: ref_target_def generator_ref_def upd_generator_def set_conn_def leave_def bind_Some_conv)
  have "rel False (idle \<delta>) p (idle \<delta>) (leave w1 p)" by (rule rel_core) simp
  also have "rel False (idle \<delta>) (leave w1 p) ?new ?p1"
    using rel_conn_new [of ?c "leave w1 p" False \<delta>] new_phase [OF s] alive by simp
  also have "rel False ?new ?p1 ?new p2" using ref_target_rel [OF p2] unfolding p1 .
  also have "rel False ?new p2 (idle (bump target \<delta>)) p'"
    using p' created unit [of "NotifyCB target (- 1) {STREAM_CREATED}" p2 p' "bump target \<delta>"]
    by (cases target) (simp_all add: bind_Some_conv valid_call_def completing_def)
  finally show ?thesis .
qed

lemma registered: "register_conn env run d a p = Some p' \<Longrightarrow> keeps \<delta> p p'"
  by (auto simp: register_conn_def dest: loop.register)

lemma creator_done:
  "creator_unref_transport a p = Some p' \<Longrightarrow> rel v x p x p'" "creator_unref_model a p = Some p' \<Longrightarrow> rel v x p x p'"
  by (auto simp: creator_unref_transport_def creator_unref_model_def bind_Some_conv is_open_def phase_ok_def intro!: rel_conn_same)

lemma timer_registered: "register_timer env run t p = Some p' \<Longrightarrow> keeps \<delta> p p'"
  by (auto simp: register_timer_def bind_Some_conv dest: loop.register)

section \<open>The server\<close>

lemma accepted:
  assumes "acceptPeer db notify r p = Some (n, p')"
    and notify: "\<And>ac s c peer p p'. notify ac s c peer p = Some p' \<Longrightarrow> keeps \<delta> p p'"
  shows "keeps \<delta> p p'"
proof (cases r)
  case (Inl e)
  with assms(1) show ?thesis by (auto simp: acceptPeer_def split: prod.splits intro: rel_core dest!: core_time)
next
  case (Inr ac)
  obtain started p1 where t1: "kern_time p = (started, p1)" by fastforce
  obtain created p2 where t2: "kern_time p1 = (created, p2)" by fastforce
  have "keeps \<delta> p p1" using core_time [OF t1] by (intro rel_core) simp
  moreover have "keeps \<delta> p1 p2" using core_time [OF t2] by (intro rel_core) simp
  ultimately show ?thesis
    using assms(1) Inr t1 t2
    by (auto simp: acceptPeer_def bind_Some_conv Let_def split: if_splits dest!: notify intro: rel_trans)
qed

lemma accepted_all:
  assumes "accept_loop db notify rs p = Some p'"
    and notify: "\<And>ac s c peer p p'. notify ac s c peer p = Some p' \<Longrightarrow> keeps \<delta> p p'"
  shows "keeps \<delta> p p'"
  using assms(1)
proof (induction rs arbitrary: p)
  case Nil
  then obtain n where "acceptPeer db notify (Inl EWOULDBLOCK) (p\<lparr>p_accepts := []\<rparr>) = Some (n, p')" by (auto simp: bind_Some_conv)
  from rel_trans [OF rel_core accepted [OF this notify]] show ?case by simp
next
  case (Cons r rs)
  then obtain n p1 where n: "acceptPeer db notify r (p\<lparr>p_accepts := rs\<rparr>) = Some (n, p1)"
    and rest: "if n < 0 then p' = p1 else accept_loop db notify rs p1 = Some p'"
    by (auto simp: bind_Some_conv split: if_splits)
  have "keeps \<delta> p p1" using rel_trans [OF rel_core accepted [OF n notify]] by simp
  then show ?case using rest Cons.IH [of p1] by (auto split: if_splits intro: rel_trans)
qed

lemma server_event:
  assumes "tgenserver_onEvent db notify a d ev p = Some (r, p')"
    and "\<And>ac s c peer p p'. notify ac s c peer p = Some p' \<Longrightarrow> keeps \<delta> p p'"
  shows "keeps \<delta> p p'"
  using assms(1) by (auto simp: tgenserver_onEvent_def bind_Some_conv intro: accepted_all [OF _ assms(2)])

lemma server_unref:
  assumes "tgenserver_unref run a p = Some p'"
  shows "keeps \<delta> p p'"
proof -
  from assms consider sv where "p' = p\<lparr>p_servers := (p_servers p)(a \<mapsto> sv)\<rparr>"
    | sv p1 where "server_free run sv p = Some p1" "p' = p1\<lparr>p_servers := (p_servers p1)(a := None)\<rparr>"
    by (auto simp: tgenserver_unref_def bind_Some_conv Let_def split: if_splits)
  then show ?thesis
  proof cases
    case 1
    then show ?thesis by (simp add: rel_core)
  next
    case (2 sv p1)
    let ?p = "if sv_socketD sv > 0 then kern_close (sv_socketD sv) p else p"
    have "keeps \<delta> p ?p" by (rule rel_core) simp
    also have "keeps \<delta> ?p p1" using 2(1) by (auto simp: server_free_def dest: called)
    also have "keeps \<delta> p1 p'" unfolding 2(2) by (rule rel_core) simp
    finally show ?thesis .
  qed
qed

section \<open>Generators\<close>

lemma generator_freed: "generator_free env run g p = Some p' \<Longrightarrow> keeps \<delta> p p'"
  by (auto simp: generator_free_def bind_Some_conv dest!: loop.io_release called intro: rel_trans)

lemma same_generator:
  assumes "p_generators p a = Some g" "gn_streamOptions g' = gn_streamOptions g" "gn_flowOptions g' = gn_flowOptions g"
    "gn_target g' = gn_target g" "gn_numGenerated g' = gn_numGenerated g" "gn_numCompleted g' = gn_numCompleted g"
  shows "rel v x p x (set_generator a g' p)"
  using assms by (cases x) (auto intro!: rel_generator [OF assms(1)] simp: stream_mode_def counts_ok_def)

lemma generator_unref_keeps:
  assumes "generator_unref env run a p = Some p'"
  shows "keeps \<delta> p p'"
proof -
  from assms obtain g where g: "p_generators p a = Some g" by (auto simp: generator_unref_def bind_Some_conv)
  let ?p = "set_generator a (g\<lparr>gn_refcount := gn_refcount g - 1\<rparr>) p"
  have "keeps \<delta> p ?p" by (rule same_generator [OF g]) simp_all
  moreover have "keeps \<delta> ?p p'"
    using assms g by (auto simp: generator_unref_def bind_Some_conv Let_def split: if_splits
        dest!: generator_freed intro: rel_trans [OF _ rel_delete_generator])
  ultimately show ?thesis by (rule rel_trans)
qed

lemma new_generator:
  assumes "tgengenerator_new env run tr fl op i name target n p = Some (a, p')"
    and target: "\<And>b. target = ToGenerator b \<Longrightarrow> \<exists>h. p_generators p b = Some h \<and> \<not> stream_mode h"
    and walk: "target = ToDriver \<longrightarrow> w"
  shows "rel w (idle \<delta>) p (idle \<delta>) p'"
proof -
  let ?g0 = "generator_zero\<lparr>gn_refcount := 1, gn_actionID := i, gn_actionIDStr := name\<rparr>"
  from assms(1) obtain g1 p1 p2 p3 g2 p4 fl' where
    g1: "choose_mode env tr fl op ?g0 p = Some (g1, p1)"
    and p2: "tgendriver_ref (tgenio_ref p1) = Some p2" and p3: "ref_target target p2 = Some p3"
    and g2: "initSocksAuthStrings env (g1\<lparr>gn_target := target, gn_notifyActionID := n\<rparr>) p3 = Some (g2, p4)"
    and p': "run_unit run (NotifyCB target (- 1) {fl'}) (set_generator (p_next p4) g2 (p4\<lparr>p_next := Suc (p_next p4)\<rparr>)) = Some p'"
    and fl': "fl' \<in> {TRAFFIC_CREATED, FLOW_CREATED}"
    by (fastforce simp: tgengenerator_new_def bind_Some_conv Let_def split: if_splits)
  have c: "core p1 = core p" "fresh_counts g1" using choose_mode_core [OF g1] by (simp_all add: generator_zero_def)
  have f: "fresh_counts g2" "gn_target g2 = target" "core p4 = core p3"
    using auth_core [OF g2] c(2) by (simp_all add: fresh_counts_def stream_mode_def)
  have "rel w (idle \<delta>) p (idle \<delta>) (tgenio_ref p1)" using c(1) by (intro rel_core) simp
  also have "rel w (idle \<delta>) (tgenio_ref p1) (idle \<delta>) p2" by (rule tgendriver_ref_rel [OF p2])
  also have "rel w (idle \<delta>) p2 (idle \<delta>) p3" by (rule ref_target_rel [OF p3])
  also have 4: "rel w (idle \<delta>) p3 (idle \<delta>) p4" using f(3) by (intro rel_core) simp
  finally have "rel w (idle \<delta>) p (idle \<delta>) p4" .
  also have "rel w (idle \<delta>) p4 (idle \<delta>) (set_generator (p_next p4) g2 (p4\<lparr>p_next := Suc (p_next p4)\<rparr>))"
  proof (rule rel_new_generator)
    have gens: "p_generators p2 = p_generators p"
      using p2 c(1) by (auto simp: tgendriver_ref_def upd_driver_Some core_eq tgenio_ref_def)
    show "\<exists>h. p_generators p4 b = Some h \<and> \<not> stream_mode h" if "gn_target g2 = ToGenerator b" for b
      using target [of b] that f p3 gens
      by (auto simp: ref_target_def generator_ref_def upd_generator_def bind_Some_conv set_generator_def core_eq stream_mode_def)
  qed (use f walk in \<open>auto simp: fresh_counts_def\<close>)
  also have "rel w (idle \<delta>) (set_generator (p_next p4) g2 (p4\<lparr>p_next := Suc (p_next p4)\<rparr>)) (idle \<delta>) p'"
  proof -
    let ?p = "set_generator (p_next p4) g2 (p4\<lparr>p_next := Suc (p_next p4)\<rparr>)"
    have "rel False (idle \<delta>) ?p (before \<delta> (NotifyCB target (- 1) {fl'})) ?p"
      unfolding idle_def before.simps
      using fl' by (intro rel_pending) (auto simp: completing_def split: notify_target.splits)
    moreover have "rel False (before \<delta> (NotifyCB target (- 1) {fl'})) ?p (idle \<delta>) p'"
      using fl' by (intro unit [OF p']) (auto simp: valid_call_def)
    ultimately show ?thesis by (cases w) (auto intro: rel_trans rel_walk)
  qed
  finally show ?thesis .
qed

text \<open>Telling the owner; a generator's owner is the driver or a generator of flows.\<close>

lemma tell_target:
  assumes "run_unit run (NotifyCB target i fl) p = Some p'" "valid_call (NotifyCB target i fl)"
    and "STREAM_COMPLETE \<in> k \<longleftrightarrow> STREAM_COMPLETE \<in> fl" "STREAM_CREATED \<in> k \<longleftrightarrow> STREAM_CREATED \<in> fl"
    and owner: "p_generators p a = Some g" "gn_target g = target"
  shows "rel False (k, \<delta>, None) p (idle \<delta>) p'"
proof -
  have "\<not> stream_mode h" if "balanced (k, \<delta>, None) p" "completing target fl = Some b" "p_generators p b = Some h" for b h
    using that owner by (auto simp: completing_def balanced.simps generator_ok_def split: notify_target.splits if_splits)
  then have "rel False (k, \<delta>, None) p (fl, \<delta>, completing target fl) p"
    using assms(3,4) by (intro rel_pending) auto
  also have "rel False (fl, \<delta>, completing target fl) p (idle \<delta>) p'"
    using unit [OF assms(1,2), of \<delta>] by simp
  finally show ?thesis .
qed

lemma complete_flags_quiet: "STREAM_COMPLETE \<notin> complete_flags g" "STREAM_CREATED \<notin> complete_flags g"
  "complete_flags g \<inter> {STREAM_CREATED, FLOW_CREATED, TRAFFIC_CREATED} = {}"
  by (auto simp: complete_flags_def)

lemma completes:
  assumes "onCompleteHelper env run a flags p = Some p'" "flags \<inter> {STREAM_CREATED, FLOW_CREATED, TRAFFIC_CREATED} = {}"
  shows "rel False (flags, \<delta>, None) p (idle \<delta>) p'"
proof -
  from assms(1) obtain g where g: "p_generators p a = Some g" by (auto simp: onCompleteHelper_def bind_Some_conv)
  consider "generator_done g" | "\<not> generator_done g" "flags \<noteq> {}" | "\<not> generator_done g" "flags = {}" by blast
  then show ?thesis
  proof cases
    case 1
    with assms(1) g obtain p1 where
      p1: "run_unit run (NotifyCB (gn_target g) (gn_notifyActionID g) (flags \<union> complete_flags g)) p = Some p1"
      and p': "generator_unref env run a p1 = Some p'"
      by (auto simp: onCompleteHelper_def bind_Some_conv)
    have "rel False (flags, \<delta>, None) p (idle \<delta>) p1"
      using assms(2) complete_flags_quiet [of g] by (intro tell_target [OF p1 _ _ _ g]) (auto simp: valid_call_def)
    then show ?thesis using generator_unref_keeps [OF p'] by (rule rel_trans)
  next
    case 2
    with assms g show ?thesis
      by (intro tell_target [OF _ _ _ _ g]) (auto simp: onCompleteHelper_def valid_call_def)
  next
    case 3
    with assms g show ?thesis by (simp add: onCompleteHelper_def idle_def)
  qed
qed

lemma generator_notified:
  assumes "generator_onNotify env run a flags p = Some p'" "valid_call (NotifyCB (ToGenerator a) i flags)"
  shows "rel False (before \<delta> (NotifyCB (ToGenerator a) i flags)) p (idle \<delta>) p'"
proof -
  from assms(1) obtain g where g: "p_generators p a = Some g" by (auto simp: generator_onNotify_def bind_Some_conv)
  show ?thesis
  proof (cases "flags \<inter> {STREAM_CREATED, FLOW_CREATED, TRAFFIC_CREATED} = {}")
    case False
    with assms(2) have nc: "STREAM_COMPLETE \<notin> flags" by (auto simp: valid_call_def)
    from False assms(1) g have "run_unit run (NotifyCB (gn_target g) (- 1) flags) p = Some p'"
      by (simp add: generator_onNotify_def)
    then have "rel False (flags, \<delta>, None) p (idle \<delta>) p'"
      using nc by (intro tell_target [OF _ _ _ _ g]) (auto simp: valid_call_def)
    then show ?thesis using nc by (simp add: completing_def)
  next
    case True
    let ?g = "if counts_completion g flags then g\<lparr>gn_numCompleted := gn_numCompleted g + 1\<rparr> else g"
    have p': "onCompleteHelper env run a flags (set_generator a ?g p) = Some p'"
    proof -
      have "set_generator a g p = p" using g by (simp add: set_generator_def fun_upd_idem)
      then show ?thesis using assms(1) True g by (simp add: generator_onNotify_def Let_def split: if_splits)
    qed
    have "rel False (flags, \<delta>, completing (ToGenerator a) flags) p (flags, \<delta>, None) (set_generator a ?g p)"
    proof (rule rel_generator [OF g])
      fix n l assume l: "l < (2::nat) ^ 32" and c: "counts_ok (\<delta> a) (of_bool (completing (ToGenerator a) flags = Some a)) n l g"
      show "counts_ok (\<delta> a) (of_bool (None = Some a)) n l ?g"
      proof (cases "stream_mode g")
        case True
        with c have f: "gn_flowOptions g = None" by (simp add: counts_ok_def)
        show ?thesis
        proof (cases "STREAM_COMPLETE \<in> flags")
          case sc: True
          with c True l have "unat (gn_numCompleted g) < 2 ^ 32 - 1" by (auto simp: counts_ok_def completing_def)
          from u32_incr [OF this] show ?thesis
            using c True sc f by (auto simp: counts_ok_def completing_def counts_completion_def stream_mode_def)
        qed (use c True f in \<open>auto simp: counts_ok_def completing_def counts_completion_def stream_mode_def\<close>)
      qed (auto simp: counts_ok_def stream_mode_def)
    qed (auto simp: completing_def stream_mode_def)
    also have "rel False (flags, \<delta>, None) (set_generator a ?g p) (idle \<delta>) p'" by (rule completes [OF p' True])
    finally show ?thesis by simp
  qed
qed

text \<open>Counting what was made.\<close>

lemma counted_stream: "count_generated a p = Some p' \<Longrightarrow> rel v (idle (bump (ToGenerator a) \<delta>)) p (idle \<delta>) p'"
proof -
  assume "count_generated a p = Some p'"
  then obtain g where g: "p_generators p a = Some g" "p' = set_generator a (g\<lparr>gn_numGenerated := gn_numGenerated g + 1\<rparr>) p"
    by (auto simp: count_generated_def upd_generator_def bind_Some_conv)
  show ?thesis unfolding idle_def g(2)
  proof (rule rel_generator [OF g(1)])
    fix n l assume l: "l < (2::nat) ^ 32" and c: "counts_ok (bump (ToGenerator a) \<delta> a) (of_bool (None = Some a)) n l g"
    have "unat (gn_numGenerated g) < 2 ^ 32 - 1" if "stream_mode g" using c l that by (auto simp: counts_ok_def bump_def)
    with u32_incr c show "counts_ok (\<delta> a) (of_bool (None = Some a)) n l (g\<lparr>gn_numGenerated := gn_numGenerated g + 1\<rparr>)"
      by (auto simp: counts_ok_def bump_def stream_mode_def)
  qed (auto simp: stream_mode_def bump_def)
qed

lemma counted_flow:
  assumes "count_generated a p = Some p'" "\<And>g. p_generators p a = Some g \<Longrightarrow> \<not> stream_mode g"
  shows "rel v x p x p'"
proof -
  from assms(1) obtain g where g: "p_generators p a = Some g" "p' = set_generator a (g\<lparr>gn_numGenerated := gn_numGenerated g + 1\<rparr>) p"
    by (auto simp: count_generated_def upd_generator_def bind_Some_conv)
  show ?thesis unfolding g(2)
    using assms(2) [OF g(1)] by (cases x) (auto intro!: rel_generator [OF g(1)] simp: stream_mode_def counts_ok_def)
qed

lemma makes_flow:
  assumes "createFlow env run a p = Some (ok, p')"
  shows "keeps \<delta> p p'"
proof -
  from assms obtain g fl flow p1 p2 where g: "p_generators p a = Some g" "gn_streamOptions g = None"
    and p1: "tgengenerator_new env run None (Some fl) (Some (fo_streamOpts fl)) (- 1) (gn_actionIDStr g) (ToGenerator a) (- 1) p = Some (flow, p1)"
    and p2: "count_generated a p1 = Some p2" and p': "run_unit run (StartGenerator flow) p2 = Some p'"
    by (auto simp: createFlow_def bind_Some_conv)
  have 1: "keeps \<delta> p p1" by (rule new_generator [OF p1]) (use g in \<open>auto simp: stream_mode_def\<close>)
  have "keeps \<delta> p p2"
  proof (rule rel_trans_if [OF 1 counted_stream [OF p2]])
    assume b: "phased p" "balanced (idle \<delta>) p"
    have "a < p_next p" using b(2) g(1) by (auto simp: idle_def balanced.simps bounded_def not_le [symmetric])
    with b 1 g show "keeps \<delta> p1 p2"
      by (intro counted_flow [OF p2]) (fastforce simp: rel_def inherits_def stream_mode_def)
  qed
  then show ?thesis using called [OF p'] by (auto intro: rel_trans)
qed

lemma makes_stream:
  assumes "createStream env run a p = Some (ok, p')"
  shows "keeps \<delta> p p'"
proof -
  let ?none = "\<lparr>dl_sockets = \<lparr>so_socket = - 1, so_bind_ok = False, so_connect = None, so_getsockname = None,
             so_TGENIP = None, so_TGENSOCKS = None\<rparr>, dl_rd = [], dl_wr = []\<rparr>"
  from assms obtain g op mm p1 where g: "p_generators p a = Some g" "gn_streamOptions g = Some op" "gn_flowOptions g = None"
    and p1: "createMarkovModel env (op_seedGenerator op) (op_packetModelPath op)
          tgenconfig_getDefaultPacketMarkovModelString tgenconfig_getDefaultPacketMarkovModelName p = Some (mm, p1)"
    by (auto simp: createStream_def bind_Some_conv)
  obtain dl dials where dl: "pop ?none (p_dials p1) = (dl, dials)" by fastforce
  obtain rand p2 where p2: "(case if isSet (op_peers op) then opt_value (op_peers op) else None of
             Some pool \<Rightarrow> draw_from pool p1 | None \<Rightarrow> (0, p1)) = (rand, p2)" by fastforce
  obtain t calls w where t: "tgentransport_newActive (se_db (ev_stream env)) (dl_sockets dl) rand (op_peers op) True (gn_socksProxy g)
               (gn_socksUsername g) (gn_socksPassword g) (fresh_world (dl_rd dl) (dl_wr dl) p2) = (t, calls, w)" by (metis prod_cases3)
  let ?p3 = "(leave w p2)\<lparr>p_dials := dials\<rparr>"
  let ?p4 = "if Close \<in> set calls then kern_close (so_socket (dl_sockets dl)) ?p3 else ?p3"
  have "core p2 = core p1" using p2 by (auto split: option.splits if_splits dest: core_draw)
  then have 4: "keeps \<delta> p ?p4" using core_model [OF p1] by (intro rel_core) simp
  have w: "a_notes (w_app w) = []" using newActive_notes [OF t] by (simp add: fresh_world_def enter_def)
  show ?thesis
  proof (cases t)
    case None
    with assms g p1 dl p2 t 4 show ?thesis by (simp add: createStream_def Let_def)
  next
    case (Some xp)
    with assms g p1 dl p2 t obtain p5 c p6 p7 p8 p9 where p5: "tgendriver_ref ?p4 = Some p5"
      and p6: "conn_new env run (gn_actionIDStr g) op mm xp (ToGenerator a) w p5 = Some (c, p6)"
      and p7: "creator_unref_model c p6 = Some p7"
      and p8: "register_conn env run (tgentransport_getDescriptor xp) c p7 = Some p8"
      and p9: "creator_unref_transport c p8 = Some p9" and p': "count_generated a p9 = Some p'"
      by (auto simp: createStream_def bind_Some_conv Let_def)
    let ?\<delta> = "bump (ToGenerator a) \<delta>"
    note 4
    also have "keeps \<delta> ?p4 p5" by (rule tgendriver_ref_rel [OF p5])
    also have "rel False (idle \<delta>) p5 (idle ?\<delta>) p6" by (rule new_conn [OF p6 w])
    also have "keeps ?\<delta> p6 p7" by (rule creator_done(2) [OF p7])
    also have "keeps ?\<delta> p7 p8" by (rule registered [OF p8])
    also have "keeps ?\<delta> p8 p9" by (rule creator_done(1) [OF p9])
    also have "rel False (idle ?\<delta>) p9 (idle \<delta>) p'" by (rule counted_stream [OF p'])
    finally show ?thesis .
  qed
qed

lemma sets_timer:
  assumes "generator_setTimer env run a delay p = Some (ok, p')"
  shows "keeps \<delta> p p'"
proof -
  obtain t p1 where t: "new_user_timer delay False (GeneratorTimer a) p = (t, p1)" by fastforce
  have 1: "keeps \<delta> p p1" using core_timer [OF t] by (intro rel_core) simp
  show ?thesis
  proof (cases t)
    case None
    with assms t 1 show ?thesis by (simp add: generator_setTimer_def)
  next
    case (Some i)
    with assms t obtain p2 where p2: "generator_ref a p1 = Some p2" and p3: "register_timer env run i p2 = Some p'"
      by (auto simp: generator_setTimer_def bind_Some_conv)
    have "keeps \<delta> p1 p2" using p2 by (intro ref_target_rel [of "ToGenerator a"]) (simp add: ref_target_def)
    with 1 timer_registered [OF p3] show ?thesis by (blast intro: rel_trans)
  qed
qed

lemma flag_set:
  "upd_generator a (\<lambda>g. g\<lparr>gn_hasError := b\<rparr>) p = Some p' \<Longrightarrow> rel v x p x p'"
  "upd_generator a (\<lambda>g. g\<lparr>gn_reachedEndState := b\<rparr>) p = Some p' \<Longrightarrow> rel v x p x p'"
  by (erule upd_generator_rel; simp)+

lemma completes_none: "onCompleteHelper env run a {} p = Some p' \<Longrightarrow> keeps \<delta> p p'"
  unfolding idle_def by (rule completes [unfolded idle_def]) simp_all

lemma generates:
  assumes "generateNext env run a p = Some p'"
  shows "keeps \<delta> p p'"
proof -
  from assms obtain g mm obs delayOpt mm1 where g: "p_generators p a = Some g"
    and m: "gn_mmodel g = Some mm" "\<not> gn_reachedEndState g" "tgenmarkovmodel_getNextObservation (se_ml (ev_stream env)) mm = Some (obs, delayOpt, mm1)"
    by (auto simp: generateNext_def bind_Some_conv)
  let ?p = "set_generator a (g\<lparr>gn_mmodel := Some mm1\<rparr>) p"
  have 1: "keeps \<delta> p ?p" by (rule same_generator [OF g]) simp_all
  show ?thesis
  proof (cases "obs = OBSERVATION_TO_ORIGIN \<or> obs = OBSERVATION_TO_SERVER")
    case True
    let ?delay = "case delayOpt of Some d \<Rightarrow> d | None \<Rightarrow> 0"
    from assms g m True obtain ok p2 set p3 where
      p2: "(if gn_flowOptions g \<noteq> None then createFlow env run a ?p else createStream env run a ?p) = Some (ok, p2)"
      and p3: "generator_setTimer env run a ?delay p2 = Some (set, p3)"
      and p': "if set then p' = p3 else (\<exists>p4. upd_generator a (\<lambda>g. g\<lparr>gn_hasError := True\<rparr>) p3 = Some p4 \<and>
        onCompleteHelper env run a {} p4 = Some p')"
      by (auto simp: generateNext_def bind_Some_conv Let_def split: if_splits)
    note 1
    also have "keeps \<delta> ?p p2" using p2 by (auto split: if_splits dest: makes_flow makes_stream)
    also have "keeps \<delta> p2 p3" by (rule sets_timer [OF p3])
    also have "keeps \<delta> p3 p'"
      using p' by (auto split: if_splits dest!: completes_none intro: rel_trans [OF flag_set(1)])
    finally show ?thesis .
  next
    case False
    with assms g m obtain p2 where p2: "upd_generator a (\<lambda>g. g\<lparr>gn_reachedEndState := True\<rparr>) ?p = Some p2"
      and p': "onCompleteHelper env run a {} p2 = Some p'"
      by (auto simp: generateNext_def bind_Some_conv Let_def)
    from 1 flag_set(2) [OF p2] completes_none [OF p'] show ?thesis by (blast intro: rel_trans)
  qed
qed

lemma starts:
  assumes "tgengenerator_start env run a p = Some p'"
  shows "keeps \<delta> p p'"
proof -
  from assms obtain g where g: "p_generators p a = Some g" by (auto simp: tgengenerator_start_def bind_Some_conv)
  show ?thesis
  proof (cases "gn_mmodel g")
    case (Some mm)
    with assms g show ?thesis by (auto simp: tgengenerator_start_def dest: generates)
  next
    case None
    with assms g obtain ok p1 where p1: "createStream env run a p = Some (ok, p1)"
      and p': "if ok then upd_generator a (\<lambda>g. g\<lparr>gn_reachedEndState := True\<rparr>) p1 = Some p'
        else (\<exists>p2. upd_generator a (\<lambda>g. g\<lparr>gn_hasError := True\<rparr>) p1 = Some p2 \<and> onCompleteHelper env run a {} p2 = Some p')"
      by (auto simp: tgengenerator_start_def bind_Some_conv split: if_splits)
    have "keeps \<delta> p1 p'"
      using p' by (auto split: if_splits dest!: completes_none intro: rel_trans [OF flag_set(1)] flag_set(2))
    with makes_stream [OF p1] show ?thesis by (rule rel_trans)
  qed
qed

section \<open>The driver\<close>

lemma driver_released:
  assumes "tgendriver_unref env run p = Some p'"
  shows "keeps \<delta> p p'"
proof -
  from assms obtain p1 d where p1: "upd_driver (\<lambda>d. d\<lparr>dr_refcount := dr_refcount d - 1\<rparr>) p = Some p1" "p_driver p1 = Some d"
    and rest: "if dr_refcount d \<le> 0 then driver_free env run p1 = Some p' else p' = p1"
    by (auto simp: tgendriver_unref_def bind_Some_conv split: if_splits)
  have 1: "keeps \<delta> p p1" by (rule upd_driver_rel [OF p1(1)]) auto
  have "keeps \<delta> p1 p'" if free: "driver_free env run p1 = Some p'"
  proof -
    from free p1(2) obtain p2 g where p2: "(if dr_io d then tgenio_unref (proc_handlers env run) p1 else Some p1) = Some p2"
      and p': "p' = p2\<lparr>p_graph := tgengraph_unref g, p_driver := None\<rparr>"
      by (auto simp: driver_free_def bind_Some_conv)
    have "keeps \<delta> p1 p2" using p2 by (auto split: if_splits dest: loop.io_release)
    also have "keeps \<delta> p2 p'" unfolding p' by (rule rel_no_driver)
    finally show ?thesis .
  qed
  with 1 rest show ?thesis by (auto split: if_splits intro: rel_trans)
qed

lemma driver_notified:
  assumes "driver_onNotify run i flags p = Some p'" "valid_call (NotifyCB ToDriver i flags)"
  shows "rel False (before \<delta> (NotifyCB ToDriver i flags)) p (idle \<delta>) p'"
proof -
  from assms(1) obtain p1 where
    p1: "upd_driver (\<lambda>d. d\<lparr>dr_heartbeat := count_flags flags (dr_heartbeat d), dr_total := count_flags flags (dr_total d)\<rparr>) p = Some p1"
    and rest: "p' = p1 \<or> run_unit run (ContinueNext i) p1 = Some p'"
    by (auto simp: driver_onNotify_def bind_Some_conv split: if_splits)
  from p1 obtain d where d: "p_driver p = Some d"
    "p1 = p\<lparr>p_driver := Some (d\<lparr>dr_heartbeat := count_flags flags (dr_heartbeat d), dr_total := count_flags flags (dr_total d)\<rparr>)\<rparr>"
    by (auto simp: upd_driver_Some)
  have "rel False (flags, \<delta>, None) p ({}, \<delta>, None) p1"
    unfolding d(2) using assms(2)
    by (intro rel_driver [OF d(1)]) (auto simp: valid_call_def intro!: count_flags_ok)
  also have "rel False ({}, \<delta>, None) p1 ({}, \<delta>, None) p'"
    using rest called [of "ContinueNext i" p1 p' \<delta>] by (auto simp: idle_def)
  finally show ?thesis by (simp add: completing_def idle_def)
qed

lemma heartbeat:
  assumes "driver_onHeartbeat env run p = Some (b, p')"
  shows "keeps \<delta> p p'"
proof -
  from assms obtain p1 d where p1: "tgenio_checkTimeouts (proc_handlers env run) p = Some p1"
    and p': "upd_driver (\<lambda>d. d\<lparr>dr_heartbeat := stats_zero\<rparr>) (p1\<lparr>p_log := p_log p1 @ [heartbeat_message d]\<rparr>) = Some p'"
    by (auto simp: driver_onHeartbeat_def bind_Some_conv)
  have "keeps \<delta> p p1" by (rule loop.checkTimeouts [OF p1])
  also have "keeps \<delta> p1 (p1\<lparr>p_log := p_log p1 @ [heartbeat_message d]\<rparr>)" by (rule rel_core) simp
  also have "keeps \<delta> (p1\<lparr>p_log := p_log p1 @ [heartbeat_message d]\<rparr>) p'" by (rule upd_driver_rel [OF p']) auto
  finally show ?thesis .
qed

lemma new_peer:
  assumes "driver_onNewPeer env run ac s c peer p = Some p'"
  shows "keeps \<delta> p p'"
proof -
  from assms obtain d where d: "p_driver p = Some d" by (auto simp: driver_onNewPeer_def bind_Some_conv)
  show ?thesis
  proof (cases "dr_serverHasEnded d")
    case True
    with assms d have "p' = kern_close (ac_socketD ac) p" by (simp add: driver_onNewPeer_def)
    then show ?thesis by (simp add: rel_core)
  next
    case False
    with assms d obtain t op p1 a p2 p3 where p1: "tgendriver_ref p = Some p1"
      and p2: "conn_new env run (Some ''passive-stream'') op None t ToDriver (fresh_world (ac_rd ac) (ac_wr ac) p1) p1 = Some (a, p2)"
      and p3: "register_conn env run (tgentransport_getDescriptor t) a p2 = Some p3" and p': "creator_unref_transport a p3 = Some p'"
      by (auto simp: driver_onNewPeer_def bind_Some_conv Let_def)
    have "keeps \<delta> p p1" by (rule tgendriver_ref_rel [OF p1])
    also have "keeps \<delta> p1 p2" using new_conn [OF p2] by (simp add: fresh_world_def enter_def bump_def)
    also have "keeps \<delta> p2 p3" by (rule registered [OF p3])
    also have "keeps \<delta> p3 p'" by (rule creator_done(1) [OF p'])
    finally show ?thesis .
  qed
qed

text \<open>The walk: it may start generators for the driver.\<close>

abbreviation walks :: "(nat \<Rightarrow> nat) \<Rightarrow> process \<Rightarrow> process \<Rightarrow> bool" where
  "walks \<delta> p p' \<equiv> rel True (idle \<delta>) p (idle \<delta>) p'"

lemma started: "startGenerator env run i tr fl op p = Some p' \<Longrightarrow> walks \<delta> p p'"
  by (auto simp: startGenerator_def bind_Some_conv dest!: called intro: rel_trans [OF new_generator rel_walk])

lemma started_with: "startGenerator env run i tr fl op (p\<lparr>p_graph := g\<rparr>) = Some p' \<Longrightarrow> walks \<delta> p p'"
  by (rule rel_trans [OF rel_core started]) simp_all

lemma initiated:
  "initiateStream env run i p = Some p' \<Longrightarrow> walks \<delta> p p'" "initiateFlow env run i p = Some p' \<Longrightarrow> walks \<delta> p p'"
  "initiateTraffic env run i p = Some p' \<Longrightarrow> walks \<delta> p p'"
  by (auto simp: initiateStream_def initiateFlow_def initiateTraffic_def bind_Some_conv dest: started_with)

lemma paused:
  assumes "initiatePause env run i op p = Some (ok, p')"
  shows "keeps \<delta> p p'"
proof -
  from assms obtain m p1 where m: "(if isSet (po_times op)
          then do {
            pool \<leftarrow> opt_value (po_times op);
            let (r, p') = draw_from pool p;
            timeNanos \<leftarrow> tgenpool_getRandom r pool;
            Some (timeNanos div 1000, p')
          }
          else Some (0, p)) = Some (m, p1)"
    by (auto simp: initiatePause_def bind_Some_conv split: if_splits)
  have "core p1 = core p"
    using m by (auto simp: bind_Some_conv Let_def prod.case_eq_if intro: core_draw [OF surjective_pairing] split: if_splits)
  then have 1: "keeps \<delta> p p1" by (intro rel_core) simp
  obtain t p2 where t: "new_user_timer m False (PauseTimer (int i)) p1 = (t, p2)" by fastforce
  have 2: "keeps \<delta> p1 p2" using core_timer [OF t] by (intro rel_core) simp
  have "p' = p1 \<or> (t = None \<and> p' = p2) \<or> (\<exists>j p3. tgendriver_ref p2 = Some p3 \<and> register_timer env run j p3 = Some p')"
    using assms m t by (auto simp: initiatePause_def bind_Some_conv split: if_splits option.splits)
  with 1 2 show ?thesis by (blast intro: rel_trans tgendriver_ref_rel timer_registered)
qed

lemma pause_handled:
  assumes "handlePause env run i p = Some p'"
  shows "keeps \<delta> p p'"
proof -
  from assms obtain g op where g: "p_graph p = Some g" "tgengraph_getPauseOptions g i = Some op"
    by (auto simp: handlePause_def bind_Some_conv)
  show ?thesis
  proof (cases "isSet (po_times op)")
    case True
    with assms g obtain ok p1 where p1: "initiatePause env run i op p = Some (ok, p1)"
      and p': "p' = p1 \<or> run_unit run (ContinueNext (int i)) p1 = Some p'"
      by (auto simp: handlePause_def bind_Some_conv split: if_splits)
    with paused [OF p1] show ?thesis by (auto dest!: called intro: rel_trans)
  next
    case False
    with assms g obtain g1 where "p' = p\<lparr>p_graph := Some g1\<rparr> \<or> run_unit run (ContinueNext (int i)) (p\<lparr>p_graph := Some g1\<rparr>) = Some p'"
      by (auto simp: handlePause_def bind_Some_conv split: if_splits)
    moreover have "keeps \<delta> p (p\<lparr>p_graph := Some g1\<rparr>)" for g1 by (rule rel_core) simp
    ultimately show ?thesis by (auto dest!: called intro: rel_trans)
  qed
qed

lemma end_checked:
  assumes "checkEndConditions run i p = Some p'"
  shows "keeps \<delta> p p'"
proof -
  from assms obtain d g op where d: "p_driver p = Some d" "p_graph p = Some g" "tgengraph_getEndOptions g i = Some op"
    by (auto simp: checkEndConditions_def bind_Some_conv)
  obtain now p1 where t: "(if isSet (eo_timeNanos op) then kern_time p else (0, p)) = (now, p1)" by fastforce
  have 1: "keeps \<delta> p p1" using t by (auto split: if_splits intro!: rel_core dest: core_time)
  from assms d t obtain p2 where
    p2: "(if end_reached op d now then upd_driver (\<lambda>d. d\<lparr>dr_clientHasEnded := True, dr_serverHasEnded := True\<rparr>) p1 else Some p1) = Some p2"
    and p': "p' = p2 \<or> run_unit run (ContinueNext (int i)) p2 = Some p'"
    by (auto simp: checkEndConditions_def bind_Some_conv Let_def split: if_splits)
  have "keeps \<delta> p1 p2"
  proof (cases "end_reached op d now")
    case True
    with p2 have "upd_driver (\<lambda>d. d\<lparr>dr_clientHasEnded := True, dr_serverHasEnded := True\<rparr>) p1 = Some p2" by simp
    then show ?thesis by (rule upd_driver_rel) auto
  qed (use p2 in simp)
  with 1 p' show ?thesis by (auto dest!: called intro: rel_trans)
qed

lemma processed:
  assumes "processAction env run i p = Some p'"
  shows "walks \<delta> p p'"
proof -
  from assms obtain g where g: "p_graph p = Some g" by (auto simp: processAction_def bind_Some_conv)
  show ?thesis
    using assms g by (cases "tgengraph_getActionType g i")
      (auto simp: processAction_def dest: called intro: initiated rel_walk pause_handled end_checked)
qed

lemma processed_all: "process_all env run vs p = Some p' \<Longrightarrow> walks \<delta> p p'"
proof (induction vs arbitrary: p)
  case (Cons v vs)
  then obtain p1 where p1: "processAction env run v p = Some p1" "process_all env run vs p1 = Some p'"
    by (auto simp: bind_Some_conv)
  show ?case by (rule rel_trans [OF processed [OF p1(1)] Cons.IH [OF p1(2)]])
qed simp

lemma continued:
  assumes "continueNextActions env run i p = Some p'"
  shows "keeps \<delta> p p'"
proof -
  from assms obtain d where d: "p_driver p = Some d" by (auto simp: continueNextActions_def bind_Some_conv)
  show ?thesis
  proof (cases "dr_clientHasEnded d")
    case True
    with assms d show ?thesis by (simp add: continueNextActions_def)
  next
    case False
    with assms d obtain vs where vs: "process_all env run vs (p\<lparr>p_draws := p_draws p + 1\<rparr>) = Some p'"
      by (auto simp: continueNextActions_def bind_Some_conv)
    have "walks \<delta> p (p\<lparr>p_draws := p_draws p + 1\<rparr>)" by (rule rel_core) simp
    then have "walks \<delta> p p'" using processed_all [OF vs] by (rule rel_trans)
    then show ?thesis by (rule rel_not_ended) (use False d in \<open>simp add: client_ended_def\<close>)
  qed
qed

lemma client_started:
  assumes "driver_onStartClientTimerExpired run p = Some (b, p')"
  shows "keeps \<delta> p p'"
proof -
  obtain now p1 where t: "kern_time p = (now, p1)" by fastforce
  from assms t obtain p2 i where p2: "upd_driver (\<lambda>d. d\<lparr>dr_startTimeMicros := now\<rparr>) p1 = Some p2"
    and p': "run_unit run (ContinueNext i) p2 = Some p'"
    by (auto simp: driver_onStartClientTimerExpired_def bind_Some_conv)
  have "keeps \<delta> p p1" using core_time [OF t] by (intro rel_core) simp
  also have "keeps \<delta> p1 p2" by (rule upd_driver_rel [OF p2]) auto
  also have "keeps \<delta> p2 p'" using called [OF p'] by simp
  finally show ?thesis .
qed

section \<open>All calls\<close>

lemma called_step:
  assumes "step_call env run c p = Some (r, p')" "valid_call c"
  shows "rel False (before \<delta> c) p (idle \<delta>) p'"
proof (cases c)
  case (ObjNotify x d ev)
  with assms(1) show ?thesis
    by (cases x) (auto simp: step_call_def reply_response_def intro: conn_event server_event [OF _ new_peer])
next
  case (ObjTimeout x d)
  with assms(1) show ?thesis
    by (cases x) (auto simp: step_call_def reply_bool_def intro: conn_timeout)
next
  case (ObjDestroy x)
  with assms(1) show ?thesis
    by (cases x) (auto simp: step_call_def reply_unit_def intro: destroy_conn server_unref)
next
  case (TimerExpired u)
  with assms(1) show ?thesis
    by (cases u) (auto simp: step_call_def reply_bool_def driver_onPauseTimerExpired_def generator_onTimerExpired_def bind_Some_conv
        intro: heartbeat client_started generates dest: called)
next
  case (TimerDestroy u)
  with assms(1) show ?thesis
    by (cases u) (auto simp: step_call_def reply_unit_def intro: driver_released generator_unref_keeps)
next
  case (NotifyCB target i fl)
  with assms show ?thesis
    by (cases target) (auto simp: step_call_def reply_unit_def dest: driver_notified generator_notified)
next
  case (ContinueNext i)
  with assms(1) show ?thesis by (auto simp: step_call_def reply_unit_def intro: continued)
next
  case (ReleaseTarget target)
  with assms(1) show ?thesis
    by (cases target) (auto simp: step_call_def reply_unit_def intro: driver_released generator_unref_keeps)
next
  case (StartGenerator a)
  with assms(1) show ?thesis by (auto simp: step_call_def reply_unit_def intro: starts)
qed

lemma sound_step: "sound_runner (step_call env run)"
  by unfold_locales (rule called_step)

end

lemma exec_sound: "sound_runner (exec n env)"
  by (induction n) (simp_all add: sound_runner.sound_step, simp add: sound_runner_def)

interpretation process: sound_runner env "exec n env" for env n
  by (rule exec_sound)

end
