(* ===== verification/ProcessRun.thy ===== *)
theory ProcessRun
  imports AccountingRun
begin

text \<open>
  Runs of the process: the driver is made, and then the event loop is activated whenever the main loop
  wakes up, until it is shut down. What the statistics of the driver say at every moment of a run.
\<close>

section \<open>Functions of the driver outside the cycle of calls\<close>

context sound_runner begin

lemma driver_timer_set:
  assumes "driver_timer env run m pers u p = Some (ok, p')"
  shows "keeps \<delta> p p'"
proof -
  obtain t p1 where t: "new_user_timer m pers u p = (t, p1)" by fastforce
  have 1: "keeps \<delta> p p1" using core_timer [OF t] by (intro rel_core) simp
  have "p' = p1 \<or> (\<exists>i p2. tgendriver_ref p1 = Some p2 \<and> register_timer env run i p2 = Some p')"
    using assms t by (auto simp: driver_timer_def bind_Some_conv split: option.splits)
  with 1 show ?thesis by (blast intro: rel_trans tgendriver_ref_rel timer_registered)
qed

lemma timers_set:
  "setStartClientTimerHelper env run p = Some (ok, p') \<Longrightarrow> keeps \<delta> p p'"
  "setHeartbeatTimerHelper env run p = Some (ok, p') \<Longrightarrow> keeps \<delta> p p'"
  by (auto simp: setStartClientTimerHelper_def setHeartbeatTimerHelper_def bind_Some_conv Let_def
      split: option.splits dest: driver_timer_set)

lemma server_made: "tgenserver_new li p = (sv, p') \<Longrightarrow> core p' = core p"
  by (auto simp: tgenserver_new_def split: if_splits)

lemma server_started:
  assumes "startServerHelper env run li p = Some (ok, p')"
  shows "keeps \<delta> p p'"
proof -
  obtain sv p1 where s: "tgenserver_new li p = (sv, p1)" by fastforce
  have 1: "keeps \<delta> p p1" using server_made [OF s] by (intro rel_core) simp
  show ?thesis
  proof (cases sv)
    case None
    with assms s 1 show ?thesis by (simp add: startServerHelper_def)
  next
    case (Some v)
    let ?p = "p1\<lparr>p_next := Suc (p_next p1), p_servers := (p_servers p1)(p_next p1 \<mapsto> v)\<rparr>"
    from assms s Some obtain p2 d ok' where p2: "tgendriver_ref ?p = Some p2"
      and p3: "tgenio_register (proc_handlers env run) d False (DUser (ServerObj (p_next p1))) p2 = Some (ok', p')"
      by (auto simp: startServerHelper_def bind_Some_conv Let_def)
    note 1
    also have "keeps \<delta> p1 ?p" by (rule rel_next) simp_all
    also have "keeps \<delta> ?p p2" by (rule tgendriver_ref_rel [OF p2])
    also have "keeps \<delta> p2 p'" by (rule loop.register [OF p3])
    finally show ?thesis .
  qed
qed

lemma ended_set:
  "upd_driver (\<lambda>d. d\<lparr>dr_serverHasEnded := b\<rparr>) p = Some p' \<Longrightarrow> rel w x p x p'"
  "upd_driver (\<lambda>d. d\<lparr>dr_clientHasEnded := True\<rparr>) p = Some p' \<Longrightarrow> rel w x p x p'"
  "upd_driver (\<lambda>d. d\<lparr>dr_io := b\<rparr>) p = Some p' \<Longrightarrow> rel w x p x p'"
  by (erule upd_driver_rel; simp)+

lemma sides_started:
  "run_server env run li p = Some (ok, p') \<Longrightarrow> keeps \<delta> p p'" "run_client env run p = Some (ok, p') \<Longrightarrow> keeps \<delta> p p'"
  by (auto simp: run_server_def run_client_def bind_Some_conv split: if_splits dest: server_started timers_set ended_set)

lemma or_released:
  assumes "or_release env run r f = Some (ok, p')" "\<And>ok p1. r = Some (ok, p1) \<Longrightarrow> keeps \<delta> p p1"
    and "\<And>p1. f p1 = Some (ok, p') \<Longrightarrow> keeps \<delta> p1 p'"
  shows "keeps \<delta> p p'"
proof -
  from assms(1) obtain b p1 where p1: "r = Some (b, p1)"
    and rest: "if b then f p1 = Some (ok, p') else tgendriver_unref env run p1 = Some p'"
    by (auto simp: or_release_def bind_Some_conv split: if_splits)
  have "keeps \<delta> p1 p'" using rest assms(3) driver_released by (auto split: if_splits)
  with assms(2) [OF p1] show ?thesis by (rule rel_trans)
qed

lemma driver_made:
  assumes "tgendriver_new env run e li p = Some (ok, p')" "p_conns p = Map.empty" "p_generators p = Map.empty"
  shows "\<exists>p1. phased p1 \<and> balanced (idle (\<lambda>_. 0)) p1 \<and> keeps (\<lambda>_. 0) p1 p'"
proof -
  from assms(1) obtain g op where g: "p_graph p = Some g" "tgengraph_getStartOptions (tgengraph_ref g) = Some op"
    by (auto simp: tgendriver_new_def bind_Some_conv Let_def)
  define p1 where "p1 = (case tgenio_new e p of
           Some p' \<Rightarrow> p'\<lparr>p_graph := Some (tgengraph_ref g), p_driver := Some (driver_zero (int (tgengraph_getStartActionID (tgengraph_ref g))) op\<lparr>dr_io := True\<rparr>)\<rparr>
         | None \<Rightarrow> p\<lparr>p_graph := Some (tgengraph_ref g), p_driver := Some (driver_zero (int (tgengraph_getStartActionID (tgengraph_ref g))) op)\<rparr>)"
  have "\<exists>d. p_driver p1 = Some d \<and> dr_total d = stats_zero"
    by (cases "tgenio_new e p") (simp_all add: p1_def driver_zero_def)
  then obtain d where d: "p_driver p1 = Some d" "dr_total d = stats_zero" by blast
  have c: "p_conns p1 = Map.empty" "p_generators p1 = Map.empty" "p_next p1 = p_next p"
    using assms(2,3) by (auto simp: p1_def tgenio_new_def split: option.splits if_splits)
  then have "open_streams p1 = 0" by (simp add: open_streams_def count_in_def)
  then have "balanced (idle (\<lambda>_. 0)) p1" "phased p1"
    using c d by (simp_all add: idle_def balanced.simps bounded_def driver_ok_def stats_ok_def stats_zero_def phased_def)
  moreover have "keeps (\<lambda>_. 0) p1 p'"
  proof -
    have "or_release env run (setHeartbeatTimerHelper env run p1)
         (\<lambda>p2. or_release env run (run_server env run li p2)
           (\<lambda>p3. or_release env run (run_client env run p3) (\<lambda>p4. Some (True, p4)))) = Some (ok, p')"
      using assms(1) g by (simp add: tgendriver_new_def Let_def p1_def)
    then show ?thesis by (elim or_released) (auto dest: timers_set sides_started)
  qed
  ultimately show ?thesis by blast
qed

lemma activated: "activateIO (proc_handlers env run) p = Some p' \<Longrightarrow> keeps \<delta> p p'"
proof -
  have "H = proc_handlers env run \<longrightarrow> keeps \<delta> p p'" if "activateIO H p = Some p'" for H p p'
  proof (rule activateIO.raw_induct [where P = "\<lambda>H p p'. H = proc_handlers env run \<longrightarrow> keeps \<delta> p p'", OF _ that], goal_cases)
    case (1 act H p p')
    then show ?case
      by (auto simp: bind_Some_conv split: if_splits dest!: loop.loopOnce intro: rel_trans)
  qed
  then show "activateIO (proc_handlers env run) p = Some p' \<Longrightarrow> keeps \<delta> p p'" by blast
qed

lemma driver_activated: "tgendriver_activateIO env run p = Some p' \<Longrightarrow> keeps \<delta> p p'"
  by (auto simp: tgendriver_activateIO_def bind_Some_conv dest: activated)

lemma shut_down: "tgendriver_shutdownIO env run p = Some p' \<Longrightarrow> keeps \<delta> p p'"
  by (auto simp: tgendriver_shutdownIO_def bind_Some_conv split: if_splits dest!: loop.io_release ended_set(3) [where w = False and x = "idle \<delta>"]
      intro: rel_trans)

end

section \<open>Runs\<close>

text \<open>Between two activations the kernel's side changes, and what the network has for the connections.\<close>

inductive process_run :: "progenv \<Rightarrow> nat \<Rightarrow> process \<Rightarrow> process \<Rightarrow> bool" for env n p where
  still: "process_run env n p p"
| kernel: "process_run env n p p1 \<Longrightarrow> tgenio.more p2 = tgenio.more p1 \<Longrightarrow> process_run env n p p2"
| network: "process_run env n p p1 \<Longrightarrow> p_conns p1 a = Some c \<Longrightarrow> process_run env n p (set_conn a (c\<lparr>cn_world := w\<rparr>) p1)"
| activate: "process_run env n p p1 \<Longrightarrow> tgendriver_activateIO env (exec n env) p1 = Some p2 \<Longrightarrow> process_run env n p p2"
| shutdown: "process_run env n p p1 \<Longrightarrow> tgendriver_shutdownIO env (exec n env) p1 = Some p2 \<Longrightarrow> process_run env n p p2"

lemma run_keeps: "process_run env n p p' \<Longrightarrow> keeps \<delta> p p'"
proof (induction rule: process_run.induct)
  case (kernel p1 p2)
  then show ?case by (metis rel_trans rel_more)
next
  case (network p1 a c w)
  then show ?case by (elim rel_trans) (rule rel_conn_same; simp add: is_open_def)
qed (auto intro: rel_trans process.driver_activated process.shut_down)

end
