(* ===== verification/ProcessProps.thy ===== *)
theory ProcessProps
  imports ProcessRun GraphProps MarkovProps
begin

text \<open>
  What a run of the process guarantees, over all parts: the event loop, the driver, its generators and
  their streams. At the end a small process that is run step by step: its start timer expires, the walk
  reaches a stream action, and a generator makes its stream.
\<close>

section \<open>Statistics\<close>

lemma run_balanced:
  assumes "tgendriver_new env (exec n env) epollD li p0 = Some (ok, p1)"
    and "p_conns p0 = Map.empty" "p_generators p0 = Map.empty"
    and "process_run env n p1 p"
  shows "phased p" "p_next p < 2 ^ 32 \<Longrightarrow> balanced (idle (\<lambda>_. 0)) p"
proof -
  from process.driver_made [OF assms(1-3)] obtain q where q: "phased q" "balanced (idle (\<lambda>_. 0)) q" "keeps (\<lambda>_. 0) q p1"
    by blast
  have "keeps (\<lambda>_. 0) q p" by (rule rel_trans [OF q(3) run_keeps [OF assms(4)]])
  with q show "phased p" "p_next p < 2 ^ 32 \<Longrightarrow> balanced (idle (\<lambda>_. 0)) p" by (simp_all add: rel_def)
qed

text \<open>
  C1. The driver's statistics never claim more than there is. In every state of every run of the process,
  whatever the network and the kernel do, the streams counted as succeeded and as failed and those that
  are still open together are at most those counted as created. So the number of pending streams the
  heartbeat prints does not wrap around and covers every open stream.
\<close>

theorem driver_counts_streams:
  assumes "tgendriver_new env (exec n env) epollD li p0 = Some (ok, p1)"
    and "p_conns p0 = Map.empty" "p_generators p0 = Map.empty"
    and "process_run env n p1 p" "p_next p < 2 ^ 32" "p_driver p = Some d"
  shows "unat (stat_StreamSuccess (dr_total d)) + unat (stat_StreamError (dr_total d)) + open_streams p
           \<le> unat (stat_StreamCreated (dr_total d)) \<and>
     open_streams p \<le> unat (stat_StreamCreated (dr_total d) - stat_StreamSuccess (dr_total d) - stat_StreamError (dr_total d))"
proof -
  have "driver_ok {} p" using run_balanced(2) [OF assms(1-5)] by (simp add: idle_def balanced.simps)
  then have le: "unat (stat_StreamSuccess (dr_total d)) + unat (stat_StreamError (dr_total d)) + open_streams p
      \<le> unat (stat_StreamCreated (dr_total d))"
    using assms(6) by (simp add: driver_ok_def stats_ok_def Let_def)
  then have "unat (stat_StreamCreated (dr_total d) - stat_StreamSuccess (dr_total d) - stat_StreamError (dr_total d)) =
      unat (stat_StreamCreated (dr_total d)) - unat (stat_StreamSuccess (dr_total d)) - unat (stat_StreamError (dr_total d))"
    by (simp add: unat_sub word_le_nat_alt)
  with le show ?thesis by simp
qed

text \<open>
  C7. A generator of streams knows its children. In every state of a run, the streams it made that are
  still open and those it counted as completed are together at most those it counted as generated; hence
  when it holds that it is done, and releases itself, no stream of its own is open any more.
\<close>

theorem generator_counts_streams:
  assumes "tgendriver_new env (exec n env) epollD li p0 = Some (ok, p1)"
    and "p_conns p0 = Map.empty" "p_generators p0 = Map.empty"
    and "process_run env n p1 p" "p_next p < 2 ^ 32"
    and "p_generators p a = Some g" "gn_streamOptions g \<noteq> None"
  shows "kids p a + unat (gn_numCompleted g) \<le> unat (gn_numGenerated g) \<and> (generator_done g \<longrightarrow> kids p a = 0)"
proof -
  have "kids p a + unat (gn_numCompleted g) \<le> unat (gn_numGenerated g)"
    using run_balanced(2) [OF assms(1-5)] assms(6,7)
    by (fastforce simp: idle_def balanced.simps generator_ok_def counts_ok_def stream_mode_def)
  then show ?thesis by (auto simp: generator_done_def word_le_nat_alt)
qed


section \<open>A process step by step\<close>

text \<open>One stream action after the start; its model and its peer are given.\<close>

definition demo_start_options :: start_options where
  "demo_start_options = \<lparr>so_serverport = unset 0, so_timeNanos = unset 0, so_heartbeatPeriodNanos = set_to 0,
     so_loglevel = unset LOG_NONE,
     so_defaultTrafficOpts = \<lparr>to_flowModelPath = unset [], to_flowOpts = \<lparr>fo_streamModelPath = unset [], fo_streamOpts = demo_options\<rparr>\<rparr>\<rparr>"

definition demo_peer :: peer where
  "demo_peer = tgenpeer_newFromIP 0x01020304 80"

definition demo_stream_options :: stream_options where
  "demo_stream_options = demo_options\<lparr>op_packetModelPath := set_to ''demo'', op_sendSize := set_to 1000,
     op_peers := set_to (Some (tgenpool_add tgenpool_new demo_peer))\<rparr>"

definition demo_steps :: agraph where
  "demo_steps = demo_ag [''start'', ''stream''] [(0, 1)]"

definition demo_client :: tgraph where
  "demo_client = (graph_zero demo_steps ''x'')
     \<lparr>g_edgeCount := 1, g_refcount := 2,
      g_actions := [0 \<mapsto> newAction (StartOptions demo_start_options), 1 \<mapsto> newAction (StreamOptions demo_stream_options)]\<rparr>"

definition demo_senv :: streamenv where
  "demo_senv = demo_env\<lparr>se_sys := demo_files\<lparr>se_read_graphml := (\<lambda>_. Some (demo_graph ''observation''))\<rparr>\<rparr>"

definition demo_penv :: progenv where
  "demo_penv = \<lparr>ev_stream = demo_senv, ev_rand_int = (\<lambda>_ _. 0), ev_range = (\<lambda>_ a b. a), ev_order = (\<lambda>_. [])\<rparr>"

definition demo_dial :: dial where
  "demo_dial = \<lparr>dl_sockets = \<lparr>so_socket = 9, so_bind_ok = True, so_connect = Some EINPROGRESS, so_getsockname = None,
     so_TGENIP = None, so_TGENSOCKS = None\<rparr>, dl_rd = [], dl_wr = []\<rparr>"

text \<open>The process before there is a driver, and when the client's start timer is about to expire.\<close>

definition demo_process :: process where
  "demo_process =
     \<lparr>k_timerfds = Map.empty, k_timerfd_create = [7], k_settime = [], k_timer_read = [], k_epoll = Map.empty,
      k_epoll_ctl = [], k_epoll_wait = [Inr [(7, {EPOLLIN})]], k_clock = [100], k_closed = [],
      io_epollD = 0, io_children = Map.empty, io_refcount = 0, heap_child = Map.empty, heap_timer = Map.empty, heap_next = 0,
      p_driver = None, p_graph = Some (demo_client\<lparr>g_refcount := 1\<rparr>), p_generators = Map.empty, p_conns = Map.empty,
      p_servers = Map.empty, p_next = 0, p_random = [7], p_draws = 0, p_streamCounter = 0, p_dials = [demo_dial],
      p_accepts = [], p_log = []\<rparr>"

definition demo_listen :: listening where
  "demo_listen = \<lparr>li_socket = - 1, li_reuseaddr = True, li_reuseport = True, li_bind = True, li_listen = True\<rparr>"

definition demo_driver :: driver where
  "demo_driver = (driver_zero 0 demo_start_options)\<lparr>dr_io := True, dr_refcount := 2, dr_serverHasEnded := True\<rparr>"

definition demo_waiting :: process where
  "demo_waiting = demo_process
     \<lparr>io_epollD := 4, io_refcount := 1, p_graph := Some demo_client, p_driver := Some demo_driver,
      k_timerfd_create := [], k_timerfds := [7 \<mapsto> timer_spec 0 1 False], k_epoll := [7 \<mapsto> {EPOLLIN, EPOLLOUT}],
      io_children := [7 \<mapsto> 1], heap_child := [1 \<mapsto> tgeniochild_new 7 {EPOLLIN, EPOLLOUT} False (DTimer 0)],
      heap_timer := [0 \<mapsto> \<lparr>ti_notify = UserTimer StartClientTimer, ti_timerD = 7, ti_isPersistent = False, ti_refcount = 1\<rparr>],
      heap_next := 2\<rparr>"

text \<open>Evaluation from the outside in: what follows a step is looked at when the step is done.\<close>

lemma bind_weak_cong: "e = e' \<Longrightarrow> Option.bind e f = Option.bind e' f"
  by simp

lemma exec_apply: "exec (numeral k) env c p = step_call env (exec (pred_numeral k) env) c p"
  by (simp add: numeral_eq_Suc)

lemma demo_new: "tgendriver_new demo_penv (exec n demo_penv) 4 demo_listen demo_process = Some (True, demo_waiting)"
  by (simp cong: bind_weak_cong add: demo_waiting_def demo_driver_def tgendriver_new_def demo_process_def demo_client_def graph_zero_def
    tgengraph_ref_def tgengraph_getStartOptions_def getOptionsHelper_def getAction_def newAction_def demo_start_options_def tgenio_new_def
    tgengraph_getStartActionID_def driver_zero_def setHeartbeatTimerHelper_def heartbeat_period_def or_release_def run_server_def
    run_client_def upd_driver_def set_to_def unset_def tgengraph_hasEdges_def pop_def Let_def tgendriver_ref_def tgenio_register_def
    epoll_ctl_def set_child_def tgeniochild_new_def setStartClientTimerHelper_def driver_timer_def new_user_timer_def tgentimer_new_def
    timerfd_create_def timerfd_settime_def timer_spec_def register_timer_def tgentimer_getDescriptor_def)

lemma demo_waiting_sel:
  "p_driver demo_waiting = Some demo_driver" "p_graph demo_waiting = Some demo_client" "p_generators demo_waiting = Map.empty"
  "p_conns demo_waiting = Map.empty" "p_next demo_waiting = 0" "p_random demo_waiting = [7]" "p_draws demo_waiting = 0"
  "p_dials demo_waiting = [demo_dial]" "p_streamCounter demo_waiting = 0" "p_log demo_waiting = []"
  "k_clock demo_waiting = [100]" "heap_next demo_waiting = 2" "io_children demo_waiting = [7 \<mapsto> 1]" "k_epoll_ctl demo_waiting = []"
  "k_epoll demo_waiting = [7 \<mapsto> {EPOLLIN, EPOLLOUT}]" "k_timer_read demo_waiting = []" "k_timerfds demo_waiting = [7 \<mapsto> timer_spec 0 1 False]"
  "heap_child demo_waiting = [1 \<mapsto> tgeniochild_new 7 {EPOLLIN, EPOLLOUT} False (DTimer 0)]" "io_refcount demo_waiting = 1"
  "heap_timer demo_waiting = [0 \<mapsto> \<lparr>ti_notify = UserTimer StartClientTimer, ti_timerD = 7, ti_isPersistent = False, ti_refcount = 1\<rparr>]"
  "k_epoll_wait demo_waiting = [Inr [(7, {EPOLLIN})]]" "k_closed demo_waiting = []"
  by (simp_all add: demo_waiting_def demo_process_def)

lemma demo_action_graph_sel:
  "ag_out demo_steps 0 = Some [1]" "ag_eid demo_steps 0 (Suc 0) = Some 0" "ig_VAS demo_steps ''id'' (Suc 0) = Some ''stream''"
  "g_graph demo_client = demo_steps" "g_weights demo_client = Map.empty" "g_startActionVertexIndex demo_client = 0"
  "g_actions demo_client 0 = Some (newAction (StartOptions demo_start_options))"
  "g_actions demo_client (Suc 0) = Some (newAction (StreamOptions demo_stream_options))"
  by (simp_all add: demo_steps_def demo_ag_def demo_client_def graph_zero_def)

lemma demo_driver_sel:
  "dr_clientHasEnded demo_driver = False" "dr_io demo_driver = True" "dr_total demo_driver = stats_zero"
  "dr_heartbeat demo_driver = stats_zero" "dr_refcount demo_driver = 2" "dr_startActionID demo_driver = 0"
  by (simp_all add: demo_driver_def driver_zero_def)

lemma demo_env_sel:
  "ev_stream demo_penv = demo_senv" "ev_rand_int demo_penv = (\<lambda>_ _. 0)" "ev_range demo_penv = (\<lambda>_ a b. a)" "ev_order demo_penv = (\<lambda>_. [])"
  "se_sys demo_senv = demo_files\<lparr>se_read_graphml := (\<lambda>_. Some (demo_graph ''observation''))\<rparr>"
  "se_db demo_senv = \<lparr>getaddrinfo = (\<lambda>_. None), getnameinfo = (\<lambda>_. None)\<rparr>"
  "se_os demo_senv = \<lparr>os_TGENHOSTNAME = Some ''host'', os_TGENIP = None, os_TGENSOCKS = None, os_gethostname = None\<rparr>"
  by (simp_all add: demo_penv_def demo_senv_def demo_env_def)

lemma demo_options_sel:
  "isSet (op_socksAuthGenerator demo_stream_options) = False" "isSet (op_socksUsername demo_stream_options) = False"
  "isSet (op_socksPassword demo_stream_options) = False" "isSet (op_socksProxies demo_stream_options) = False"
  "isSet (op_seedGenerator demo_stream_options) = False" "op_packetModelPath demo_stream_options = set_to ''demo''"
  "op_peers demo_stream_options = set_to (Some (tgenpool_add tgenpool_new demo_peer))"
  "isSet (op_sendSize demo_stream_options)" "opt_value (op_sendSize demo_stream_options) = 1000"
  "isSet (op_recvSize demo_stream_options) = False" "isSet (op_timeoutNanos demo_stream_options) = False"
  "isSet (op_stalloutNanos demo_stream_options) = False" "isSet (op_packetModelMode demo_stream_options) = False"
  by (simp_all add: demo_stream_options_def demo_options_def set_to_def unset_def)

lemma demo_walk_step:
  "tgengraph_getStreamOptions demo_client (Suc 0) = Some (demo_stream_options, demo_client)"
  "tgengraph_getActionType demo_client (Suc 0) = ACTION_STREAM" "tgengraph_getActionName demo_client (Suc 0) = Some ''stream''"
  by (simp cong: bind_weak_cong add: demo_action_graph_sel tgengraph_getStreamOptions_def getOptionsHelper_def getAction_def newAction_def
    tgengraph_getStartOptions_def demo_start_options_def copyDefaultStreamOptions_def demo_stream_options_def demo_options_def inherit_def
    set_options_def storeAction_def Let_def set_to_def unset_def,
    simp add: demo_client_def graph_zero_def newAction_def demo_stream_options_def demo_options_def set_to_def unset_def)
   (simp_all add: demo_action_graph_sel tgengraph_getActionType_def tgengraph_getActionName_def getAction_def newAction_def)

definition demo_xmodel :: mmodel where
  "demo_xmodel = (demo_model ''observation'')\<lparr>mm_path := Some ''demo''\<rparr>"

lemma demo_model_read:
  "tgenmarkovmodel_newFromPath (demo_files\<lparr>se_read_graphml := \<lambda>_. Some (demo_graph ''observation'')\<rparr>) (Some (basename ''demo'')) 7
     (Some ''demo'') = Some (Some demo_xmodel)"
proof -
  have b: "basename ''demo'' = ''demo''" by code_simp
  show ?thesis unfolding b
    by (simp add: tgenmarkovmodel_newFromPath_def demo_files_def Let_def mmodel_loadGraph_def mmodel_new_named_def demo_model_new demo_xmodel_def)
qed

lemma demo_outside:
  "pool_nnodes (tgenpool_add tgenpool_new demo_peer) = 1" "tgenpool_getRandom r (tgenpool_add tgenpool_new demo_peer) = Some demo_peer"
  "getProxyFromEnv (dl_sockets demo_dial) = None" "so_socket (dl_sockets demo_dial) = 9" "so_TGENIP (dl_sockets demo_dial) = None"
  "so_connect (dl_sockets demo_dial) = Some EINPROGRESS" "so_getsockname (dl_sockets demo_dial) = None" "dl_rd demo_dial = []"
  "dl_wr demo_dial = []" "tgenmarkovmodel_ref demo_xmodel = demo_xmodel\<lparr>mm_refcount := 2\<rparr>"
  "tgenmarkovmodel_unref (demo_xmodel\<lparr>mm_refcount := 2\<rparr>) = Some demo_xmodel"
  by (simp_all add: pool_nnodes_def Mapping.size_def Mapping.lookup_update' tgenpool_add_def tgenpool_new_def tgenpool_getRandom_def Let_def getProxyFromEnv_def demo_dial_def
      tgenmarkovmodel_ref_def tgenmarkovmodel_unref_def demo_xmodel_def demo_model_def)

lemma demo_run:
  "case tgendriver_activateIO demo_penv (exec 6 demo_penv) demo_waiting of
     None \<Rightarrow> False
   | Some p \<Rightarrow> p_next p = 2 \<and> dom (p_conns p) = {1} \<and>
       (case p_conns p 1 of None \<Rightarrow> False | Some c \<Rightarrow> is_open c \<and> cn_target c = ToGenerator 0) \<and>
       (case p_driver p of None \<Rightarrow> False | Some d \<Rightarrow> stat_StreamCreated (dr_total d) = 1 \<and> \<not> dr_clientHasEnded d) \<and>
       (case p_generators p 0 of None \<Rightarrow> False | Some g \<Rightarrow> gn_streamOptions g \<noteq> None \<and> gn_numGenerated g = 1)"
  unfolding tgendriver_activateIO_def
  by (simp cong: bind_weak_cong add: demo_waiting_sel demo_action_graph_sel demo_driver_sel demo_env_sel demo_options_sel demo_walk_step
    demo_model_read demo_outside
    activateIO.simps tgenio_loopOnce_def MAX_EVENTS_PER_IO_LOOP_def tgenio_helper_def child_notify_def proc_handlers_def tgeniochild_new_def
    tgentimer_onEvent_def timer_call_def run_bool_def run_response_def reply_bool_def driver_onStartClientTimerExpired_def kern_time_def
    continueNextActions_def tgengraph_getNextActionIDs_def getWeight_def getAction_def newAction_def
    processAction_def initiateStream_def startGenerator_def tgengenerator_new_def choose_mode_def run_unit_def exec_apply step_call_def
    reply_unit_def driver_onNotify_def tgendriver_ref_def upd_driver_def tgenio_ref_def ref_target_def initSocksAuthStrings_def
    generator_zero_def set_generator_def Let_def tgengenerator_start_def createStream_def createMarkovModel_def proc_random_def pop_def
    draw_from_def tgentransport_newActive_def set_to_def fresh_world_def enter_def leave_def g_get_monotonic_time_def conn_new_def
    tgenstream_new_def set_role_def set_sizes_def opt_set_def set_conn_def notify_created_def tgenconfig_gethostname_def
    nanos_to_usecs_def changeSendState_def stream_resetString_def upd_recv_def upd_send_def upd_time_def fresh_time_def
    generator_onNotify_def creator_unref_model_def register_conn_def tgenio_register_def epoll_ctl_def set_child_def
    creator_unref_transport_def count_generated_def upd_generator_def generator_ref_def tgentransport_unref_def tgentransport_ref_def
    tgentransport_newHelper_def tgentransport_getDescriptor_def tgentransport_getStartTimestamp_def
    tgenio_deregister.simps table_remove_def tgeniochild_hashTableDestroy_def io_unref.simps tgentimer_unref_def timer_free_def
    kern_close_def tgendriver_unref_def count_flags_def incr_def stats_zero_def is_open_def)

lemma demo_reached:
  obtains p c d g where "tgendriver_activateIO demo_penv (exec 6 demo_penv) demo_waiting = Some p"
    "process_run demo_penv 6 demo_waiting p" "p_next p = 2" "p_conns p = [1 \<mapsto> c]" "is_open c" "cn_target c = ToGenerator 0"
    "p_driver p = Some d" "stat_StreamCreated (dr_total d) = 1" "p_generators p 0 = Some g" "gn_streamOptions g \<noteq> None" "gn_numGenerated g = 1"
proof -
  obtain p where p: "tgendriver_activateIO demo_penv (exec 6 demo_penv) demo_waiting = Some p"
    using demo_run by (cases "tgendriver_activateIO demo_penv (exec 6 demo_penv) demo_waiting") simp_all
  note run = process_run.activate [OF process_run.still p]
  from demo_run p obtain c d g where "p_conns p 1 = Some c" "dom (p_conns p) = {1}" "is_open c" "cn_target c = ToGenerator 0"
    "p_driver p = Some d" "stat_StreamCreated (dr_total d) = 1" "p_generators p 0 = Some g" "gn_streamOptions g \<noteq> None" "gn_numGenerated g = 1"
    "p_next p = 2"
    by (auto split: option.splits)
  moreover from this(1,2) have "p_conns p = [1 \<mapsto> c]" by (auto simp: fun_eq_iff dom_def)
  ultimately show thesis using that p run by blast
qed

lemma count_one: "count_in [a \<mapsto> v] P = of_bool (P v)"
  using count_insert [of Map.empty a v P] by (simp add: count_in_def)

theorem driver_counts_streams_witness:
  "\<exists>p d. tgendriver_activateIO demo_penv (exec 6 demo_penv) demo_waiting = Some p \<and> p_driver p = Some d \<and> open_streams p = 1 \<and>
     1 \<le> unat (stat_StreamCreated (dr_total d) - stat_StreamSuccess (dr_total d) - stat_StreamError (dr_total d))"
proof -
  obtain p c d g where p: "tgendriver_activateIO demo_penv (exec 6 demo_penv) demo_waiting = Some p"
    "process_run demo_penv 6 demo_waiting p" "p_next p = 2" "p_conns p = [1 \<mapsto> c]" "is_open c" "p_driver p = Some d"
    by (rule demo_reached)
  have "open_streams p = 1" using p(4,5) by (simp add: open_streams_def count_one)
  with driver_counts_streams [OF demo_new _ _ p(2) _ p(6)] p show ?thesis by (simp add: demo_process_def)
qed

theorem generator_counts_streams_witness:
  "\<exists>p g. tgendriver_activateIO demo_penv (exec 6 demo_penv) demo_waiting = Some p \<and> p_generators p 0 = Some g \<and>
     kids p 0 = 1 \<and> gn_numGenerated g = 1 \<and> unat (gn_numCompleted g) = 0 \<and> \<not> generator_done g"
proof -
  obtain p c d g where p: "tgendriver_activateIO demo_penv (exec 6 demo_penv) demo_waiting = Some p"
    "process_run demo_penv 6 demo_waiting p" "p_next p = 2" "p_conns p = [1 \<mapsto> c]" "is_open c" "cn_target c = ToGenerator 0"
    "p_generators p 0 = Some g" "gn_streamOptions g \<noteq> None" "gn_numGenerated g = 1"
    by (rule demo_reached)
  have "kids p 0 = 1" using p(4-6) by (simp add: kids_def count_one)
  with generator_counts_streams [OF demo_new _ _ p(2) _ p(7,8)] p show ?thesis by (auto simp: demo_process_def)
qed

text \<open>A graph without edges has no client; the loop is shut down.\<close>

definition demo_idle :: process where
  "demo_idle = demo_process\<lparr>p_graph := Some (demo_client\<lparr>g_edgeCount := 0\<rparr>)\<rparr>"


end
