(* ===== verification/Nesting.thy ===== *)
theory Nesting
  imports Fuel ProcessProps
begin

text \<open>
  How deep the program nests its calls. A stream whose transport cannot be made ends before its creation
  returns: its generator completes, the driver walks on, and the next action starts inside the call that
  started the failed one.
\<close>

section \<open>A transport that is refused\<close>

definition refused :: "dial \<Rightarrow> bool" where
  "refused dl \<longleftrightarrow> so_socket (dl_sockets dl) < 0 \<or>
     so_TGENIP (dl_sockets dl) \<noteq> None \<and> \<not> so_bind_ok (dl_sockets dl) \<or>
     so_connect (dl_sockets dl) \<noteq> None \<and> so_connect (dl_sockets dl) \<noteq> Some EINPROGRESS"

lemma refused_no_transport:
  "refused dl \<Longrightarrow> \<exists>calls w'. tgentransport_newActive db (dl_sockets dl) r peers b proxy user pass w = (None, calls, w')"
  by (auto simp: refused_def tgentransport_newActive_def Let_def split: option.splits prod.splits)

definition fails_next :: "nat \<Rightarrow> process \<Rightarrow> bool" where
  "fails_next k p \<longleftrightarrow> (\<forall>dl \<in> set (take k (p_dials p)). refused dl)"

text \<open>What the steps on the way do not touch.\<close>

definition same_walk :: "process \<Rightarrow> process \<Rightarrow> bool" where
  "same_walk p q \<longleftrightarrow> p_graph q = p_graph p \<and> p_driver q = p_driver p \<and> p_generators q = p_generators p"

lemma model_drawn:
  assumes "createMarkovModel env seedOpt pathOpt str nm p = Some (mm, q)" "\<not> isSet seedOpt"
  shows "same_walk p q" "p_dials q = p_dials p"
  using assms by (auto simp: createMarkovModel_def Let_def bind_Some_conv proc_random_def same_walk_def split: prod.splits)

lemma walk_draw: "same_walk p (snd (draw_from pool p))" "p_dials (snd (draw_from pool p)) = p_dials p"
  by (auto simp: draw_from_def proc_random_def same_walk_def split: prod.splits)

lemma createStream_refused:
  assumes made: "createStream env run a p = Some (ok, q)"
    and g: "p_generators p a = Some g" "gn_streamOptions g = Some op" "\<not> isSet (op_seedGenerator op)"
    and fails: "fails_next (Suc k) p"
  shows "\<not> ok" "same_walk p q" "fails_next k q"
proof -
  let ?none = "\<lparr>dl_sockets = \<lparr>so_socket = - 1, so_bind_ok = False, so_connect = None, so_getsockname = None,
             so_TGENIP = None, so_TGENSOCKS = None\<rparr>, dl_rd = [], dl_wr = []\<rparr> :: dial"
  from made g obtain mm p1 where p1: "createMarkovModel env (op_seedGenerator op) (op_packetModelPath op)
          tgenconfig_getDefaultPacketMarkovModelString tgenconfig_getDefaultPacketMarkovModelName p = Some (mm, p1)"
    by (auto simp: createStream_def bind_Some_conv)
  note drawn = model_drawn [OF p1 g(3)]
  obtain dl dials where dl: "pop ?none (p_dials p1) = (dl, dials)" by fastforce
  obtain r p2 where p2: "(case if isSet (op_peers op) then opt_value (op_peers op) else None of
             Some pool \<Rightarrow> draw_from pool p1 | None \<Rightarrow> (0, p1)) = (r, p2)" by fastforce
  then have same2: "same_walk p1 p2"
    using walk_draw(1) by (fastforce simp: same_walk_def split: option.splits if_splits dest!: arg_cong [of _ _ snd])
  have "refused dl" "\<forall>x \<in> set (take k dials). refused x"
    using dl fails drawn(2) by (auto simp: pop_def fails_next_def refused_def split: list.splits)
  from refused_no_transport [OF this(1)] obtain calls w where
    "tgentransport_newActive (se_db (ev_stream env)) (dl_sockets dl) r (op_peers op) True (gn_socksProxy g)
               (gn_socksUsername g) (gn_socksPassword g) (fresh_world (dl_rd dl) (dl_wr dl) p2) = (None, calls, w)"
    by blast
  with made g p1 dl p2 have q: "ok = False" "q = (let p3 = (leave w p2)\<lparr>p_dials := dials\<rparr>
      in if Close \<in> set calls then kern_close (so_socket (dl_sockets dl)) p3 else p3)"
    by (auto simp: createStream_def bind_Some_conv Let_def)
  show "\<not> ok" by (simp add: q(1))
  show "same_walk p q"
    using drawn(1) same2 by (simp add: q(2) same_walk_def leave_def kern_close_def Let_def)
  show "fails_next k q"
    using \<open>\<forall>x \<in> set (take k dials). refused x\<close> by (simp add: q(2) fails_next_def leave_def kern_close_def Let_def)
qed

section \<open>One failure\<close>

definition walking :: "tgraph \<Rightarrow> nat \<Rightarrow> process \<Rightarrow> bool" where
  "walking g k p \<longleftrightarrow> p_graph p = Some g \<and> (\<exists>d. p_driver p = Some d \<and> \<not> dr_clientHasEnded d) \<and> fails_next k p"

lemma driver_told:
  assumes "exec n env (NotifyCB ToDriver i fl) p = Some (r, q)" "walking g k p"
  obtains m p' where "n = Suc m" "walking g k p'" "p_generators p' = p_generators p"
    "if fl \<inter> {STREAM_COMPLETE, FLOW_COMPLETE, TRAFFIC_COMPLETE} \<noteq> {} \<and> i \<ge> 0
     then \<exists>r'. exec m env (ContinueNext i) p' = Some (r', q) else q = p'"
proof (cases n)
  case (Suc m)
  from assms(2) obtain d where d: "p_driver p = Some d" "\<not> dr_clientHasEnded d" by (auto simp: walking_def)
  let ?p = "p\<lparr>p_driver := Some (d\<lparr>dr_heartbeat := count_flags fl (dr_heartbeat d), dr_total := count_flags fl (dr_total d)\<rparr>)\<rparr>"
  show ?thesis
    by (rule that [OF Suc, of ?p])
      (use assms d in \<open>auto simp: Suc step_call_def reply_unit_def driver_onNotify_def upd_driver_def run_unit_def walking_def fails_next_def\<close>)
qed (use assms in simp)

lemma walk_refs:
  assumes "tgendriver_ref p = Some q" "walking g k p"
  shows "walking g k q" "p_generators q = p_generators p"
  using assms by (auto simp: tgendriver_ref_def upd_driver_def bind_Some_conv walking_def fails_next_def)

lemma walk_same: "same_walk p q \<Longrightarrow> p_dials q = p_dials p \<Longrightarrow> walking g k p \<Longrightarrow> walking g k q"
  by (simp add: same_walk_def walking_def fails_next_def)

lemma draw_walk: "draw_from pool p = (r, q) \<Longrightarrow> same_walk p q \<and> p_dials q = p_dials p"
  using walk_draw [where p = p and pool = pool] by simp

lemma auth_drawn:
  assumes drawn: "initSocksAuthStrings env g p = Some (g', q)" and op: "gn_streamOptions g = Some op" "\<not> isSet (op_socksAuthGenerator op)"
  shows "same_walk p q \<and> p_dials q = p_dials p"
    "\<exists>u v x. g' = g\<lparr>gn_socksUsername := u, gn_socksPassword := v, gn_socksProxy := x\<rparr>"
proof -
  let ?g = "g\<lparr>gn_socksUsername := (if isSet (op_socksUsername op) then Some (opt_value (op_socksUsername op)) else None),
      gn_socksPassword := (if isSet (op_socksPassword op) then Some (opt_value (op_socksPassword op)) else None)\<rparr>"
  have "(same_walk p q \<and> p_dials q = p_dials p) \<and>
      (\<exists>u v x. g' = g\<lparr>gn_socksUsername := u, gn_socksPassword := v, gn_socksProxy := x\<rparr>)"
  proof (cases "isSet (op_socksProxies op)")
    case True
    with drawn op obtain pool where pool: "opt_value (op_socksProxies op) = Some pool"
      by (auto simp: initSocksAuthStrings_def bind_Some_conv Let_def)
    obtain r q' where r: "draw_from pool p = (r, q')" by fastforce
    with drawn op pool True have g': "g' = ?g\<lparr>gn_socksProxy := map_option tgenpeer_ref (tgenpool_getRandom r pool)\<rparr>" "q' = q"
      by (auto simp: initSocksAuthStrings_def Let_def)
    show ?thesis using draw_walk [OF r] unfolding g' by auto
  next
    case False
    with drawn op have "q = p" "g' = ?g" by (auto simp: initSocksAuthStrings_def)
    moreover have "?g = g\<lparr>gn_socksUsername := gn_socksUsername ?g, gn_socksPassword := gn_socksPassword ?g, gn_socksProxy := gn_socksProxy g\<rparr>"
      by simp
    ultimately show ?thesis unfolding same_walk_def by blast
  qed
  then show "same_walk p q \<and> p_dials q = p_dials p"
    "\<exists>u v x. g' = g\<lparr>gn_socksUsername := u, gn_socksPassword := v, gn_socksProxy := x\<rparr>" by blast+
qed

text \<open>A generator of one stream, as it is made for a stream action.\<close>

definition one_stream :: "stream_options \<Rightarrow> int \<Rightarrow> generator \<Rightarrow> bool" where
  "one_stream op i g \<longleftrightarrow> gn_mmodel g = None \<and> gn_flowOptions g = None \<and> gn_streamOptions g = Some op \<and> gn_target g = ToDriver \<and>
     gn_notifyActionID g = i \<and> gn_numGenerated g = 0 \<and> gn_numCompleted g = 0"

lemma generator_made:
  assumes made: "tgengenerator_new env (exec n env) None None (Some op) i nm ToDriver i p = Some (a, q)"
    and op: "\<not> isSet (op_socksAuthGenerator op)" and p: "walking g k p"
  obtains gn where "walking g k q" "p_generators q a = Some gn" "one_stream op i gn"
proof -
  let ?g0 = "generator_zero\<lparr>gn_refcount := 1, gn_actionID := i, gn_actionIDStr := nm, gn_mmodel := None, gn_streamOptions := Some op,
      gn_target := ToDriver, gn_notifyActionID := i\<rparr>"
  from made obtain p2 p3 g2 p4 where p2: "tgendriver_ref (tgenio_ref p) = Some p2" and p3: "tgendriver_ref p2 = Some p3"
    and p4: "initSocksAuthStrings env ?g0 p3 = Some (g2, p4)" and a: "a = p_next p4"
    and q: "run_unit (exec n env) (NotifyCB ToDriver (- 1) (if gn_flowOptions g2 \<noteq> None then {TRAFFIC_CREATED} else {FLOW_CREATED}))
       (set_generator a g2 (p4\<lparr>p_next := p_next p4 + 1\<rparr>)) = Some q"
    by (auto simp: tgengenerator_new_def choose_mode_def ref_target_def bind_Some_conv Let_def)
  have "walking g k (tgenio_ref p)" using p by (simp add: tgenio_ref_def walking_def fails_next_def)
  then have "walking g k p3" using walk_refs [OF p2] walk_refs [OF p3] by blast
  note auth = auth_drawn [OF p4, of op]
  have w4: "walking g k p4"
    by (rule walk_same [OF _ _ \<open>walking g k p3\<close>]) (use auth(1) op in simp_all)
  have one: "one_stream op i g2" using auth(2) op by (auto simp: one_stream_def generator_zero_def)
  let ?p5 = "set_generator a g2 (p4\<lparr>p_next := p_next p4 + 1\<rparr>)"
  have w5: "walking g k ?p5" "p_generators ?p5 a = Some g2"
    using w4 by (simp_all add: set_generator_def walking_def fails_next_def)
  from q obtain r where "exec n env (NotifyCB ToDriver (- 1) {FLOW_CREATED}) ?p5 = Some (r, q)"
    using one by (auto simp: one_stream_def run_unit_def)
  from driver_told [OF this w5(1)] have "walking g k q" "p_generators q = p_generators ?p5" by auto
  with that one w5(2) show thesis by simp
qed

lemma start_refused:
  assumes start: "exec n env (StartGenerator a) p = Some r" and p: "walking g (Suc k) p"
    and gn: "p_generators p a = Some gn" "one_stream op i gn" "0 \<le> i" "\<not> isSet (op_seedGenerator op)"
  obtains m p' r' where "n = Suc (Suc m)" "walking g k p'" "exec m env (ContinueNext i) p' = Some r'"
proof -
  from start obtain n1 where n1: "n = Suc n1" and s: "tgengenerator_start env (exec n1 env) a p \<noteq> None"
    by (cases n) (auto simp: step_call_def reply_unit_def)
  from s gn obtain ok q where made: "createStream env (exec n1 env) a p = Some (ok, q)"
    by (cases "createStream env (exec n1 env) a p") (auto simp: tgengenerator_start_def one_stream_def)
  have "fails_next (Suc k) p" using p by (simp add: walking_def)
  note refused = createStream_refused [OF made gn(1) _ gn(4) this]
  have q: "\<not> ok" "same_walk p q" "fails_next k q" using refused gn(2) by (simp_all add: one_stream_def)
  let ?gn = "gn\<lparr>gn_hasError := True\<rparr>" and ?q = "set_generator a (gn\<lparr>gn_hasError := True\<rparr>) q"
  have w: "walking g k ?q" "p_generators ?q a = Some ?gn"
    using p q by (simp_all add: walking_def same_walk_def fails_next_def set_generator_def)
  have "onCompleteHelper env (exec n1 env) a {} ?q \<noteq> None"
    using s made q gn(1,2) by (auto simp: tgengenerator_start_def one_stream_def upd_generator_def same_walk_def)
  then obtain r1 q1 where "exec n1 env (NotifyCB ToDriver i {FLOW_COMPLETE}) ?q = Some (r1, q1)"
    using w(2) gn(2) by (auto simp: onCompleteHelper_def one_stream_def generator_done_def complete_flags_def run_unit_def bind_Some_conv)
  from this w(1) obtain m p' where "n1 = Suc m" "walking g k p'" "\<exists>r'. exec m env (ContinueNext i) p' = Some (r', q1)"
    by (rule driver_told) (use gn(3) in simp)
  then show thesis using that n1 by blast
qed

section \<open>Failure after failure\<close>

text \<open>
  Stream actions each of which is followed by just one other of them, with their options complete and no
  random numbers of their own.
\<close>

definition retry_ring :: "tgraph \<Rightarrow> nat list \<Rightarrow> bool" where
  "retry_ring g vs \<longleftrightarrow>
     (\<forall>v \<in> set vs. tgengraph_getActionType g v = ACTION_STREAM \<and>
        (case tgengraph_getStreamOptions g v of
           None \<Rightarrow> False
         | Some (op, g') \<Rightarrow> g' = g \<and> \<not> isSet (op_seedGenerator op) \<and> \<not> isSet (op_socksAuthGenerator op)) \<and>
        (\<exists>w \<in> set vs. Option.bind (ag_out (g_graph g) v) (sort_neighbors g v) = Some ([w], [])))"

lemma walk_refused:
  assumes walk: "exec n env (ContinueNext (int v)) p = Some r" and ring: "retry_ring g vs" "v \<in> set vs" and p: "walking g (Suc k) p"
  obtains m w p' r' where "n = m + 3" "w \<in> set vs" "walking g k p'" "exec m env (ContinueNext (int w)) p' = Some r'"
proof -
  from ring obtain w where w: "w \<in> set vs" "Option.bind (ag_out (g_graph g) v) (sort_neighbors g v) = Some ([w], [])"
    by (auto simp: retry_ring_def)
  from ring(1) w(1) obtain op where op: "tgengraph_getActionType g w = ACTION_STREAM" "tgengraph_getStreamOptions g w = Some (op, g)"
    "\<not> isSet (op_seedGenerator op)" "\<not> isSet (op_socksAuthGenerator op)"
    by (auto simp: retry_ring_def split: option.splits)
  from p obtain d where d: "p_graph p = Some g" "p_driver p = Some d" "\<not> dr_clientHasEnded d" by (auto simp: walking_def)
  from walk obtain n1 where n1: "n = Suc n1" and c: "continueNextActions env (exec n1 env) (int v) p \<noteq> None"
    by (cases n) (auto simp: step_call_def reply_unit_def)
  let ?p = "p\<lparr>p_draws := p_draws p + 1, p_graph := Some g\<rparr>"
  have "startGenerator env (exec n1 env) w None None (Some op) ?p \<noteq> None"
    using c d w(2) op(1,2)
    by (cases "startGenerator env (exec n1 env) w None None (Some op) ?p")
      (simp_all add: continueNextActions_def tgengraph_getNextActionIDs_def processAction_def initiateStream_def)
  moreover have wp: "walking g (Suc k) ?p" using p by (simp add: walking_def fails_next_def)
  ultimately obtain a q r1 where made: "tgengenerator_new env (exec n1 env) None None (Some op) (int w) (tgengraph_getActionName g w)
      ToDriver (int w) ?p = Some (a, q)" and start: "exec n1 env (StartGenerator a) q = Some r1"
    by (fastforce simp: startGenerator_def run_unit_def bind_Some_conv)
  from made op(4) wp obtain gn where gn: "walking g (Suc k) q" "p_generators q a = Some gn" "one_stream op (int w) gn"
    by (rule generator_made)
  from start gn _ op(3) obtain m p' r' where m: "n1 = Suc (Suc m)" "walking g k p'" "exec m env (ContinueNext (int w)) p' = Some r'"
    by (rule start_refused) simp
  then show thesis using that w(1) n1 by simp
qed

lemma walk_depth:
  assumes "exec n env (ContinueNext (int v)) p = Some r" "retry_ring g vs" "v \<in> set vs" "walking g k p"
  shows "3 * k < n"
  using assms
proof (induction k arbitrary: n v p r)
  case 0
  then show ?case by (cases n) simp_all
next
  case (Suc k)
  from Suc.prems obtain m w p' r' where "n = m + 3" "w \<in> set vs" "walking g k p'" "exec m env (ContinueNext (int w)) p' = Some r'"
    by (rule walk_refused)
  with Suc.IH [OF _ Suc.prems(2)] have "3 * k < m" by blast
  then show ?case using \<open>n = m + 3\<close> by simp
qed

text \<open>
  C20. Failures nest. When the transports of k streams in a row are refused, in a walk in which each stream action
  is followed by another, the program needs more than 3 k calls nested in each other: each failed action
  starts the next one before it returns. No fixed stack suffices while the kernel refuses sockets.
\<close>

theorem refused_transports_nest:
  assumes "retry_ring g vs" "v \<in> set vs"
    and "p_graph p = Some g" "p_driver p = Some d" "\<not> dr_clientHasEnded d"
    and "\<forall>dl \<in> set (take k (p_dials p)). refused dl" "n \<le> 3 * k"
  shows "exec n env (ContinueNext (int v)) p = None"
  using walk_depth [OF _ assms(1,2), of n env p _ k] assms(3-7)
  by (cases "exec n env (ContinueNext (int v)) p") (auto simp: walking_def fails_next_def)

section \<open>A stream that is tried again\<close>

text \<open>The first socket is refused, the second connects.\<close>

definition demo_ring_steps :: agraph where
  "demo_ring_steps = demo_ag [''start'', ''stream''] [(0, 1), (1, 1)]"

definition demo_ring :: tgraph where
  "demo_ring = demo_client\<lparr>g_graph := demo_ring_steps\<rparr>"

definition demo_refusal :: dial where
  "demo_refusal = demo_dial\<lparr>dl_sockets := (dl_sockets demo_dial)\<lparr>so_socket := - 1\<rparr>\<rparr>"

definition demo_retry :: process where
  "demo_retry = demo_waiting\<lparr>p_graph := Some demo_ring, p_dials := [demo_refusal, demo_dial], p_random := [7, 7]\<rparr>"

lemma demo_ring_sel:
  "ag_out demo_ring_steps (Suc 0) = Some [1]" "ag_eid demo_ring_steps (Suc 0) (Suc 0) = Some 1"
  "ig_VAS demo_ring_steps ''id'' (Suc 0) = Some ''stream''"
  "g_graph demo_ring = demo_ring_steps" "g_weights demo_ring = Map.empty" "g_startActionVertexIndex demo_ring = 0"
  "g_actions demo_ring 0 = Some (newAction (StartOptions demo_start_options))"
  "g_actions demo_ring (Suc 0) = Some (newAction (StreamOptions demo_stream_options))"
  by (simp_all add: demo_ring_steps_def demo_ag_def demo_ring_def demo_client_def graph_zero_def)

lemma demo_ring_step:
  "tgengraph_getStreamOptions demo_ring (Suc 0) = Some (demo_stream_options, demo_ring)"
  "tgengraph_getActionType demo_ring (Suc 0) = ACTION_STREAM" "tgengraph_getActionName demo_ring (Suc 0) = Some ''stream''"
  by (simp cong: bind_weak_cong add: demo_ring_sel tgengraph_getStreamOptions_def getOptionsHelper_def getAction_def newAction_def
    tgengraph_getStartOptions_def demo_start_options_def copyDefaultStreamOptions_def demo_stream_options_def demo_options_def inherit_def
    set_options_def storeAction_def Let_def set_to_def unset_def,
    simp add: demo_ring_def demo_client_def graph_zero_def newAction_def demo_stream_options_def demo_options_def set_to_def unset_def)
   (simp_all add: demo_ring_sel tgengraph_getActionType_def tgengraph_getActionName_def getAction_def newAction_def)

lemma demo_ring_retries: "retry_ring demo_ring [1]"
  by (simp add: retry_ring_def demo_ring_step demo_ring_sel demo_options_sel getWeight_def getAction_def newAction_def)

lemma demo_retry_sel:
  "p_driver demo_retry = Some demo_driver" "p_graph demo_retry = Some demo_ring" "p_generators demo_retry = Map.empty"
  "p_conns demo_retry = Map.empty" "p_next demo_retry = 0" "p_random demo_retry = [7, 7]" "p_draws demo_retry = 0"
  "p_dials demo_retry = [demo_refusal, demo_dial]" "p_streamCounter demo_retry = 0" "p_log demo_retry = []"
  "k_clock demo_retry = [100]" "heap_next demo_retry = 2" "io_children demo_retry = [7 \<mapsto> 1]" "k_epoll_ctl demo_retry = []"
  "k_epoll demo_retry = [7 \<mapsto> {EPOLLIN, EPOLLOUT}]" "io_refcount demo_retry = 1"
  "heap_child demo_retry = [1 \<mapsto> tgeniochild_new 7 {EPOLLIN, EPOLLOUT} False (DTimer 0)]"
  "so_socket (dl_sockets demo_refusal) = - 1" "dl_rd demo_refusal = []" "dl_wr demo_refusal = []"
  by (simp_all add: demo_retry_def demo_waiting_sel demo_refusal_def demo_dial_def)

lemma demo_second_try:
  "case exec 10 demo_penv (ContinueNext 1) demo_retry of None \<Rightarrow> False | Some (r, p) \<Rightarrow> True"
  by (simp cong: bind_weak_cong add: demo_retry_sel demo_ring_sel demo_driver_sel demo_env_sel demo_options_sel demo_ring_step
    demo_model_read demo_outside onCompleteHelper_def generator_done_def complete_flags_def generator_unref_def generator_free_def
    tgenio_unref_def
    activateIO.simps tgenio_loopOnce_def MAX_EVENTS_PER_IO_LOOP_def tgenio_helper_def child_notify_def proc_handlers_def tgeniochild_new_def
    tgentimer_onEvent_def timer_call_def run_bool_def run_response_def reply_bool_def driver_onStartClientTimerExpired_def kern_time_def
    continueNextActions_def tgengraph_getNextActionIDs_def getWeight_def getAction_def newAction_def
    processAction_def initiateStream_def startGenerator_def tgengenerator_new_def choose_mode_def run_unit_def exec_apply step_call_def
    reply_unit_def driver_onNotify_def tgendriver_ref_def upd_driver_def tgenio_ref_def ref_target_def initSocksAuthStrings_def
    generator_zero_def set_generator_def Let_def tgengenerator_start_def createStream_def createMarkovModel_def proc_random_def pop_def
    draw_from_def tgentransport_newActive_def set_to_def fresh_world_def enter_def leave_def g_get_monotonic_time_def conn_new_def
    tgenstream_new_def set_role_def set_sizes_def opt_set_def set_conn_def notify_created_def tgenconfig_gethostname_def
    nanos_to_usecs_def changeSendState_def stream_resetString_def upd_recv_def upd_send_def upd_time_def fresh_time_def
    generator_onNotify_def creator_unref_model_def register_conn_def tgenio_register_def epoll_ctl_def set_child_def
    creator_unref_transport_def count_generated_def upd_generator_def generator_ref_def tgentransport_unref_def tgentransport_ref_def
    tgentransport_newHelper_def tgentransport_getDescriptor_def tgentransport_getStartTimestamp_def
    tgenio_deregister.simps table_remove_def tgeniochild_hashTableDestroy_def io_unref.simps tgentimer_unref_def timer_free_def
    kern_close_def tgendriver_unref_def count_flags_def incr_def stats_zero_def)

theorem refused_transports_nest_witness:
  "exec 3 demo_penv (ContinueNext 1) demo_retry = None \<and> exec 10 demo_penv (ContinueNext 1) demo_retry \<noteq> None"
proof -
  have "\<not> dr_clientHasEnded demo_driver" "refused demo_refusal"
    by (simp_all add: demo_driver_sel refused_def demo_retry_sel)
  then have "exec 3 demo_penv (ContinueNext (int 1)) demo_retry = None"
    by (intro refused_transports_nest [OF demo_ring_retries, where d = demo_driver and k = 1]) (simp_all add: demo_retry_sel)
  then show ?thesis using demo_second_try by (auto split: option.splits)
qed

end
