(* ===== verification/Outcome.thy ===== *)
theory Outcome
  imports Fuel ProcessProps
begin

text \<open>
  What the outcome of the whole program says: how far it came, and which state of the process it ended in;
  at the end a program that is run from its arguments to its exit.
\<close>

section \<open>The main loop\<close>

definition wait_failed :: "errno + nat \<Rightarrow> bool" where
  "wait_failed w = (case w of Inl e \<Rightarrow> e \<noteq> EINTR | Inr _ \<Rightarrow> False)"

text \<open>What is true of the last state of the loop.\<close>

definition loop_end :: "(errno + nat) list \<Rightarrow> outcome \<Rightarrow> process \<Rightarrow> bool" where
  "loop_end ws out q =
     (case out of
        EXIT_SUCCESS \<Rightarrow> tgendriver_hasEnded q = Some True
      | EXIT_FAILURE \<Rightarrow> list_ex wait_failed ws
      | Blocked \<Rightarrow> \<not> list_ex wait_failed ws \<and> (list_ex (\<lambda>w. \<not> isl w) ws \<longrightarrow> tgendriver_hasEnded q = Some False))"

lemma loop_end_interrupted: "loop_end (Inl EINTR # ws) = loop_end ws"
  by (simp add: fun_eq_iff loop_end_def wait_failed_def split: outcome.split)

lemma main_loop_end:
  assumes "main_loop env (exec n env) ws p = Some (out, q)" "process_run env n p0 p"
  shows "process_run env n p0 q \<and> loop_end ws out q \<and> (out = Blocked \<longrightarrow> q = p \<or> tgendriver_hasEnded q = Some False)"
  using assms
proof (induction ws arbitrary: p)
  case Nil
  then show ?case by (auto simp: loop_end_def)
next
  case (Cons w ws)
  show ?case
  proof (cases w)
    case (Inl e)
    with Cons show ?thesis
      by (cases "e = EINTR") (auto simp: loop_end_interrupted, auto simp: loop_end_def wait_failed_def)
  next
    case (Inr k)
    with Cons.prems obtain p1 ended where
      p1: "(if k > 0 then tgendriver_activateIO env (exec n env) p else Some p) = Some p1"
      and ended: "tgendriver_hasEnded p1 = Some ended"
      and rest: "if ended then out = EXIT_SUCCESS \<and> q = p1 else main_loop env (exec n env) ws p1 = Some (out, q)"
      by (auto simp: bind_Some_conv split: if_splits)
    have run: "process_run env n p0 p1"
      using p1 Cons.prems(2) by (auto split: if_splits intro: process_run.activate)
    show ?thesis
    proof (cases ended)
      case True
      with rest run ended show ?thesis by (simp add: loop_end_def)
    next
      case False
      with rest Cons.IH [OF _ run] have "process_run env n p0 q" "loop_end ws out q" "out = Blocked \<longrightarrow> q = p1 \<or> tgendriver_hasEnded q = Some False"
        by auto
      with False ended Inr show ?thesis by (auto simp: loop_end_def wait_failed_def split: outcome.splits)
    qed
  qed
qed

section \<open>The program\<close>

text \<open>The driver is made from an accepted configuration, and the main program drops its own reference to the graph.\<close>

definition started :: "graphenv \<Rightarrow> progenv \<Rightarrow> runner \<Rightarrow> string list \<Rightarrow> boot \<Rightarrow> process \<Rightarrow> process option" where
  "started genv env run argv bt p =
     (if length argv \<noteq> 2 then None
      else case tgengraph_new genv (Some (argv ! 1)) of
        Some (Some g) \<Rightarrow>
          (case tgendriver_new env run (bt_epollD bt) (bt_listening bt) (p\<lparr>p_graph := Some g\<rparr>) of
             Some (True, p1) \<Rightarrow> map_option (\<lambda>g1. p1\<lparr>p_graph := tgengraph_unref g1\<rparr>) (p_graph p1)
           | _ \<Rightarrow> None)
      | _ \<Rightarrow> None)"

definition watchable :: "boot \<Rightarrow> process \<Rightarrow> bool" where
  "watchable bt p \<longleftrightarrow> bt_mainEpollD bt \<ge> 0 \<and> (case tgendriver_getEpollDescriptor p of Some e \<Rightarrow> e \<ge> 0 | None \<Rightarrow> False)"

text \<open>The last steps after the loop ended in a state.\<close>

definition wound_up :: "progenv \<Rightarrow> runner \<Rightarrow> outcome \<Rightarrow> process \<Rightarrow> process option" where
  "wound_up env run out p =
     (case out of
        EXIT_SUCCESS \<Rightarrow> do { p1 \<leftarrow> tgendriver_shutdownIO env run p; main_cleanup env run p1 }
      | EXIT_FAILURE \<Rightarrow> main_cleanup env run p
      | Blocked \<Rightarrow> Some p)"

lemma main_watch_end:
  assumes "main_watch env (exec n env) bt p = Some (out, q)"
  shows "if watchable bt p
         then \<exists>p'. process_run env n p p' \<and> loop_end (bt_waits bt) out p' \<and> wound_up env (exec n env) out p' = Some q
         else out = EXIT_FAILURE"
proof (cases "watchable bt p")
  case False
  with assms show ?thesis by (auto simp: main_watch_def watchable_def bind_Some_conv)
next
  case True
  with assms obtain out' p' where loop: "main_loop env (exec n env) (bt_waits bt) p = Some (out', p')"
    and rest: "(case out' of
             Blocked \<Rightarrow> Some (Blocked, p')
           | EXIT_FAILURE \<Rightarrow> do { p2 \<leftarrow> main_cleanup env (exec n env) p'; Some (EXIT_FAILURE, p2) }
           | EXIT_SUCCESS \<Rightarrow>
               do { p2 \<leftarrow> tgendriver_shutdownIO env (exec n env) p'; p3 \<leftarrow> main_cleanup env (exec n env) p2; Some (EXIT_SUCCESS, p3) })
        = Some (out, q)"
    by (auto simp: main_watch_def watchable_def bind_Some_conv split: option.splits)
  from rest have "out' = out" "wound_up env (exec n env) out p' = Some q"
    by (cases out'; auto simp: wound_up_def bind_Some_conv)+
  with loop have "main_loop env (exec n env) (bt_waits bt) p = Some (out, p')" "wound_up env (exec n env) out p' = Some q"
    by simp_all
  with main_loop_end [OF _ process_run.still, of env n "bt_waits bt" p out p'] True show ?thesis by auto
qed

text \<open>
  C19. What an exit of the program means. Without arguments, an accepted configuration, a driver and
  descriptors to wait on, the program fails. Otherwise there is a run of the process from the driver's
  start to a state in which the loop ended: success means that client and server have ended there, failure
  that a wait failed with an error other than an interruption, and blocking in the last wait that no wait
  failed and that they had not ended after the last wake-up; and from that state the event loop is shut
  down and the driver is released. Nesting the calls deeper changes nothing in it.
\<close>

theorem main_run_outcome:
  assumes "main_run genv env (exec n env) argv bt p = Some (out, level, q)"
  shows "(case started genv env (exec n env) argv bt p of
            None \<Rightarrow> out = EXIT_FAILURE
          | Some p1 \<Rightarrow>
              if watchable bt p1
              then \<exists>p2. process_run env n p1 p2 \<and> loop_end (bt_waits bt) out p2 \<and> wound_up env (exec n env) out p2 = Some q
              else out = EXIT_FAILURE) \<and>
         (\<forall>m. main_run genv env (exec (n + m) env) argv bt p = Some (out, level, q))"
proof
  show "\<forall>m. main_run genv env (exec (n + m) env) argv bt p = Some (out, level, q)"
    using belowD [OF depth.main assms] by blast
  show "case started genv env (exec n env) argv bt p of
            None \<Rightarrow> out = EXIT_FAILURE
          | Some p1 \<Rightarrow>
              if watchable bt p1
              then \<exists>p2. process_run env n p1 p2 \<and> loop_end (bt_waits bt) out p2 \<and> wound_up env (exec n env) out p2 = Some q
              else out = EXIT_FAILURE"
  proof (cases "started genv env (exec n env) argv bt p")
    case None
    with assms show ?thesis
      by (auto simp: main_run_def started_def bind_Some_conv Let_def split: if_splits option.splits bool.splits)
  next
    case (Some p1)
    then obtain g p0 g1 where "length argv = 2" "tgengraph_new genv (Some (argv ! 1)) = Some (Some g)"
      "tgendriver_new env (exec n env) (bt_epollD bt) (bt_listening bt) (p\<lparr>p_graph := Some g\<rparr>) = Some (True, p0)"
      "p_graph p0 = Some g1" "p1 = p0\<lparr>p_graph := tgengraph_unref g1\<rparr>"
      by (auto simp: started_def split: if_splits option.splits bool.splits)
    with assms have "main_watch env (exec n env) bt p1 = Some (out, q)"
      by (auto simp: main_run_def bind_Some_conv Let_def)
    from main_watch_end [OF this] Some show ?thesis by simp
  qed
qed

section \<open>A program from start to exit\<close>

text \<open>A start action alone: neither a client nor a server; the heartbeat has its default.\<close>

definition demo_alone :: agraph where
  "demo_alone = demo_ag [''start''] []"

definition demo_exit_env :: progenv where
  "demo_exit_env = demo_penv\<lparr>ev_order := (\<lambda>_. [7])\<rparr>"

definition demo_boot :: boot where
  "demo_boot = \<lparr>bt_epollD = 4, bt_listening = demo_listen, bt_mainEpollD = 5, bt_waits = [Inl EINTR, Inr 0]\<rparr>"

lemma demo_alone_accepted:
  "case tgengraph_new (demo_genv demo_alone) (Some ''x'') of
     Some (Some g) \<Rightarrow> g_refcount g = 1 \<and> \<not> tgengraph_hasEdges g \<and>
       (case tgengraph_getStartOptions g of
          Some op \<Rightarrow> \<not> isSet (so_serverport op) \<and> \<not> isSet (so_heartbeatPeriodNanos op) \<and> \<not> isSet (so_loglevel op)
        | None \<Rightarrow> False)
   | _ \<Rightarrow> False"
  unfolding demo_alone_def by code_simp

lemma demo_alone_graph:
  obtains g op where "tgengraph_new (demo_genv demo_alone) (Some ''x'') = Some (Some g)" "g_refcount g = 1" "g_edgeCount g = 0"
    "tgengraph_getStartOptions g = Some op" "isSet (so_serverport op) = False" "isSet (so_heartbeatPeriodNanos op) = False"
    "isSet (so_loglevel op) = False"
  using demo_alone_accepted by (auto simp: tgengraph_hasEdges_def split: option.splits)

lemma demo_exit_env_sel: "ev_order demo_exit_env = (\<lambda>_. [7])"
  by (simp add: demo_exit_env_def)

lemma demo_exit:
  "\<exists>q. main_run (demo_genv demo_alone) demo_exit_env (exec 2 demo_exit_env) [''tgen'', ''x''] demo_boot demo_process =
     Some (EXIT_SUCCESS, LEVEL_MESSAGE, q) \<and> p_driver q = None"
proof -
  obtain g op where g: "tgengraph_new (demo_genv demo_alone) (Some ''x'') = Some (Some g)" "g_refcount g = 1" "g_edgeCount g = 0"
    "tgengraph_getStartOptions g = Some op" "isSet (so_serverport op) = False" "isSet (so_heartbeatPeriodNanos op) = False"
    "isSet (so_loglevel op) = False"
    by (rule demo_alone_graph)
  have ref: "tgengraph_getStartOptions (g\<lparr>g_refcount := 2\<rparr>) = Some op"
    using g(4) by (simp add: tgengraph_getStartOptions_def getOptionsHelper_def getAction_def)
  show ?thesis
    by (simp cong: bind_weak_cong add: main_run_def g ref demo_boot_def demo_process_def tgendriver_new_def tgengraph_ref_def
      tgenio_new_def Let_def driver_zero_def setHeartbeatTimerHelper_def heartbeat_period_def or_release_def run_server_def
      run_client_def upd_driver_def tgengraph_hasEdges_def pop_def tgendriver_ref_def tgenio_register_def epoll_ctl_def set_child_def
      tgeniochild_new_def driver_timer_def new_user_timer_def tgentimer_new_def timerfd_create_def timerfd_settime_def timer_spec_def
      register_timer_def tgentimer_getDescriptor_def tgengraph_unref_def main_watch_def tgendriver_getEpollDescriptor_def
      tgenio_getEpollDescriptor_def tgendriver_hasEnded_def tgendriver_shutdownIO_def tgenio_unref_def tgenio_free_def
      table_values_def proc_handlers_def demo_exit_env_sel List.map_filter_def tgeniochild_hashTableDestroy_def io_unref.simps
      tgentimer_unref_def timer_free_def kern_close_def run_unit_def exec_apply step_call_def reply_unit_def tgendriver_unref_def
      main_cleanup_def driver_free_def filter_level_def)
qed

theorem main_run_outcome_witness:
  "\<exists>q. (\<forall>m. main_run (demo_genv demo_alone) demo_exit_env (exec (2 + m) demo_exit_env) [''tgen'', ''x''] demo_boot demo_process =
     Some (EXIT_SUCCESS, LEVEL_MESSAGE, q)) \<and> p_driver q = None"
proof -
  obtain q where q: "main_run (demo_genv demo_alone) demo_exit_env (exec 2 demo_exit_env) [''tgen'', ''x''] demo_boot demo_process =
     Some (EXIT_SUCCESS, LEVEL_MESSAGE, q)" "p_driver q = None"
    using demo_exit by blast
  from main_run_outcome [OF q(1)] q(2) show ?thesis by blast
qed

end
