(* ===== verification/ServerProps.thy ===== *)
theory ServerProps
  imports ProcessProps
begin

text \<open>
  What the listening socket does with the connections the kernel has for it.
\<close>

section \<open>A server that has ended\<close>

text \<open>The connections \<open>accept\<close> returns before its first error.\<close>

fun taken :: "(errno + accepted) list \<Rightarrow> accepted list" where
  "taken [] = []"
| "taken (Inl e # rs) = []"
| "taken (Inr ac # rs) = (if ac_socketD ac < 0 then [] else ac # taken rs)"

definition server_ended :: "process \<Rightarrow> bool" where
  "server_ended p \<longleftrightarrow> (case p_driver p of Some d \<Rightarrow> dr_serverHasEnded d | None \<Rightarrow> False)"

text \<open>Everything but the kernel's side and the waiting connections.\<close>

definition settled :: "process \<Rightarrow> process \<Rightarrow> bool" where
  "settled p p' \<longleftrightarrow> p_driver p' = p_driver p \<and> p_conns p' = p_conns p \<and> p_generators p' = p_generators p \<and>
     p_servers p' = p_servers p \<and> p_next p' = p_next p \<and> p_graph p' = p_graph p"

lemma time_settled: "kern_time p = (t, p') \<Longrightarrow> settled p p' \<and> k_closed p' = k_closed p \<and> p_accepts p' = p_accepts p"
  by (auto simp: kern_time_def settled_def split: list.splits)

lemma settled_trans: "settled p q \<Longrightarrow> settled q r \<Longrightarrow> settled p r"
  by (simp add: settled_def)

lemma ended_peer_closed:
  assumes "server_ended p"
  shows "\<exists>p'. driver_onNewPeer env run ac started created peer p = Some p' \<and> settled p p' \<and>
     k_closed p' = k_closed p @ [ac_socketD ac] \<and> p_accepts p' = p_accepts p"
  using assms by (auto simp: driver_onNewPeer_def server_ended_def settled_def kern_close_def split: option.splits)

lemma ended_accepts:
  assumes "server_ended p"
  shows "\<exists>p'. accept_loop db (driver_onNewPeer env run) rs p = Some p' \<and> settled p p' \<and>
     k_closed p' = k_closed p @ map ac_socketD (taken rs) \<and> p_accepts p' = drop (Suc (length (taken rs))) rs"
  using assms
proof (induction rs arbitrary: p)
  case Nil
  obtain t p1 where t: "kern_time (p\<lparr>p_accepts := []\<rparr>) = (t, p1)" by fastforce
  from time_settled [OF t] show ?case using t by (simp add: acceptPeer_def settled_def)
next
  case (Cons r rs)
  obtain t p1 where t: "kern_time (p\<lparr>p_accepts := rs\<rparr>) = (t, p1)" by fastforce
  note s1 = time_settled [OF t]
  show ?case
  proof (cases r)
    case (Inl e)
    with t s1 show ?thesis by (simp add: acceptPeer_def settled_def)
  next
    case (Inr ac)
    show ?thesis
    proof (cases "ac_socketD ac < 0")
      case True
      with Inr t s1 show ?thesis by (simp add: acceptPeer_def settled_def)
    next
      case False
      obtain u p2 where u: "kern_time p1 = (u, p2)" by fastforce
      note s2 = time_settled [OF u]
      have "server_ended p2" using Cons.prems s1 s2 by (simp add: server_ended_def settled_def)
      from ended_peer_closed [OF this] obtain p3 where p3:
        "driver_onNewPeer env run ac t u (tgenpeer_performLookups db (tgenpeer_newFromIP (ac_ip ac) (ac_port ac))) p2 = Some p3"
        "settled p2 p3" "k_closed p3 = k_closed p2 @ [ac_socketD ac]" by blast
      have "server_ended p3" using \<open>server_ended p2\<close> p3(2) by (simp add: server_ended_def settled_def)
      from Cons.IH [OF this] obtain p4 where p4: "accept_loop db (driver_onNewPeer env run) rs p3 = Some p4" "settled p3 p4"
        "k_closed p4 = k_closed p3 @ map ac_socketD (taken rs)" "p_accepts p4 = drop (Suc (length (taken rs))) rs" by blast
      have "accept_loop db (driver_onNewPeer env run) (r # rs) p = Some p4"
        using Inr False t u p3(1) p4(1) by (simp add: acceptPeer_def)
      moreover have "settled p p4" using s1 s2 p3(2) p4(2) by (simp add: settled_def)
      ultimately show ?thesis using Inr False s1 s2 p3(3) p4 by simp
    qed
  qed
qed

text \<open>
  C37. A server that has ended takes nobody. When its socket is readable, every connection the kernel has
  up to the first error is accepted and closed at once, in order and each exactly once; no stream is
  made, nothing in the process changes, and the server goes on to watch its socket.
\<close>

theorem ended_server_closes_all:
  assumes "server_ended p" "p_servers p a = Some sv" "EV_READ \<in> events"
  shows "\<exists>p'. tgenserver_onEvent db (driver_onNewPeer env run) a (sv_socketD sv) events p =
       Some (\<lparr>ir_events = {EV_READ}, ir_deferUntilUSec = 0\<rparr>, p') \<and>
     settled p p' \<and> k_closed p' = k_closed p @ map ac_socketD (taken (p_accepts p)) \<and>
     p_accepts p' = drop (Suc (length (taken (p_accepts p)))) (p_accepts p)"
proof -
  from ended_accepts [OF assms(1), of db env run "p_accepts p"] assms(2,3) show ?thesis
    by (auto simp: tgenserver_onEvent_def)
qed

definition demo_accepted :: "int \<Rightarrow> errno + accepted" where
  "demo_accepted fd = Inr \<lparr>ac_socketD = fd, ac_ip = 0x01020304, ac_port = 80, ac_getsockname = None, ac_rd = [], ac_wr = []\<rparr>"

definition demo_serving :: process where
  "demo_serving = demo_waiting
     \<lparr>p_servers := [0 \<mapsto> \<lparr>sv_socketD = 9, sv_refcount = 1\<rparr>],
      p_accepts := [demo_accepted 11, demo_accepted 12, Inl EWOULDBLOCK, demo_accepted 13]\<rparr>"

theorem ended_server_closes_all_witness:
  "\<exists>r p'. tgenserver_onEvent (se_db demo_senv) (driver_onNewPeer demo_penv (exec 1 demo_penv)) 0 9 {EV_READ} demo_serving = Some (r, p') \<and>
     k_closed p' = [11, 12] \<and> p_accepts p' = [demo_accepted 13] \<and> p_conns p' = Map.empty"
proof -
  have s: "server_ended demo_serving" "p_servers demo_serving 0 = Some \<lparr>sv_socketD = 9, sv_refcount = 1\<rparr>"
    "k_closed demo_serving = []" "p_conns demo_serving = Map.empty"
    "p_accepts demo_serving = [demo_accepted 11, demo_accepted 12, Inl EWOULDBLOCK, demo_accepted 13]"
    by (simp_all add: server_ended_def demo_serving_def demo_waiting_sel demo_driver_def)
  from ended_server_closes_all [OF s(1,2), of "{EV_READ}" "se_db demo_senv" demo_penv "exec 1 demo_penv"] show ?thesis
    by (auto simp: s settled_def demo_accepted_def)
qed

end
