(* ===== verification/Handshake.thy ===== *)
theory Handshake
  imports ProcessProps Socks
begin

text \<open>
  A hang-up during the handshake with a proxy, followed through the event loop, the stream, its transport,
  the generator and the driver: the stream is released without a word to its owner.
\<close>

section \<open>The pieces\<close>

text \<open>The bytes the handler moved only add to the byte counters.\<close>

lemma bytes_delivered:
  assumes "p_driver p = Some d"
  shows "\<exists>d'. deliver_bytes bs p = Some (p\<lparr>p_driver := Some d'\<rparr>) \<and> dr_refcount d' = dr_refcount d \<and>
     stat_StreamSuccess (dr_total d') = stat_StreamSuccess (dr_total d) \<and> stat_StreamError (dr_total d') = stat_StreamError (dr_total d)"
  using assms
proof (induction bs arbitrary: p d)
  case Nil
  then have "p\<lparr>p_driver := Some d\<rparr> = p" by simp
  with Nil show ?case by (intro exI [of _ d]) simp
next
  case (Cons b bs)
  obtain r s where b: "b = (r, s)" by fastforce
  let ?d = "d\<lparr>dr_total := add_bytes (of_nat r) (of_nat s) (dr_total d),
      dr_heartbeat := add_bytes (of_nat r) (of_nat s) (dr_heartbeat d)\<rparr>"
  have "driver_onBytesTransferred (of_nat r) (of_nat s) p = Some (p\<lparr>p_driver := Some ?d\<rparr>)"
    using Cons.prems by (simp add: driver_onBytesTransferred_def upd_driver_def)
  with Cons.IH [of "p\<lparr>p_driver := Some ?d\<rparr>" ?d] show ?case by (auto simp: b add_bytes_def)
qed

text \<open>A handshake that goes on: the stream only notes the time.\<close>

lemma handshake_continues:
  assumes t: "st_transport s = Some t" "tgentransport_wantsEvents t"
    and ev: "tgentransport_onEvent (se_db env) events t w = Some (ret, t', w')" "ret \<noteq> {}"
  shows "\<exists>r s' w2. tgenstream_onEvent env events s w = Some (r, s', w2) \<and> st_transport s' = Some t' \<and>
     st_refcount s' = st_refcount s \<and> w_app w2 = w_app w"
proof -
  let ?s = "(fresh_time s)\<lparr>st_transport := Some t'\<rparr>"
  have wants: "transport_wants (fresh_time s)" "st_transport (fresh_time s) = Some t"
    using t by (simp_all add: transport_wants_def fresh_time_def)
  obtain s2 w2 where st: "stamp tm_lastProgress_update ?s w' = (s2, w2)" by fastforce
  have "st_transport s2 = Some t'" "w_app w2 = w_app w"
    using stamp_frame [OF st] transport_event_app [OF ev(1)] by simp_all
  moreover have "st_refcount s2 = st_refcount s"
    using st by (auto simp: stamp_def stream_getTime_def upd_time_def fresh_time_def split: prod.splits if_splits)
  ultimately show ?thesis
    using wants ev st by (simp add: tgenstream_onEvent_def runTransportEventLoop_def)
qed

text \<open>The last reference to a child that has no timer: its object is destroyed and it is gone.\<close>

lemma deregister_last:
  assumes "io_children p fd = Some k" "heap_child p k = Some ch" "ch_data ch = DUser x"
    "ch_deferWriteTimer ch = None" "ch_refcount ch = 1"
    and q: "q = set_child k (ch\<lparr>ch_refcount := 0\<rparr>)
      ((snd (epoll_ctl EPOLL_CTL_DEL fd {} p))\<lparr>io_children := (io_children p)(fd := None)\<rparr>)"
    and dest: "hd_destroy H x q = Some p1"
  shows "tgenio_deregister H fd p = Some (p1\<lparr>heap_child := (heap_child p1)(k := None)\<rparr>)"
proof -
  let ?e = "snd (epoll_ctl EPOLL_CTL_DEL fd {} p)"
  have e: "io_children ?e = io_children p" "heap_child ?e = heap_child p"
    by (simp_all add: epoll_ctl_def pop_def Let_def split: list.split)
  have "io_unref H (RChild k) (?e\<lparr>io_children := (io_children p)(fd := None)\<rparr>) = Some (p1\<lparr>heap_child := (heap_child p1)(k := None)\<rparr>)"
    using assms e by (subst io_unref.simps) (simp add: Let_def)
  then show ?thesis
    using assms(1-4) e by (subst tgenio_deregister.simps)
      (simp add: Let_def table_remove_def tgeniochild_hashTableDestroy_def)
qed

section \<open>The theorem\<close>

lemma conn_lost:
  assumes c: "p_conns p a = Some c" "st_refcount (cn_stream c) = 1" "cn_target c = ToGenerator b"
    "st_transport (cn_stream c) = Some t" "xp_refcount t = 1" "xp_bytesCB t"
    and g: "p_generators p b = Some g" "gn_refcount g > 1" and d: "p_driver p = Some d" "dr_refcount d > 1"
  shows "\<exists>p'. conn_unref (exec (Suc n) env) a p = Some p' \<and> p_conns p' a = None \<and>
     p_generators p' b = Some (g\<lparr>gn_refcount := gn_refcount g - 1\<rparr>) \<and> p_driver p' = Some (d\<lparr>dr_refcount := dr_refcount d - 1\<rparr>)"
proof -
  have u: "tgenstream_unref (cn_stream c) = None" using c(2) by (simp add: tgenstream_unref_def Let_def)
  let ?p1 = "set_generator b (g\<lparr>gn_refcount := gn_refcount g - 1\<rparr>) p"
  have 1: "run_unit (exec (Suc n) env) (ReleaseTarget (ToGenerator b)) p = Some ?p1"
    using g by (simp add: run_unit_def step_call_def reply_unit_def generator_unref_def Let_def)
  let ?p2 = "if Close \<in> set (tgentransport_free t) then kern_close (xp_socketD t) ?p1 else ?p1"
  let ?d = "d\<lparr>dr_refcount := dr_refcount d - 1\<rparr>"
  have p2: "p_driver ?p2 = Some d" "p_generators ?p2 b = Some (g\<lparr>gn_refcount := gn_refcount g - 1\<rparr>)" "p_conns ?p2 = p_conns p"
    using d by (simp_all add: set_generator_def kern_close_def)
  have 2: "transport_release (exec (Suc n) env) t ?p1 = Some (?p2\<lparr>p_driver := Some ?d\<rparr>)"
    using c(5,6) d p2(1)
    by (simp add: transport_release_def tgentransport_unref_def Let_def run_unit_def step_call_def reply_unit_def
        tgendriver_unref_def upd_driver_def)
  show ?thesis using c u 1 2 p2 by (simp add: conn_unref_def)
qed

text \<open>
  C15. A hang-up during the handshake with a proxy loses the stream. When the proxy's data and its hang-up
  arrive together, or the hang-up alone while the handshake waits, and the transport accepts what it
  read, the event loop releases the stream although its owner was never told: the stream is gone, yet it
  is counted neither as succeeded nor as failed, its generator counts no completion, and if that was
  waiting for this stream it waits for ever, so the action graph never goes on.
\<close>

theorem handshake_hangup_loses_stream:
  assumes child: "io_children p fd = Some k" "heap_child p k = Some ch" "ch_descriptor ch = fd" "ch_data ch = DUser (StreamObj a)"
      "ch_deferWriteTimer ch = None" "ch_refcount ch = 1"
    and stream: "p_conns p a = Some c" "st_refcount (cn_stream c) = 1" "cn_target c = ToGenerator b"
    and transport: "st_transport (cn_stream c) = Some t" "tgentransport_wantsEvents t" "xp_bytesCB t'" "xp_refcount t' = 1"
    and accepted: "tgentransport_onEvent (se_db (ev_stream env))
        ((if i then {EV_READ} else {}) \<union> (if out then {EV_WRITE} else {}) \<union> {EV_DONE}) t (enter p (cn_world c)) = Some (ret, t', w')"
      "ret \<noteq> {}"
    and owners: "p_generators p b = Some g" "gn_refcount g > 1" "p_driver p = Some d" "dr_refcount d > 1"
  shows "\<exists>p' g' d'. tgenio_helper (proc_handlers env (exec (Suc (Suc n)) env)) k i out True p = Some p' \<and>
     p_conns p' a = None \<and> p_generators p' b = Some g' \<and> p_driver p' = Some d' \<and>
     stat_StreamSuccess (dr_total d') = stat_StreamSuccess (dr_total d) \<and> stat_StreamError (dr_total d') = stat_StreamError (dr_total d) \<and>
     gn_numCompleted g' = gn_numCompleted g \<and> generator_done g' = generator_done g"
proof -
  let ?ev = "(if i then {EV_READ} else {}) \<union> (if out then {EV_WRITE} else {}) \<union> {EV_DONE}"
  let ?H = "proc_handlers env (exec (Suc (Suc n)) env)"
  from handshake_continues [OF transport(1,2) accepted] obtain r s w2 where
    s: "tgenstream_onEvent (ev_stream env) ?ev (cn_stream c) (enter p (cn_world c)) = Some (r, s, w2)"
      "st_transport s = Some t'" "st_refcount s = 1" "w_app w2 = w_app (enter p (cn_world c))"
    using stream(2) by auto
  let ?c = "c\<lparr>cn_stream := s, cn_world := w2\<rparr>"
  let ?p = "leave w2 (set_conn a ?c p)"
  have "p_driver ?p = Some d" using owners(3) by (simp add: leave_def set_conn_def)
  from bytes_delivered [OF this, of "w_bytesCB w2"] obtain d1 where
    d1: "deliver_bytes (w_bytesCB w2) ?p = Some (?p\<lparr>p_driver := Some d1\<rparr>)" "dr_refcount d1 = dr_refcount d"
      "stat_StreamSuccess (dr_total d1) = stat_StreamSuccess (dr_total d)" "stat_StreamError (dr_total d1) = stat_StreamError (dr_total d)"
    by blast
  let ?p1 = "?p\<lparr>p_driver := Some d1\<rparr>"
  have quiet: "a_notes (w_app w2) = []" using s(4) by (simp add: enter_def)
  have "conn_onEvent env (exec (Suc n) env) a ?ev p = Some (r, ?p1)"
    using s(1) stream(1) d1(1) quiet by (simp add: conn_onEvent_def settle_def)
  then have n: "child_notify ?H (ch_data ch) (ch_descriptor ch) ?ev p = Some (r, ?p1)"
    using child(4) by (simp add: child_notify_def proc_handlers_def run_response_def step_call_def reply_response_def)
  define q where "q = set_child k (ch\<lparr>ch_refcount := 0\<rparr>)
      ((snd (epoll_ctl EPOLL_CTL_DEL fd {} ?p1))\<lparr>io_children := (io_children ?p1)(fd := None)\<rparr>)"
  have p1: "io_children ?p1 fd = Some k" "heap_child ?p1 k = Some ch"
    using child by (simp_all add: leave_def set_conn_def)
  have q: "p_conns q a = Some ?c" "p_generators q b = Some g" "p_driver q = Some d1"
    using owners(1) by (simp_all add: q_def set_child_def epoll_ctl_def pop_def Let_def leave_def set_conn_def split: list.split)
  from conn_lost [OF q(1) _ _ _ _ _ q(2) _ q(3), of t' n env] stream(3) s(2,3) transport(3,4) owners(2,4) d1(2)
  obtain p2 where p2: "conn_unref (exec (Suc n) env) a q = Some p2" "p_conns p2 a = None"
    "p_generators p2 b = Some (g\<lparr>gn_refcount := gn_refcount g - 1\<rparr>)" "p_driver p2 = Some (d1\<lparr>dr_refcount := dr_refcount d1 - 1\<rparr>)"
    by auto
  have "hd_destroy ?H (StreamObj a) q = Some p2"
    using p2(1) by (simp add: proc_handlers_def run_unit_def step_call_def reply_unit_def)
  from deregister_last [OF p1 child(4-6) q_def this]
  have "tgenio_helper ?H k i out True p = Some (p2\<lparr>heap_child := (heap_child p2)(k := None)\<rparr>)"
    using n child(2,3) p1(2) by (simp add: tgenio_helper_def)
  then show ?thesis using p2 d1 by (auto simp: generator_done_def)
qed

text \<open>The proxy asks for a password and closes the connection.\<close>

definition demo_choice :: transport where
  "demo_choice = demo_socks\<lparr>xp_state := XPORT_PROXY_CHOICE\<rparr>"

definition demo_choosing :: process where
  "demo_choosing = demo_waiting
     \<lparr>io_children := [9 \<mapsto> 1], heap_child := [1 \<mapsto> tgeniochild_new 9 {EPOLLIN} True (DUser (StreamObj 1))],
      p_conns := [1 \<mapsto> \<lparr>cn_stream = (demo_stream RECV_NONE SEND_COMMAND)\<lparr>st_refcount := 1, st_transport := Some demo_choice, st_notifyFunc := True\<rparr>,
        cn_target = ToGenerator 0, cn_world = demo_net [RData [CHR 0x05, CHR 0x02]] []\<rparr>],
      p_generators := [0 \<mapsto> generator_zero\<lparr>gn_streamOptions := Some demo_options, gn_numGenerated := 1, gn_reachedEndState := True, gn_refcount := 2\<rparr>]\<rparr>"

lemma demo_entered:
  "enter demo_choosing (demo_net rd wr) = (demo_net rd wr)\<lparr>w_clock := [100],
     w_app := \<lparr>a_notes = [], a_log = [], a_random = [7], a_streamCounter = 0\<rparr>\<rparr>"
  by (simp add: enter_def demo_choosing_def demo_waiting_sel demo_net_def)

lemma demo_choice_accepted:
  "case tgentransport_onEvent demo_db {EV_READ, EV_DONE} demo_choice ((demo_net [RData [CHR 0x05, CHR 0x02]] [])\<lparr>w_clock := [100],
     w_app := \<lparr>a_notes = [], a_log = [], a_random = [7], a_streamCounter = 0\<rparr>\<rparr>) of
     None \<Rightarrow> False | Some (ret, t', w) \<Rightarrow> ret = {EV_WRITE} \<and> xp_bytesCB t' \<and> xp_refcount t' = 1"
  by (simp add: demo_choice_def demo_socks_def tgentransport_newHelper_def demo_net_def tgentransport_onEvent_def xport_step_def
      receiveSocksChoice_def socks_receive_def socksReceiveHelper_def buffered_def tgentransport_read_def sys_read_def
      handleSocksChoice_def g_get_monotonic_time_def xport_changeState_def xport_resetString_def xport_bytesCB_def Let_def)

theorem handshake_hangup_loses_stream_witness:
  "\<exists>p' g' d'. tgenio_helper (proc_handlers demo_penv (exec (Suc (Suc 0)) demo_penv)) 1 True False True demo_choosing = Some p' \<and>
     p_conns p' 1 = None \<and> p_generators p' 0 = Some g' \<and> p_driver p' = Some d' \<and> gn_numCompleted g' = 0 \<and> \<not> generator_done g' \<and>
     stat_StreamError (dr_total d') = 0"
proof -
  let ?w = "enter demo_choosing (demo_net [RData [CHR 0x05, CHR 0x02]] [])"
  have db: "se_db (ev_stream demo_penv) = demo_db" by (simp add: demo_env_sel demo_db_def)
  obtain t' w' where t: "tgentransport_onEvent (se_db (ev_stream demo_penv)) {EV_READ, EV_DONE} demo_choice ?w = Some ({EV_WRITE}, t', w')"
    "xp_bytesCB t'" "xp_refcount t' = 1"
    using demo_choice_accepted unfolding demo_entered db by (auto split: option.splits)
  have c: "tgentransport_wantsEvents demo_choice" by (simp add: tgentransport_wantsEvents_def demo_choice_def)
  have "\<exists>p' g' d'. tgenio_helper (proc_handlers demo_penv (exec (Suc (Suc 0)) demo_penv)) 1 True False True demo_choosing = Some p' \<and>
     p_conns p' 1 = None \<and> p_generators p' 0 = Some g' \<and> p_driver p' = Some d' \<and>
     stat_StreamSuccess (dr_total d') = stat_StreamSuccess stats_zero \<and> stat_StreamError (dr_total d') = stat_StreamError stats_zero \<and>
     gn_numCompleted g' = 0 \<and> generator_done g' = False"
    using handshake_hangup_loses_stream [where p = demo_choosing and fd = 9 and k = 1 and a = 1 and i = True and out = False and n = 0
        and env = demo_penv and t = demo_choice and t' = t' and w' = w' and ret = "{EV_WRITE}" and b = 0 and d = demo_driver
        and c = "\<lparr>cn_stream = (demo_stream RECV_NONE SEND_COMMAND)\<lparr>st_refcount := 1, st_transport := Some demo_choice, st_notifyFunc := True\<rparr>,
          cn_target = ToGenerator 0, cn_world = demo_net [RData [CHR 0x05, CHR 0x02]] []\<rparr>"
        and g = "generator_zero\<lparr>gn_streamOptions := Some demo_options, gn_numGenerated := 1, gn_reachedEndState := True, gn_refcount := 2\<rparr>"
        and ch = "tgeniochild_new 9 {EPOLLIN} True (DUser (StreamObj 1))"] t c
    by (simp add: demo_choosing_def demo_waiting_sel tgeniochild_new_def demo_driver_sel insert_commute generator_zero_def generator_done_def)
  then show ?thesis by (auto simp: stats_zero_def)
qed

end
