(* ===== verification/Spec2Isabelle.thy ===== *)
theory Spec2Isabelle
  imports Socks StreamRun StreamTransfer Deferral GraphWalk Nesting Outcome ServerProps Handshake
begin

text \<open>
  TGen, a traffic generator: it reads an action graph, walks over it, and makes the TCP streams the graph
  asks for, each over a transport that may go through a SOCKS proxy, with packet sizes and delays from
  Markov models; a server accepts streams of other TGen processes. This library models all of the C
  sources under \<open>src/src\<close>, function by function, under the names of the source.

  \<^bold>\<open>Parts and theories.\<close> Each theory says which file it models.

  \<^item> \<open>Prelude\<close>: words, assertions (\<open>g_assert\<close>, a failed one is \<open>None\<close>), GLib's string functions, the locale
    \<open>refcounted\<close> for reference counts with one interpretation per object. \<open>Double\<close>: the doubles of the
    Markov model, with the rounding a parameter. \<open>Kernel\<close>: sockets as scripted queues, the clock.
  \<^item> \<open>Pool\<close> (\<open>tgen-pool.c\<close>), \<open>Peer\<close> (\<open>tgen-peer.c\<close>), \<open>OptionParser\<close> (\<open>tgen-optionparser.c\<close>), \<open>Config\<close>
    (\<open>tgen-config.c\<close>), \<open>Log\<close> (\<open>tgen-log.c\<close>).
  \<^item> \<open>Transport\<close> and \<open>Socks\<close>: \<open>tgen-transport.c\<close>, the state machine of the connection and the SOCKS 5 dialogue.
  \<^item> \<open>Markov\<close>, \<open>MarkovProps\<close>: \<open>tgen-markovmodel.c\<close>.
  \<^item> \<open>StreamState\<close>, \<open>StreamRead\<close>, \<open>StreamWrite\<close>, \<open>StreamLoop\<close>: \<open>tgen-stream.c\<close>; about it \<open>StreamInput\<close> (what is
    read), \<open>StreamHeader\<close> (the command and the response), \<open>StreamOutput\<close> (what is written), \<open>StreamRun\<close>
    (whole runs of a stream), \<open>StreamTransfer\<close> (one stream sends, another receives).
  \<^item> \<open>Timer\<close> (\<open>tgen-timer.c\<close>), \<open>IO\<close> (\<open>tgen-io.c\<close>), with \<open>IOProps\<close>, \<open>Deferral\<close> and \<open>IOFrame\<close> about the event loop.
  \<^item> \<open>ActionGraph\<close>: \<open>tgen-graph.c\<close>; about it \<open>GraphProps\<close> and \<open>GraphWalk\<close>.
  \<^item> \<open>Process\<close>: the state of the whole process. \<open>Connection\<close> (streams inside the process), \<open>Server\<close>
    (\<open>tgen-server.c\<close>), \<open>Generator\<close> (\<open>tgen-generator.c\<close>), \<open>Driver\<close> (\<open>tgen-driver.c\<close>), \<open>Main_Loop\<close>
    (\<open>tgen-main.c\<close>). About the process: \<open>Accounting\<close>, \<open>AccountingRun\<close>, \<open>ProcessRun\<close>, \<open>ProcessProps\<close>, \<open>Handshake\<close>;
    \<open>Fuel\<close> and \<open>Nesting\<close> (the depth of calls), \<open>Outcome\<close> (the exit status of the program), \<open>ServerProps\<close> (the
    listening socket).

  \<^bold>\<open>How C is modelled.\<close> A struct is a record, an enum a datatype, \<open>guint64\<close> and its like are words of that
  width, \<open>gint64\<close> times are integers. An object that only one owner can reach is a value; objects that
  are shared or refer to each other (children and timers of the event loop, streams, generators, servers,
  the driver) live in heaps, maps from addresses, with their reference counts. Reading a freed object,
  a NULL dereference and a failed assertion are the result \<open>None\<close>. What the kernel, the resolver, the file
  system, igraph and the random number generators answer is a parameter or a queue in the state, so that a
  theorem for all parameters and queues holds for every behaviour of them; so are MD5 and the rounding of
  doubles. Loops that need not end are \<open>partial_function (option)\<close>.

  \<^bold>\<open>The cycle of calls.\<close> Event loop, driver, generators and streams call each other through function
  pointers. A function of these parts has a parameter \<open>run\<close> that performs a \<open>call\<close>; \<open>exec n\<close> is the runner in
  which calls nest at most \<open>n\<close> deep, \<open>None\<close> if they nest deeper. Theorems about the process hold for every \<open>n\<close>,
  and the depth is no part of a result: \<open>Fuel\<close> shows with two locales, \<open>wider\<close> for the event loop and \<open>deeper\<close> for
  runners, that what \<open>exec n\<close> answers every deeper \<open>exec\<close> answers as well. How deep a run must nest depends
  on what the kernel answers: \<open>Nesting\<close> has a lower bound for streams whose sockets are refused, which
  is a lower bound on the stack of the program, too.

  \<^bold>\<open>What is shown.\<close> For each component its functional behaviour on every branch that matters, and its
  invariants: the handshake never aborts and writes a prefix of the right dialogue, and completes with a
  willing proxy; a validated model never fails an assertion; a stream keeps its two directions in step,
  sends and receives payloads exactly, so that two streams verify a transfer, and reports its end at
  most once, and truly; the event loop owns exactly the references it should; an accepted graph is ready to be walked. For the process: the
  statistics cover every open stream, generators know their children, the end of the client is final, and
  the exit status says in which state the process ended. Those about all runs are proved with two locales over the event loop, \<open>io_release\<close> and \<open>io_events\<close>: a relation on
  the rest of the process that the handlers respect is respected by the loop; \<open>sound_runner\<close> is the contract
  of a runner, and every \<open>exec n\<close> fulfils it.

  Errors of the code that the model brought to light are theorems as well, for instance the stream that
  is lost when a proxy hangs up during the handshake, the checksum of which half is compared, the upload
  that waits for a checksum nobody sends, and the calls that nest with every refused socket.

  \<^bold>\<open>Bounds.\<close> Counters of 32 bits count objects, so the theorems about statistics assume that fewer than
  \<open>2 ^ 32\<close> objects were made. Streams are proved for payloads of any size below \<open>2 ^ 64\<close>.

  \<^bold>\<open>Not modelled.\<close> Log lines other than the heartbeat and the reports of streams, which change nothing; the
  freeing of memory that nobody can reach; the address a server binds to, signals and the start-up
  messages of \<open>main\<close>; the Python tools, which are another program.
\<close>

end
